(* ===== verification/Prelude.thy ===== *)
theory Prelude
  imports Main "HOL-Library.Char_ord" "HOL-Library.List_Lexorder"
begin

text \<open>
  The part of Python every component uses: exceptions as values of a sum type, the sequencing
  and short-circuit operators over them, and the string methods the tools call.
  A Python function that may raise returns \<open>'a res\<close>: \<open>Inl e\<close> is the raised exception.
  Strings are lists of \<open>char\<close>, so code points up to 255.
\<close>

section \<open>Collections of facts\<close>

named_theorems res_simps \<open>when a sequenced computation succeeds\<close>
named_theorems str_simps \<open>the string methods on concrete shapes\<close>

section \<open>Exceptions as values\<close>

datatype pyerr =
    ValueError string
  | ValidationError string
  | InventoryError string
  | KeyError string
  | TypeError
  | AttributeError
  | IndexError
  | OverflowError
  | ZeroDivisionError
  | AssertionError
  | OSError string
  | SubprocessError int
  | SystemExit string
  | StopIteration

type_synonym 'a res = "pyerr + 'a"

definition bindE :: "'e + 'a \<Rightarrow> ('a \<Rightarrow> 'e + 'b) \<Rightarrow> 'e + 'b" where
  "bindE m f = (case m of Inl e \<Rightarrow> Inl e | Inr x \<Rightarrow> f x)"

lemma bindE_simps [simp]: "bindE (Inl e) f = Inl e" "bindE (Inr x) f = f x"
  by (simp_all add: bindE_def)

lemma bindE_cong [fundef_cong]:
  "m = m' \<Longrightarrow> (\<And>x. m' = Inr x \<Longrightarrow> f x = g x) \<Longrightarrow> bindE m f = bindE m' g"
  by (cases m') (auto simp: bindE_def)

lemma bindE_Inr_iff [res_simps]: "bindE m f = Inr y \<longleftrightarrow> (\<exists>x. m = Inr x \<and> f x = Inr y)"
  by (cases m) auto

lemma bindE_Inl_iff:
  "bindE m f = Inl e \<longleftrightarrow> m = Inl e \<or> (\<exists>x. m = Inr x \<and> f x = Inl e)"
  by (cases m) auto

lemma bindE_assoc: "bindE (bindE m f) g = bindE m (\<lambda>x. bindE (f x) g)"
  by (cases m) auto

lemma if_Inr_iff [res_simps]:
  "(if c then Inl e else m) = Inr y \<longleftrightarrow> \<not> c \<and> m = Inr y"
  "(if c then m else Inl e) = Inr y \<longleftrightarrow> c \<and> m = Inr y"
  by auto

text \<open>Python's \<open>and\<close>, \<open>or\<close> and \<open>not\<close> over operands that may raise: the second operand
  is evaluated only when the first does not decide.\<close>

definition andE :: "'e + bool \<Rightarrow> 'e + bool \<Rightarrow> 'e + bool" where
  "andE a b = bindE a (\<lambda>x. if x then b else Inr False)"

definition orE :: "'e + bool \<Rightarrow> 'e + bool \<Rightarrow> 'e + bool" where
  "orE a b = bindE a (\<lambda>x. if x then Inr True else b)"

definition notE :: "'e + bool \<Rightarrow> 'e + bool" where
  "notE a = bindE a (\<lambda>x. Inr (\<not> x))"

text \<open>\<open>if c: raise e\<close> followed by the rest of the body, and the helper
  \<open>require(condition, message)\<close> of several tools.\<close>

definition raise_if :: "'e + bool \<Rightarrow> 'e \<Rightarrow> 'e + 'a \<Rightarrow> 'e + 'a" where
  "raise_if c e k = bindE c (\<lambda>b. if b then Inl e else k)"

definition ifE :: "'e + bool \<Rightarrow> 'e + 'a \<Rightarrow> 'e + 'a \<Rightarrow> 'e + 'a" where
  "ifE c t f = bindE c (\<lambda>b. if b then t else f)"

lemma andE_simps [simp]:
  "andE (Inr True) b = b" "andE (Inr False) b = Inr False" "andE (Inl e) b = Inl e"
  by (simp_all add: andE_def)

lemma orE_simps [simp]:
  "orE (Inr True) b = Inr True" "orE (Inr False) b = b" "orE (Inl e) b = Inl e"
  by (simp_all add: orE_def)

lemma notE_simps [simp]: "notE (Inr x) = Inr (\<not> x)" "notE (Inl e) = Inl e"
  by (simp_all add: notE_def)

lemma raise_if_simps [simp]:
  "raise_if (Inr True) e k = Inl e" "raise_if (Inr False) e k = k" "raise_if (Inl x) e k = Inl x"
  by (simp_all add: raise_if_def)

lemma ifE_simps [simp]:
  "ifE (Inr True) t f = t" "ifE (Inr False) t f = f" "ifE (Inl x) t f = Inl x"
  by (simp_all add: ifE_def)

lemma andE_iff [res_simps]:
  "andE a b = Inr True \<longleftrightarrow> a = Inr True \<and> b = Inr True"
  "andE a b = Inr False \<longleftrightarrow> a = Inr False \<or> a = Inr True \<and> b = Inr False"
  by (auto simp: andE_def bindE_def split: sum.splits)

lemma orE_iff [res_simps]:
  "orE a b = Inr False \<longleftrightarrow> a = Inr False \<and> b = Inr False"
  "orE a b = Inr True \<longleftrightarrow> a = Inr True \<or> a = Inr False \<and> b = Inr True"
  by (auto simp: orE_def bindE_def split: sum.splits)

lemma notE_iff [res_simps]: "notE a = Inr x \<longleftrightarrow> a = Inr (\<not> x)"
  by (auto simp: notE_def bindE_def split: sum.splits)

lemma raise_if_iff [res_simps]: "raise_if c e k = Inr y \<longleftrightarrow> c = Inr False \<and> k = Inr y"
  by (auto simp: raise_if_def bindE_def split: sum.splits)

lemma ifE_iff [res_simps]:
  "ifE c t f = Inr y \<longleftrightarrow> c = Inr True \<and> t = Inr y \<or> c = Inr False \<and> f = Inr y"
  by (auto simp: ifE_def bindE_def split: sum.splits)

subsection \<open>Loops whose body may raise\<close>

primrec foldE :: "('s \<Rightarrow> 'a \<Rightarrow> 'e + 's) \<Rightarrow> 's \<Rightarrow> 'a list \<Rightarrow> 'e + 's" where
  "foldE f s [] = Inr s"
| "foldE f s (x # xs) = bindE (f s x) (\<lambda>s'. foldE f s' xs)"

primrec mapE :: "('a \<Rightarrow> 'e + 'b) \<Rightarrow> 'a list \<Rightarrow> 'e + 'b list" where
  "mapE f [] = Inr []"
| "mapE f (x # xs) = bindE (f x) (\<lambda>y. bindE (mapE f xs) (\<lambda>ys. Inr (y # ys)))"

primrec forE :: "('a \<Rightarrow> 'e + unit) \<Rightarrow> 'a list \<Rightarrow> 'e + unit" where
  "forE f [] = Inr ()"
| "forE f (x # xs) = bindE (f x) (\<lambda>_. forE f xs)"

primrec allE :: "('a \<Rightarrow> 'e + bool) \<Rightarrow> 'a list \<Rightarrow> 'e + bool" where
  "allE p [] = Inr True"
| "allE p (x # xs) = andE (p x) (allE p xs)"

primrec anyE :: "('a \<Rightarrow> 'e + bool) \<Rightarrow> 'a list \<Rightarrow> 'e + bool" where
  "anyE p [] = Inr False"
| "anyE p (x # xs) = orE (p x) (anyE p xs)"

primrec filterE :: "('a \<Rightarrow> 'e + bool) \<Rightarrow> 'a list \<Rightarrow> 'e + 'a list" where
  "filterE p [] = Inr []"
| "filterE p (x # xs) =
     bindE (p x) (\<lambda>b. bindE (filterE p xs) (\<lambda>ys. Inr (if b then x # ys else ys)))"

lemma forE_iff [res_simps]: "forE f xs = Inr u \<longleftrightarrow> (\<forall>x \<in> set xs. f x = Inr ())"
  by (induction xs) (auto simp: bindE_Inr_iff)

lemma allE_iff [res_simps]: "allE p xs = Inr True \<longleftrightarrow> (\<forall>x \<in> set xs. p x = Inr True)"
  by (induction xs) (auto simp: andE_iff)

lemma anyE_iff [res_simps]: "anyE p xs = Inr False \<longleftrightarrow> (\<forall>x \<in> set xs. p x = Inr False)"
  by (induction xs) (auto simp: orE_iff)

lemma allE_pure [simp]: "allE (\<lambda>x. Inr (p x)) xs = Inr (\<forall>x \<in> set xs. p x)"
  by (induction xs) (auto simp: andE_def)

lemma anyE_pure [simp]: "anyE (\<lambda>x. Inr (p x)) xs = Inr (\<exists>x \<in> set xs. p x)"
  by (induction xs) (auto simp: orE_def)

lemma mapE_iff [res_simps]: "mapE f xs = Inr ys \<longleftrightarrow> list_all2 (\<lambda>x y. f x = Inr y) xs ys"
  by (induction xs arbitrary: ys)
    (auto simp: bindE_Inr_iff list_all2_Cons1)

lemma mapE_pure [simp]: "mapE (\<lambda>x. Inr (f x)) xs = Inr (map f xs)"
  by (induction xs) auto

lemma foldE_append: "foldE f s (xs @ ys) = bindE (foldE f s xs) (\<lambda>t. foldE f t ys)"
  by (induction xs arbitrary: s) (auto simp: bindE_assoc)

lemma foldE_invariant:
  assumes "foldE f s xs = Inr t" "P s"
    and "\<And>u x v. x \<in> set xs \<Longrightarrow> P u \<Longrightarrow> f u x = Inr v \<Longrightarrow> P v"
  shows "P t"
  using assms
proof (induction xs arbitrary: s)
  case (Cons x xs)
  from Cons.prems(1) obtain v where v: "f s x = Inr v" "foldE f v xs = Inr t"
    by (auto simp: bindE_Inr_iff)
  have "P v" using Cons.prems(3) [OF _ Cons.prems(2) v(1)] by simp
  with v(2) show ?case using Cons.IH Cons.prems(3) by auto
qed simp

text \<open>An invariant that speaks of the elements consumed so far.\<close>

lemma foldE_prefix_invariant:
  assumes "foldE f s xs = Inr t" "P [] s"
    and "\<And>ys x u v. set (ys @ [x]) \<subseteq> set xs \<Longrightarrow> P ys u \<Longrightarrow> f u x = Inr v \<Longrightarrow> P (ys @ [x]) v"
  shows "P xs t"
  using assms
proof (induction xs arbitrary: t rule: rev_induct)
  case (snoc x xs)
  from snoc.prems(1) obtain u where u: "foldE f s xs = Inr u" "f u x = Inr t"
    by (auto simp: foldE_append bindE_Inr_iff)
  have "P xs u"
  proof (rule snoc.IH [OF u(1) snoc.prems(2)])
    fix ys y a b
    assume "set (ys @ [y]) \<subseteq> set xs" "P ys a" "f a y = Inr b"
    then show "P (ys @ [y]) b" using snoc.prems(3) [of ys y a b] by auto
  qed
  with u(2) show ?case using snoc.prems(3) [of xs x u t] by auto
qed simp

text \<open>\<open>try: m except <classes>: handler\<close>.\<close>

definition catchE :: "'a res \<Rightarrow> (pyerr \<Rightarrow> bool) \<Rightarrow> (pyerr \<Rightarrow> 'a res) \<Rightarrow> 'a res" where
  "catchE m p h = (case m of Inl e \<Rightarrow> if p e then h e else Inl e | Inr x \<Rightarrow> Inr x)"

lemma catchE_simps [simp]:
  "catchE (Inr x) p h = Inr x" "catchE (Inl e) p h = (if p e then h e else Inl e)"
  by (simp_all add: catchE_def)

text \<open>The class tests of \<open>except\<close> clauses; \<open>InventoryError\<close> is a subclass of \<open>ValueError\<close>,
  the tools' \<open>ValidationError\<close> is a direct subclass of \<open>Exception\<close>.\<close>

fun is_ValueError :: "pyerr \<Rightarrow> bool" where
  "is_ValueError (ValueError m) = True"
| "is_ValueError (InventoryError m) = True"
| "is_ValueError e = False"

fun is_KeyError :: "pyerr \<Rightarrow> bool" where
  "is_KeyError (KeyError m) = True"
| "is_KeyError e = False"

fun is_OSError :: "pyerr \<Rightarrow> bool" where
  "is_OSError (OSError m) = True"
| "is_OSError e = False"

lemma foldE_total:
  assumes "P [] s" "\<And>ys x zs u. xs = ys @ x # zs \<Longrightarrow> P ys u \<Longrightarrow> \<exists>v. f u x = Inr v \<and> P (ys @ [x]) v"
  shows "\<exists>t. foldE f s xs = Inr t \<and> P xs t"
  using assms(2)
proof (induction xs rule: rev_induct)
  case (snoc x xs)
  have "\<exists>t. foldE f s xs = Inr t \<and> P xs t" by (rule snoc.IH) (simp add: snoc.prems)
  then obtain t where t: "foldE f s xs = Inr t" "P xs t" by blast
  with snoc.prems [of xs x "[]" t] show ?case by (auto simp: foldE_append)
qed (use assms(1) in simp)

lemma mapE_each: "mapE f xs = Inr ys \<Longrightarrow> x \<in> set xs \<Longrightarrow> \<exists>y \<in> set ys. f x = Inr y"
  by (induction xs arbitrary: ys) (auto simp: bindE_Inr_iff)

end
