(* ===== verification/PyStr.thy ===== *)
theory PyStr
  imports Prelude
begin

text \<open>
  The methods of Python's \<open>str\<close> (and \<open>bytes\<close>) that the tools call, on lists of characters:
  \<open>startswith\<close>, \<open>endswith\<close>, \<open>in\<close>, \<open>find\<close>, \<open>count\<close>, \<open>split\<close>, \<open>partition\<close>, \<open>replace\<close>,
  \<open>splitlines\<close>, \<open>strip\<close>, \<open>join\<close>, and decimal and hexadecimal formatting of integers.
\<close>

abbreviation NL :: char where "NL \<equiv> CHR 0x0A"
abbreviation TAB :: char where "TAB \<equiv> CHR 0x09"
abbreviation DQ :: char where "DQ \<equiv> CHR 0x22"
abbreviation BSL :: char where "BSL \<equiv> CHR 0x5C"
abbreviation NUL :: char where "NUL \<equiv> CHR 0x00"

section \<open>Evaluating comparisons of characters\<close>

text \<open>Characters compare by their bits, the highest first, so evaluation needs no arithmetic.\<close>

fun bits_less :: "bool list \<Rightarrow> bool list \<Rightarrow> bool" where
  "bits_less (x # xs) (y # ys) = (bits_less xs ys \<or> xs = ys \<and> \<not> x \<and> y)"
| "bits_less _ _ = False"

lemma bits_inject:
  "length xs = length ys \<Longrightarrow> horner_sum of_bool (2 :: nat) xs = horner_sum of_bool 2 ys \<longleftrightarrow> xs = ys"
proof (induction xs ys rule: list_induct2)
  case (Cons x xs y ys)
  have "of_bool x + 2 * a = (of_bool y + 2 * b :: nat) \<longleftrightarrow> x = y \<and> a = b" for a b
    by (cases x; cases y; simp; presburger)
  with Cons show ?case by simp
qed simp

lemma bits_less_iff:
  "length xs = length ys \<Longrightarrow> horner_sum of_bool (2 :: nat) xs < horner_sum of_bool 2 ys \<longleftrightarrow> bits_less xs ys"
proof (induction xs ys rule: list_induct2)
  case (Cons x xs y ys)
  have "of_bool x + 2 * a < (of_bool y + 2 * b :: nat) \<longleftrightarrow> a < b \<or> a = b \<and> \<not> x \<and> y" for a b
    by (cases x; cases y; simp; presburger)
  with Cons bits_inject [OF Cons.hyps] show ?case by simp
qed simp

fun char_bits :: "char \<Rightarrow> bool list" where
  "char_bits (Char b0 b1 b2 b3 b4 b5 b6 b7) = [b0, b1, b2, b3, b4, b5, b6, b7]"

definition char_less :: "char \<Rightarrow> char \<Rightarrow> bool" where
  "char_less c d = bits_less (char_bits c) (char_bits d)"

lemma char_less_iff [code_unfold]: "of_char c < (of_char d :: nat) \<longleftrightarrow> char_less c d"
proof -
  have "of_char e = (horner_sum of_bool 2 (char_bits e) :: nat)" "length (char_bits e) = 8" for e
    by (cases e; simp add: of_char_def)+
  then show ?thesis by (simp add: char_less_def bits_less_iff)
qed

lemma char_leq_iff [code_unfold]: "of_char c \<le> (of_char d :: nat) \<longleftrightarrow> \<not> char_less d c"
  by (simp add: not_less flip: char_less_iff)

lemma above_ascii [code_unfold]: "(126 :: nat) < of_char c \<longleftrightarrow> char_less (CHR 0x7E) c"
  by (simp flip: char_less_iff)

lemma control_char [code_unfold]: "of_char c < (32 :: nat) \<longleftrightarrow> char_less c (CHR 0x20)"
  by (simp flip: char_less_iff)

section \<open>Prefixes, suffixes and substrings\<close>

fun startswith :: "string \<Rightarrow> string \<Rightarrow> bool" where
  "startswith s [] = True"
| "startswith [] (c # cs) = False"
| "startswith (a # s) (c # cs) = (a = c \<and> startswith s cs)"

definition endswith :: "string \<Rightarrow> string \<Rightarrow> bool" where
  "endswith s p = startswith (rev s) (rev p)"

lemma startswith_Nil [simp]: "startswith [] p \<longleftrightarrow> p = []"
  by (cases p) auto

lemma startswith_iff: "startswith s p \<longleftrightarrow> (\<exists>t. s = p @ t)"
  by (induction s p rule: startswith.induct) auto

lemma startswith_append [simp]: "startswith (p @ s) p"
  by (auto simp: startswith_iff)

lemma startswith_take: "startswith s p \<longleftrightarrow> take (length p) s = p"
  by (auto simp: startswith_iff) (metis append_take_drop_id)

lemma endswith_iff: "endswith s p \<longleftrightarrow> (\<exists>t. s = t @ p)"
  unfolding endswith_def startswith_iff
  by (metis rev_append rev_rev_ident)

text \<open>\<open>s.find(p)\<close> as an option: the position of the first occurrence.\<close>

fun find_str :: "string \<Rightarrow> string \<Rightarrow> nat option" where
  "find_str p [] = (if p = [] then Some 0 else None)"
| "find_str p (c # s) =
     (if startswith (c # s) p then Some 0 else map_option Suc (find_str p s))"

definition contains :: "string \<Rightarrow> string \<Rightarrow> bool" where
  "contains p s = (find_str p s \<noteq> None)"

lemma find_str_Some:
  "find_str p s = Some n \<Longrightarrow> n \<le> length s \<and> startswith (drop n s) p"
  by (induction p s arbitrary: n rule: find_str.induct) (auto split: if_splits)

lemma find_str_prefix: "startswith (u @ v) p \<or> u \<noteq> [] \<Longrightarrow> startswith v p \<Longrightarrow> find_str p (u @ v) \<noteq> None"
proof (induction u)
  case Nil
  then show ?case by (cases v) auto
next
  case (Cons a u)
  then show ?case by (cases u) (cases v; auto)+
qed

lemma contains_iff: "contains p s \<longleftrightarrow> (\<exists>u v. s = u @ p @ v)"
proof
  assume "contains p s"
  then obtain n where n: "find_str p s = Some n" by (auto simp: contains_def)
  from find_str_Some [OF n] obtain v where "drop n s = p @ v" by (auto simp: startswith_iff)
  then show "\<exists>u v. s = u @ p @ v" by (metis append_take_drop_id)
next
  assume "\<exists>u v. s = u @ p @ v"
  then obtain u v where s: "s = u @ p @ v" by blast
  have "find_str p (u @ p @ v) \<noteq> None"
    by (rule find_str_prefix) (cases u; simp)+
  with s show "contains p s" by (simp add: contains_def)
qed

section \<open>Splitting and joining\<close>

text \<open>\<open>s.split(c)\<close> for a separator of one character.\<close>

fun split_chr :: "char \<Rightarrow> string \<Rightarrow> string list" where
  "split_chr c [] = [[]]"
| "split_chr c (a # s) =
     (if a = c then [] # split_chr c s
      else (case split_chr c s of [] \<Rightarrow> [[a]] | w # ws \<Rightarrow> (a # w) # ws))"

fun join :: "string \<Rightarrow> string list \<Rightarrow> string" where
  "join sep [] = []"
| "join sep [w] = w"
| "join sep (w # ws) = w @ sep @ join sep ws"

lemma split_chr_nonempty [simp]: "split_chr c s \<noteq> []"
  by (induction c s rule: split_chr.induct) (auto split: list.splits)

lemma join_Cons: "ws \<noteq> [] \<Longrightarrow> join sep (w # ws) = w @ sep @ join sep ws"
  by (cases ws) auto

lemma join_split_chr: "join [c] (split_chr c s) = s"
proof (induction c s rule: split_chr.induct)
  case (2 c a s)
  obtain w ws where w: "split_chr c s = w # ws" by (cases "split_chr c s") auto
  show ?case using 2 w by (cases ws) auto
qed simp

lemma split_chr_no_sep: "w \<in> set (split_chr c s) \<Longrightarrow> c \<notin> set w"
  by (induction c s arbitrary: w rule: split_chr.induct) (auto split: list.splits if_splits)

lemma split_chr_append:
  "c \<notin> set w \<Longrightarrow> split_chr c (w @ c # s) = w # split_chr c s"
  by (induction w) auto

lemma split_chr_plain: "c \<notin> set w \<Longrightarrow> split_chr c w = [w]"
  by (induction w) auto

lemma split_chr_join:
  "ws \<noteq> [] \<Longrightarrow> \<forall>w \<in> set ws. c \<notin> set w \<Longrightarrow> split_chr c (join [c] ws) = ws"
proof (induction ws)
  case (Cons w ws)
  then show ?case
    by (cases ws) (auto simp: split_chr_plain split_chr_append join_Cons)
qed simp

lemma split_chr_length: "length (split_chr c s) = Suc (count_list s c)"
  by (induction c s rule: split_chr.induct) (auto split: list.splits)

text \<open>\<open>s.partition(p)\<close> as an option (the text before and after the first occurrence), and
  from it \<open>split(p, 1)\<close>, \<open>split(p)\<close>, \<open>count(p)\<close> and \<open>replace\<close> for a non-empty \<open>p\<close>.\<close>

definition partition_str :: "string \<Rightarrow> string \<Rightarrow> (string \<times> string) option" where
  "partition_str p s = (case find_str p s of
       None \<Rightarrow> None
     | Some n \<Rightarrow> Some (take n s, drop (n + length p) s))"

lemma partition_str_Some: "partition_str p s = Some (u, v) \<Longrightarrow> s = u @ p @ v"
  by (auto simp: partition_str_def split: option.splits dest!: find_str_Some)
    (metis append_take_drop_id startswith_take drop_drop add.commute)

lemma partition_str_None: "partition_str p s = None \<longleftrightarrow> \<not> contains p s"
  by (auto simp: partition_str_def contains_def split: option.splits)

lemma partition_str_shorter:
  "partition_str p s = Some (u, v) \<Longrightarrow> p \<noteq> [] \<Longrightarrow> length v < length s"
  by (drule partition_str_Some) auto

function (sequential) split_str :: "string \<Rightarrow> string \<Rightarrow> string list" where
  "split_str p s = (if p = [] then [s] else
     (case partition_str p s of None \<Rightarrow> [s] | Some (u, v) \<Rightarrow> u # split_str p v))"
  by pat_completeness auto
termination
  by (relation "measure (\<lambda>(p, s). length s)") (auto dest: partition_str_shorter)

declare split_str.simps [simp del]

definition count_str :: "string \<Rightarrow> string \<Rightarrow> nat" where
  "count_str p s = length (split_str p s) - 1"

definition replace_str :: "string \<Rightarrow> string \<Rightarrow> string \<Rightarrow> string" where
  "replace_str old new s = join new (split_str old s)"

lemma split_str_nonempty [simp]: "split_str p s \<noteq> []"
  by (subst split_str.simps) (auto split: option.splits)

lemma join_split_str: "p \<noteq> [] \<Longrightarrow> join p (split_str p s) = s"
proof (induction p s rule: split_str.induct)
  case (1 p s)
  show ?case
  proof (cases "partition_str p s")
    case None
    with 1 show ?thesis by (simp add: split_str.simps [of p s])
  next
    case (Some uv)
    obtain u v where uv: "uv = (u, v)" by (cases uv)
    have "join p (split_str p v) = v" using 1 Some uv by simp
    moreover have "split_str p s = u # split_str p v"
      using Some uv 1(2) by (simp add: split_str.simps [of p s])
    ultimately have "join p (split_str p s) = u @ p @ v" by (simp add: join_Cons)
    moreover have "s = u @ p @ v" using Some uv by (simp add: partition_str_Some)
    ultimately show ?thesis by (simp only:)
  qed
qed

lemma replace_str_absent: "\<not> contains old s \<Longrightarrow> replace_str old new s = s"
  by (subst (asm) partition_str_None [symmetric])
    (simp add: replace_str_def split_str.simps [of old s])

lemma replace_str_id: "p \<noteq> [] \<Longrightarrow> replace_str p p s = s"
  by (simp add: replace_str_def join_split_str)

lemma count_str_0_iff: "p \<noteq> [] \<Longrightarrow> count_str p s = 0 \<longleftrightarrow> \<not> contains p s"
proof -
  assume p: "p \<noteq> []"
  have "length (split_str p v) > 0" for v by simp
  then show ?thesis using p
    by (auto simp: count_str_def split_str.simps [of p s] partition_str_None [symmetric]
        split: option.splits)
qed

section \<open>Lines, blanks\<close>

text \<open>Reading text: every line end becomes a newline.\<close>

definition universal_newlines :: "string \<Rightarrow> string" where
  "universal_newlines s = map (\<lambda>c. if c = CHR 0x0D then NL else c) (replace_str [CHR 0x0D, NL] [NL] s)"

text \<open>The line boundaries of \<open>str.splitlines\<close> below code point 256; \<open>\<r>\<n>\<close> counts once.\<close>

definition is_linebreak :: "char \<Rightarrow> bool" where
  "is_linebreak c = (let n = of_char c :: nat in
     n = 10 \<or> n = 11 \<or> n = 12 \<or> n = 13 \<or> n = 28 \<or> n = 29 \<or> n = 30 \<or> n = 133)"

fun splitlines_aux :: "string \<Rightarrow> string \<Rightarrow> string list" where
  "splitlines_aux acc [] = (if acc = [] then [] else [rev acc])"
| "splitlines_aux acc [c] = [rev (c # acc)]"
| "splitlines_aux acc (c # d # s) =
     (if c = CHR 0x0D \<and> d = CHR 0x0A then rev (d # c # acc) # splitlines_aux [] s
      else if is_linebreak c then rev (c # acc) # splitlines_aux [] (d # s)
      else splitlines_aux (c # acc) (d # s))"

definition splitlines_keep :: "string \<Rightarrow> string list" where
  "splitlines_keep s = splitlines_aux [] s"

fun chomp_rev :: "string \<Rightarrow> string" where
  "chomp_rev (b # a # s) = (if b = CHR 0x0A \<and> a = CHR 0x0D then s
     else if is_linebreak b then a # s else b # a # s)"
| "chomp_rev (b # s) = (if is_linebreak b then s else b # s)"
| "chomp_rev [] = []"

definition splitlines :: "string \<Rightarrow> string list" where
  "splitlines s = map (\<lambda>l. rev (chomp_rev (rev l))) (splitlines_keep s)"

lemma concat_splitlines_aux: "concat (splitlines_aux acc s) = rev acc @ s"
  by (induction acc s rule: splitlines_aux.induct) auto

lemma concat_splitlines_keep: "concat (splitlines_keep s) = s"
  by (simp add: splitlines_keep_def concat_splitlines_aux)

text \<open>\<open>str.isspace\<close> below code point 256, and \<open>strip\<close>.\<close>

definition is_space :: "char \<Rightarrow> bool" where
  "is_space c = (let n = of_char c :: nat in
     n = 32 \<or> 9 \<le> n \<and> n \<le> 13 \<or> 28 \<le> n \<and> n \<le> 31 \<or> n = 133 \<or> n = 160)"

lemma linebreak_code [code]: "is_linebreak c \<longleftrightarrow> c = CHR 0x0A \<or> c = CHR 0x0B \<or> c = CHR 0x0C \<or> c = CHR 0x0D \<or> c = CHR 0x1C \<or> c = CHR 0x1D \<or>
    c = CHR 0x1E \<or> c = CHR 0x85"
proof -
  have "(of_char c :: nat) = of_char d \<longleftrightarrow> c = d" for d by simp
  from this [of "CHR 0x0A"] this [of "CHR 0x0B"] this [of "CHR 0x0C"] this [of "CHR 0x0D"] this [of "CHR 0x1C"] this [of "CHR 0x1D"]
    this [of "CHR 0x1E"] this [of "CHR 0x85"]
  show ?thesis by (simp add: is_linebreak_def Let_def)
qed

lemma space_code [code]: "is_space c \<longleftrightarrow> c = CHR '' '' \<or> \<not> char_less c (CHR 0x09) \<and> \<not> char_less (CHR 0x0D) c \<or>
    \<not> char_less c (CHR 0x1C) \<and> \<not> char_less (CHR 0x1F) c \<or> c = CHR 0x85 \<or> c = CHR 0xA0"
proof -
  have "(of_char c :: nat) = of_char d \<longleftrightarrow> c = d" for d by simp
  from this [of "CHR '' ''"] this [of "CHR 0x85"] this [of "CHR 0xA0"] show ?thesis
    by (simp add: is_space_def Let_def not_less flip: char_less_iff)
qed

definition lstrip :: "string \<Rightarrow> string" where
  "lstrip s = dropWhile is_space s"

definition rstrip :: "string \<Rightarrow> string" where
  "rstrip s = rev (dropWhile is_space (rev s))"

definition strip :: "string \<Rightarrow> string" where
  "strip s = rstrip (lstrip s)"

text \<open>\<open>s.rstrip(c)\<close> for one character.\<close>

definition rstrip_chr :: "char \<Rightarrow> string \<Rightarrow> string" where
  "rstrip_chr c s = rev (dropWhile (\<lambda>a. a = c) (rev s))"

text \<open>\<open>s.split()\<close>: the words between blanks.\<close>

definition split_ws :: "string \<Rightarrow> string list" where
  "split_ws s = filter (\<lambda>w. w \<noteq> []) (split_chr (CHR '' '') (map (\<lambda>c. if is_space c then CHR '' '' else c) s))"

definition removesuffix :: "string \<Rightarrow> string \<Rightarrow> string" where
  "removesuffix s p = (if endswith s p \<and> p \<noteq> [] then take (length s - length p) s else s)"

definition removeprefix :: "string \<Rightarrow> string \<Rightarrow> string" where
  "removeprefix s p = (if startswith s p then drop (length p) s else s)"

section \<open>Numbers as text\<close>

definition digit_chr :: "nat \<Rightarrow> char" where
  "digit_chr n = (if n < 10 then char_of (48 + n) else char_of (87 + n))"

fun show_base :: "nat \<Rightarrow> nat \<Rightarrow> string" where
  "show_base b n =
     (if b \<le> 1 \<or> n < b then [digit_chr n] else show_base b (n div b) @ [digit_chr (n mod b)])"

declare show_base.simps [simp del]

definition show_nat :: "nat \<Rightarrow> string" where
  "show_nat n = show_base 10 n"

definition show_int :: "int \<Rightarrow> string" where
  "show_int i = (if i < 0 then CHR ''-'' # show_nat (nat (- i)) else show_nat (nat i))"

text \<open>\<open>f'{n:0wx}'\<close>: hexadecimal digits, padded on the left with zeros to width \<open>w\<close>.\<close>

definition hex_pad :: "nat \<Rightarrow> nat \<Rightarrow> string" where
  "hex_pad w n = (let h = show_base 16 n in replicate (w - length h) (CHR ''0'') @ h)"

definition digit_val :: "char \<Rightarrow> nat option" where
  "digit_val c = (let n = of_char c :: nat in
     if 48 \<le> n \<and> n \<le> 57 then Some (n - 48)
     else if 97 \<le> n \<and> n \<le> 102 then Some (n - 87) else None)"

fun read_base :: "nat \<Rightarrow> nat \<Rightarrow> string \<Rightarrow> nat option" where
  "read_base b acc [] = Some acc"
| "read_base b acc (c # s) =
     (case digit_val c of None \<Rightarrow> None | Some d \<Rightarrow> if d < b then read_base b (acc * b + d) s else None)"

lemma digit_val_chr: "d < 16 \<Longrightarrow> digit_val (digit_chr d) = Some d"
  by (auto simp: digit_val_def digit_chr_def Let_def)

lemma read_base_append:
  "read_base b acc (s @ t) = Option.bind (read_base b acc s) (\<lambda>a. read_base b a t)"
  by (induction b acc s rule: read_base.induct) (auto split: option.splits)

lemma read_show_base: "1 < b \<Longrightarrow> b \<le> 16 \<Longrightarrow> read_base b 0 (show_base b n) = Some n"
proof (induction b n rule: show_base.induct)
  case (1 b n)
  show ?case
  proof (cases "n < b")
    case True
    with 1 show ?thesis by (simp add: show_base.simps [of b n] digit_val_chr)
  next
    case False
    have m: "n mod b < b" using 1 by simp
    with 1 have "digit_val (digit_chr (n mod b)) = Some (n mod b)"
      by (intro digit_val_chr) linarith
    with m False 1 show ?thesis
      by (simp add: show_base.simps [of b n] read_base_append)
  qed
qed

lemma read_base_zeros: "0 < b \<Longrightarrow> read_base b 0 (replicate k (CHR ''0'') @ s) = read_base b 0 s"
  by (induction k) (auto simp: digit_val_def)

lemma read_hex_pad: "read_base 16 0 (hex_pad w n) = Some n"
  by (simp add: hex_pad_def Let_def read_base_zeros read_show_base)

lemma show_base_length_le:
  "1 < b \<Longrightarrow> n < b ^ w \<Longrightarrow> 0 < w \<Longrightarrow> length (show_base b n) \<le> w"
proof (induction b n arbitrary: w rule: show_base.induct)
  case (1 b n)
  show ?case
  proof (cases "n < b")
    case True
    with 1 show ?thesis by (simp add: show_base.simps [of b n])
  next
    case False
    with 1 obtain v where w: "w = Suc v" and v: "0 < v"
      by (metis Suc_pred gr0I power_one_right One_nat_def)
    have "n div b < b ^ v" using 1(3) w by (simp add: less_mult_imp_div_less mult.commute)
    with 1 False v have "length (show_base b (n div b)) \<le> v" by simp
    with False 1 w show ?thesis by (simp add: show_base.simps [of b n])
  qed
qed

lemma length_hex_pad: "n < 16 ^ w \<Longrightarrow> 0 < w \<Longrightarrow> length (hex_pad w n) = w"
  using show_base_length_le [of 16 n w] by (simp add: hex_pad_def Let_def)

end
