(* ===== verification/PyRegex.thy ===== *)
theory PyRegex
  imports PyStr
begin

text \<open>
  Python's \<open>re\<close> module as the tools use it: a backtracking matcher over regular expressions
  with character classes, greedy and lazy repetition, numbered groups, line anchors, word
  boundaries and look-around. A matcher returns the list of all ways to match, in
  the order in which the backtracking engine tries them; the first one is the engine's answer.
  No expression of the tools repeats a sub-expression that can match the empty string; an
  iteration of \<open>Star\<close> that consumes nothing is not continued.
\<close>

section \<open>Expressions\<close>

text \<open>A class is a list of character ranges; \<open>NCls\<close> is the complement class \<open>[^...]\<close>. \<open>Bol\<close> and
  \<open>Eol\<close> are the anchors under \<open>(?m)\<close>, \<open>Bot\<close> and \<open>Eot\<close> those without it.\<close>

type_synonym cls = "(char \<times> char) list"

datatype rx =
    Cls cls
  | NCls cls
  | Eps
  | Seq rx rx
  | Alt rx rx
  | Star rx
  | LazyStar rx
  | Rep nat rx
  | Grp nat rx
  | Bol
  | Eol
  | WordB
  | Ahead cls
  | NotAhead cls
  | Behind string
  | Bot
  | Eot
  | Peek rx

definition in_cls :: "cls \<Rightarrow> char \<Rightarrow> bool" where
  "in_cls k c = (\<exists>(a, b) \<in> set k. of_char a \<le> (of_char c :: nat) \<and> of_char c \<le> (of_char b :: nat))"

definition chr :: "char \<Rightarrow> rx" where
  "chr c = Cls [(c, c)]"

definition lit :: "string \<Rightarrow> rx" where
  "lit s = foldr (\<lambda>c r. Seq (chr c) r) s Eps"

definition seqs :: "rx list \<Rightarrow> rx" where
  "seqs rs = foldr Seq rs Eps"

definition alts :: "rx list \<Rightarrow> rx" where
  "alts rs = foldr Alt (butlast rs) (last rs)"

definition rplus :: "rx \<Rightarrow> rx" where
  "rplus r = Seq r (Star r)"

definition ropt :: "rx \<Rightarrow> rx" where
  "ropt r = Alt r Eps"

definition at_least :: "nat \<Rightarrow> rx \<Rightarrow> rx" where
  "at_least n r = Seq (Rep n r) (Star r)"

definition between :: "nat \<Rightarrow> nat \<Rightarrow> rx \<Rightarrow> rx" where
  "between m n r = Seq (Rep m r) (((\<lambda>q. Alt (Seq r q) Eps) ^^ (n - m)) Eps)"

text \<open>The named classes. \<open>\<w>\<close>, \<open>\<d>\<close> and \<open>\<s>\<close> are those of \<open>str\<close> patterns, below 256.\<close>

definition lower_cls :: cls where "lower_cls = [(CHR ''a'', CHR ''z'')]"
definition upper_cls :: cls where "upper_cls = [(CHR ''A'', CHR ''Z'')]"
definition digit_cls :: cls where "digit_cls = [(CHR ''0'', CHR ''9'')]"
definition hex_cls :: cls where "hex_cls = [(CHR ''0'', CHR ''9''), (CHR ''a'', CHR ''f'')]"
definition one_cls :: "char \<Rightarrow> cls" where "one_cls c = [(c, c)]"
definition chr_cls :: "string \<Rightarrow> cls" where "chr_cls s = map (\<lambda>c. (c, c)) s"

definition word_cls :: cls where
  "word_cls = lower_cls @ upper_cls @ digit_cls @ one_cls (CHR ''_'') @
     [(CHR 0xAA, CHR 0xAA), (CHR 0xB2, CHR 0xB3), (CHR 0xB5, CHR 0xB5), (CHR 0xB9, CHR 0xBA),
      (CHR 0xBC, CHR 0xBE), (CHR 0xC0, CHR 0xD6), (CHR 0xD8, CHR 0xF6), (CHR 0xF8, CHR 0xFF)]"

definition space_cls :: cls where
  "space_cls = [(CHR 0x09, CHR 0x0D), (CHR 0x1C, CHR 0x1F), (CHR '' '', CHR '' ''),
      (CHR 0x85, CHR 0x85), (CHR 0xA0, CHR 0xA0)]"

definition Dot :: rx where "Dot = NCls [(CHR 0x0A, CHR 0x0A)]"

section \<open>Matching\<close>

text \<open>A position: the reversed text before it, the text after it, and the groups set so far
  (the latest first).\<close>

record pos =
  pos_before :: string
  pos_rest :: string
  pos_groups :: "(nat \<times> string) list"

definition is_word :: "char \<Rightarrow> bool" where
  "is_word c = in_cls word_cls c"

definition at_word_boundary :: "pos \<Rightarrow> bool" where
  "at_word_boundary p =
     ((case pos_before p of [] \<Rightarrow> False | c # _ \<Rightarrow> is_word c) \<noteq>
      (case pos_rest p of [] \<Rightarrow> False | c # _ \<Rightarrow> is_word c))"

definition advance :: "(char \<Rightarrow> bool) \<Rightarrow> pos \<Rightarrow> pos list" where
  "advance f p = (case pos_rest p of [] \<Rightarrow> []
     | c # s \<Rightarrow> if f c then [p\<lparr>pos_before := c # pos_before p, pos_rest := s\<rparr>] else [])"

fun star_run :: "(pos \<Rightarrow> pos list) \<Rightarrow> nat \<Rightarrow> pos \<Rightarrow> pos list" where
  "star_run f 0 p = [p]"
| "star_run f (Suc n) p =
     concat (map (\<lambda>q. if length (pos_rest q) < length (pos_rest p) then star_run f n q else []) (f p)) @ [p]"

fun lazy_run :: "(pos \<Rightarrow> pos list) \<Rightarrow> nat \<Rightarrow> pos \<Rightarrow> pos list" where
  "lazy_run f 0 p = [p]"
| "lazy_run f (Suc n) p =
     p # concat (map (\<lambda>q. if length (pos_rest q) < length (pos_rest p) then lazy_run f n q else []) (f p))"

fun rep_run :: "(pos \<Rightarrow> pos list) \<Rightarrow> nat \<Rightarrow> pos \<Rightarrow> pos list" where
  "rep_run f 0 p = [p]"
| "rep_run f (Suc n) p = concat (map (rep_run f n) (f p))"

primrec mt :: "rx \<Rightarrow> pos \<Rightarrow> pos list" where
  "mt (Cls k) p = advance (in_cls k) p"
| "mt (NCls k) p = advance (\<lambda>c. \<not> in_cls k c) p"
| "mt Eps p = [p]"
| "mt (Seq r s) p = concat (map (mt s) (mt r p))"
| "mt (Alt r s) p = mt r p @ mt s p"
| "mt (Star r) p = star_run (mt r) (length (pos_rest p)) p"
| "mt (LazyStar r) p = lazy_run (mt r) (length (pos_rest p)) p"
| "mt (Rep n r) p = rep_run (mt r) n p"
| "mt (Grp g r) p = map (\<lambda>q. q\<lparr>pos_groups :=
      (g, rev (take (length (pos_before q) - length (pos_before p)) (pos_before q))) # pos_groups q\<rparr>) (mt r p)"
| "mt Bol p = (case pos_before p of [] \<Rightarrow> [p] | c # _ \<Rightarrow> if c = NL then [p] else [])"
| "mt Eol p = (case pos_rest p of [] \<Rightarrow> [p] | c # _ \<Rightarrow> if c = NL then [p] else [])"
| "mt WordB p = (if at_word_boundary p then [p] else [])"
| "mt (Ahead k) p = (case pos_rest p of [] \<Rightarrow> [] | c # _ \<Rightarrow> if in_cls k c then [p] else [])"
| "mt (NotAhead k) p = (case pos_rest p of [] \<Rightarrow> [p] | c # _ \<Rightarrow> if in_cls k c then [] else [p])"
| "mt (Behind w) p = (if startswith (pos_before p) (rev w) then [p] else [])"
| "mt Bot p = (if pos_before p = [] then [p] else [])"
| "mt Eot p = (if pos_rest p = [] \<or> pos_rest p = [NL] then [p] else [])"
| "mt (Peek r) p = (if mt r p = [] then [] else [p])"

definition start_pos :: "string \<Rightarrow> pos" where
  "start_pos s = \<lparr>pos_before = [], pos_rest = s, pos_groups = []\<rparr>"

text \<open>\<open>re.fullmatch\<close>: the first way that consumes everything. Its groups are the result.\<close>

definition fullmatch_groups :: "rx \<Rightarrow> string \<Rightarrow> (nat \<times> string) list option" where
  "fullmatch_groups r s =
     map_option pos_groups (find (\<lambda>q. pos_rest q = []) (mt r (start_pos s)))"

definition fullmatch :: "rx \<Rightarrow> string \<Rightarrow> bool" where
  "fullmatch r s = (\<exists>q \<in> set (mt r (start_pos s)). pos_rest q = [])"

definition grp :: "nat \<Rightarrow> (nat \<times> string) list \<Rightarrow> string option" where
  "grp g gs = map_of gs g"

text \<open>\<open>re.match\<close> at a position, and \<open>re.search\<close>: the leftmost position where a match starts.
  A match is the text matched together with the position after it.\<close>

definition match_at :: "rx \<Rightarrow> pos \<Rightarrow> (string \<times> pos) option" where
  "match_at r p = (case mt r (p\<lparr>pos_groups := []\<rparr>) of [] \<Rightarrow> None
     | q # _ \<Rightarrow> Some (rev (take (length (pos_before q) - length (pos_before p)) (pos_before q)), q))"

fun search_from :: "rx \<Rightarrow> string \<Rightarrow> string \<Rightarrow> (string \<times> pos) option" where
  "search_from r b [] = match_at r \<lparr>pos_before = b, pos_rest = [], pos_groups = []\<rparr>"
| "search_from r b (c # s) =
     (case match_at r \<lparr>pos_before = b, pos_rest = c # s, pos_groups = []\<rparr> of
        Some m \<Rightarrow> Some m
      | None \<Rightarrow> search_from r (c # b) s)"

definition search :: "rx \<Rightarrow> string \<Rightarrow> (string \<times> pos) option" where
  "search r s = search_from r [] s"

text \<open>\<open>re.finditer\<close> and what \<open>re.findall\<close> and \<open>re.sub\<close> build from it, for expressions whose
  matches are not empty: each match with the text skipped before it, and the text after the last.
  An empty match ends the scan.\<close>

fun scan :: "nat \<Rightarrow> rx \<Rightarrow> string \<Rightarrow> string \<Rightarrow> (string \<times> string \<times> (nat \<times> string) list) list \<times> string" where
  "scan 0 r b s = ([], s)"
| "scan (Suc n) r b s =
     (case search_from r b s of
        None \<Rightarrow> ([], s)
      | Some (m, q) \<Rightarrow>
          if length (pos_rest q) < length s then
            (let skipped = take (length s - length (pos_rest q) - length m) s;
                 (ms, tail) = scan n r (pos_before q) (pos_rest q)
             in ((skipped, m, pos_groups q) # ms, tail))
          else ([], s))"

definition finditer :: "rx \<Rightarrow> string \<Rightarrow> (string \<times> (nat \<times> string) list) list" where
  "finditer r s = map snd (fst (scan (length s) r [] s))"

definition findall :: "rx \<Rightarrow> string \<Rightarrow> string list" where
  "findall r s = map fst (finditer r s)"

definition findall_group :: "nat \<Rightarrow> rx \<Rightarrow> string \<Rightarrow> string list" where
  "findall_group g r s = map (\<lambda>(m, gs). case grp g gs of None \<Rightarrow> [] | Some w \<Rightarrow> w) (finditer r s)"

definition sub_with :: "rx \<Rightarrow> (string \<Rightarrow> (nat \<times> string) list \<Rightarrow> string) \<Rightarrow> string \<Rightarrow> string" where
  "sub_with r f s = (let (ms, tail) = scan (length s) r [] s
     in concat (map (\<lambda>(skipped, m, gs). skipped @ f m gs) ms) @ tail)"

text \<open>\<open>re.split\<close> for expressions without groups, and \<open>re.sub\<close> with \<open>count=1\<close>.\<close>

definition split_rx :: "rx \<Rightarrow> string \<Rightarrow> string list" where
  "split_rx r s = (let (ms, tail) = scan (length s) r [] s in map fst ms @ [tail])"

definition sub_first :: "rx \<Rightarrow> (string \<Rightarrow> (nat \<times> string) list \<Rightarrow> string) \<Rightarrow> string \<Rightarrow> string" where
  "sub_first r f s = (case scan 1 r [] s of
      ((skipped, m, gs) # _, tail) \<Rightarrow> skipped @ f m gs @ tail
    | ([], tail) \<Rightarrow> tail)"

section \<open>What a match consumes\<close>

text \<open>A position \<open>q\<close> lies after \<open>p\<close> in the same text.\<close>

definition later :: "pos \<Rightarrow> pos \<Rightarrow> bool" where
  "later p q = (\<exists>w. pos_before q = rev w @ pos_before p \<and> pos_rest p = w @ pos_rest q)"

lemma later_refl [simp]: "later p p"
  by (simp add: later_def)

lemma later_trans: "later p q \<Longrightarrow> later q r \<Longrightarrow> later p r"
  by (auto simp: later_def)

lemma advance_later: "q \<in> set (advance f p) \<Longrightarrow> later p q"
  by (auto simp: advance_def later_def split: list.splits if_splits)

lemma star_run_later:
  "(\<And>p q. q \<in> set (f p) \<Longrightarrow> later p q) \<Longrightarrow> q \<in> set (star_run f n p) \<Longrightarrow> later p q"
  by (induction f n p rule: star_run.induct) (auto split: if_splits intro: later_trans)

lemma lazy_run_later:
  "(\<And>p q. q \<in> set (f p) \<Longrightarrow> later p q) \<Longrightarrow> q \<in> set (lazy_run f n p) \<Longrightarrow> later p q"
  by (induction f n p rule: lazy_run.induct) (auto split: if_splits intro: later_trans)

lemma rep_run_later:
  "(\<And>p q. q \<in> set (f p) \<Longrightarrow> later p q) \<Longrightarrow> q \<in> set (rep_run f n p) \<Longrightarrow> later p q"
  by (induction f n p rule: rep_run.induct) (auto intro: later_trans)

lemma mt_later: "q \<in> set (mt r p) \<Longrightarrow> later p q"
proof (induction r arbitrary: p q)
  case (Seq r1 r2)
  then show ?case by (auto intro: later_trans dest!: Seq.IH)
next
  case (Star r)
  then show ?case using star_run_later [of "mt r"] by auto
next
  case (LazyStar r)
  then show ?case using lazy_run_later [of "mt r"] by auto
next
  case (Rep n r)
  then show ?case using rep_run_later [of "mt r"] by auto
next
  case (Grp g r)
  then show ?case by (auto simp: later_def)
qed (auto intro: advance_later split: list.splits if_splits)

lemma fullmatch_iff_groups: "fullmatch r s \<longleftrightarrow> fullmatch_groups r s \<noteq> None"
  by (auto simp: fullmatch_def fullmatch_groups_def find_None_iff)

subsection \<open>Characterisations of the recurring shapes\<close>

lemma advance_simps [simp]:
  "pos_rest p = [] \<Longrightarrow> advance f p = []"
  "pos_rest p = c # s \<Longrightarrow> advance f p = (if f c then [p\<lparr>pos_before := c # pos_before p, pos_rest := s\<rparr>] else [])"
  by (simp_all add: advance_def)

lemma mt_classes: "mt (Cls k) = advance (in_cls k)" "mt (NCls k) = advance (\<lambda>c. \<not> in_cls k c)"
  by (rule ext, simp)+

lemma rep_advance:
  "(\<exists>q \<in> set (rep_run (advance f) n p). pos_rest q = t) \<longleftrightarrow>
     (\<exists>w. pos_rest p = w @ t \<and> length w = n \<and> list_all f w)"
proof (induction n arbitrary: p)
  case (Suc n)
  show ?case
  proof (cases "pos_rest p")
    case (Cons c s)
    have "(\<exists>w. c # s = w @ t \<and> length w = Suc n \<and> list_all f w) \<longleftrightarrow>
        f c \<and> (\<exists>w. s = w @ t \<and> length w = n \<and> list_all f w)"
      by (auto simp: Cons_eq_append_conv)
    with Cons Suc.IH [of "p\<lparr>pos_before := c # pos_before p, pos_rest := s\<rparr>"] show ?thesis by simp
  qed simp
qed simp

lemma fullmatch_rep: "fullmatch (Rep n (Cls k)) s \<longleftrightarrow> length s = n \<and> list_all (in_cls k) s"
  using rep_advance [of "in_cls k" n "start_pos s" "[]"]
  by (simp add: fullmatch_def mt_classes start_pos_def)

lemma star_advance:
  "length (pos_rest p) \<le> n \<Longrightarrow> (\<exists>q \<in> set (star_run (advance f) n p). pos_rest q = t) \<longleftrightarrow>
     (\<exists>w. pos_rest p = w @ t \<and> list_all f w)"
proof (induction n arbitrary: p)
  case (Suc n)
  show ?case
  proof (cases "pos_rest p")
    case (Cons c s)
    have split: "(\<exists>w. c # s = w @ t \<and> list_all f w) \<longleftrightarrow>
        t = c # s \<or> f c \<and> (\<exists>w. s = w @ t \<and> list_all f w)"
      by (auto simp: Cons_eq_append_conv)
    let ?p = "p\<lparr>pos_before := c # pos_before p, pos_rest := s\<rparr>"
    have "(\<exists>q \<in> set (star_run (advance f) (Suc n) p). pos_rest q = t) \<longleftrightarrow>
        t = c # s \<or> f c \<and> (\<exists>q \<in> set (star_run (advance f) n ?p). pos_rest q = t)"
      using Cons by auto
    also have "\<dots> \<longleftrightarrow> t = c # s \<or> f c \<and> (\<exists>w. s = w @ t \<and> list_all f w)"
      using Suc.IH [of ?p] Suc.prems Cons by simp
    also have "\<dots> \<longleftrightarrow> (\<exists>w. c # s = w @ t \<and> list_all f w)"
      by (rule split [symmetric])
    finally show ?thesis using Cons by simp
  qed auto
qed auto

lemma fullmatch_star: "fullmatch (Star (Cls k)) s \<longleftrightarrow> list_all (in_cls k) s"
  using star_advance [of "start_pos s" "length s" "in_cls k" "[]"]
  by (simp add: fullmatch_def mt_classes start_pos_def)

lemma fullmatch_cls_star:
  "fullmatch (Seq (Cls j) (Star (Cls k))) s \<longleftrightarrow>
     (\<exists>c w. s = c # w \<and> in_cls j c \<and> list_all (in_cls k) w)"
proof (cases s)
  case (Cons c w)
  then show ?thesis
    using star_advance [of "\<lparr>pos_before = [c], pos_rest = w, pos_groups = []\<rparr>" "length w" "in_cls k" "[]"]
    by (simp add: fullmatch_def start_pos_def mt_classes)
qed (simp add: fullmatch_def start_pos_def)

lemma fullmatch_plus_cls: "fullmatch (rplus (Cls k)) s \<longleftrightarrow> s \<noteq> [] \<and> list_all (in_cls k) s"
  unfolding rplus_def fullmatch_cls_star by (cases s) auto

section \<open>The identifiers shared by the tools\<close>

text \<open>\<open>[0-9a-f]{n}\<close>: commit ids (\<open>n = 40\<close>) and SHA-256 digests (\<open>n = 64\<close>).\<close>

definition hex_rx :: "nat \<Rightarrow> rx" where
  "hex_rx n = Rep n (Cls hex_cls)"

definition is_hex :: "nat \<Rightarrow> string \<Rightarrow> bool" where
  "is_hex n s = (length s = n \<and> list_all (in_cls hex_cls) s)"

lemma fullmatch_hex [simp]: "fullmatch (hex_rx n) s = is_hex n s"
  by (simp add: hex_rx_def is_hex_def fullmatch_rep)

end
