(* ===== verification/PyJson.thy ===== *)
theory PyJson
  imports Complex_Main PyRegex "HOL-Library.AList"
begin

text \<open>
  The values \<open>json.loads\<close> returns and Python's dynamically typed operations on them. A document
  read by the tools is data of unknown shape, so every subscript, iteration, comparison and
  membership test is an operation that may raise, as in the source.
\<close>

section \<open>Floating-point numbers\<close>

text \<open>A finite binary64 value is the rational it stands for (the sign of zero is not kept).\<close>

datatype pyfloat = Fin rat | PInf | NInf | NaN

fun feq :: "pyfloat \<Rightarrow> pyfloat \<Rightarrow> bool" where
  "feq (Fin a) (Fin b) = (a = b)"
| "feq PInf PInf = True"
| "feq NInf NInf = True"
| "feq _ _ = False"

fun flt :: "pyfloat \<Rightarrow> pyfloat \<Rightarrow> bool" where
  "flt (Fin a) (Fin b) = (a < b)"
| "flt NInf (Fin _) = True"
| "flt NInf PInf = True"
| "flt (Fin _) PInf = True"
| "flt _ _ = False"

definition fle :: "pyfloat \<Rightarrow> pyfloat \<Rightarrow> bool" where
  "fle a b = (flt a b \<or> feq a b)"

fun isfinite :: "pyfloat \<Rightarrow> bool" where
  "isfinite (Fin _) = True"
| "isfinite _ = False"

text \<open>Rounding to nearest, ties to even, on 53 significant bits: what \<open>/\<close>, \<open>*\<close> and
  \<open>float(text)\<close> apply to the exact result.\<close>

fun bit_length :: "nat \<Rightarrow> nat" where
  "bit_length n = (if n = 0 then 0 else Suc (bit_length (n div 2)))"

declare bit_length.simps [simp del]

definition pow2 :: "int \<Rightarrow> rat" where
  "pow2 k = (if 0 \<le> k then 2 ^ nat k else 1 / 2 ^ nat (- k))"

definition round_half_even :: "rat \<Rightarrow> int" where
  "round_half_even x = (let f = \<lfloor>x\<rfloor>; r = x - of_int f in
     if r < 1 / 2 then f else if 1 / 2 < r then f + 1 else if even f then f else f + 1)"

definition binary_exponent :: "rat \<Rightarrow> int" where
  "binary_exponent a = (let (n, d) = quotient_of a;
       e = int (bit_length (nat n)) - int (bit_length (nat d))
     in if pow2 e \<le> a then e else e - 1)"

definition round64 :: "rat \<Rightarrow> pyfloat" where
  "round64 q = (if q = 0 then Fin 0 else
     let a = \<bar>q\<bar>; u = pow2 (max (binary_exponent a) (- 1022) - 52);
         r = of_int (round_half_even (a / u)) * u
     in if pow2 1024 \<le> r then (if 0 < q then PInf else NInf)
        else Fin (if 0 < q then r else - r))"

section \<open>Values\<close>

datatype json =
    JNull
  | JBool bool
  | JInt int
  | JFloat pyfloat
  | JStr string
  | JList "json list"
  | JDict "(string \<times> json) list"

fun num_of :: "json \<Rightarrow> pyfloat option" where
  "num_of (JBool b) = Some (Fin (if b then 1 else 0))"
| "num_of (JInt i) = Some (Fin (of_int i))"
| "num_of (JFloat f) = Some f"
| "num_of _ = None"

fun is_dict :: "json \<Rightarrow> bool" where "is_dict (JDict _) = True" | "is_dict _ = False"
fun is_list :: "json \<Rightarrow> bool" where "is_list (JList _) = True" | "is_list _ = False"
fun is_str :: "json \<Rightarrow> bool" where "is_str (JStr _) = True" | "is_str _ = False"
fun is_bool :: "json \<Rightarrow> bool" where "is_bool (JBool _) = True" | "is_bool _ = False"

text \<open>\<open>type(v) is int\<close>, \<open>isinstance(v, int)\<close> (a \<open>bool\<close> is an \<open>int\<close>) and
  \<open>isinstance(v, (float, int))\<close>.\<close>

fun type_is_int :: "json \<Rightarrow> bool" where "type_is_int (JInt _) = True" | "type_is_int _ = False"
fun type_is_float :: "json \<Rightarrow> bool" where "type_is_float (JFloat _) = True" | "type_is_float _ = False"

definition isinstance_int :: "json \<Rightarrow> bool" where
  "isinstance_int v = (type_is_int v \<or> is_bool v)"

definition isinstance_number :: "json \<Rightarrow> bool" where
  "isinstance_number v = (isinstance_int v \<or> type_is_float v)"

fun is_nan :: "json \<Rightarrow> bool" where "is_nan (JFloat NaN) = True" | "is_nan _ = False"

text \<open>\<open>==\<close>. Containers compare their elements by identity first, and every NaN of
  \<open>json.loads\<close> is one object, so NaN equals NaN inside containers only.\<close>

lemma size_zip_left [termination_simp]:
  "(a, b) \<in> set (zip xs ys) \<Longrightarrow> size a < Suc (size_list size xs)"
  by (auto dest!: set_zip_leftD simp: less_Suc_eq_le intro: size_list_estimation')

fun jeq :: "json \<Rightarrow> json \<Rightarrow> bool" where
  "jeq JNull JNull = True"
| "jeq (JStr s) (JStr t) = (s = t)"
| "jeq (JList xs) (JList ys) =
     (length xs = length ys \<and>
      list_all (\<lambda>(x, y). is_nan x \<and> is_nan y \<or> jeq x y) (zip xs ys))"
| "jeq (JDict xs) (JDict ys) =
     (length xs = length ys \<and>
      list_all (\<lambda>(k, x). case map_of ys k of None \<Rightarrow> False
        | Some y \<Rightarrow> is_nan x \<and> is_nan y \<or> jeq x y) xs)"
| "jeq x y = (case (num_of x, num_of y) of (Some a, Some b) \<Rightarrow> feq a b | _ \<Rightarrow> False)"

definition jeq_item :: "json \<Rightarrow> json \<Rightarrow> bool" where
  "jeq_item x y = (is_nan x \<and> is_nan y \<or> jeq x y)"

fun truthy :: "json \<Rightarrow> bool" where
  "truthy JNull = False"
| "truthy (JBool b) = b"
| "truthy (JInt i) = (i \<noteq> 0)"
| "truthy (JFloat f) = (f \<noteq> Fin 0)"
| "truthy (JStr s) = (s \<noteq> [])"
| "truthy (JList xs) = (xs \<noteq> [])"
| "truthy (JDict kvs) = (kvs \<noteq> [])"

fun hashable :: "json \<Rightarrow> bool" where
  "hashable (JList _) = False"
| "hashable (JDict _) = False"
| "hashable _ = True"

section \<open>Operations that may raise\<close>

text \<open>\<open>v[k]\<close> with a string key, \<open>v.get(k)\<close>, \<open>v.get(k, d)\<close> and \<open>v[i]\<close> on a list.\<close>

fun item :: "json \<Rightarrow> string \<Rightarrow> json res" where
  "item (JDict kvs) k = (case map_of kvs k of None \<Rightarrow> Inl (KeyError k) | Some v \<Rightarrow> Inr v)"
| "item _ _ = Inl TypeError"

fun getd :: "json \<Rightarrow> string \<Rightarrow> json \<Rightarrow> json res" where
  "getd (JDict kvs) k d = Inr (case map_of kvs k of None \<Rightarrow> d | Some v \<Rightarrow> v)"
| "getd _ _ _ = Inl AttributeError"

abbreviation get :: "json \<Rightarrow> string \<Rightarrow> json res" where
  "get v k \<equiv> getd v k JNull"

fun iterE :: "json \<Rightarrow> json list res" where
  "iterE (JList xs) = Inr xs"
| "iterE (JDict kvs) = Inr (map (JStr \<circ> fst) kvs)"
| "iterE (JStr s) = Inr (map (\<lambda>c. JStr [c]) s)"
| "iterE _ = Inl TypeError"

fun lenE :: "json \<Rightarrow> nat res" where
  "lenE (JList xs) = Inr (length xs)"
| "lenE (JDict kvs) = Inr (length kvs)"
| "lenE (JStr s) = Inr (length s)"
| "lenE _ = Inl TypeError"

text \<open>\<open>v.items()\<close> and \<open>v.values()\<close>.\<close>

fun itemsE :: "json \<Rightarrow> (string \<times> json) list res" where
  "itemsE (JDict kvs) = Inr kvs"
| "itemsE _ = Inl AttributeError"

definition valuesE :: "json \<Rightarrow> json list res" where
  "valuesE v = bindE (itemsE v) (\<lambda>kvs. Inr (map snd kvs))"

text \<open>\<open>x in v\<close>, and \<open>k in v\<close> for a string key.\<close>

fun inE :: "json \<Rightarrow> json \<Rightarrow> bool res" where
  "inE x (JDict kvs) = (if hashable x then Inr (\<exists>(k, v) \<in> set kvs. x = JStr k) else Inl TypeError)"
| "inE x (JList ys) = Inr (\<exists>y \<in> set ys. jeq_item x y)"
| "inE (JStr p) (JStr s) = Inr (contains p s)"
| "inE _ _ = Inl TypeError"

abbreviation hasE :: "string \<Rightarrow> json \<Rightarrow> bool res" where
  "hasE k v \<equiv> inE (JStr k) v"

text \<open>\<open>set(v)\<close> as the list of its elements: all of them must be hashable. Sets compare by
  mutual inclusion, and \<open>len(set(v))\<close> counts the distinct ones.\<close>

definition hashE :: "json list \<Rightarrow> json list res" where
  "hashE xs = (if list_all hashable xs then Inr xs else Inl TypeError)"

definition setE :: "json \<Rightarrow> json list res" where
  "setE v = bindE (iterE v) hashE"

definition jmem :: "json \<Rightarrow> json list \<Rightarrow> bool" where
  "jmem x ys = (\<exists>y \<in> set ys. jeq_item x y)"

definition jsub :: "json list \<Rightarrow> json list \<Rightarrow> bool" where
  "jsub xs ys = list_all (\<lambda>x. jmem x ys) xs"

definition jset_eq :: "json list \<Rightarrow> json list \<Rightarrow> bool" where
  "jset_eq xs ys = (jsub xs ys \<and> jsub ys xs)"

fun jdistinct :: "json list \<Rightarrow> bool" where
  "jdistinct [] = True"
| "jdistinct (x # xs) = (\<not> jmem x xs \<and> jdistinct xs)"

text \<open>\<open>len(set(xs)) == len(xs)\<close>.\<close>

definition distinctE :: "json list \<Rightarrow> bool res" where
  "distinctE xs = bindE (hashE xs) (\<lambda>ys. Inr (jdistinct ys))"

text \<open>\<open>set(v) == {k, ...}\<close> for a set display of strings.\<close>

definition keys_are :: "json \<Rightarrow> string list \<Rightarrow> bool res" where
  "keys_are v ks = bindE (setE v) (\<lambda>xs. Inr (jset_eq xs (map JStr ks)))"

text \<open>Ordering: numbers with numbers, strings with strings; other pairs raise.\<close>

fun cmpE :: "(pyfloat \<Rightarrow> pyfloat \<Rightarrow> bool) \<Rightarrow> (string \<Rightarrow> string \<Rightarrow> bool) \<Rightarrow> json \<Rightarrow> json \<Rightarrow> bool res" where
  "cmpE fn fs (JStr s) (JStr t) = Inr (fs s t)"
| "cmpE fn fs x y = (case (num_of x, num_of y) of (Some a, Some b) \<Rightarrow> Inr (fn a b) | _ \<Rightarrow> Inl TypeError)"

definition ltE :: "json \<Rightarrow> json \<Rightarrow> bool res" where
  "ltE x y = cmpE flt (<) x y"

definition leE :: "json \<Rightarrow> json \<Rightarrow> bool res" where
  "leE x y = cmpE fle (\<le>) x y"

text \<open>\<open>x in {k, ...}\<close> for a set display of strings, and the text of a value in an f-string; the
  text of floats and containers is a parameter.\<close>

definition in_setE :: "json \<Rightarrow> string list \<Rightarrow> bool res" where
  "in_setE x ks = (if hashable x then Inr (\<exists>k \<in> set ks. x = JStr k) else Inl TypeError)"

fun str_of :: "(json \<Rightarrow> string) \<Rightarrow> json \<Rightarrow> string" where
  "str_of rp (JStr s) = s"
| "str_of rp (JInt i) = show_int i"
| "str_of rp JNull = ''None''"
| "str_of rp (JBool b) = (if b then ''True'' else ''False'')"
| "str_of rp v = rp v"

text \<open>\<open>sorted(xs, key=lambda x: x[k], reverse=True)\<close> for keys with a total order: equal keys stay
  in their order, keys that do not compare raise.\<close>

fun insert_descE :: "json \<times> 'a \<Rightarrow> (json \<times> 'a) list \<Rightarrow> (json \<times> 'a) list res" where
  "insert_descE x [] = Inr [x]"
| "insert_descE x (y # ys) = bindE (ltE (fst x) (fst y)) (\<lambda>b.
     if b then bindE (insert_descE x ys) (\<lambda>zs. Inr (y # zs)) else Inr (x # y # ys))"

fun sort_descE :: "(json \<times> 'a) list \<Rightarrow> (json \<times> 'a) list res" where
  "sort_descE [] = Inr []"
| "sort_descE (x # xs) = bindE (sort_descE xs) (insert_descE x)"

text \<open>\<open>math.isfinite\<close>: an integer beyond the binary64 range raises.\<close>

fun isfiniteE :: "json \<Rightarrow> bool res" where
  "isfiniteE (JInt i) = (if isfinite (round64 (of_int i)) then Inr True else Inl OverflowError)"
| "isfiniteE (JBool b) = Inr True"
| "isfiniteE (JFloat f) = Inr (isfinite f)"
| "isfiniteE _ = Inl TypeError"

text \<open>\<open>re.fullmatch\<close> on a value: anything but a string raises.\<close>

fun fullmatchE :: "rx \<Rightarrow> json \<Rightarrow> bool res" where
  "fullmatchE r (JStr s) = Inr (fullmatch r s)"
| "fullmatchE _ _ = Inl TypeError"

section \<open>Facts about the operations\<close>

lemma item_iff [res_simps]:
  "item v k = Inr x \<longleftrightarrow> (\<exists>kvs. v = JDict kvs \<and> map_of kvs k = Some x)"
  by (cases v) (auto split: option.splits)

lemma getd_iff [res_simps]:
  "getd v k d = Inr x \<longleftrightarrow>
     (\<exists>kvs. v = JDict kvs \<and> x = (case map_of kvs k of None \<Rightarrow> d | Some y \<Rightarrow> y))"
  by (cases v) auto

lemma fullmatchE_iff [res_simps]:
  "fullmatchE r v = Inr b \<longleftrightarrow> (\<exists>s. v = JStr s \<and> b = fullmatch r s)"
  by (cases v) auto

lemma itemsE_iff [res_simps]: "itemsE v = Inr kvs \<longleftrightarrow> v = JDict kvs"
  by (cases v) auto

lemma iterE_list [simp]: "is_list v \<Longrightarrow> \<exists>xs. v = JList xs \<and> iterE v = Inr xs"
  by (cases v) auto

lemma is_list_iff: "is_list v \<longleftrightarrow> (\<exists>xs. v = JList xs)"
  by (cases v) auto

lemma is_str_iff: "is_str v \<longleftrightarrow> (\<exists>s. v = JStr s)"
  by (cases v) auto

lemma is_dict_iff: "is_dict v \<longleftrightarrow> (\<exists>kvs. v = JDict kvs)"
  by (cases v) auto

lemma type_is_int_iff: "type_is_int v \<longleftrightarrow> (\<exists>i. v = JInt i)"
  by (cases v) auto

lemmas type_iffs = is_list_iff is_str_iff is_dict_iff type_is_int_iff

lemma jeq_str [simp]: "jeq v (JStr s) \<longleftrightarrow> v = JStr s"
  by (cases v) (auto split: option.splits)

lemma jeq_str_left [simp]: "jeq (JStr s) v \<longleftrightarrow> v = JStr s"
  by (cases v) (auto split: option.splits)

lemma jeq_item_str [simp]: "jeq_item v (JStr s) \<longleftrightarrow> v = JStr s"
  by (auto simp: jeq_item_def)

lemma jeq_item_str_left [simp]: "jeq_item (JStr s) v \<longleftrightarrow> v = JStr s"
  by (auto simp: jeq_item_def)

lemma in_setE_iff [res_simps]:
  "in_setE x ks = Inr b \<longleftrightarrow> hashable x \<and> (b \<longleftrightarrow> (\<exists>k \<in> set ks. x = JStr k))"
  by (auto simp: in_setE_def)

lemma jmem_strs [simp]: "jmem v (map JStr ks) \<longleftrightarrow> (\<exists>k \<in> set ks. v = JStr k)"
  by (auto simp: jmem_def)

lemma jset_eq_strs [simp]: "jset_eq (map JStr ks) (map JStr ls) \<longleftrightarrow> set ks = set ls"
  by (auto simp: jset_eq_def jsub_def list_all_iff)

lemma jdistinct_strs [simp]: "jdistinct (map JStr ks) \<longleftrightarrow> distinct ks"
  by (induction ks) auto

lemma keys_are_dict [simp]:
  "keys_are (JDict kvs) ks = Inr (fst ` set kvs = set ks)"
proof -
  have "map (JStr \<circ> fst) kvs = map JStr (map fst kvs)" by simp
  then show ?thesis
    by (simp add: keys_are_def setE_def hashE_def list_all_iff del: map_map)
qed

lemma feq_refl [simp]: "a \<noteq> NaN \<Longrightarrow> feq a a"
  by (cases a) auto

lemma feq_sym: "feq a b \<longleftrightarrow> feq b a"
  by (cases a; cases b) auto

lemma flt_trans: "flt a b \<Longrightarrow> flt b c \<Longrightarrow> flt a c"
  by (cases a; cases b; cases c) auto

lemma fle_trans: "fle a b \<Longrightarrow> fle b c \<Longrightarrow> fle a c"
  by (cases a; cases b; cases c) (auto simp: fle_def)

lemma jeq_int [simp]: "jeq (JInt i) (JInt j) \<longleftrightarrow> i = j"
  by simp

section \<open>Dictionaries under assignment\<close>

text \<open>\<open>d[k] = v\<close> keeps the position of an existing key and appends a new one;
  \<open>d.pop(k, None)\<close> removes it.\<close>

fun dict_set :: "string \<Rightarrow> json \<Rightarrow> json \<Rightarrow> json res" where
  "dict_set k x (JDict kvs) = Inr (JDict (AList.update k x kvs))"
| "dict_set k x _ = Inl TypeError"

fun dict_pop :: "string \<Rightarrow> json \<Rightarrow> json res" where
  "dict_pop k (JDict kvs) = Inr (JDict (AList.delete k kvs))"
| "dict_pop k _ = Inl AttributeError"

lemma keys_update: "fst ` set (AList.update k v d) = insert k (fst ` set d)"
  by (induction d) auto

lemma dict_set_item: "dict_set k x d = Inr d' \<Longrightarrow> item d' j = (if j = k then Inr x else item d j)"
  by (cases d) (auto simp: update_conv')

text \<open>\<open>[*xs, x][-n:]\<close>: the last \<open>n\<close> elements.\<close>

definition last_n :: "nat \<Rightarrow> 'a list \<Rightarrow> 'a list" where
  "last_n n xs = drop (length xs - n) xs"

lemma length_last_n: "length (last_n n xs) = min n (length xs)"
  by (simp add: last_n_def)

lemma set_last_n: "set (last_n n xs) \<subseteq> set xs"
  by (simp add: last_n_def set_drop_subset)

end
