(* ===== verification/PyPath.thy ===== *)
theory PyPath
  imports PyJson "HOL-Library.Sublist"
begin

text \<open>
  \<open>pathlib\<close>: the pure path operations on text, and a file system the tools read and write.
  A path of the file system is the list of its components below the root directory. Symbolic
  links are followed component by component, as the operating system does.
\<close>

section \<open>Pure paths\<close>

definition pure_parts :: "string \<Rightarrow> string list" where
  "pure_parts s = filter (\<lambda>c. c \<noteq> [] \<and> c \<noteq> ''.'') (split_chr (CHR ''/'') s)"

definition is_absolute :: "string \<Rightarrow> bool" where
  "is_absolute s = startswith s ''/''"

text \<open>\<open>PurePosixPath(s).parts\<close>: the root is a part of an absolute path, and exactly two leading
  slashes are a root of their own.\<close>

definition posix_parts :: "string \<Rightarrow> string list" where
  "posix_parts s =
     (if startswith s ''//'' \<and> \<not> startswith s ''///'' then [''//'']
      else if is_absolute s then [''/''] else []) @ pure_parts s"

text \<open>\<open>as_posix()\<close>.\<close>

definition posix_text :: "string \<Rightarrow> string" where
  "posix_text s =
     (let root = (if startswith s ''//'' \<and> \<not> startswith s ''///'' then ''//''
                  else if is_absolute s then ''/'' else [])
      in if root = [] \<and> pure_parts s = [] then ''.'' else root @ join ''/'' (pure_parts s))"

definition path_name :: "string list \<Rightarrow> string" where
  "path_name p = (if p = [] then [] else last p)"

text \<open>\<open>suffix\<close> and \<open>stem\<close> of a name: the last dot is neither first nor last.\<close>

definition name_suffix :: "string \<Rightarrow> string" where
  "name_suffix n = (let r = takeWhile (\<lambda>c. c \<noteq> CHR ''.'') (rev n); k = length n - length r
     in if CHR ''.'' \<in> set n \<and> 1 < k \<and> r \<noteq> [] then CHR ''.'' # rev r else [])"

definition name_stem :: "string \<Rightarrow> string" where
  "name_stem n = take (length n - length (name_suffix n)) n"

definition pure_suffix :: "string \<Rightarrow> string" where
  "pure_suffix s = name_suffix (path_name (pure_parts s))"

text \<open>\<open>p.with_suffix('').as_posix()\<close> of a relative path of the file system.\<close>

definition module_of_path :: "string list \<Rightarrow> string" where
  "module_of_path p = join ''/'' (butlast p @ [name_stem (path_name p)])"

section \<open>The file system\<close>

type_synonym path = "string list"

datatype node = NFile string nat | NDir | NLink path

type_synonym fs = "(path \<times> node) list"

definition look :: "fs \<Rightarrow> path \<Rightarrow> node option" where
  "look f p = (if p = [] then Some NDir else map_of f p)"

text \<open>Following links: \<open>walk n f done todo\<close> resolves \<open>todo\<close> below the resolved directory
  \<open>done\<close>, through at most \<open>n\<close> links (the kernel stops at 40).\<close>

fun walk :: "nat \<Rightarrow> fs \<Rightarrow> path \<Rightarrow> path \<Rightarrow> path option" where
  "walk n f d [] = Some d"
| "walk n f d (c # cs) =
     (if c = ''..'' then walk n f (butlast d) cs
      else if c = ''.'' \<or> c = [] then walk n f d cs
      else (case look f (d @ [c]) of
          Some (NLink t) \<Rightarrow> (case n of 0 \<Rightarrow> None | Suc m \<Rightarrow> walk m f [] (t @ cs))
        | _ \<Rightarrow> walk n f (d @ [c]) cs))"

definition real_path :: "fs \<Rightarrow> path \<Rightarrow> path option" where
  "real_path f p = walk 40 f [] p"

text \<open>\<open>p / s\<close>, and the text of a relative path.\<close>

definition joinp :: "path \<Rightarrow> string \<Rightarrow> path" where
  "joinp p s = (if is_absolute s then pure_parts s else p @ pure_parts s)"

definition posix :: "path \<Rightarrow> string" where
  "posix p = (if p = [] then ''.'' else join ''/'' p)"

definition resolveE :: "fs \<Rightarrow> path \<Rightarrow> path res" where
  "resolveE f p = (case real_path f p of None \<Rightarrow> Inl (OSError ''symlink loop'') | Some q \<Rightarrow> Inr q)"

definition stat :: "fs \<Rightarrow> path \<Rightarrow> node option" where
  "stat f p = (case real_path f p of None \<Rightarrow> None | Some q \<Rightarrow> look f q)"

fun node_is_file :: "node option \<Rightarrow> bool" where
  "node_is_file (Some (NFile _ _)) = True"
| "node_is_file _ = False"

definition is_file :: "fs \<Rightarrow> path \<Rightarrow> bool" where
  "is_file f p = node_is_file (stat f p)"

definition is_dir :: "fs \<Rightarrow> path \<Rightarrow> bool" where
  "is_dir f p = (stat f p = Some NDir)"

definition path_exists :: "fs \<Rightarrow> path \<Rightarrow> bool" where
  "path_exists f p = (stat f p \<noteq> None)"

text \<open>\<open>p.is_symlink()\<close>: the directory of \<open>p\<close> is followed, its last component is not.\<close>

definition is_symlink :: "fs \<Rightarrow> path \<Rightarrow> bool" where
  "is_symlink f p = (case real_path f (butlast p) of None \<Rightarrow> False
     | Some d \<Rightarrow> (case look f (d @ [path_name p]) of Some (NLink _) \<Rightarrow> p \<noteq> [] | _ \<Rightarrow> False))"

text \<open>\<open>p.is_relative_to(d)\<close>.\<close>

definition is_relative_to :: "path \<Rightarrow> path \<Rightarrow> bool" where
  "is_relative_to p d = prefix d p"

definition read_bytes :: "fs \<Rightarrow> path \<Rightarrow> string res" where
  "read_bytes f p = (case stat f p of Some (NFile s m) \<Rightarrow> Inr s | _ \<Rightarrow> Inl (OSError (path_name p)))"

definition file_size :: "fs \<Rightarrow> path \<Rightarrow> nat res" where
  "file_size f p = bindE (read_bytes f p) (\<lambda>s. Inr (length s))"

text \<open>\<open>sorted(p for p in d.rglob('*'))\<close>, relative to \<open>d\<close>: links are listed, not entered.\<close>

definition rglob :: "fs \<Rightarrow> path \<Rightarrow> path list" where
  "rglob f d = (case real_path f d of None \<Rightarrow> []
     | Some e \<Rightarrow> sort (remdups (map (drop (length e)) (filter (\<lambda>q. strict_prefix e q) (map fst f)))))"

definition suffix_is :: "string \<Rightarrow> path \<Rightarrow> bool" where
  "suffix_is w p = endswith (path_name p) w"

text \<open>\<open>[q.name for q in sorted(d.iterdir())]\<close>.\<close>

definition iterdir :: "fs \<Rightarrow> path \<Rightarrow> string list" where
  "iterdir f d = map path_name (filter (\<lambda>q. length q = 1) (rglob f d))"

subsection \<open>Writing\<close>

text \<open>A write goes to the file the path leads to; its directory must exist.\<close>

definition fs_put :: "fs \<Rightarrow> path \<Rightarrow> node \<Rightarrow> fs" where
  "fs_put f p n = AList.update p n f"

definition write_bytes :: "fs \<Rightarrow> path \<Rightarrow> string \<Rightarrow> fs res" where
  "write_bytes f p s = (case real_path f p of
      None \<Rightarrow> Inl (OSError (path_name p))
    | Some q \<Rightarrow> (case look f q of
         Some NDir \<Rightarrow> Inl (OSError (path_name p))
       | Some (NFile _ m) \<Rightarrow> Inr (fs_put f q (NFile s m))
       | _ \<Rightarrow> if look f (butlast q) = Some NDir then Inr (fs_put f q (NFile s 420))
             else Inl (OSError (path_name p))))"

text \<open>\<open>p.mkdir(parents=True, exist_ok=True)\<close>: every missing directory on the way.\<close>

fun mkdirs :: "fs \<Rightarrow> path \<Rightarrow> path \<Rightarrow> fs res" where
  "mkdirs f d [] = Inr f"
| "mkdirs f d (c # cs) = (case look f (d @ [c]) of
      None \<Rightarrow> mkdirs (fs_put f (d @ [c]) NDir) (d @ [c]) cs
    | Some NDir \<Rightarrow> mkdirs f (d @ [c]) cs
    | _ \<Rightarrow> Inl (OSError c))"

definition mkdir_p :: "fs \<Rightarrow> path \<Rightarrow> fs res" where
  "mkdir_p f p = bindE (resolveE f p) (\<lambda>q. mkdirs f [] q)"

text \<open>\<open>p.mkdir()\<close>: the path must not exist, its directory must.\<close>

definition mkdir_new :: "fs \<Rightarrow> path \<Rightarrow> fs res" where
  "mkdir_new f p = (if path_exists f p \<or> is_symlink f p \<or> \<not> is_dir f (butlast p) then Inl (OSError (path_name p))
     else bindE (resolveE f p) (\<lambda>q. Inr (fs_put f q NDir)))"

text \<open>\<open>p.open('xb')\<close> and writing: exclusive creation.\<close>

definition create_bytes :: "fs \<Rightarrow> path \<Rightarrow> string \<Rightarrow> fs res" where
  "create_bytes f p s = (if path_exists f p \<or> is_symlink f p then Inl (OSError (path_name p)) else write_bytes f p s)"

definition unlink :: "fs \<Rightarrow> path \<Rightarrow> fs res" where
  "unlink f p = (case real_path f (butlast p) of
      None \<Rightarrow> Inl (OSError (path_name p))
    | Some d \<Rightarrow> (case look f (d @ [path_name p]) of
         Some (NFile _ _) \<Rightarrow> Inr (AList.delete (d @ [path_name p]) f)
       | Some (NLink _) \<Rightarrow> Inr (AList.delete (d @ [path_name p]) f)
       | _ \<Rightarrow> Inl (OSError (path_name p))))"

definition chmod :: "fs \<Rightarrow> path \<Rightarrow> nat \<Rightarrow> fs res" where
  "chmod f p m = (case real_path f p of None \<Rightarrow> Inl (OSError (path_name p))
     | Some q \<Rightarrow> (case look f q of Some (NFile s _) \<Rightarrow> Inr (fs_put f q (NFile s m))
        | _ \<Rightarrow> Inl (OSError (path_name p))))"

text \<open>\<open>p.replace(q)\<close> of a file or a link: the name moves, an existing file is replaced.\<close>

definition replace_path :: "fs \<Rightarrow> path \<Rightarrow> path \<Rightarrow> fs res" where
  "replace_path f p q = (case (real_path f (butlast p), real_path f (butlast q)) of
      (Some d, Some e) \<Rightarrow>
        (let src = d @ [path_name p]; dst = e @ [path_name q] in
         case look f src of
           None \<Rightarrow> Inl (OSError (path_name p))
         | Some NDir \<Rightarrow> Inl (OSError (path_name p))
         | Some n \<Rightarrow>
             if look f e \<noteq> Some NDir \<or> look f dst = Some NDir then Inl (OSError (path_name q))
             else if src = dst then Inr f else Inr (fs_put (AList.delete src f) dst n))
    | _ \<Rightarrow> Inl (OSError (path_name p)))"

definition with_suffix :: "path \<Rightarrow> string \<Rightarrow> path" where
  "with_suffix p w = butlast p @ [name_stem (path_name p) @ w]"

section \<open>Laws\<close>

lemma look_fs_put: "p \<noteq> [] \<Longrightarrow> look (fs_put f p n) q = (if q = p then Some n else look f q)"
  by (simp add: look_def fs_put_def update_conv')

lemma look_delete: "p \<noteq> [] \<Longrightarrow> look (AList.delete p f) q = (if q = p then None else look f q)"
  by (simp add: look_def delete_conv')

text \<open>No link lies on the way to a path: then the path is its own real path.\<close>

definition plain_name :: "string \<Rightarrow> bool" where
  "plain_name c = (c \<noteq> [] \<and> c \<noteq> ''.'' \<and> c \<noteq> ''..'')"

definition no_links :: "fs \<Rightarrow> bool" where
  "no_links f = (\<forall>p t. look f p \<noteq> Some (NLink t))"

lemma walk_plain:
  "no_links f \<Longrightarrow> list_all plain_name p \<Longrightarrow> walk n f d p = Some (d @ p)"
proof (induction p arbitrary: d)
  case (Cons c p)
  have "look f (d @ [c]) \<noteq> Some (NLink t)" for t using Cons.prems by (simp add: no_links_def)
  with Cons show ?case
    by (auto simp: plain_name_def split: option.split node.split)
qed simp

text \<open>Without links the resolution of a path does not look at the file system.\<close>

lemma walk_no_links_Cons:
  assumes "no_links f"
  shows "walk n f d (c # cs) = walk n f (if c = ''..'' then butlast d else if c = ''.'' \<or> c = [] then d else d @ [c]) cs"
proof (cases "look f (d @ [c])")
  case (Some nd)
  then show ?thesis using assms by (cases nd) (simp_all add: no_links_def)
qed simp

lemma walk_no_links: "no_links f \<Longrightarrow> no_links g \<Longrightarrow> walk n f d p = walk n g d p"
proof (induction p arbitrary: d)
  case (Cons c p)
  show ?case
    unfolding walk_no_links_Cons [OF Cons.prems(1)] walk_no_links_Cons [OF Cons.prems(2)]
    by (rule Cons.IH [OF Cons.prems])
qed simp

lemma real_path_no_links: "no_links f \<Longrightarrow> no_links g \<Longrightarrow> real_path f p = real_path g p"
  unfolding real_path_def by (rule walk_no_links)

lemma list_all_butlast: "list_all P xs \<Longrightarrow> list_all P (butlast xs)"
  by (auto simp: list_all_iff dest: in_set_butlastD)

lemma real_path_plain: "no_links f \<Longrightarrow> list_all plain_name p \<Longrightarrow> real_path f p = Some p"
  by (simp add: real_path_def walk_plain)

lemma stat_plain: "no_links f \<Longrightarrow> list_all plain_name p \<Longrightarrow> stat f p = look f p"
  by (simp add: stat_def real_path_plain)

lemma no_links_fs_put: "no_links f \<Longrightarrow> (\<And>t. n \<noteq> NLink t) \<Longrightarrow> p \<noteq> [] \<Longrightarrow> no_links (fs_put f p n)"
  by (simp add: no_links_def look_fs_put)

lemma write_bytes_plain:
  assumes "no_links f" "list_all plain_name p" "p \<noteq> []" "write_bytes f p s = Inr g"
  shows "\<exists>m. g = fs_put f p (NFile s m) \<and> look f p \<noteq> Some NDir"
  using assms by (auto simp: write_bytes_def real_path_plain split: option.splits node.splits if_splits)

lemma write_then_read:
  assumes "no_links f" "list_all plain_name p" "p \<noteq> []" "write_bytes f p s = Inr g"
  shows "read_bytes g p = Inr s" "no_links g"
proof -
  from write_bytes_plain [OF assms] obtain m where g: "g = fs_put f p (NFile s m)" by blast
  with assms show "no_links g" by (simp add: no_links_fs_put)
  then have "stat g p = look g p" using assms by (simp add: stat_plain)
  with g assms show "read_bytes g p = Inr s" by (simp add: read_bytes_def look_fs_put)
qed

text \<open>What each operation does to a file system without links, as an update of one path.\<close>

lemma mkdirs_look:
  "mkdirs f d cs = Inr g \<Longrightarrow>
     look g p = (if look f p = None \<and> strict_prefix d p \<and> prefix p (d @ cs) then Some NDir else look f p)"
proof (induction f d cs arbitrary: g rule: mkdirs.induct)
  case (1 f d)
  then show ?case by (auto simp: strict_prefix_def dest: prefix_order.antisym)
next
  case (2 f d c cs)
  have pre: "strict_prefix d p \<and> prefix p (d @ c # cs) \<longleftrightarrow>
      p = d @ [c] \<or> strict_prefix (d @ [c]) p \<and> prefix p ((d @ [c]) @ cs)"
  proof (cases "strict_prefix d p")
    case True
    then obtain e es where p: "p = d @ e # es" by (auto elim: strict_prefixE')
    show ?thesis unfolding p strict_prefix_def by (cases es) auto
  next
    case False
    then have "\<not> strict_prefix (d @ [c]) p" "p \<noteq> d @ [c]"
      by (auto simp: strict_prefix_def dest: append_prefixD)
    with False show ?thesis by blast
  qed
  show ?case
  proof (cases "look f (d @ [c])")
    case None
    with 2 have "mkdirs (fs_put f (d @ [c]) NDir) (d @ [c]) cs = Inr g" by simp
    from 2(1) [OF None this] None pre show ?thesis by (auto simp: look_fs_put)
  next
    case (Some n)
    with 2(3) have n: "n = NDir" "mkdirs f (d @ [c]) cs = Inr g" by (auto split: node.splits)
    from 2(2) [OF Some n] Some n pre show ?thesis by auto
  qed
qed

lemma no_links_mkdirs: "mkdirs f d cs = Inr g \<Longrightarrow> no_links f \<Longrightarrow> no_links g"
  by (simp add: no_links_def mkdirs_look)

lemma mkdir_p_plain:
  "no_links f \<Longrightarrow> list_all plain_name p \<Longrightarrow> mkdir_p f p = mkdirs f [] p"
  by (simp add: mkdir_p_def resolveE_def real_path_plain)

lemma not_symlink_plain: "no_links f \<Longrightarrow> list_all plain_name p \<Longrightarrow> \<not> is_symlink f p"
proof -
  assume a: "no_links f" "list_all plain_name p"
  then have "list_all plain_name (butlast p)" by (auto simp: list_all_iff dest: in_set_butlastD)
  with a show "\<not> is_symlink f p"
    by (auto simp: is_symlink_def real_path_plain no_links_def split: option.splits node.splits)
qed

lemma create_bytes_plain:
  assumes "no_links f" "list_all plain_name p" "p \<noteq> []" "create_bytes f p s = Inr g"
  shows "g = fs_put f p (NFile s 420)" "look f p = None" "no_links g"
proof -
  have "look f p = None" "write_bytes f p s = Inr g"
    using assms by (auto simp: create_bytes_def path_exists_def stat_plain split: if_splits)
  with assms show "g = fs_put f p (NFile s 420)" "look f p = None"
    by (auto simp: write_bytes_def real_path_plain split: if_splits)
  then show "no_links g" using assms by (simp add: no_links_fs_put)
qed

lemma chmod_plain:
  assumes "no_links f" "list_all plain_name p" "p \<noteq> []" "chmod f p m = Inr g"
  shows "\<exists>s n. look f p = Some (NFile s n) \<and> g = fs_put f p (NFile s m)"
  using assms by (auto simp: chmod_def real_path_plain split: option.splits node.splits)

lemma mkdir_new_plain:
  assumes "no_links f" "list_all plain_name p" "p \<noteq> []" "mkdir_new f p = Inr g"
  shows "g = fs_put f p NDir" "look f p = None" "look f (butlast p) = Some NDir"
proof -
  have "list_all plain_name (butlast p)" using assms(2) by (auto simp: list_all_iff dest: in_set_butlastD)
  with assms show "g = fs_put f p NDir" "look f p = None" "look f (butlast p) = Some NDir"
    by (auto simp: mkdir_new_def path_exists_def is_dir_def stat_plain resolveE_def real_path_plain split: if_splits)
qed

text \<open>A file system in which every entry lies in a directory.\<close>

definition is_tree :: "fs \<Rightarrow> bool" where
  "is_tree f = (\<forall>p. p \<noteq> [] \<longrightarrow> look f p \<noteq> None \<longrightarrow> look f (butlast p) = Some NDir)"

lemma is_tree_prefix:
  "is_tree f \<Longrightarrow> look f p = Some NDir \<Longrightarrow> prefix q p \<Longrightarrow> look f q = Some NDir"
proof (induction p arbitrary: q rule: rev_induct)
  case (snoc c p)
  from snoc.prems(1) have "p @ [c] \<noteq> [] \<longrightarrow> look f (p @ [c]) \<noteq> None \<longrightarrow> look f (butlast (p @ [c])) = Some NDir"
    unfolding is_tree_def by blast
  then have "look f p = Some NDir" using snoc.prems(2) by simp
  from snoc.IH [OF snoc.prems(1) this] snoc.prems(2,3) show ?case by (auto simp: prefix_snoc)
qed simp

text \<open>A resolved path that stays below a directory: what the containment checks establish.\<close>

lemma pure_parts_plain: "c \<in> set (pure_parts s) \<Longrightarrow> c \<noteq> [] \<and> c \<noteq> ''.''"
  by (simp add: pure_parts_def)

lemma strict_prefix_longer: "strict_prefix e q \<Longrightarrow> \<not> length q \<le> length e"
  by (auto dest: prefix_length_less)

lemma rglob_nonempty: "q \<in> set (rglob f d) \<Longrightarrow> q \<noteq> []"
  by (auto simp: rglob_def dest: strict_prefix_longer split: option.splits)

lemma rglob_sorted: "sorted (rglob f d)" "distinct (rglob f d)"
  by (auto simp: rglob_def split: option.splits)

lemma set_rglob_plain:
  assumes "no_links f" "list_all plain_name d"
  shows "set (rglob f d) = drop (length d) ` {q \<in> fst ` set f. strict_prefix d q}"
  by (simp add: rglob_def real_path_plain [OF assms])

lemma rglob_plain_iff:
  assumes "no_links f" "list_all plain_name d"
  shows "r \<in> set (rglob f d) \<longleftrightarrow> r \<noteq> [] \<and> look f (d @ r) \<noteq> None"
proof -
  have "r \<in> set (rglob f d) \<longleftrightarrow> r \<noteq> [] \<and> d @ r \<in> fst ` set f"
  proof
    assume "r \<in> set (rglob f d)"
    then show "r \<noteq> [] \<and> d @ r \<in> fst ` set f"
      unfolding set_rglob_plain [OF assms] by (auto simp: strict_prefix_def prefix_def intro: rev_image_eqI)
  next
    assume r: "r \<noteq> [] \<and> d @ r \<in> fst ` set f"
    then have "d @ r \<in> {q \<in> fst ` set f. strict_prefix d q}" by (simp add: strict_prefix_def)
    then show "r \<in> set (rglob f d)" unfolding set_rglob_plain [OF assms] by (rule image_eqI [rotated]) simp
  qed
  also have "\<dots> \<longleftrightarrow> r \<noteq> [] \<and> look f (d @ r) \<noteq> None" using map_of_eq_None_iff [of f "d @ r"] by (auto simp only: look_def append_is_Nil_conv if_False split: if_split)
  finally show ?thesis .
qed

lemma is_tree_free: "is_tree f \<Longrightarrow> look f p = None \<Longrightarrow> prefix p q \<Longrightarrow> look f q = None"
proof (induction q rule: rev_induct)
  case (snoc c q)
  show ?case
  proof (cases "p = q @ [c]")
    case False
    with snoc.prems(3) have "prefix p q" by simp
    with snoc have "look f q = None" by blast
    then show ?thesis using snoc.prems(1) unfolding is_tree_def by (metis butlast_snoc option.distinct(1) snoc_eq_iff_butlast)
  qed (use snoc.prems(2) in simp)
qed simp

text \<open>When the operations succeed: a directory can be made when nothing but directories is on the way.\<close>

lemma mkdirs_total:
  "\<forall>q. strict_prefix d q \<longrightarrow> prefix q (d @ cs) \<longrightarrow> look f q \<in> {None, Some NDir} \<Longrightarrow> \<exists>g. mkdirs f d cs = Inr g"
proof (induction f d cs rule: mkdirs.induct)
  case (2 f d c cs)
  have here: "look f (d @ [c]) \<in> {None, Some NDir}" using 2(3) by (simp add: strict_prefix_def)
  have rest: "look f q \<in> {None, Some NDir}" if "strict_prefix (d @ [c]) q" "prefix q ((d @ [c]) @ cs)" for q
  proof -
    have "strict_prefix d q" using that(1) by (auto simp: strict_prefix_def prefix_def)
    then show ?thesis using 2(3) that(2) by auto
  qed
  show ?case
  proof (cases "look f (d @ [c])")
    case None
    then show ?thesis using 2(1) [OF None] rest by (auto simp: look_fs_put)
  next
    case (Some n)
    then have n: "n = NDir" using here by simp
    from 2(2) [OF Some n] rest have "\<exists>g. mkdirs f (d @ [c]) cs = Inr g" by auto
    then show ?thesis using Some n by simp
  qed
qed simp

definition makeable :: "fs \<Rightarrow> path \<Rightarrow> bool" where
  "makeable f p \<longleftrightarrow> list_all (\<lambda>k. look f (take k p) \<in> {None, Some NDir}) [0..<Suc (length p)]"

lemma makeable_prefix: "makeable f p \<longleftrightarrow> (\<forall>q. prefix q p \<longrightarrow> look f q \<in> {None, Some NDir})"
proof
  assume m: "makeable f p"
  show "\<forall>q. prefix q p \<longrightarrow> look f q \<in> {None, Some NDir}"
  proof (intro allI impI)
    fix q
    assume "prefix q p"
    then have q: "q = take (length q) p" "length q \<le> length p" by (auto simp: prefix_def)
    from q(2) have "length q \<in> set [0..<Suc (length p)]" by auto
    with m have "look f (take (length q) p) \<in> {None, Some NDir}" unfolding makeable_def list_all_iff by blast
    with q(1) show "look f q \<in> {None, Some NDir}" by simp
  qed
qed (simp add: makeable_def list_all_iff take_is_prefix)

lemma mkdir_p_total:
  assumes "no_links f" "list_all plain_name p" "makeable f p"
  shows "\<exists>g. mkdir_p f p = Inr g \<and> no_links g \<and>
     (\<forall>r. look g r = (if look f r = None \<and> r \<noteq> [] \<and> prefix r p then Some NDir else look f r)) \<and> look g p = Some NDir"
proof -
  obtain g where g: "mkdirs f [] p = Inr g" using mkdirs_total [of "[]" p f] assms(3) by (auto simp: makeable_prefix)
  have l: "look g r = (if look f r = None \<and> r \<noteq> [] \<and> prefix r p then Some NDir else look f r)" for r
    by (simp add: mkdirs_look [OF g] strict_prefix_def)
  moreover have "look g p = Some NDir"
  proof (cases "p = []")
    case False
    have "look f p \<in> {None, Some NDir}" using assms(3) by (simp add: makeable_prefix)
    with False l [of p] show ?thesis by auto
  qed (simp add: look_def)
  ultimately show ?thesis using g no_links_mkdirs [OF g assms(1)] assms(1,2) by (auto simp: mkdir_p_plain)
qed

lemma mkdir_new_total:
  assumes "no_links f" "list_all plain_name p" "look f p = None" "look f (butlast p) = Some NDir"
  shows "mkdir_new f p = Inr (fs_put f p NDir)"
  using assms list_all_butlast [OF assms(2)]
  by (simp add: mkdir_new_def path_exists_def is_dir_def stat_plain not_symlink_plain resolveE_def real_path_plain)

end
