(* ===== verification/CompilerLayout.thy ===== *)
theory CompilerLayout
  imports PyPath
begin

text \<open>
  \<open>tools/compiler_layout.py\<close>: the ownership check of the compiler's source tree. Every module has
  a responsibility group given by its directory, every import of a production module must stay
  within the groups its own group may use, and test code stays out of production code. The check
  walks the file system, builds the module table and reports a list of errors.
\<close>

section \<open>Groups, owners, exceptions\<close>

definition GROUPS :: "(string \<times> string list) list" where
  "GROUPS = [
    (''support'', [''support'']),
    (''state'', [''state'', ''support'', ''frontend/types'', ''mir'']),
    (''frontend/types'', [''frontend/types'', ''frontend/resolution'', ''state'', ''support'']),
    (''frontend/syntax'', [''frontend/syntax'', ''frontend/types'', ''frontend/resolution'', ''state'', ''support'']),
    (''frontend/resolution'', [''frontend/resolution'', ''frontend/types'', ''frontend/syntax'', ''frontend/providers'', ''state'', ''support'', ''mir'', ''project'']),
    (''frontend/checking'', [''frontend/checking'', ''frontend/types'', ''frontend/resolution'', ''frontend/syntax'', ''frontend/providers'', ''state'', ''support'', ''mir'', ''project'']),
    (''frontend/providers'', [''frontend/providers'', ''frontend/types'', ''frontend/resolution'', ''frontend/syntax'', ''state'', ''support'', ''project'']),
    (''mir'', [''mir'', ''frontend/checking'', ''frontend/types'', ''frontend/syntax'', ''frontend/resolution'', ''state'', ''support'']),
    (''backend/qbe'', [''backend/qbe'', ''mir'', ''state'', ''support'', ''frontend/types'']),
    (''project'', [''project'', ''support'', ''frontend/syntax'', ''frontend/providers'', ''state''])]"

definition group_deps :: "string \<Rightarrow> string list" where
  "group_deps g = (case map_of GROUPS g of None \<Rightarrow> [] | Some ds \<Rightarrow> ds)"

definition is_group :: "string \<Rightarrow> bool" where
  "is_group g = (g \<in> set (map fst GROUPS))"

definition OWNED_CHILDREN :: "(string \<times> string list) list" where
  "OWNED_CHILDREN = [
    (''frontend/checking'', [''body'', ''program'', ''builtins'', ''nominal'', ''collections'']),
    (''mir'', [''model'', ''build'', ''lowering'', ''analysis'', ''passes'', ''verify'']),
    (''backend/qbe'', [''emit'', ''runtime''])]"

definition DIRECTORY_OWNERS :: "(string \<times> string) list" where
  "DIRECTORY_OWNERS = map (\<lambda>(g, _). (g, g)) GROUPS @
     concat (map (\<lambda>(owner, children). map (\<lambda>c. (owner @ ''/'' @ c, owner)) children) OWNED_CHILDREN)"

definition EXCEPTIONS :: "(string \<times> string) list" where
  "EXCEPTIONS = [
    (''backend/qbe/emit/constants'', ''frontend/resolution/entry_resolution''),
    (''frontend/types/transform_model'', ''frontend/syntax/iteration_syntax''),
    (''frontend/types/transform_model'', ''mir/model/iteration''),
    (''state/source_state'', ''frontend/syntax/iteration_syntax'')]"

definition IMPORT_LAYOUT :: rx where
  "IMPORT_LAYOUT = seqs [lit ''import '',
     ropt (seqs [lit ''{'', Star (NCls (one_cls (CHR ''}''))), lit ''} from '']),
     Grp 1 (Seq (Cls lower_cls) (Star (Cls (lower_cls @ digit_cls @ chr_cls ''_/'')))),
     ropt (seqs [lit '' as '', Cls (upper_cls @ lower_cls @ one_cls (CHR ''_'')), Star (Cls (upper_cls @ lower_cls @ digit_cls @ one_cls (CHR ''_'')))]),
     ropt (seqs [Star (Cls space_cls), lit ''#'', Star Dot])]"

section \<open>The import header of a module\<close>

text \<open>The loop of \<open>import_header\<close> over the numbered lines: blank and comment lines are skipped,
  the first other line that is no import ends the header.\<close>

fun import_header_from :: "nat \<Rightarrow> string list \<Rightarrow> (nat \<times> string) list res" where
  "import_header_from n [] = Inr []"
| "import_header_from n (line # ls) =
     (if strip line = [] \<or> startswith line ''#'' then import_header_from (Suc n) ls
      else if \<not> startswith line ''import '' then Inr []
      else (case fullmatch_groups IMPORT_LAYOUT line of
          None \<Rightarrow> Inl (ValueError (''unsupported import header on line '' @ show_nat n @ '': '' @ line))
        | Some gs \<Rightarrow> bindE (import_header_from (Suc n) ls)
            (\<lambda>rs. Inr ((n, case grp 1 gs of None \<Rightarrow> [] | Some t \<Rightarrow> t) # rs))))"

definition import_header :: "string \<Rightarrow> (nat \<times> string) list res" where
  "import_header source = import_header_from 1 (splitlines source)"

text \<open>A suite must name a production module beside it: its stem without \<open>_test\<close> is that of the
  module, possibly followed by an underscore and a concern.\<close>

definition test_suffix :: string where "test_suffix = ''_test''"

definition unit_test_owner :: "fs \<Rightarrow> path \<Rightarrow> bool" where
  "unit_test_owner f p =
     (let stem = removesuffix (name_stem (path_name p)) test_suffix
      in list_ex (\<lambda>source. \<not> endswith (name_stem source) test_suffix \<and>
            (stem = name_stem source \<or> startswith stem (name_stem source @ ''_'')))
          (filter (\<lambda>n. endswith n ''.trb'') (iterdir f (butlast p))))"

section \<open>The module table\<close>

record modinfo =
  mod_path :: path
  mod_group :: string
  mod_test :: bool
  mod_area :: string

type_synonym modtable = "(string \<times> modinfo) list"

definition module_group :: "string \<Rightarrow> path \<Rightarrow> string" where
  "module_group area rel =
     (let name = module_of_path rel;
          owner = posix (butlast rel);
          g0 = (if area = ''cli'' then ''cli''
                else (case map_of DIRECTORY_OWNERS owner of None \<Rightarrow> owner | Some g \<Rightarrow> g));
          g1 = (if hd rel = ''testing'' \<or> hd rel = ''tests'' then hd rel else g0)
      in if g1 = ''.'' \<and> (name = ''compiler'' \<or> endswith name test_suffix) then ''entry'' else g1)"

definition module_label :: "string \<Rightarrow> path \<Rightarrow> string" where
  "module_label area rel = ''compiler/'' @ area @ ''/'' @ posix rel"

definition add_module :: "fs \<Rightarrow> path \<Rightarrow> string \<Rightarrow> string list \<times> modtable \<Rightarrow> path \<Rightarrow> (string list \<times> modtable) res" where
  "add_module f repo area st rel =
     (let (errors, modules) = st;
          directory = repo @ [''compiler'', area];
          p = directory @ rel;
          name = module_of_path rel;
          label = module_label area rel
      in bindE (if is_symlink f p then Inr True
                else bindE (resolveE f p) (\<lambda>q. bindE (resolveE f directory) (\<lambda>d. Inr (\<not> is_relative_to q d))))
         (\<lambda>outside.
           if outside then Inr (errors @ [label @ '': source must stay inside its declared repo''], modules)
           else if name \<in> set (map fst modules)
           then Inr (errors @ [label @ '': duplicate composed module '' @ name], modules)
           else
             (let g = module_group area rel;
                  e1 = (if \<not> is_group g \<and> g \<notin> {''entry'', ''cli'', ''testing'', ''tests''}
                        then [label @ '': missing responsibility owner''] else []);
                  e2 = (if g = ''tests'' \<and> \<not> endswith name test_suffix
                        then [label @ '': test cases require the _test suffix; helpers belong in testing''] else [])
              in Inr (errors @ e1 @ e2, modules @
                   [(name, \<lparr>mod_path = p, mod_group = g, mod_test = endswith name test_suffix, mod_area = area\<rparr>)]))))"

definition load_modules :: "fs \<Rightarrow> path \<Rightarrow> (string list \<times> modtable) res" where
  "load_modules f repo =
     foldE (\<lambda>st area. foldE (add_module f repo area) st
        (filter (suffix_is ''.trb'') (rglob f (repo @ [''compiler'', area])))) ([], []) [''src'', ''cli'']"

section \<open>The rules for one import\<close>

definition registers_cases :: "string \<Rightarrow> bool" where
  "registers_cases declaration =
     (search (seqs [WordB, Alt (lit ''describe'') (lit ''test''), WordB])
        (hd (split_str '' from '' declaration)) \<noteq> None)"

text \<open>An import of the standard library: only the test library is restricted.\<close>

definition std_import_errors :: "string \<Rightarrow> bool \<Rightarrow> string \<Rightarrow> string \<Rightarrow> string \<Rightarrow> string list" where
  "std_import_errors loc test g target declaration =
     (if target = ''trb/std/test'' \<and> \<not> test \<and> g \<noteq> ''testing''
      then [loc @ '': production code imports test support''] else []) @
     (if target = ''trb/std/test'' \<and> g = ''testing'' \<and> registers_cases declaration
      then [loc @ '': test helpers cannot register cases''] else [])"

definition import_errors :: "modtable \<Rightarrow> string \<Rightarrow> string \<Rightarrow> modinfo \<Rightarrow> string \<Rightarrow> string list" where
  "import_errors modules loc name m target =
     (case map_of modules target of
        None \<Rightarrow> [loc @ '': missing composed module '' @ target]
      | Some t \<Rightarrow>
          if mod_area m = ''src'' \<and> mod_area t = ''cli''
          then [loc @ '': core cannot depend on CLI module '' @ target]
          else if mod_test t then [loc @ '': test modules cannot be imported ('' @ target @ '')'']
          else if \<not> mod_test m \<and> mod_group m \<noteq> ''testing'' \<and> mod_group t = ''testing''
          then [loc @ '': production code imports testing helper '' @ target]
          else if mod_test m \<or> mod_group m \<in> {''entry'', ''cli'', ''testing''} then []
          else if mod_group t \<notin> set (group_deps (mod_group m)) \<and> (name, target) \<notin> set EXCEPTIONS
          then [loc @ '': forbidden responsibility dependency '' @ mod_group m @ '' -> '' @ mod_group t @ '' ('' @ target @ '')'']
          else [])"

text \<open>The errors of all imports of one module, and how many of them name composed modules.\<close>

definition all_import_errors :: "modtable \<Rightarrow> string \<Rightarrow> string \<Rightarrow> modinfo \<Rightarrow> string \<Rightarrow> (nat \<times> string) list \<Rightarrow> string list" where
  "all_import_errors modules label name m source imports =
     concat (map (\<lambda>(line, target).
       (let loc = label @ '':'' @ show_nat line in
        if startswith target ''trb/''
        then std_import_errors loc (mod_test m) (mod_group m) target (splitlines source ! (line - 1))
        else import_errors modules loc name m target)) imports)"

definition edges_of :: "(nat \<times> string) list \<Rightarrow> nat" where
  "edges_of imports = length (filter (\<lambda>(line, target). \<not> startswith target ''trb/'') imports)"

text \<open>One module: its errors are appended, its edges counted.\<close>

definition check_module :: "fs \<Rightarrow> path \<Rightarrow> modtable \<Rightarrow> string list \<times> nat \<Rightarrow> string \<times> modinfo \<Rightarrow> (string list \<times> nat) res" where
  "check_module f repo modules st nm =
     (let (errors, edges) = st; (name, m) = nm;
          label = posix (drop (length repo) (mod_path m));
          e0 = (if mod_test m \<and> mod_group m \<notin> {''tests'', ''testing''} \<and> \<not> unit_test_owner f (mod_path m)
                then [label @ '': unit test must name a colocated production owner; system/feature suites belong in tests''] else [])
      in bindE (read_bytes f (mod_path m)) (\<lambda>source.
         (case import_header source of
            Inl (ValueError msg) \<Rightarrow> Inr (errors @ e0 @ [label @ '': '' @ msg], edges)
          | Inl e \<Rightarrow> Inl e
          | Inr imports \<Rightarrow>
              Inr (errors @ e0 @ all_import_errors modules label name m source imports, edges + edges_of imports))))"

definition check_modules :: "fs \<Rightarrow> path \<Rightarrow> modtable \<Rightarrow> string list \<Rightarrow> (string list \<times> nat) res" where
  "check_modules f repo modules errors = foldE (check_module f repo modules) (errors, 0) modules"

section \<open>The independent recovery tree\<close>

definition RECOVERY_OWNERS :: "string list" where
  "RECOVERY_OWNERS = [''snapshot'', ''scalar'', ''aggregate'', ''managed'', ''compiler'', ''driver'',
     ''support'', ''testing'', ''tests'']"

definition add_recovery_module :: "fs \<Rightarrow> path \<Rightarrow> string list \<times> modtable \<Rightarrow> path \<Rightarrow> (string list \<times> modtable) res" where
  "add_recovery_module f repo st rel =
     (let (errors, modules) = st;
          directory = repo @ [''recovery'', ''src''];
          p = directory @ rel;
          name = module_of_path rel;
          owner = hd rel;
          label = posix (drop (length repo) p)
      in bindE (if is_symlink f p then Inr True
                else bindE (resolveE f p) (\<lambda>q. bindE (resolveE f directory) (\<lambda>d. Inr (\<not> is_relative_to q d))))
         (\<lambda>outside.
           (let e1 = (if outside then [label @ '': recovery source escapes its root''] else []);
                e2 = (if owner \<notin> set RECOVERY_OWNERS then [label @ '': missing recovery responsibility owner''] else []);
                e3 = (if owner = ''tests'' \<and> \<not> endswith name test_suffix
                      then [label @ '': recovery helpers belong in testing''] else [])
            in Inr (errors @ e1 @ e2 @ e3, AList.update name
                 \<lparr>mod_path = p, mod_group = owner, mod_test = endswith name test_suffix, mod_area = ''recovery''\<rparr> modules))))"

definition recovery_import_errors :: "modtable \<Rightarrow> string \<Rightarrow> modinfo \<Rightarrow> string \<Rightarrow> string list" where
  "recovery_import_errors modules loc m target =
     (case map_of modules target of
        None \<Rightarrow> [loc @ '': recovery import outside its source root: '' @ target]
      | Some t \<Rightarrow>
          if mod_test t then [loc @ '': recovery test modules cannot be imported'']
          else if \<not> mod_test m \<and> mod_group m \<noteq> ''testing'' \<and> mod_group t = ''testing''
          then [loc @ '': recovery production imports testing helper''] else [])"

definition recovery_std_errors :: "string \<Rightarrow> bool \<Rightarrow> string \<Rightarrow> string \<Rightarrow> string \<Rightarrow> string list" where
  "recovery_std_errors loc test g target declaration =
     (if target = ''trb/std/test'' \<and> \<not> test \<and> g \<noteq> ''testing''
      then [loc @ '': recovery production imports test support''] else []) @
     (if target = ''trb/std/test'' \<and> g = ''testing'' \<and> registers_cases declaration
      then [loc @ '': recovery helpers cannot register cases''] else [])"

definition check_recovery_module :: "fs \<Rightarrow> path \<Rightarrow> modtable \<Rightarrow> string list \<Rightarrow> string \<times> modinfo \<Rightarrow> string list res" where
  "check_recovery_module f repo modules errors nm =
     (let (name, m) = nm;
          label = posix (drop (length repo) (mod_path m));
          e0 = (if mod_test m \<and> mod_group m \<notin> {''tests'', ''testing''} \<and> \<not> unit_test_owner f (mod_path m)
                then [label @ '': recovery unit test must name a colocated production owner''] else [])
      in bindE (read_bytes f (mod_path m)) (\<lambda>source.
         (case import_header source of
            Inl (ValueError msg) \<Rightarrow> Inr (errors @ e0 @ [label @ '': '' @ msg])
          | Inl e \<Rightarrow> Inl e
          | Inr imports \<Rightarrow>
              Inr (errors @ e0 @ concat (map (\<lambda>(line, target).
                (let loc = label @ '':'' @ show_nat line in
                 if startswith target ''trb/''
                 then recovery_std_errors loc (mod_test m) (mod_group m) target (splitlines source ! (line - 1))
                 else recovery_import_errors modules loc m target)) imports)))))"

definition check_recovery :: "fs \<Rightarrow> path \<Rightarrow> string list res" where
  "check_recovery f repo =
     bindE (foldE (add_recovery_module f repo) ([], [])
        (filter (suffix_is ''.trb'') (rglob f (repo @ [''recovery'', ''src''])))) (\<lambda>(errors, modules).
     foldE (check_recovery_module f repo modules) errors modules)"

section \<open>The check\<close>

text \<open>The errors, the number of modules and the number of imports of composed modules.\<close>

definition check_layout :: "fs \<Rightarrow> path \<Rightarrow> (string list \<times> nat \<times> nat) res" where
  "check_layout f repo =
     bindE (load_modules f repo) (\<lambda>(errors, modules).
     (let errors' = (if ''compiler'' \<notin> set (map fst modules)
                     then errors @ [''compiler/src/compiler.trb: missing compiler entry''] else errors)
      in bindE (check_modules f repo modules errors') (\<lambda>(es, edges).
         bindE (check_recovery f repo) (\<lambda>rs. Inr (es @ rs, length modules, edges)))))"

text \<open>\<open>main\<close>: the exit status and what is printed to the error stream or the output.\<close>

definition layout_main :: "fs \<Rightarrow> path \<Rightarrow> (nat \<times> string) res" where
  "layout_main f repo = bindE (check_layout f repo) (\<lambda>(errors, modules, edges).
     if errors \<noteq> [] then Inr (1, join [NL] errors)
     else Inr (0, ''Compiler ownership: '' @ show_nat modules @ '' modules, '' @ show_nat edges @
                  '' explicit imports; directory cycles allowed''))"

section \<open>What a clean check establishes\<close>

text \<open>The rule an import of a composed module obeys.\<close>

definition dependency_ok :: "modtable \<Rightarrow> string \<Rightarrow> modinfo \<Rightarrow> string \<Rightarrow> bool" where
  "dependency_ok modules name m target =
     (case map_of modules target of None \<Rightarrow> False
      | Some t \<Rightarrow> \<not> mod_test t \<and> (mod_area m = ''src'' \<longrightarrow> mod_area t \<noteq> ''cli'') \<and>
          (mod_group t = ''testing'' \<longrightarrow> mod_test m \<or> mod_group m = ''testing'') \<and>
          (mod_test m \<or> mod_group m \<in> {''entry'', ''cli'', ''testing''} \<or>
           mod_group t \<in> set (group_deps (mod_group m)) \<or> (name, target) \<in> set EXCEPTIONS))"

lemma import_errors_Nil_iff: "import_errors modules loc name m target = [] \<longleftrightarrow> dependency_ok modules name m target"
  by (auto simp: import_errors_def dependency_ok_def split: option.splits)

definition imports_of :: "fs \<Rightarrow> modinfo \<Rightarrow> string set" where
  "imports_of f m = (case read_bytes f (mod_path m) of Inl _ \<Rightarrow> {}
     | Inr source \<Rightarrow> (case import_header source of Inl _ \<Rightarrow> {}
        | Inr imps \<Rightarrow> set (filter (\<lambda>t. \<not> startswith t ''trb/'') (map snd imps))))"

lemma all_import_errors_Nil:
  assumes "all_import_errors modules label name m source imports = []"
    and "(line, t) \<in> set imports" "\<not> startswith t ''trb/''"
  shows "dependency_ok modules name m t"
proof -
  let ?loc = "label @ '':'' @ show_nat line"
  have "import_errors modules ?loc name m t = []"
    using assms unfolding all_import_errors_def concat_eq_Nil_conv by (force simp: Let_def)
  then show ?thesis by (simp only: import_errors_Nil_iff)
qed

lemma check_module_clean:
  assumes "check_module f repo modules (errors, k) (name, m) = Inr ([], e)"
  shows "errors = [] \<and> (\<forall>t \<in> imports_of f m. dependency_ok modules name m t)"
proof (cases "read_bytes f (mod_path m)")
  case (Inl x)
  with assms show ?thesis by (simp add: check_module_def Let_def)
next
  case src: (Inr source)
  show ?thesis
  proof (cases "import_header source")
    case (Inl err)
    with assms src show ?thesis by (cases err) (simp_all add: check_module_def Let_def)
  next
    case (Inr imps)
    with assms src have "errors = []"
      "all_import_errors modules (posix (drop (length repo) (mod_path m))) name m source imps = []"
      by (simp_all add: check_module_def Let_def)
    with src Inr show ?thesis
      by (auto simp: imports_of_def dest: all_import_errors_Nil)
  qed
qed

lemma check_modules_clean:
  assumes "foldE (check_module f repo modules) (errors, k) xs = Inr ([], e)"
  shows "errors = [] \<and> (\<forall>(name, m) \<in> set xs. \<forall>t \<in> imports_of f m. dependency_ok modules name m t)"
  using assms
proof (induction xs arbitrary: errors k)
  case (Cons x xs)
  obtain name m where x: "x = (name, m)" by (cases x)
  from Cons.prems x obtain errors' k' where step: "check_module f repo modules (errors, k) (name, m) = Inr (errors', k')"
    and more: "foldE (check_module f repo modules) (errors', k') xs = Inr ([], e)"
    by (auto simp: bindE_Inr_iff)
  from Cons.IH [OF more] have "errors' = []" and
    tail: "\<forall>(name, m) \<in> set xs. \<forall>t \<in> imports_of f m. dependency_ok modules name m t" by auto
  with step check_module_clean tail x show ?case by fastforce
qed simp

text \<open>Every entry of the module table was added under a new name.\<close>

definition entry_ok :: "string \<times> modinfo \<Rightarrow> bool" where
  "entry_ok nm = (mod_test (snd nm) = endswith (fst nm) test_suffix \<and> mod_area (snd nm) \<in> {''src'', ''cli''} \<and>
     (mod_area (snd nm) = ''cli'' \<longrightarrow> mod_group (snd nm) \<in> {''cli'', ''testing'', ''tests''}))"

definition table_ok :: "string list \<times> modtable \<Rightarrow> bool" where
  "table_ok st = (distinct (map fst (snd st)) \<and> list_all entry_ok (snd st))"

lemma module_group_cli: "module_group ''cli'' rel \<in> {''cli'', ''testing'', ''tests''}"
  by (simp add: module_group_def Let_def)

lemma add_module_cases:
  assumes "add_module f repo area (errors, modules) rel = Inr (errors', modules')"
  shows "modules' = modules \<or> module_of_path rel \<notin> set (map fst modules) \<and>
     modules' = modules @ [(module_of_path rel, \<lparr>mod_path = repo @ [''compiler'', area] @ rel,
        mod_group = module_group area rel, mod_test = endswith (module_of_path rel) test_suffix, mod_area = area\<rparr>)]"
proof -
  show ?thesis
    using assms unfolding add_module_def Let_def prod.case bindE_Inr_iff
    by (elim exE conjE) (simp split: if_split_asm)
qed

lemma add_module_ok:
  assumes "add_module f repo area st rel = Inr st'" "table_ok st" "area \<in> {''src'', ''cli''}"
  shows "table_ok st'"
proof -
  obtain errors modules errors' modules' where st: "st = (errors, modules)" "st' = (errors', modules')"
    by (cases st, cases st')
  let ?entry = "(module_of_path rel, \<lparr>mod_path = repo @ [''compiler'', area] @ rel,
        mod_group = module_group area rel, mod_test = endswith (module_of_path rel) test_suffix, mod_area = area\<rparr>)"
  have "entry_ok ?entry"
    using assms(3) module_group_cli [of rel] unfolding entry_ok_def by (simp del: insert_iff)
  with add_module_cases [OF assms(1) [unfolded st]] assms(2) show ?thesis
    unfolding st table_ok_def by auto
qed

lemma load_modules_ok:
  assumes "load_modules f repo = Inr st"
  shows "table_ok st"
proof -
  have step: "table_ok v" if "area \<in> set [''src'', ''cli'']" "table_ok u"
    "foldE (add_module f repo area) u (filter (suffix_is ''.trb'') (rglob f (repo @ [''compiler'', area]))) = Inr v"
    for u area v
    using that(3,2)
  proof (rule foldE_invariant [where P = table_ok])
    fix u x v assume u: "table_ok u" and v: "add_module f repo area u x = Inr v"
    show "table_ok v" using that(1) by (intro add_module_ok [OF v u]) simp
  qed
  show ?thesis
    using assms unfolding load_modules_def
  proof (rule foldE_invariant [where P = table_ok])
    show "table_ok ([], [])" by (simp add: table_ok_def)
  next
    fix u area v
    assume "area \<in> set [''src'', ''cli'']" "table_ok u"
      "foldE (add_module f repo area) u (filter (suffix_is ''.trb'') (rglob f (repo @ [''compiler'', area]))) = Inr v"
    then show "table_ok v" by (rule step)
  qed
qed

text \<open>Reachability along the imports of composed modules.\<close>

inductive depends_on :: "fs \<Rightarrow> modtable \<Rightarrow> string \<Rightarrow> string \<Rightarrow> bool" for f modules where
  self: "depends_on f modules a a"
| step: "depends_on f modules a b \<Longrightarrow> map_of modules b = Some m \<Longrightarrow> c \<in> imports_of f m \<Longrightarrow> depends_on f modules a c"

definition production_core :: "modtable \<Rightarrow> string \<Rightarrow> bool" where
  "production_core modules name = (case map_of modules name of None \<Rightarrow> False
     | Some m \<Rightarrow> mod_area m = ''src'' \<and> \<not> mod_test m \<and> mod_group m \<noteq> ''testing'')"

lemma production_core_closed:
  assumes clean: "\<forall>(name, m) \<in> set modules. \<forall>t \<in> imports_of f m. dependency_ok modules name m t"
    and areas: "\<forall>(name, m) \<in> set modules. mod_area m \<in> {''src'', ''cli''}"
    and "depends_on f modules a b" "production_core modules a"
  shows "production_core modules b"
  using assms(3,4)
proof (induction rule: depends_on.induct)
  case (step a b m c)
  then have "production_core modules b" by blast
  with step.hyps(2) have b: "mod_area m = ''src''" "\<not> mod_test m" "mod_group m \<noteq> ''testing''"
    by (auto simp: production_core_def)
  from step.hyps(2) have "(b, m) \<in> set modules" by (rule map_of_SomeD)
  with clean step.hyps(3) have ok: "dependency_ok modules b m c" by fastforce
  then obtain t where t: "map_of modules c = Some t" by (auto simp: dependency_ok_def split: option.splits)
  then have "(c, t) \<in> set modules" by (rule map_of_SomeD)
  with areas have "mod_area t \<in> {''src'', ''cli''}" by fastforce
  with ok b t show ?case by (auto simp: dependency_ok_def production_core_def)
qed

lemma check_layout_clean:
  assumes "check_layout f repo = Inr ([], n, e)"
  shows "\<exists>modules. load_modules f repo = Inr ([], modules) \<and> n = length modules \<and>
     ''compiler'' \<in> set (map fst modules) \<and> table_ok ([], modules) \<and>
     (\<forall>(name, m) \<in> set modules. \<forall>t \<in> imports_of f m. dependency_ok modules name m t)"
proof -
  from assms obtain errors modules es rs where
    load: "load_modules f repo = Inr (errors, modules)" and n: "n = length modules" and
    mods: "check_modules f repo modules (if ''compiler'' \<notin> set (map fst modules)
        then errors @ [''compiler/src/compiler.trb: missing compiler entry''] else errors) = Inr (es, e)" and "es = []"
    by (auto simp: check_layout_def bindE_Inr_iff Let_def split: prod.splits)
  with check_modules_clean have clean: "(if ''compiler'' \<notin> set (map fst modules)
        then errors @ [''compiler/src/compiler.trb: missing compiler entry''] else errors) = []"
    "\<forall>(name, m) \<in> set modules. \<forall>t \<in> imports_of f m. dependency_ok modules name m t"
    unfolding check_modules_def by blast+
  moreover from clean(1) have "errors = []" "''compiler'' \<in> set (map fst modules)"
    by (auto split: if_splits)
  ultimately show ?thesis using load n load_modules_ok [OF load] by (intro exI [of _ modules]) auto
qed

section \<open>Properties\<close>

text \<open>C6. When the layout check reports no error, the transitive imports of a production module of
  the compiler core are again production modules of the core: no chain of imports leads from the
  core to the CLI, to a test module or to a testing helper, and no chain leaves the module table.\<close>

theorem layout_clean_core_closed:
  assumes "check_layout f repo = Inr ([], n, e)"
    and "load_modules f repo = Inr (errs, modules)"
    and "production_core modules a" and "depends_on f modules a b"
  shows "production_core modules b"
proof -
  from check_layout_clean [OF assms(1)] assms(2) have
    "\<forall>(name, m) \<in> set modules. \<forall>t \<in> imports_of f m. dependency_ok modules name m t"
    "table_ok ([], modules)" by auto
  then show ?thesis
    by (intro production_core_closed [OF _ _ assms(4,3)]) (auto simp: table_ok_def entry_ok_def list_all_iff)
qed

text \<open>A source tree with an entry, a module of \<open>mir\<close> and one of \<open>support\<close>.\<close>

definition demo_tree :: fs where
  "demo_tree = [([''r''], NDir), ([''r'', ''compiler''], NDir), ([''r'', ''compiler'', ''src''], NDir),
     ([''r'', ''compiler'', ''cli''], NDir), ([''r'', ''recovery''], NDir), ([''r'', ''recovery'', ''src''], NDir),
     ([''r'', ''compiler'', ''src'', ''compiler.trb''], NFile ''import { a } from mir/x'' 420),
     ([''r'', ''compiler'', ''src'', ''mir''], NDir),
     ([''r'', ''compiler'', ''src'', ''mir'', ''x.trb''], NFile ''import support/u'' 420),
     ([''r'', ''compiler'', ''src'', ''support''], NDir),
     ([''r'', ''compiler'', ''src'', ''support'', ''u.trb''], NFile ''def f()'' 420)]"

definition demo_modules :: modtable where
  "demo_modules = [
     (''compiler'', \<lparr>mod_path = [''r'', ''compiler'', ''src'', ''compiler.trb''], mod_group = ''entry'', mod_test = False, mod_area = ''src''\<rparr>),
     (''mir/x'', \<lparr>mod_path = [''r'', ''compiler'', ''src'', ''mir'', ''x.trb''], mod_group = ''mir'', mod_test = False, mod_area = ''src''\<rparr>),
     (''support/u'', \<lparr>mod_path = [''r'', ''compiler'', ''src'', ''support'', ''u.trb''], mod_group = ''support'', mod_test = False, mod_area = ''src''\<rparr>)]"

lemma demo_load: "load_modules demo_tree [''r''] = Inr ([], demo_modules)"
  by code_simp

lemma demo_clean: "check_layout demo_tree [''r''] = Inr ([], 3, 2)"
  by code_simp

lemma demo_depends: "depends_on demo_tree demo_modules ''compiler'' ''support/u''"
proof (rule depends_on.step)
  show "depends_on demo_tree demo_modules ''compiler'' ''mir/x''"
  proof (rule depends_on.step [OF depends_on.self])
    show "map_of demo_modules ''compiler'' = Some (snd (demo_modules ! 0))" by code_simp
    show "''mir/x'' \<in> imports_of demo_tree (snd (demo_modules ! 0))" by code_simp
  qed
  show "map_of demo_modules ''mir/x'' = Some (snd (demo_modules ! 1))" by code_simp
  show "''support/u'' \<in> imports_of demo_tree (snd (demo_modules ! 1))" by code_simp
qed

theorem layout_clean_core_closed_witness:
  "depends_on demo_tree demo_modules ''compiler'' ''support/u'' \<and> production_core demo_modules ''support/u''"
proof -
  have "production_core demo_modules ''compiler''" by code_simp
  then show ?thesis
    using layout_clean_core_closed [OF demo_clean demo_load _ demo_depends] demo_depends by blast
qed

end
