(* ===== verification/PyJsonText.thy ===== *)
theory PyJsonText
  imports PyJson
begin

text \<open>
  The texts \<open>json.dumps\<close> writes and \<open>json.loads\<close> reads. Writing is a function of the value and of
  CPython's shortest decimal form of a float, which is a parameter. Reading takes the two hooks
  the tools install: one for the members of each object and one for NaN and the infinities.
\<close>

section \<open>Strings\<close>

definition hex4 :: "char \<Rightarrow> string" where
  "hex4 c = BSL # CHR ''u'' # hex_pad 4 (of_char c)"

definition short_escape :: "char \<Rightarrow> char option" where
  "short_escape c =
     (if c = DQ then Some DQ else if c = BSL then Some BSL
      else if c = CHR 0x0A then Some (CHR ''n'') else if c = CHR 0x0D then Some (CHR ''r'')
      else if c = CHR 0x09 then Some (CHR ''t'') else if c = CHR 0x0C then Some (CHR ''f'')
      else if c = CHR 0x08 then Some (CHR ''b'') else None)"

definition unescape :: "char \<Rightarrow> char option" where
  "unescape e =
     (if e = DQ then Some DQ else if e = BSL then Some BSL else if e = CHR ''/'' then Some (CHR ''/'')
      else if e = CHR ''n'' then Some (CHR 0x0A) else if e = CHR ''r'' then Some (CHR 0x0D)
      else if e = CHR ''t'' then Some (CHR 0x09) else if e = CHR ''f'' then Some (CHR 0x0C)
      else if e = CHR ''b'' then Some (CHR 0x08) else None)"

text \<open>\<open>ascii\<close> is the option \<open>ensure_ascii\<close>.\<close>

definition escape_chr :: "bool \<Rightarrow> char \<Rightarrow> string" where
  "escape_chr ascii c = (case short_escape c of Some e \<Rightarrow> [BSL, e]
     | None \<Rightarrow> if of_char c < (32 :: nat) \<or> ascii \<and> (126 :: nat) < of_char c then hex4 c else [c])"

definition dumps_str :: "bool \<Rightarrow> string \<Rightarrow> string" where
  "dumps_str ascii s = DQ # concat (map (escape_chr ascii) s) @ [DQ]"

text \<open>The characters after an opening quote: the value and the text after the closing quote.
  Code points above 255 are outside the character type.\<close>

definition chr_of_hex :: "string \<Rightarrow> char option" where
  "chr_of_hex w = (case read_base 16 0 (map (\<lambda>c. if of_char c \<ge> (65 :: nat) \<and> of_char c \<le> (70 :: nat)
       then char_of (of_char c + 32 :: nat) else c) w) of
     None \<Rightarrow> None | Some n \<Rightarrow> if n < 256 then Some (char_of n) else None)"

fun string_body :: "string \<Rightarrow> (string \<times> string) option" where
  "string_body [] = None"
| "string_body (c # s) =
     (if c = DQ then Some ([], s)
      else if c = BSL then
        (case s of
           [] \<Rightarrow> None
         | e # t \<Rightarrow>
             if e = CHR ''u'' then
               (case t of
                  h1 # h2 # h3 # h4 # t' \<Rightarrow>
                    (case chr_of_hex [h1, h2, h3, h4] of None \<Rightarrow> None
                     | Some d \<Rightarrow> map_option (\<lambda>(w, r). (d # w, r)) (string_body t'))
                | _ \<Rightarrow> None)
             else (case unescape e of None \<Rightarrow> None
                   | Some d \<Rightarrow> map_option (\<lambda>(w, r). (d # w, r)) (string_body t)))
      else if of_char c < (32 :: nat) then None
      else map_option (\<lambda>(w, r). (c # w, r)) (string_body s))"

lemma unescape_short: "short_escape c = Some e \<Longrightarrow> unescape e = Some c \<and> e \<noteq> CHR ''u''"
  by (auto simp: short_escape_def unescape_def split: if_splits)

lemma digit_chr_hex_lower:
  "d < 16 \<Longrightarrow> (if of_char (digit_chr d) \<ge> (65 :: nat) \<and> of_char (digit_chr d) \<le> (70 :: nat)
     then char_of (of_char (digit_chr d) + 32 :: nat) else digit_chr d) = digit_chr d"
  by (auto simp: digit_chr_def)

lemma show_base_digits: "1 < b \<Longrightarrow> b \<le> 16 \<Longrightarrow> c \<in> set (show_base b n) \<Longrightarrow> \<exists>d<16. c = digit_chr d"
proof (induction b n rule: show_base.induct)
  case (1 b n)
  show ?case
  proof (cases "n < b")
    case True
    with 1 have "c = digit_chr n" "n < 16" by (simp_all add: show_base.simps [of b n])
    then show ?thesis by blast
  next
    case False
    have "n mod b < 16" using 1 by (metis less_le_trans mod_less_divisor gr_implies_not0 not_gr_zero)
    with False 1 show ?thesis by (auto simp: show_base.simps [of b n])
  qed
qed

lemma hex_pad_digits: "c \<in> set (hex_pad w n) \<Longrightarrow> \<exists>d<16. c = digit_chr d"
proof -
  assume "c \<in> set (hex_pad w n)"
  then have "c = CHR ''0'' \<or> c \<in> set (show_base 16 n)" by (auto simp: hex_pad_def Let_def split: if_splits)
  then show ?thesis
  proof
    assume "c = CHR ''0''"
    moreover have "CHR ''0'' = digit_chr 0" by code_simp
    ultimately show ?thesis by (intro exI [of _ 0]) simp
  qed (rule show_base_digits, simp_all)
qed

lemma chr_of_hex_pad: "chr_of_hex (hex_pad 4 (of_char c)) = Some c"
proof -
  let ?low = "\<lambda>a. if of_char a \<ge> (65 :: nat) \<and> of_char a \<le> (70 :: nat) then char_of (of_char a + 32 :: nat) else a"
  have "map ?low (hex_pad 4 (of_char c)) = hex_pad 4 (of_char c)"
    by (rule map_idI) (use hex_pad_digits digit_chr_hex_lower in blast)
  moreover have "of_char c < (256 :: nat)" by simp
  ultimately show ?thesis by (simp add: chr_of_hex_def read_hex_pad)
qed

lemma hex_pad_4: "\<exists>h1 h2 h3 h4. hex_pad 4 (of_char c :: nat) = [h1, h2, h3, h4]"
proof -
  have "(of_char c :: nat) < 256" by simp
  then have "(of_char c :: nat) < 16 ^ 4" by (rule less_trans) simp
  then have "length (hex_pad 4 (of_char c :: nat)) = 4" by (rule length_hex_pad) simp
  then show ?thesis by (auto simp: numeral_eq_Suc length_Suc_conv)
qed

lemma string_body_escape:
  "string_body (escape_chr ascii c @ t) = map_option (\<lambda>(w, r). (c # w, r)) (string_body t)"
proof (cases "short_escape c")
  case (Some e)
  then show ?thesis using unescape_short [OF Some] by (simp add: escape_chr_def)
next
  case None
  then have c: "c \<noteq> DQ" "c \<noteq> BSL" by (auto simp: short_escape_def)
  obtain h1 h2 h3 h4 where h: "hex_pad 4 (of_char c :: nat) = [h1, h2, h3, h4]" using hex_pad_4 by blast
  with chr_of_hex_pad [of c] have "chr_of_hex [h1, h2, h3, h4] = Some c" by simp
  with None c h show ?thesis by (simp add: escape_chr_def hex4_def)
qed

text \<open>Reading back what was written, whatever follows.\<close>

lemma string_body_dumps:
  "string_body (concat (map (escape_chr ascii) s) @ DQ # t) = Some (s, t)"
  by (induction s) (simp_all add: string_body_escape)

section \<open>Numbers\<close>

definition is_digit :: "char \<Rightarrow> bool" where
  "is_digit c = (48 \<le> (of_char c :: nat) \<and> (of_char c :: nat) \<le> 57)"

lemma is_digit_code [code]: "is_digit c \<longleftrightarrow> \<not> char_less c (CHR ''0'') \<and> \<not> char_less (CHR ''9'') c"
  by (simp add: is_digit_def not_less flip: char_less_iff)

definition nat_of_digits :: "string \<Rightarrow> nat" where
  "nat_of_digits s = foldl (\<lambda>n c. 10 * n + (of_char c - 48)) 0 s"

text \<open>\<open>float(text)\<close> of a decimal with a fraction and a power of ten.\<close>

definition pow10 :: "int \<Rightarrow> rat" where
  "pow10 k = (if 0 \<le> k then 10 ^ nat k else 1 / 10 ^ nat (- k))"

definition float_of_decimal :: "bool \<Rightarrow> string \<Rightarrow> string \<Rightarrow> int \<Rightarrow> pyfloat" where
  "float_of_decimal neg ip fp e =
     round64 ((if neg then - 1 else 1) * of_nat (nat_of_digits (ip @ fp)) * pow10 (e - int (length fp)))"

text \<open>The fraction and the exponent of a JSON number, each optional.\<close>

fun read_fraction :: "string \<Rightarrow> string option \<times> string" where
  "read_fraction (c # d # s) = (if c = CHR ''.'' \<and> is_digit d
     then (Some (takeWhile is_digit (d # s)), dropWhile is_digit (d # s)) else (None, c # d # s))"
| "read_fraction s = (None, s)"

definition read_exponent :: "string \<Rightarrow> int option \<times> string" where
  "read_exponent s = (case s of
       c # t \<Rightarrow> if c \<noteq> CHR ''e'' \<and> c \<noteq> CHR ''E'' then (None, s) else
         (let neg = startswith t ''-''; u = (if neg \<or> startswith t ''+'' then tl t else t);
              ds = takeWhile is_digit u
          in if ds = [] then (None, s)
             else (Some ((if neg then - 1 else 1) * int (nat_of_digits ds)), dropWhile is_digit u))
     | [] \<Rightarrow> (None, s))"

definition read_integer :: "string \<Rightarrow> (string \<times> string) option" where
  "read_integer s = (if startswith s ''0'' then Some (''0'', tl s)
     else if takeWhile is_digit s = [] then None
     else Some (takeWhile is_digit s, dropWhile is_digit s))"

definition read_number :: "string \<Rightarrow> (json \<times> string) option" where
  "read_number s = (let neg = startswith s ''-''; u = (if neg then tl s else s) in
     case read_integer u of None \<Rightarrow> None
     | Some (ip, r) \<Rightarrow>
         (let (fp, r') = read_fraction r; (ex, r'') = read_exponent r' in
          if fp = None \<and> ex = None
          then Some (JInt ((if neg then - 1 else 1) * int (nat_of_digits ip)), r)
          else Some (JFloat (float_of_decimal neg ip (case fp of None \<Rightarrow> [] | Some d \<Rightarrow> d)
                 (case ex of None \<Rightarrow> 0 | Some e \<Rightarrow> e)), r'')))"

section \<open>Reading\<close>

definition is_ws :: "char \<Rightarrow> bool" where
  "is_ws c = (c = CHR '' '' \<or> c = TAB \<or> c = NL \<or> c = CHR 0x0D)"

abbreviation skip_ws :: "string \<Rightarrow> string" where
  "skip_ws s \<equiv> dropWhile is_ws s"

text \<open>The two hooks: \<open>object_pairs_hook\<close> and \<open>parse_constant\<close>.\<close>

record hooks =
  pairs_hook :: "(string \<times> json) list \<Rightarrow> json res"
  const_hook :: "string \<Rightarrow> json res"

definition dict_of :: "(string \<times> json) list \<Rightarrow> (string \<times> json) list" where
  "dict_of ps = foldl (\<lambda>d (k, v). AList.update k v d) [] ps"

definition plain_hooks :: hooks where
  "plain_hooks = \<lparr>pairs_hook = (\<lambda>ps. Inr (JDict (dict_of ps))),
     const_hook = (\<lambda>c. Inr (JFloat (if c = ''NaN'' then NaN else if c = ''Infinity'' then PInf else NInf)))\<rparr>"

text \<open>The scanner. Every call lowers the fuel; a call that goes on consumes a character or is
  followed by one that does, so twice the length of the text is enough.\<close>

fun pval :: "hooks \<Rightarrow> nat \<Rightarrow> string \<Rightarrow> (json \<times> string) res"
  and pelems :: "hooks \<Rightarrow> nat \<Rightarrow> json list \<Rightarrow> string \<Rightarrow> (json \<times> string) res"
  and pmembers :: "hooks \<Rightarrow> nat \<Rightarrow> (string \<times> json) list \<Rightarrow> string \<Rightarrow> (json \<times> string) res" where
  "pval h 0 s = Inl (ValueError ''nesting'')"
| "pval h (Suc n) s =
     (if startswith s [DQ] then
        (case string_body (tl s) of None \<Rightarrow> Inl (ValueError ''Invalid string'')
         | Some (w, r) \<Rightarrow> Inr (JStr w, r))
      else if startswith s ''{'' then
        (let u = skip_ws (tl s) in
         if startswith u ''}'' then bindE (pairs_hook h []) (\<lambda>v. Inr (v, tl u)) else pmembers h n [] u)
      else if startswith s ''['' then
        (let u = skip_ws (tl s) in
         if startswith u '']'' then Inr (JList [], tl u) else pelems h n [] u)
      else if startswith s ''null'' then Inr (JNull, drop 4 s)
      else if startswith s ''true'' then Inr (JBool True, drop 4 s)
      else if startswith s ''false'' then Inr (JBool False, drop 5 s)
      else if startswith s ''NaN'' then bindE (const_hook h ''NaN'') (\<lambda>v. Inr (v, drop 3 s))
      else if startswith s ''Infinity'' then bindE (const_hook h ''Infinity'') (\<lambda>v. Inr (v, drop 8 s))
      else if startswith s ''-Infinity'' then bindE (const_hook h ''-Infinity'') (\<lambda>v. Inr (v, drop 9 s))
      else (case read_number s of None \<Rightarrow> Inl (ValueError ''Expecting value'') | Some r \<Rightarrow> Inr r))"
| "pelems h 0 acc s = Inl (ValueError ''nesting'')"
| "pelems h (Suc n) acc s =
     bindE (pval h n s) (\<lambda>(v, r). (let u = skip_ws r in
       if startswith u '','' then pelems h n (acc @ [v]) (skip_ws (tl u))
       else if startswith u '']'' then Inr (JList (acc @ [v]), tl u)
       else Inl (ValueError ''Expecting , delimiter'')))"
| "pmembers h 0 acc s = Inl (ValueError ''nesting'')"
| "pmembers h (Suc n) acc s =
     (if \<not> startswith s [DQ] then Inl (ValueError ''Expecting property name'') else
      (case string_body (tl s) of None \<Rightarrow> Inl (ValueError ''Invalid string'')
       | Some (k, r) \<Rightarrow>
          (let t = skip_ws r in
           if \<not> startswith t '':'' then Inl (ValueError ''Expecting : delimiter'') else
           bindE (pval h n (skip_ws (tl t))) (\<lambda>(v, r'). (let u = skip_ws r' in
             if startswith u '','' then pmembers h n (acc @ [(k, v)]) (skip_ws (tl u))
             else if startswith u ''}'' then bindE (pairs_hook h (acc @ [(k, v)])) (\<lambda>d. Inr (d, tl u))
             else Inl (ValueError ''Expecting , delimiter''))))))"

definition loads_with :: "hooks \<Rightarrow> string \<Rightarrow> json res" where
  "loads_with h s = bindE (pval h (2 * length s + 2) (skip_ws s)) (\<lambda>(v, r).
     if skip_ws r = [] then Inr v else Inl (ValueError ''Extra data''))"

definition loads :: "string \<Rightarrow> json res" where
  "loads s = loads_with plain_hooks s"

section \<open>Writing\<close>

record jopts =
  jindent :: "nat option"
  item_sep :: string
  key_sep :: string
  sort_keys :: bool
  ensure_ascii :: bool
  allow_nan :: bool

text \<open>The default of \<open>json.dumps(v)\<close>, \<open>indent=2\<close>, and the compact sorted form.\<close>

definition plain_opts :: jopts where
  "plain_opts = \<lparr>jindent = None, item_sep = '', '', key_sep = '': '', sort_keys = False,
     ensure_ascii = True, allow_nan = True\<rparr>"

definition pretty_opts :: jopts where
  "pretty_opts = plain_opts\<lparr>jindent := Some 2, item_sep := '',''\<rparr>"

definition canonical_opts :: jopts where
  "canonical_opts = plain_opts\<lparr>item_sep := '','', key_sep := '':'', sort_keys := True\<rparr>"

definition brk :: "jopts \<Rightarrow> nat \<Rightarrow> string" where
  "brk oo lvl = (case jindent oo of None \<Rightarrow> [] | Some k \<Rightarrow> NL # replicate (k * lvl) (CHR '' ''))"

fun float_text :: "(rat \<Rightarrow> string) \<Rightarrow> pyfloat \<Rightarrow> string" where
  "float_text fr (Fin q) = fr q"
| "float_text fr PInf = ''Infinity''"
| "float_text fr NInf = ''-Infinity''"
| "float_text fr NaN = ''NaN''"

fun json_text :: "(rat \<Rightarrow> string) \<Rightarrow> jopts \<Rightarrow> nat \<Rightarrow> json \<Rightarrow> string" where
  "json_text fr oo lvl JNull = ''null''"
| "json_text fr oo lvl (JBool b) = (if b then ''true'' else ''false'')"
| "json_text fr oo lvl (JInt i) = show_int i"
| "json_text fr oo lvl (JFloat f) = float_text fr f"
| "json_text fr oo lvl (JStr s) = dumps_str (ensure_ascii oo) s"
| "json_text fr oo lvl (JList xs) = (if xs = [] then ''[]'' else
     CHR ''['' # brk oo (Suc lvl) @ join (item_sep oo @ brk oo (Suc lvl)) (map (json_text fr oo (Suc lvl)) xs) @
     brk oo lvl @ '']'')"
| "json_text fr oo lvl (JDict kvs) = (if kvs = [] then ''{}'' else
     CHR ''{'' # brk oo (Suc lvl) @ join (item_sep oo @ brk oo (Suc lvl))
       (map (\<lambda>(k, v). dumps_str (ensure_ascii oo) k @ key_sep oo @ json_text fr oo (Suc lvl) v) kvs) @
     brk oo lvl @ ''}'')"

fun sort_json :: "json \<Rightarrow> json" where
  "sort_json (JList xs) = JList (map sort_json xs)"
| "sort_json (JDict kvs) = JDict (sort_key fst (map (\<lambda>(k, v). (k, sort_json v)) kvs))"
| "sort_json v = v"

fun all_finite :: "json \<Rightarrow> bool" where
  "all_finite (JFloat f) = isfinite f"
| "all_finite (JList xs) = list_all all_finite xs"
| "all_finite (JDict kvs) = list_all (\<lambda>(k, v). all_finite v) kvs"
| "all_finite v = True"

definition dumps :: "(rat \<Rightarrow> string) \<Rightarrow> jopts \<Rightarrow> json \<Rightarrow> string res" where
  "dumps fr oo v = (if \<not> allow_nan oo \<and> \<not> all_finite v
     then Inl (ValueError ''Out of range float values are not JSON compliant'')
     else Inr (json_text fr oo 0 (if sort_keys oo then sort_json v else v)))"

end
