(* ===== verification/Recovery.thy ===== *)
theory Recovery
  imports PyPath PyJsonText
begin

text \<open>
  \<open>tools/recovery_layout_sync.py\<close>: the closure of the compiler entry under imports, discovered in
  breadth-first order, and the synchronisation of the three inventories that must match it (the
  recovery layout, the recovery mutations and the module list of the own-frontend test).
\<close>

section \<open>Constants\<close>

definition LAYOUT :: string where "LAYOUT = ''recovery/src/compiler/layout.trb''"
definition MUTATIONS :: string where "MUTATIONS = ''recovery/src/compiler/mutations.trb''"
definition FRONTEND_TEST :: string where "FRONTEND_TEST = ''compiler/src/tests/compiler/source_loading_test.trb''"
definition FRONTEND_TEST_NAME :: string where
  "FRONTEND_TEST_NAME = ''parses the checked-in compiler closure through its own frontend''"

definition STRING :: rx where
  "STRING = seqs [chr DQ, Star (Alt (Seq (chr BSL) Dot) (NCls (chr_cls [DQ, BSL]))), chr DQ]"

definition COMMENT :: rx where
  "COMMENT = Seq (chr (CHR ''#'')) (Star (NCls (one_cls NL)))"

definition LAYOUT_ROW :: rx where
  "LAYOUT_ROW = seqs [Bol, chr TAB, chr TAB, lit ''RecoveryCompilerModule.new(name: '', chr DQ,
     Grp 1 (rplus (NCls (one_cls DQ))), chr DQ, lit '', imports: '', Grp 2 STRING, lit ''),'', chr NL]"

definition MUTATION_ROW :: rx where
  "MUTATION_ROW = seqs [Bol, chr TAB, chr TAB, chr (CHR ''[''), Grp 1 STRING, lit '', '', Grp 2 STRING,
     lit '', '', Grp 3 STRING, lit ''],'', chr NL]"

definition IMPORT :: rx where
  "IMPORT = seqs [lit ''import '',
     ropt (seqs [lit ''{'', Star (NCls (one_cls (CHR ''}''))), lit ''} from '']),
     Grp 1 (rplus (NCls space_cls)),
     ropt (seqs [lit '' as '', rplus (Cls (upper_cls @ lower_cls @ digit_cls @ one_cls (CHR ''_'')))]),
     ropt (seqs [Star (Cls space_cls), lit ''#'', Star Dot])]"

definition MODULE :: rx where
  "MODULE = (let w = Seq (Cls lower_cls) (Star (Cls (lower_cls @ digit_cls @ one_cls (CHR ''_''))))
     in Seq w (Star (Seq (chr (CHR ''/'')) w)))"

definition SAFE_LITERAL :: rx where
  "SAFE_LITERAL = seqs [chr DQ, Grp 1 (at_least 3 (Cls (upper_cls @ lower_cls @ digit_cls @ chr_cls '' _.,:;!?()<>=+*/-''))), chr DQ]"

definition FIELD :: rx where
  "FIELD = seqs [chr TAB, Cls (lower_cls @ one_cls (CHR ''_'')), Star (Cls (lower_cls @ digit_cls @ one_cls (CHR ''_''))),
     lit '': '', rplus (NCls (chr_cls [NL, CHR ''#'']))]"

section \<open>The import closure\<close>

definition is_import :: "string \<Rightarrow> bool" where
  "is_import line = startswith line ''import ''"

definition canonical_imports :: "string \<Rightarrow> string res" where
  "canonical_imports source =
     (let lines = splitlines_keep source;
          leading = takeWhile is_import lines; remaining = dropWhile is_import lines
      in if list_ex is_import remaining
         then Inl (InventoryError ''imports must form the leading block of a compiler module'')
         else if leading = [] then Inr []
         else Inr (concat (leading @ (case remaining of l # _ \<Rightarrow> if l = [NL] then [l] else [] | [] \<Rightarrow> []))))"

text \<open>The targets of a header, \<open>trb/\<close> libraries excluded.\<close>

fun header_targets :: "string \<Rightarrow> string list \<Rightarrow> string list res" where
  "header_targets name [] = Inr []"
| "header_targets name (line # ls) =
     (if line = [] then header_targets name ls
      else (case fullmatch_groups IMPORT line of
          None \<Rightarrow> Inl (InventoryError (name @ '': invalid canonical import: '' @ line))
        | Some gs \<Rightarrow>
            (let target = (case grp 1 gs of None \<Rightarrow> [] | Some t \<Rightarrow> t)
             in if target = [] \<or> \<not> fullmatch MODULE target
                then Inl (InventoryError (name @ '': invalid canonical import: '' @ line))
                else bindE (header_targets name ls)
                  (\<lambda>ts. Inr (if startswith target ''trb/'' then ts else target # ts)))))"

text \<open>The imports of a source text, with the module named in the error.\<close>

definition source_targets :: "string \<Rightarrow> string \<Rightarrow> (string \<times> string list) res" where
  "source_targets name source =
     bindE (case canonical_imports source of
         Inl (InventoryError e) \<Rightarrow> Inl (InventoryError (name @ '': '' @ e))
       | Inl e \<Rightarrow> Inl e
       | Inr h \<Rightarrow> Inr h)
     (\<lambda>header. bindE (header_targets name (splitlines header)) (\<lambda>ts. Inr (header, ts)))"

definition source_root :: "path \<Rightarrow> path" where
  "source_root repo = repo @ [''compiler'', ''src'']"

definition source_path :: "path \<Rightarrow> string \<Rightarrow> path" where
  "source_path repo name = joinp (source_root repo) (name @ ''.trb'')"

text \<open>One module taken from the queue: its checks and the modules it imports.\<close>

definition module_imports :: "fs \<Rightarrow> path \<Rightarrow> string \<Rightarrow> string list res" where
  "module_imports f repo name =
     (if \<not> fullmatch MODULE name then Inl (InventoryError (''invalid canonical compiler module '' @ name))
      else
        (let p = source_path repo name in
         bindE (if is_symlink f p then Inr True
                else bindE (resolveE f p) (\<lambda>q. bindE (resolveE f (source_root repo)) (\<lambda>d. Inr (\<not> is_relative_to q d))))
         (\<lambda>outside.
           if outside then Inl (InventoryError (''canonical compiler module escapes its source root: '' @ name))
           else if \<not> is_file f p then Inl (InventoryError (''missing canonical compiler module '' @ name))
           else bindE (read_bytes f p) (\<lambda>source. bindE (source_targets name source) (\<lambda>(h, ts). Inr ts)))))"

text \<open>Every import that occurs in some file: the candidates the queue can ever hold. This bound is
  only for termination.\<close>

definition known_targets :: "string \<Rightarrow> string list" where
  "known_targets source = map (\<lambda>line. case fullmatch_groups IMPORT line of None \<Rightarrow> []
     | Some gs \<Rightarrow> (case grp 1 gs of None \<Rightarrow> [] | Some t \<Rightarrow> t))
     (splitlines (case canonical_imports source of Inl _ \<Rightarrow> [] | Inr h \<Rightarrow> h))"

definition import_universe :: "fs \<Rightarrow> string set" where
  "import_universe f = (\<Union>(p, n) \<in> set f. case n of NFile s _ \<Rightarrow> set (known_targets s) | _ \<Rightarrow> {})"

lemma header_targets_known:
  "header_targets name ls = Inr ts \<Longrightarrow> set ts \<subseteq> set (map (\<lambda>line. case fullmatch_groups IMPORT line of None \<Rightarrow> []
     | Some gs \<Rightarrow> (case grp 1 gs of None \<Rightarrow> [] | Some t \<Rightarrow> t)) ls)"
proof (induction name ls arbitrary: ts rule: header_targets.induct)
  case (2 name line ls)
  show ?case
  proof (cases "line = []")
    case True
    with 2 show ?thesis by auto
  next
    case False
    with 2(3) obtain gs where gs: "fullmatch_groups IMPORT line = Some gs"
      by (auto split: option.splits)
    from False gs 2(3) obtain us where "header_targets name ls = Inr us"
      "ts = us \<or> ts = (case grp 1 gs of None \<Rightarrow> [] | Some t \<Rightarrow> t) # us"
      "\<not> (case grp 1 gs of None \<Rightarrow> [] | Some t \<Rightarrow> t) = []" "fullmatch MODULE (case grp 1 gs of None \<Rightarrow> [] | Some t \<Rightarrow> t)"
      by (simp add: Let_def bindE_Inr_iff split: if_split_asm) blast+
    with 2(2) [OF False gs refl] gs show ?thesis by auto
  qed
qed simp

lemma source_targets_known:
  "source_targets name source = Inr (h, ts) \<Longrightarrow> set ts \<subseteq> set (known_targets source)"
  using header_targets_known [of name "splitlines h" ts]
  by (auto simp: source_targets_def known_targets_def bindE_Inr_iff split: sum.splits pyerr.splits)

lemma module_imports_known: "module_imports f repo name = Inr ts \<Longrightarrow> set ts \<subseteq> import_universe f"
proof -
  assume "module_imports f repo name = Inr ts"
  then obtain source h where "read_bytes f (source_path repo name) = Inr source"
    and st: "source_targets name source = Inr (h, ts)"
    by (auto simp: module_imports_def Let_def bindE_Inr_iff split: if_split_asm)
  then obtain q m where "look f q = Some (NFile source m)"
    by (auto simp: read_bytes_def stat_def split: option.splits node.splits)
  then have "(q, NFile source m) \<in> set f"
    by (auto simp: look_def map_of_SomeD split: if_splits)
  with source_targets_known [OF st] show ?thesis
    unfolding import_universe_def by fastforce
qed

lemma finite_import_universe [simp]: "finite (import_universe f)"
  by (auto simp: import_universe_def split: node.splits)

text \<open>The loop of \<open>closure\<close>: \<open>found\<close> in order of discovery, \<open>pending\<close> as a queue.\<close>

function closure_loop :: "fs \<Rightarrow> path \<Rightarrow> string list \<Rightarrow> string list \<Rightarrow> string list res" where
  "closure_loop f repo found [] = Inr found"
| "closure_loop f repo found (name # pending) =
     (if name \<in> set found then closure_loop f repo found pending
      else bindE (module_imports f repo name)
        (\<lambda>ts. closure_loop f repo (found @ [name]) (pending @ ts)))"
  by pat_completeness auto
termination
proof (relation "inv_image (less_than <*lex*> less_than)
    (\<lambda>(f, repo, found, pending). (card (import_universe f \<union> set pending - set found), length pending))", goal_cases)
  case (2 f repo found name pending)
  have "card (import_universe f \<union> set pending - set found)
      \<le> card (import_universe f \<union> set (name # pending) - set found)"
    by (rule card_mono) auto
  then show ?case by auto
next
  case (3 f repo found name pending ts)
  then have "set ts \<subseteq> import_universe f" by (intro module_imports_known)
  then have "import_universe f \<union> set (pending @ ts) - set (found @ [name])
      \<subset> import_universe f \<union> set (name # pending) - set found"
    using 3 by auto
  then have "card (import_universe f \<union> set (pending @ ts) - set (found @ [name]))
      < card (import_universe f \<union> set (name # pending) - set found)"
    by (intro psubset_card_mono) auto
  then show ?case by simp
qed (auto intro!: wf_inv_image)

definition closure :: "fs \<Rightarrow> path \<Rightarrow> string list res" where
  "closure f repo = closure_loop f repo [] [''compiler'']"

subsection \<open>What the closure contains\<close>

inductive imported :: "fs \<Rightarrow> path \<Rightarrow> string \<Rightarrow> bool" for f repo where
  entry: "imported f repo ''compiler''"
| step: "imported f repo a \<Longrightarrow> module_imports f repo a = Inr ts \<Longrightarrow> b \<in> set ts \<Longrightarrow> imported f repo b"

definition imports_known :: "fs \<Rightarrow> path \<Rightarrow> string list \<Rightarrow> string list \<Rightarrow> bool" where
  "imports_known f repo found known =
     (\<forall>x \<in> set found. \<exists>ts. module_imports f repo x = Inr ts \<and> set ts \<subseteq> set known)"

lemma closure_loop_Inr:
  "closure_loop f repo found pending = Inr result \<Longrightarrow> distinct found \<Longrightarrow>
     imports_known f repo found (found @ pending) \<Longrightarrow>
     distinct result \<and> set found \<union> set pending \<subseteq> set result \<and> imports_known f repo result result \<and>
     (\<exists>new. result = found @ new)"
proof (induction f repo found pending rule: closure_loop.induct)
  case (1 f repo found)
  then show ?case by simp
next
  case (2 f repo found name pending)
  show ?case
  proof (cases "name \<in> set found")
    case True
    then have "imports_known f repo found (found @ pending)"
      using 2(5) by (fastforce simp: imports_known_def)
    with 2(1) [OF True] 2(3,4) True show ?thesis by auto
  next
    case False
    then obtain ts where ts: "module_imports f repo name = Inr ts"
      and more: "closure_loop f repo (found @ [name]) (pending @ ts) = Inr result"
      using 2(3) by (auto simp: bindE_Inr_iff)
    have "imports_known f repo (found @ [name]) ((found @ [name]) @ pending @ ts)"
      using 2(5) ts by (fastforce simp: imports_known_def)
    with 2(2) [OF False ts more] 2(4) False show ?thesis by auto
  qed
qed

lemma closure_loop_imported:
  "closure_loop f repo found pending = Inr result \<Longrightarrow>
     \<forall>x \<in> set found \<union> set pending. imported f repo x \<Longrightarrow> \<forall>x \<in> set result. imported f repo x"
proof (induction f repo found pending rule: closure_loop.induct)
  case (2 f repo found name pending)
  show ?case
  proof (cases "name \<in> set found")
    case False
    then obtain ts where ts: "module_imports f repo name = Inr ts"
      and more: "closure_loop f repo (found @ [name]) (pending @ ts) = Inr result"
      using 2(3) by (auto simp: bindE_Inr_iff)
    have "imported f repo x" if "x \<in> set ts" for x
      using 2(4) ts that by (auto intro: imported.step)
    with 2(2) [OF False ts more] 2(4) show ?thesis by auto
  qed (use 2 in auto)
qed simp

lemma closure_loop_Inl:
  "closure_loop f repo found pending = Inl e \<Longrightarrow> \<forall>x \<in> set pending. imported f repo x \<Longrightarrow>
     \<exists>x. imported f repo x \<and> module_imports f repo x = Inl e"
proof (induction f repo found pending rule: closure_loop.induct)
  case (2 f repo found name pending)
  show ?case
  proof (cases "name \<in> set found")
    case False
    show ?thesis
    proof (cases "module_imports f repo name")
      case (Inl e')
      with False 2(3,4) show ?thesis by auto
    next
      case (Inr ts)
      with False 2(3) have "closure_loop f repo (found @ [name]) (pending @ ts) = Inl e" by simp
      moreover have "imported f repo x" if "x \<in> set ts" for x
        using 2(4) Inr that by (auto intro: imported.step)
      ultimately show ?thesis using 2(2) [OF False Inr] 2(4) by auto
    qed
  qed (use 2 in auto)
qed simp

text \<open>Every module but the entry is discovered through a module discovered before it.\<close>

definition imported_by_some :: "fs \<Rightarrow> path \<Rightarrow> string list \<Rightarrow> string \<Rightarrow> bool" where
  "imported_by_some f repo seen y = list_ex (\<lambda>a. case module_imports f repo a of Inl _ \<Rightarrow> False
     | Inr ts \<Rightarrow> y \<in> set ts) seen"

fun discovered_after :: "fs \<Rightarrow> path \<Rightarrow> string list \<Rightarrow> string list \<Rightarrow> bool" where
  "discovered_after f repo seen [] = True"
| "discovered_after f repo seen (y # ys) =
     ((y = ''compiler'' \<or> imported_by_some f repo seen y) \<and> discovered_after f repo (seen @ [y]) ys)"

lemma discovered_after_snoc:
  "discovered_after f repo seen (xs @ [y]) \<longleftrightarrow>
     discovered_after f repo seen xs \<and> (y = ''compiler'' \<or> imported_by_some f repo (seen @ xs) y)"
  by (induction xs arbitrary: seen) auto

lemma imported_by_some_append:
  "imported_by_some f repo (xs @ ys) y \<longleftrightarrow> imported_by_some f repo xs y \<or> imported_by_some f repo ys y"
  by (simp add: imported_by_some_def)

lemma closure_loop_order:
  "closure_loop f repo found pending = Inr result \<Longrightarrow> discovered_after f repo [] found \<Longrightarrow>
     \<forall>y \<in> set pending. y = ''compiler'' \<or> imported_by_some f repo found y \<Longrightarrow>
     discovered_after f repo [] result"
proof (induction f repo found pending rule: closure_loop.induct)
  case (2 f repo found name pending)
  show ?case
  proof (cases "name \<in> set found")
    case False
    then obtain ts where ts: "module_imports f repo name = Inr ts"
      and more: "closure_loop f repo (found @ [name]) (pending @ ts) = Inr result"
      using 2(3) by (auto simp: bindE_Inr_iff)
    have "discovered_after f repo [] (found @ [name])"
      using 2(4,5) by (simp add: discovered_after_snoc)
    moreover have "imported_by_some f repo [name] y" if "y \<in> set ts" for y
      using that ts by (simp add: imported_by_some_def)
    then have "\<forall>y \<in> set (pending @ ts). y = ''compiler'' \<or> imported_by_some f repo (found @ [name]) y"
      using 2(5) unfolding imported_by_some_append by auto
    ultimately show ?thesis by (rule 2(2) [OF False ts more])
  qed (use 2 in auto)
qed simp

lemma closure_Inr:
  assumes "closure f repo = Inr found"
  shows "distinct found" "set found = {x. imported f repo x}" "imports_known f repo found found"
    "discovered_after f repo [] found" "\<exists>new. found = ''compiler'' # new"
proof -
  from closure_loop_Inr [OF assms [unfolded closure_def]]
  have d: "distinct found" "''compiler'' \<in> set found" and k: "imports_known f repo found found"
    by (simp_all add: imports_known_def)
  have "imported f repo x \<Longrightarrow> x \<in> set found" for x
  proof (induction rule: imported.induct)
    case (step a ts b)
    then show ?case using k by (force simp: imports_known_def)
  qed (rule d(2))
  moreover have "\<forall>x \<in> set found. imported f repo x"
    by (rule closure_loop_imported [OF assms [unfolded closure_def]]) (simp add: imported.entry)
  ultimately show "set found = {x. imported f repo x}" by blast
  show "distinct found" "imports_known f repo found found" by fact+
  show "discovered_after f repo [] found"
    by (rule closure_loop_order [OF assms [unfolded closure_def]]) simp_all
  from assms obtain ts where "closure_loop f repo [''compiler''] ts = Inr found" "module_imports f repo ''compiler'' = Inr ts"
    by (auto simp: closure_def bindE_Inr_iff)
  then show "\<exists>new. found = ''compiler'' # new"
    using closure_loop_Inr [of f repo "[''compiler'']" ts found] by (auto simp: imports_known_def)
qed

section \<open>Properties of the closure\<close>

text \<open>C10. The closure succeeds exactly when every module reachable from the entry passes its
  checks, whatever the shape of the import graph, cycles included.\<close>

theorem closure_succeeds_iff:
  "(\<exists>found. closure f repo = Inr found) \<longleftrightarrow> \<not> (\<exists>x e. imported f repo x \<and> module_imports f repo x = Inl e)"
proof
  assume "\<exists>found. closure f repo = Inr found"
  then obtain found where found: "closure f repo = Inr found" ..
  have "\<exists>ts. module_imports f repo x = Inr ts" if "imported f repo x" for x
    using closure_Inr(2,3) [OF found] that by (auto simp: imports_known_def)
  then show "\<not> (\<exists>x e. imported f repo x \<and> module_imports f repo x = Inl e)" by force
next
  assume none: "\<not> (\<exists>x e. imported f repo x \<and> module_imports f repo x = Inl e)"
  show "\<exists>found. closure f repo = Inr found"
  proof (cases "closure f repo")
    case (Inl e)
    then have "\<exists>x. imported f repo x \<and> module_imports f repo x = Inl e"
      unfolding closure_def by (rule closure_loop_Inl) (simp add: imported.entry)
    with none show ?thesis by blast
  qed blast
qed

text \<open>C3. A successful closure lists exactly the modules reachable from the entry, each once, the
  entry first, and every other module after one that imports it.\<close>

theorem closure_exact:
  assumes "closure f repo = Inr found"
  shows "distinct found \<and> hd found = ''compiler'' \<and> set found = {x. imported f repo x} \<and>
    discovered_after f repo [] found"
  using closure_Inr [OF assms] by auto

text \<open>Two modules that import each other, and the library.\<close>

definition demo_cycle :: fs where
  "demo_cycle = [([''r''], NDir), ([''r'', ''compiler''], NDir), ([''r'', ''compiler'', ''src''], NDir),
     ([''r'', ''compiler'', ''src'', ''compiler.trb''], NFile ''import { a } from mir/x'' 420),
     ([''r'', ''compiler'', ''src'', ''mir''], NDir),
     ([''r'', ''compiler'', ''src'', ''mir'', ''x.trb''], NFile ''import compiler'' 420)]"

theorem closure_exact_witness:
  "closure demo_cycle [''r''] = Inr [''compiler'', ''mir/x''] \<and> {x. imported demo_cycle [''r''] x} = {''compiler'', ''mir/x''}"
proof -
  have c: "closure demo_cycle [''r''] = Inr [''compiler'', ''mir/x'']" by code_simp
  from closure_exact [OF c] show ?thesis by (simp add: c)
qed

end
