(* ===== verification/PyJsonRoundtrip.thy ===== *)
theory PyJsonRoundtrip
  imports PyJsonText
begin

text \<open>
  Reading what \<open>json.dumps\<close> wrote gives the value back, for every choice of indentation and
  separators the tools use. The decimal form of floats is a parameter; the hypothesis on it,
  \<open>float_ok\<close>, is the documented guarantee of \<open>repr\<close>: the text reads back as the same float.
\<close>

section \<open>Integers\<close>

definition stops :: "string \<Rightarrow> bool" where
  "stops r = (r = [] \<or> (\<not> is_digit (hd r) \<and> hd r \<noteq> CHR ''.'' \<and> hd r \<noteq> CHR ''e'' \<and> hd r \<noteq> CHR ''E''))"

lemma is_digit_chr: "d < 10 \<Longrightarrow> is_digit (digit_chr d)"
  by (auto simp: is_digit_def digit_chr_def)

lemma digit_value: "d < 10 \<Longrightarrow> of_char (digit_chr d) - 48 = d"
  by (simp add: digit_chr_def)

lemma show_nat_digits: "list_all is_digit (show_nat n)"
proof -
  have "list_all is_digit (show_base b n)" if "b = 10" for b
    using that
  proof (induction b n rule: show_base.induct)
    case (1 b n)
    have "n mod 10 < (10 :: nat)" by simp
    with 1 show ?case by (subst show_base.simps) (auto simp: is_digit_chr)
  qed
  then show ?thesis by (simp add: show_nat_def)
qed

lemma nat_of_digits_append:
  "nat_of_digits (s @ [c]) = 10 * nat_of_digits s + (of_char c - 48)"
  by (simp add: nat_of_digits_def)

lemma nat_of_show [simp]: "nat_of_digits (show_nat n) = n"
proof -
  have "nat_of_digits (show_base b n) = n" if "b = 10" for b
    using that
  proof (induction b n rule: show_base.induct)
    case (1 b n)
    show ?case
    proof (cases "n < 10")
      case True
      with 1 show ?thesis
        by (subst show_base.simps) (simp add: nat_of_digits_def digit_value)
    next
      case False
      then have "nat_of_digits (show_base 10 (n div 10)) = n div 10" using 1 by simp
      moreover have "show_base b n = show_base 10 (n div 10) @ [digit_chr (n mod 10)]"
        using False 1(2) by (subst show_base.simps) simp
      moreover have "of_char (digit_chr (n mod 10)) - 48 = n mod 10" by (rule digit_value) simp
      ultimately show ?thesis by (simp add: nat_of_digits_append)
    qed
  qed
  then show ?thesis by (simp add: show_nat_def)
qed

lemma show_nat_nonempty [simp]: "show_nat n \<noteq> []"
  unfolding show_nat_def by (subst show_base.simps) simp

lemma show_nat_zero: "show_nat 0 = ''0''"
  by code_simp

lemma show_nat_leading: "0 < n \<Longrightarrow> hd (show_nat n) \<noteq> CHR ''0''"
proof -
  have "0 < n \<Longrightarrow> hd (show_base b n) \<noteq> CHR ''0'' \<and> show_base b n \<noteq> []" if "b = 10" for b
    using that
  proof (induction b n rule: show_base.induct)
    case (1 b n)
    show ?case
    proof (cases "n < 10")
      case True
      have "of_char (digit_chr n) \<noteq> (48 :: nat)" using True 1(2) by (simp add: digit_chr_def)
      then have "digit_chr n \<noteq> CHR ''0''" by auto
      with True 1 show ?thesis by (subst (1 2) show_base.simps) simp
    next
      case False
      then have "0 < n div 10" by simp
      with False 1 have "hd (show_base 10 (n div 10)) \<noteq> CHR ''0''" "show_base 10 (n div 10) \<noteq> []" by simp_all
      with False 1 show ?thesis by (subst (1 2) show_base.simps) simp
    qed
  qed
  then show "0 < n \<Longrightarrow> hd (show_nat n) \<noteq> CHR ''0''" by (simp add: show_nat_def)
qed

lemma takeWhile_show_nat:
  "stops r \<Longrightarrow> takeWhile is_digit (show_nat n @ r) = show_nat n \<and> dropWhile is_digit (show_nat n @ r) = r"
  using show_nat_digits [of n]
  by (cases r) (auto simp: stops_def list_all_iff takeWhile_append2 dropWhile_append2)

lemma read_integer_show: "stops r \<Longrightarrow> read_integer (show_nat n @ r) = Some (show_nat n, r)"
proof -
  assume r: "stops r"
  show ?thesis
  proof (cases "n = 0")
    case True
    then show ?thesis by (simp add: read_integer_def show_nat_zero)
  next
    case False
    then have "hd (show_nat n) \<noteq> CHR ''0''" by (simp add: show_nat_leading)
    then have "\<not> startswith (show_nat n @ r) ''0''" by (cases "show_nat n") auto
    with takeWhile_show_nat [OF r, of n] show ?thesis by (simp add: read_integer_def)
  qed
qed

lemma read_fraction_stops: "stops r \<Longrightarrow> read_fraction r = (None, r)"
  by (cases r rule: read_fraction.cases) (auto simp: stops_def)

lemma read_exponent_stops: "stops r \<Longrightarrow> read_exponent r = (None, r)"
  by (cases r) (auto simp: stops_def read_exponent_def)

lemma show_nat_hd_digit: "is_digit (hd (show_nat n))"
  using show_nat_digits [of n] by (cases "show_nat n") (auto dest: arg_cong [where f = length])

lemma read_number_show: "stops r \<Longrightarrow> read_number (show_int i @ r) = Some (JInt i, r)"
proof -
  assume r: "stops r"
  have "\<not> is_digit (CHR ''-'')" by (simp add: is_digit_def)
  then have "\<not> startswith (show_nat n @ r) ''-''" for n
    using show_nat_hd_digit [of n] by (cases "show_nat n") (auto dest: arg_cong [where f = length])
  then show ?thesis
    by (simp add: read_number_def show_int_def read_integer_show [OF r] read_fraction_stops [OF r]
        read_exponent_stops [OF r])
qed

text \<open>A text that begins like a number: the scanner reaches \<open>read_number\<close>.\<close>

definition numeric :: "string \<Rightarrow> bool" where
  "numeric s = (s \<noteq> [] \<and> (is_digit (hd s) \<or> hd s = CHR ''-'' \<and> tl s \<noteq> [] \<and> is_digit (hd (tl s))))"

lemma numeric_show_int: "numeric (show_int i)"
  by (simp add: numeric_def show_int_def show_nat_hd_digit)

lemma pval_numeric:
  assumes "numeric s" "read_number (s @ r) = Some x"
  shows "pval h (Suc n) (s @ r) = Inr x"
proof -
  have d: "\<not> is_digit DQ" "\<not> is_digit (CHR ''{'')" "\<not> is_digit (CHR ''['')" "\<not> is_digit (CHR ''n'')"
    "\<not> is_digit (CHR ''t'')" "\<not> is_digit (CHR ''f'')" "\<not> is_digit (CHR ''N'')" "\<not> is_digit (CHR ''I'')"
    "\<not> is_digit (CHR ''-'')"
    by (simp_all add: is_digit_def)
  from assms(1) obtain c t where s: "s = c # t" by (cases s) (auto simp: numeric_def)
  have "c \<noteq> DQ \<and> c \<noteq> CHR ''{'' \<and> c \<noteq> CHR ''['' \<and> c \<noteq> CHR ''n'' \<and> c \<noteq> CHR ''t'' \<and> c \<noteq> CHR ''f'' \<and>
      c \<noteq> CHR ''N'' \<and> c \<noteq> CHR ''I''"
    using assms(1) s d by (auto simp: numeric_def)
  moreover have "\<not> startswith (c # t @ r) ''-Infinity''"
    using assms(1) s d by (cases t) (auto simp: numeric_def)
  ultimately show ?thesis using assms(2) s by auto
qed

section \<open>Well-formed values\<close>

definition float_ok :: "(rat \<Rightarrow> string) \<Rightarrow> rat \<Rightarrow> bool" where
  "float_ok fr q = (numeric (fr q) \<and>
     (\<forall>r. stops r \<longrightarrow> read_number (fr q @ r) = Some (JFloat (Fin q), r)))"

text \<open>Objects have distinct names, and the text of each finite float reads back.\<close>

fun wf_json :: "(rat \<Rightarrow> string) \<Rightarrow> json \<Rightarrow> bool" where
  "wf_json fr (JFloat (Fin q)) = float_ok fr q"
| "wf_json fr (JList xs) = list_all (wf_json fr) xs"
| "wf_json fr (JDict kvs) = (distinct (map fst kvs) \<and> list_all (\<lambda>(k, v). wf_json fr v) kvs)"
| "wf_json fr v = True"

definition seps_ok :: "jopts \<Rightarrow> bool" where
  "seps_ok oo = ((\<exists>w. item_sep oo = CHR '','' # w \<and> list_all is_ws w) \<and>
     (\<exists>w. key_sep oo = CHR '':'' # w \<and> list_all is_ws w))"

lemma seps_ok_opts: "seps_ok plain_opts" "seps_ok pretty_opts" "seps_ok canonical_opts"
  by (simp_all add: seps_ok_def plain_opts_def pretty_opts_def canonical_opts_def is_ws_def)

lemma brk_ws: "list_all is_ws (brk oo lvl)"
  by (auto simp: brk_def is_ws_def list_all_iff split: option.splits)

lemma skip_ws_append: "list_all is_ws w \<Longrightarrow> skip_ws (w @ s) = skip_ws s"
  by (induction w) auto

lemma not_ws [simp]:
  "\<not> is_ws DQ" "\<not> is_ws (CHR ''{'')" "\<not> is_ws (CHR ''['')" "\<not> is_ws (CHR ''}'')" "\<not> is_ws (CHR '']'')"
  "\<not> is_ws (CHR '','')" "\<not> is_ws (CHR '':'')"
  by (simp_all add: is_ws_def)

lemma digit_not_ws: "is_digit c \<Longrightarrow> \<not> is_ws c"
  by (auto simp: is_digit_def is_ws_def)

definition json_start :: "char \<Rightarrow> bool" where
  "json_start c = (\<not> is_ws c \<and> c \<noteq> CHR '']'' \<and> c \<noteq> CHR ''}'')"

lemma digit_start: "is_digit c \<Longrightarrow> json_start c"
  using digit_not_ws by (auto simp: json_start_def is_digit_def)

lemma numeric_start: "numeric s \<Longrightarrow> json_start (hd s) \<and> s \<noteq> []"
proof -
  have "json_start (CHR ''-'')" by (simp add: json_start_def is_ws_def)
  then show "numeric s \<Longrightarrow> json_start (hd s) \<and> s \<noteq> []" by (auto simp: numeric_def digit_start)
qed

lemma json_text_start:
  "wf_json fr v \<Longrightarrow> json_start (hd (json_text fr oo lvl v)) \<and> json_text fr oo lvl v \<noteq> []"
proof -
  assume a: "wf_json fr v"
  have c: "json_start (CHR ''n'')" "json_start (CHR ''t'')" "json_start (CHR ''f'')" "json_start DQ"
    "json_start (CHR ''['')" "json_start (CHR ''{'')" "json_start (CHR ''I'')" "json_start (CHR ''N'')"
    "json_start (CHR ''-'')"
    by (simp_all add: json_start_def is_ws_def)
  show ?thesis
  proof (cases v)
    case (JInt i)
    then show ?thesis using numeric_start [OF numeric_show_int] by simp
  next
    case (JFloat f)
    with a c show ?thesis by (cases f) (auto simp: float_ok_def dest: numeric_start)
  qed (use c in \<open>simp_all add: dumps_str_def\<close>)
qed

lemma dict_of_distinct: "distinct (map fst kvs) \<Longrightarrow> dict_of kvs = kvs"
proof -
  have "distinct (map fst (d @ kvs)) \<Longrightarrow> foldl (\<lambda>d (k, v). AList.update k v d) d kvs = d @ kvs" for d
  proof (induction kvs arbitrary: d)
    case (Cons a kvs)
    obtain k v where a: "a = (k, v)" by (cases a)
    have "AList.update k v d = d @ [(k, v)]" if "k \<notin> fst ` set d" for d :: "(string \<times> json) list"
      using that by (induction d) auto
    with Cons a show ?case by (auto simp: )
  qed simp
  from this [of "[]"] show "distinct (map fst kvs) \<Longrightarrow> dict_of kvs = kvs" by (simp add: dict_of_def)
qed

section \<open>Elements and members\<close>

lemma json_start_D: "json_start (hd s) \<Longrightarrow> s \<noteq> [] \<Longrightarrow> skip_ws (s @ r) = s @ r"
  by (cases s) (auto simp: json_start_def)

lemma stops_ws: "list_all is_ws w \<Longrightarrow> stops r \<Longrightarrow> stops (w @ r)"
  using digit_not_ws by (cases w) (auto simp: stops_def is_ws_def)

lemma stops_seps [simp]: "stops (CHR '','' # r)" "stops (CHR '']'' # r)" "stops (CHR ''}'' # r)"
  by (simp_all add: stops_def is_digit_def)

lemma hd_join: "hd (join sep ((c # w) # ws) @ r) = c" "join sep ((c # w) # ws) @ r \<noteq> []"
  by (cases ws; simp)+

lemma fuel_Suc: "Suc k \<le> n \<Longrightarrow> \<exists>m. n = Suc m \<and> k \<le> m"
  by (cases n) auto

definition reads :: "hooks \<Rightarrow> nat \<Rightarrow> json \<Rightarrow> string \<Rightarrow> bool" where
  "reads h k v s = (json_start (hd s) \<and> s \<noteq> [] \<and>
     (\<forall>n r. k \<le> n \<longrightarrow> stops r \<longrightarrow> pval h n (s @ r) = Inr (v, r)))"

lemma pelems_reads:
  assumes "list_all2 (\<lambda>(k, v) s. reads h k v s) kxs ss" "kxs \<noteq> []"
    and "list_all is_ws w" "list_all is_ws w'" "(\<Sum>a\<leftarrow>kxs. Suc (fst a)) \<le> n"
  shows "pelems h n acc (join (CHR '','' # w) ss @ w' @ CHR '']'' # r) = Inr (JList (acc @ map snd kxs), r)"
  using assms
proof (induction kxs arbitrary: ss acc n)
  case (Cons kx kxs)
  obtain k x where kx: "kx = (k, x)" by (cases kx)
  from Cons.prems(1) kx obtain s ss' where ss: "ss = s # ss'" "reads h k x s"
    "list_all2 (\<lambda>(k, v) s. reads h k v s) kxs ss'"
    by (auto simp: list_all2_Cons1)
  obtain m where m: "n = Suc m" "k \<le> m" "(\<Sum>a\<leftarrow>kxs. Suc (fst a)) \<le> m"
    using Cons.prems(5) kx by (cases n) auto
  show ?case
  proof (cases "kxs = []")
    case True
    then have "ss' = []" using ss(3) by simp
    moreover have "stops (w' @ CHR '']'' # r)" by (rule stops_ws [OF Cons.prems(4)]) simp
    ultimately show ?thesis using True ss m kx
      by (simp add: reads_def skip_ws_append [OF Cons.prems(4)])
  next
    case False
    then obtain s2 ss2 where s2: "ss' = s2 # ss2" using ss(3) by (cases ss') auto
    let ?t = "join (CHR '','' # w) ss' @ w' @ CHR '']'' # r"
    have "json_start (hd s2) \<and> s2 \<noteq> []" using ss(3) s2 by (auto simp: list_all2_Cons2 reads_def)
    then have "skip_ws ?t = ?t" using s2 by (cases ss2; cases s2) (auto simp: json_start_def)
    moreover have "pelems h m (acc @ [x]) ?t = Inr (JList ((acc @ [x]) @ map snd kxs), r)"
      by (rule Cons.IH [OF ss(3) False Cons.prems(3,4) m(3)])
    moreover have "join (CHR '','' # w) ss @ w' @ CHR '']'' # r = s @ CHR '','' # w @ ?t"
      using ss(1) s2 by (simp add: join_Cons)
    ultimately show ?thesis using ss(2) m kx
      by (simp add: reads_def skip_ws_append [OF Cons.prems(3)])
  qed
qed simp

lemma pmembers_reads:
  assumes "list_all2 (\<lambda>(k, v) s. reads h k v s) kxs ss" "kxs \<noteq> []" "length ks = length kxs"
    and "list_all is_ws w" "list_all is_ws w'" "list_all is_ws w2" "(\<Sum>a\<leftarrow>kxs. Suc (fst a)) \<le> n"
  shows "pmembers h n acc (join (CHR '','' # w)
           (map (\<lambda>(k, s). dumps_str a k @ CHR '':'' # w2 @ s) (zip ks ss)) @ w' @ CHR ''}'' # r) =
         bindE (pairs_hook h (acc @ zip ks (map snd kxs))) (\<lambda>d. Inr (d, r))"
  using assms
proof (induction kxs arbitrary: ss ks acc n)
  case (Cons kx kxs)
  obtain k x where kx: "kx = (k, x)" by (cases kx)
  from Cons.prems(1) kx obtain s ss' where ss: "ss = s # ss'" "reads h k x s"
    "list_all2 (\<lambda>(k, v) s. reads h k v s) kxs ss'"
    by (auto simp: list_all2_Cons1)
  from Cons.prems(3) obtain key ks' where ks: "ks = key # ks'" "length ks' = length kxs" by (cases ks) auto
  obtain m where m: "n = Suc m" "k \<le> m" "(\<Sum>a\<leftarrow>kxs. Suc (fst a)) \<le> m"
    using Cons.prems(7) kx by (cases n) auto
  have b: "startswith (dumps_str a key @ t) [DQ]" "string_body (tl (dumps_str a key @ t)) = Some (key, t)" for t
    using string_body_dumps [of a key t] by (simp_all add: dumps_str_def)
  have sk: "skip_ws (s @ t) = s @ t" for t using ss(2) by (simp add: reads_def json_start_D)
  show ?case
  proof (cases "kxs = []")
    case True
    then have "ss' = []" "ks' = []" using ss(3) ks by simp_all
    moreover have "stops (w' @ CHR ''}'' # r)" by (rule stops_ws [OF Cons.prems(5)]) simp
    ultimately show ?thesis using True ss m kx ks b
      by (simp add: reads_def sk skip_ws_append [OF Cons.prems(5)] skip_ws_append [OF Cons.prems(6)])
  next
    case False
    then obtain s2 ss2 where s2: "ss' = s2 # ss2" using ss(3) by (cases ss') auto
    obtain k2 ks2 where k2: "ks' = k2 # ks2" using False ks(2) by (cases ks') auto
    let ?t = "join (CHR '','' # w) (map (\<lambda>(k, s). dumps_str a k @ CHR '':'' # w2 @ s) (zip ks' ss')) @ w' @ CHR ''}'' # r"
    have "hd ?t = DQ \<and> ?t \<noteq> []" using s2 k2
      by (simp add: dumps_str_def hd_join del: append_is_Nil_conv)
    then have "skip_ws ?t = ?t" by (cases ?t) auto
    moreover have "pmembers h m (acc @ [(key, x)]) ?t =
        bindE (pairs_hook h ((acc @ [(key, x)]) @ zip ks' (map snd kxs))) (\<lambda>d. Inr (d, r))"
      by (rule Cons.IH [OF ss(3) False ks(2) Cons.prems(4,5,6) m(3)])
    moreover have "join (CHR '','' # w) (map (\<lambda>(k, s). dumps_str a k @ CHR '':'' # w2 @ s) (zip ks ss)) @ w' @ CHR ''}'' # r =
        dumps_str a key @ CHR '':'' # w2 @ s @ CHR '','' # w @ ?t"
      using ss(1) ks(1) s2 k2 by (simp add: join_Cons)
    ultimately show ?thesis using ss(2) m kx ks b
      by (simp add: reads_def sk skip_ws_append [OF Cons.prems(4)] skip_ws_append [OF Cons.prems(6)])
  qed
qed simp

section \<open>The round trip\<close>

text \<open>The fuel a value needs, and that twice the length of its text is enough.\<close>

fun cost :: "json \<Rightarrow> nat" where
  "cost (JList xs) = Suc (\<Sum>x\<leftarrow>xs. Suc (cost x))"
| "cost (JDict kvs) = Suc (\<Sum>(k, x)\<leftarrow>kvs. Suc (cost x))"
| "cost v = 1"

lemma length_join: "ws \<noteq> [] \<Longrightarrow> length (join (CHR '','' # w) ws) + 1 \<ge> (\<Sum>s\<leftarrow>ws. Suc (length s))"
  by (induction ws rule: induct_list012) auto

lemma cost_le_length:
  assumes seps: "seps_ok oo"
  shows "wf_json fr v \<Longrightarrow> cost v \<le> 2 * length (json_text fr oo lvl v)"
proof (induction v arbitrary: lvl)
  case (JFloat f)
  then show ?case using json_text_start [OF JFloat, of oo lvl] by (cases "json_text fr oo lvl (JFloat f)") auto
next
  case (JInt i)
  then show ?case using json_text_start [of fr "JInt i" oo lvl] by (cases "json_text fr oo lvl (JInt i)") auto
next
  case (JList xs)
  obtain w where w: "item_sep oo = CHR '','' # w" using seps by (auto simp: seps_ok_def)
  show ?case
  proof (cases "xs = []")
    case False
    let ?ss = "map (json_text fr oo (Suc lvl)) xs"
    have "(\<Sum>x\<leftarrow>xs. Suc (cost x)) \<le> (\<Sum>x\<leftarrow>xs. 2 * Suc (length (json_text fr oo (Suc lvl) x)))"
      using JList by (intro sum_list_mono) (auto simp: list_all_iff intro: le_SucI)
    also have "\<dots> = 2 * (\<Sum>s\<leftarrow>?ss. Suc (length s))"
      by (simp add: sum_list_const_mult [symmetric] comp_def)
    also have "\<dots> \<le> 2 * (length (join (CHR '','' # w @ brk oo (Suc lvl)) ?ss) + 1)"
      using length_join [of ?ss] False by (intro mult_le_mono2) simp
    finally show ?thesis using False w by simp
  qed simp
next
  case (JDict kvs)
  obtain w where w: "item_sep oo = CHR '','' # w" using seps by (auto simp: seps_ok_def)
  show ?case
  proof (cases "kvs = []")
    case False
    let ?f = "\<lambda>(k, v). dumps_str (ensure_ascii oo) k @ key_sep oo @ json_text fr oo (Suc lvl) v"
    have "(\<Sum>(k, x)\<leftarrow>kvs. Suc (cost x)) \<le> (\<Sum>kv\<leftarrow>kvs. 2 * Suc (length (?f kv)))"
    proof (rule sum_list_mono)
      fix kv assume kv: "kv \<in> set kvs"
      obtain k x where kx: "kv = (k, x)" by (cases kv)
      then have "cost x \<le> 2 * length (json_text fr oo (Suc lvl) x)"
        using JDict.IH [of kv x "Suc lvl"] JDict.prems kv by (auto simp: list_all_iff)
      then show "(case kv of (k, x) \<Rightarrow> Suc (cost x)) \<le> 2 * Suc (length (?f kv))" using kx by simp
    qed
    also have "\<dots> = 2 * (\<Sum>s\<leftarrow>map ?f kvs. Suc (length s))"
      by (simp add: sum_list_const_mult [symmetric] comp_def)
    also have "\<dots> \<le> 2 * (length (join (CHR '','' # w @ brk oo (Suc lvl)) (map ?f kvs)) + 1)"
      using length_join [of "map ?f kvs"] False by (intro mult_le_mono2) simp
    finally show ?thesis using False w by simp
  qed simp
qed (auto simp: dumps_str_def)

text \<open>The hooks that build an object from distinct members unchanged, and that keep the constants of
  a value if it has any.\<close>

definition faithful_hooks :: "hooks \<Rightarrow> bool" where
  "faithful_hooks h = (\<forall>kvs. distinct (map fst kvs) \<longrightarrow> pairs_hook h kvs = Inr (JDict kvs))"

definition keeps_consts :: "hooks \<Rightarrow> json \<Rightarrow> bool" where
  "keeps_consts h v = (const_hook h = const_hook plain_hooks \<or> all_finite v)"

lemma faithful_plain: "faithful_hooks plain_hooks" "keeps_consts plain_hooks v"
  by (simp_all add: faithful_hooks_def keeps_consts_def plain_hooks_def dict_of_distinct)

lemma keeps_consts_parts:
  "keeps_consts h (JList xs) \<Longrightarrow> x \<in> set xs \<Longrightarrow> keeps_consts h x"
  "keeps_consts h (JDict kvs) \<Longrightarrow> (k, x) \<in> set kvs \<Longrightarrow> keeps_consts h x"
  by (auto simp: keeps_consts_def list_all_iff)

lemma reads_value:
  assumes seps: "seps_ok oo" and hooks: "faithful_hooks h"
  shows "wf_json fr v \<Longrightarrow> keeps_consts h v \<Longrightarrow> reads h (cost v) v (json_text fr oo lvl v)"
proof -
  have h: "\<And>kvs. distinct (map fst kvs) \<Longrightarrow> pairs_hook h kvs = Inr (JDict kvs)"
    using hooks by (auto simp: faithful_hooks_def)
  show "wf_json fr v \<Longrightarrow> keeps_consts h v \<Longrightarrow> reads h (cost v) v (json_text fr oo lvl v)"
proof (induction v arbitrary: lvl)
  case (JFloat f)
  have start: "json_start (hd (json_text fr oo lvl (JFloat f))) \<and> json_text fr oo lvl (JFloat f) \<noteq> []"
    by (rule json_text_start [OF JFloat(1)])
  have "pval h (Suc n) (json_text fr oo lvl (JFloat f) @ r) = Inr (JFloat f, r)" if "stops r" for n r
  proof (cases f)
    case (Fin q)
    with JFloat that have "numeric (fr q)" "read_number (fr q @ r) = Some (JFloat (Fin q), r)"
      by (auto simp: float_ok_def)
    from pval_numeric [OF this] show ?thesis using Fin by simp
  qed (use JFloat(2) in \<open>simp_all add: keeps_consts_def plain_hooks_def\<close>)
  with start show ?case by (auto simp: reads_def dest!: fuel_Suc)
next
  case (JInt i)
  have "pval h (Suc n) (show_int i @ r) = Inr (JInt i, r)" if "stops r" for n r
    by (rule pval_numeric [OF numeric_show_int read_number_show [OF that]])
  then show ?case using numeric_start [OF numeric_show_int [of i]]
    by (auto simp: reads_def dest!: fuel_Suc)
next
  case (JStr s)
  have "pval h (Suc n) (dumps_str a s @ r) = Inr (JStr s, r)" for n r a
    using string_body_dumps [of a s r] by (simp add: dumps_str_def)
  moreover have "json_start DQ" by (simp add: json_start_def)
  ultimately show ?case by (auto simp: reads_def dumps_str_def dest!: fuel_Suc)
next
  case (JList xs)
  have start: "json_start (CHR ''['')" by (simp add: json_start_def)
  show ?case
  proof (cases "xs = []")
    case True
    then show ?thesis using start by (auto simp: reads_def dest!: fuel_Suc)
  next
    case False
    obtain w where w: "item_sep oo = CHR '','' # w" "list_all is_ws w" using seps by (auto simp: seps_ok_def)
    let ?ss = "map (json_text fr oo (Suc lvl)) xs" and ?kxs = "map (\<lambda>x. (cost x, x)) xs"
    have all: "list_all2 (\<lambda>(k, v) s. reads h k v s) ?kxs ?ss"
    proof -
      have "reads h (cost x) x (json_text fr oo (Suc lvl) x)" if "x \<in> set xs" for x
        using JList.IH [OF that] JList.prems keeps_consts_parts(1) [OF JList.prems(2) that] that by (simp add: list_all_iff)
      then show ?thesis by (auto simp: list_all2_conv_all_nth)
    qed
    have ws: "list_all is_ws (w @ brk oo (Suc lvl))" using w(2) brk_ws by simp
    let ?u = "\<lambda>r. join (CHR '','' # w @ brk oo (Suc lvl)) ?ss @ brk oo lvl @ CHR '']'' # r"
    have hd: "skip_ws (brk oo (Suc lvl) @ ?u r) = ?u r \<and> \<not> startswith (?u r) '']''" for r
    proof -
      obtain x xs' where x: "xs = x # xs'" using False by (cases xs) auto
      have "json_start (hd (json_text fr oo (Suc lvl) x)) \<and> json_text fr oo (Suc lvl) x \<noteq> []"
        using JList.prems x by (intro json_text_start) simp
      then have "json_start (hd (?u r)) \<and> ?u r \<noteq> []" using x by (cases xs') auto
      then show ?thesis by (cases "?u r") (auto simp: skip_ws_append [OF brk_ws] json_start_def)
    qed
    have "pval h (Suc n) (json_text fr oo lvl (JList xs) @ r) = Inr (JList xs, r)"
      if "(\<Sum>x\<leftarrow>xs. Suc (cost x)) \<le> n" for n r
      using pelems_reads [OF all _ ws brk_ws, where n = n and acc = "[]" and r = r] False that hd [of r] w(1)
      by (simp add: comp_def Let_def)
    then show ?thesis using start False by (auto simp: reads_def dest!: fuel_Suc)
  qed
next
  case (JDict kvs)
  have start: "json_start (CHR ''{'')" by (simp add: json_start_def)
  show ?case
  proof (cases "kvs = []")
    case True
    then show ?thesis using start by (auto simp: reads_def h dest!: fuel_Suc)
  next
    case False
    obtain w where w: "item_sep oo = CHR '','' # w" "list_all is_ws w" using seps by (auto simp: seps_ok_def)
    obtain w2 where w2: "key_sep oo = CHR '':'' # w2" "list_all is_ws w2" using seps by (auto simp: seps_ok_def)
    let ?ks = "map fst kvs" and ?ss = "map (json_text fr oo (Suc lvl) \<circ> snd) kvs"
      and ?kxs = "map (\<lambda>(k, x). (cost x, x)) kvs"
    have all: "list_all2 (\<lambda>(k, v) s. reads h k v s) ?kxs ?ss"
    proof (rule list_all2_all_nthI)
      fix i assume i: "i < length ?kxs"
      obtain k x where kx: "kvs ! i = (k, x)" by (cases "kvs ! i")
      then have "(k, x) \<in> set kvs" using i by (metis length_map nth_mem)
      then have "reads h (cost x) x (json_text fr oo (Suc lvl) x)"
        using JDict.IH [of "(k, x)" x "Suc lvl"] JDict.prems keeps_consts_parts(2) [OF JDict.prems(2)] by (auto simp: list_all_iff)
      then show "(\<lambda>(k, v) s. reads h k v s) (?kxs ! i) (?ss ! i)" using i kx by simp
    qed simp
    have ws: "list_all is_ws (w @ brk oo (Suc lvl))" using w(2) brk_ws by simp
    let ?ms = "map (\<lambda>(k, s). dumps_str (ensure_ascii oo) k @ CHR '':'' # w2 @ s) (zip ?ks ?ss)"
    have ms: "?ms = map (\<lambda>(k, v). dumps_str (ensure_ascii oo) k @ key_sep oo @ json_text fr oo (Suc lvl) v) kvs"
      by (simp add: w2(1) zip_map_map zip_same_conv_map split_def)
    let ?u = "\<lambda>r. join (CHR '','' # w @ brk oo (Suc lvl)) ?ms @ brk oo lvl @ CHR ''}'' # r"
    have hd: "skip_ws (brk oo (Suc lvl) @ ?u r) = ?u r \<and> \<not> startswith (?u r) ''}''" for r
    proof -
      obtain kx kvs' where x: "kvs = kx # kvs'" using False by (cases kvs) auto
      have "hd (?u r) = DQ \<and> ?u r \<noteq> []" using x
        by (simp add: dumps_str_def hd_join split_def del: append_is_Nil_conv)
      then show ?thesis by (cases "?u r") (auto simp: skip_ws_append [OF brk_ws])
    qed
    have kx: "zip ?ks (map snd ?kxs) = kvs" by (induction kvs) auto
    have "pval h (Suc n) (json_text fr oo lvl (JDict kvs) @ r) = Inr (JDict kvs, r)"
      if "(\<Sum>(k, x)\<leftarrow>kvs. Suc (cost x)) \<le> n" for n r
      using pmembers_reads [OF all _ _ ws brk_ws w2(2), where ks = ?ks and n = n and acc = "[]"
          and a = "ensure_ascii oo" and r = r] False that hd [of r]
        w(1) JDict.prems
      unfolding kx ms
      by (simp add: comp_def split_def Let_def h)
    then show ?thesis using start False by (auto simp: reads_def dest!: fuel_Suc)
  qed
qed (auto simp: reads_def json_start_def is_ws_def dest!: fuel_Suc)
qed

theorem loads_with_json_text:
  assumes "seps_ok oo" "wf_json fr v" "list_all is_ws w" "faithful_hooks h" "keeps_consts h v"
  shows "loads_with h (json_text fr oo 0 v @ w) = Inr v"
proof -
  let ?s = "json_text fr oo 0 v"
  have r: "reads h (cost v) v ?s" by (rule reads_value [OF assms(1,4,2,5)])
  then have "skip_ws (?s @ w) = ?s @ w" by (simp add: reads_def json_start_D)
  moreover have "cost v \<le> 2 * length (?s @ w) + 2" using cost_le_length [OF assms(1,2), of 0] by simp
  moreover have "stops w" using stops_ws [OF assms(3), of "[]"] by (simp add: stops_def)
  ultimately have "pval h (2 * length (?s @ w) + 2) (skip_ws (?s @ w)) = Inr (v, w)"
    using r unfolding reads_def by metis
  moreover have "skip_ws w = []" using assms(3) by (induction w) auto
  ultimately show ?thesis unfolding loads_with_def by (simp only: bindE_simps prod.case if_True simp_thms)
qed

lemma loads_json_text:
  "seps_ok oo \<Longrightarrow> wf_json fr v \<Longrightarrow> list_all is_ws w \<Longrightarrow> loads (json_text fr oo 0 v @ w) = Inr v"
  unfolding loads_def by (rule loads_with_json_text [OF _ _ _ faithful_plain])

lemma wf_json_update: "wf_json fr (JDict d) \<Longrightarrow> wf_json fr x \<Longrightarrow> wf_json fr (JDict (AList.update k x d))"
proof -
  have "list_all (\<lambda>(k, v). wf_json fr v) d \<Longrightarrow> wf_json fr x \<Longrightarrow> list_all (\<lambda>(k, v). wf_json fr v) (AList.update k x d)"
    by (induction d) auto
  then show "wf_json fr (JDict d) \<Longrightarrow> wf_json fr x \<Longrightarrow> wf_json fr (JDict (AList.update k x d))"
    by (simp add: distinct_update)
qed

end
