(* ===== verification/Codec.thy ===== *)
theory Codec
  imports PyJsonRoundtrip
begin

text \<open>
  The interface of an encoding: what is written reads back. A line codec adds that an encoded
  value is one line, so that a file of encoded lines reads back as the list of its values. JSON
  string literals, Base64 and the compact JSON record lines of the evidence bundles are instances.
\<close>

section \<open>Encodings\<close>

locale codec =
  fixes enc :: "'a \<Rightarrow> string"
    and dec :: "string \<Rightarrow> 'a res"
    and good :: "'a \<Rightarrow> bool"
  assumes dec_enc: "good x \<Longrightarrow> dec (enc x) = Inr x"
begin

lemma enc_inject: "good x \<Longrightarrow> good y \<Longrightarrow> enc x = enc y \<longleftrightarrow> x = y"
  by (metis dec_enc sum.inject(2))

lemma dec_all: "list_all good xs \<Longrightarrow> mapE dec (map enc xs) = Inr xs"
  by (induction xs) (auto simp: dec_enc)

lemma distinct_enc: "list_all good xs \<Longrightarrow> distinct xs \<Longrightarrow> distinct (map enc xs)"
  by (auto simp: distinct_map inj_on_def list_all_iff enc_inject)

end

section \<open>Lines of a stream\<close>

text \<open>Iterating over a binary stream: every line keeps its newline, the last one may lack it.\<close>

definition stream_lines :: "string \<Rightarrow> string list" where
  "stream_lines s = (let ws = split_chr NL s in
     map (\<lambda>w. w @ [NL]) (butlast ws) @ (if last ws = [] then [] else [last ws]))"

lemma concat_stream_lines: "concat (stream_lines s) = s"
proof -
  have "concat (map (\<lambda>w. w @ [NL]) (butlast ws)) @ last ws = join [NL] ws" if "ws \<noteq> []" for ws :: "string list"
    using that by (induction ws rule: induct_list012) auto
  from this [of "split_chr NL s"] show ?thesis
    by (auto simp: stream_lines_def Let_def join_split_chr)
qed

lemma split_chr_lines:
  "\<forall>w \<in> set ws. NL \<notin> set w \<Longrightarrow> split_chr NL (concat (map (\<lambda>w. w @ [NL]) ws)) = ws @ [[]]"
  by (induction ws) (auto simp: split_chr_append)

lemma stream_lines_concat:
  "\<forall>w \<in> set ws. NL \<notin> set w \<Longrightarrow> stream_lines (concat (map (\<lambda>w. w @ [NL]) ws)) = map (\<lambda>w. w @ [NL]) ws"
  by (simp add: stream_lines_def split_chr_lines)

locale line_codec = codec +
  assumes enc_line: "good x \<Longrightarrow> NL \<notin> set (enc x)"
    and dec_line: "good x \<Longrightarrow> dec (enc x @ [NL]) = Inr x"
begin

definition write_lines :: "'a list \<Rightarrow> string" where
  "write_lines xs = concat (map (\<lambda>x. enc x @ [NL]) xs)"

lemma lines_written: "list_all good xs \<Longrightarrow> stream_lines (write_lines xs) = map (\<lambda>x. enc x @ [NL]) xs"
  using stream_lines_concat [of "map enc xs"]
  by (auto simp: write_lines_def list_all_iff enc_line comp_def)

lemma read_lines: "list_all good xs \<Longrightarrow> mapE dec (stream_lines (write_lines xs)) = Inr xs"
  by (simp only: lines_written) (induction xs; simp add: dec_line)

end

section \<open>JSON lines\<close>

definition json_line_text :: "json \<Rightarrow> string" where
  "json_line_text v = json_text (\<lambda>q. []) canonical_opts 0 v"

text \<open>The text of a value holds no control character.\<close>

definition is_control :: "char \<Rightarrow> bool" where
  "is_control z = (of_char z < (32 :: nat))"

lemma escape_chr_no_control: "is_control z \<Longrightarrow> z \<notin> set (escape_chr a c)"
proof -
  assume z: "is_control z"
  have "z \<noteq> digit_chr d" if "d < 16" for d :: nat
    using z that by (auto simp: is_control_def digit_chr_def)
  then have "z \<notin> set (hex_pad 4 (of_char c))" using hex_pad_digits by blast
  moreover have "short_escape c = Some e \<Longrightarrow> e \<noteq> z" for e using z by (auto simp: is_control_def short_escape_def split: if_splits)
  moreover have "\<not> of_char c < (32 :: nat) \<Longrightarrow> c \<noteq> z" using z by (auto simp: is_control_def)
  moreover have "z \<noteq> BSL" "z \<noteq> CHR ''u''" using z by (auto simp: is_control_def)
  ultimately show ?thesis by (auto simp: escape_chr_def hex4_def split: option.split)
qed

lemma dumps_str_no_control: "is_control z \<Longrightarrow> z \<notin> set (dumps_str a s)"
  using escape_chr_no_control by (auto simp: dumps_str_def is_control_def)

lemma show_int_no_control: "is_control z \<Longrightarrow> z \<notin> set (show_int i)"
proof -
  assume z: "is_control z"
  then have "\<not> is_digit z" by (simp add: is_digit_def is_control_def)
  then have "z \<notin> set (show_nat n)" for n using show_nat_digits [of n] by (auto simp: list_all_iff)
  then show ?thesis using z by (auto simp: show_int_def is_control_def)
qed

fun no_floats :: "json \<Rightarrow> bool" where
  "no_floats (JFloat f) = False"
| "no_floats (JList xs) = list_all no_floats xs"
| "no_floats (JDict kvs) = list_all (\<lambda>(k, v). no_floats v) kvs"
| "no_floats v = True"

lemma not_in_join: "c \<notin> set sep \<Longrightarrow> (\<And>w. w \<in> set ws \<Longrightarrow> c \<notin> set w) \<Longrightarrow> c \<notin> set (join sep ws)"
  by (induction sep ws rule: join.induct) auto

lemma json_text_no_control: "is_control z \<Longrightarrow> no_floats v \<Longrightarrow> z \<notin> set (json_text fr canonical_opts lvl v)"
proof (induction v arbitrary: lvl)
  case (JList xs)
  have b: "brk canonical_opts l = []" "item_sep canonical_opts = '',''" for l
    by (simp_all add: brk_def canonical_opts_def plain_opts_def)
  have z: "z \<notin> set ''[],''" using JList.prems by (auto simp: is_control_def)
  have "z \<notin> set (json_text fr canonical_opts (Suc lvl) x)" if "x \<in> set xs" for x
    using JList that by (auto simp: list_all_iff)
  then have "z \<notin> set (join '','' (map (json_text fr canonical_opts (Suc lvl)) xs))"
    using z by (intro not_in_join) auto
  then show ?case using z by (simp add: b)
next
  case (JDict kvs)
  have b: "brk canonical_opts l = []" "item_sep canonical_opts = '',''" "key_sep canonical_opts = '':''" for l
    by (simp_all add: brk_def canonical_opts_def plain_opts_def)
  have z: "z \<notin> set ''{},:''" using JDict.prems by (auto simp: is_control_def)
  have "z \<notin> set (json_text fr canonical_opts (Suc lvl) x)" if "(k, x) \<in> set kvs" for k x
    using JDict.IH [of "(k, x)" x] JDict.prems that by (auto simp: list_all_iff)
  then have "z \<notin> set s" if "s \<in> set (map (\<lambda>(k, v). dumps_str (ensure_ascii canonical_opts) k @ '':'' @
      json_text fr canonical_opts (Suc lvl) v) kvs)" for s
    using that z dumps_str_no_control [OF JDict.prems(1)] by auto
  then have "z \<notin> set (join '','' (map (\<lambda>(k, v). dumps_str (ensure_ascii canonical_opts) k @ '':'' @
      json_text fr canonical_opts (Suc lvl) v) kvs))"
    using z by (intro not_in_join) simp_all
  then show ?case using z by (simp add: b)
qed (use dumps_str_no_control show_int_no_control in \<open>auto simp: is_control_def\<close>)

lemma json_text_no_newline: "no_floats v \<Longrightarrow> NL \<notin> set (json_text fr canonical_opts lvl v)"
  by (rule json_text_no_control) (simp add: is_control_def)

definition line_value :: "json \<Rightarrow> bool" where
  "line_value v = (no_floats v \<and> wf_json (\<lambda>q. []) v)"

interpretation json_lines: line_codec json_line_text loads line_value
proof
  fix v assume v: "line_value v"
  show "loads (json_line_text v) = Inr v"
    using loads_json_text [OF seps_ok_opts(3), of _ v "[]"] v by (simp add: line_value_def json_line_text_def)
  show "NL \<notin> set (json_line_text v)"
    using json_text_no_newline v by (simp add: line_value_def json_line_text_def)
  show "loads (json_line_text v @ [NL]) = Inr v"
    using loads_json_text [OF seps_ok_opts(3), of _ v "[NL]"] v
    by (simp add: line_value_def json_line_text_def is_ws_def)
qed

section \<open>Base64\<close>

definition b64_chr :: "nat \<Rightarrow> char" where
  "b64_chr n = char_of (if n < 26 then 65 + n else if n < 52 then 71 + n else if n < 62 then n - 4
     else if n = 62 then 43 else 47)"

definition b64_val :: "char \<Rightarrow> nat option" where
  "b64_val c = (let n = of_char c :: nat in
     if 65 \<le> n \<and> n \<le> 90 then Some (n - 65) else if 97 \<le> n \<and> n \<le> 122 then Some (n - 71)
     else if 48 \<le> n \<and> n \<le> 57 then Some (n + 4) else if n = 43 then Some 62 else if n = 47 then Some 63 else None)"

fun b64encode :: "string \<Rightarrow> string" where
  "b64encode [] = []"
| "b64encode [a] = (let x = of_char a :: nat in [b64_chr (x div 4), b64_chr (x mod 4 * 16), CHR ''='', CHR ''=''])"
| "b64encode [a, b] = (let x = of_char a :: nat; y = of_char b in
     [b64_chr (x div 4), b64_chr (x mod 4 * 16 + y div 16), b64_chr (y mod 16 * 4), CHR ''=''])"
| "b64encode (a # b # c # s) = (let x = of_char a :: nat; y = of_char b; z = of_char c in
     b64_chr (x div 4) # b64_chr (x mod 4 * 16 + y div 16) # b64_chr (y mod 16 * 4 + z div 64) # b64_chr (z mod 64) #
     b64encode s)"

text \<open>\<open>b64decode(s, validate=True)\<close>: groups of four, padding only at the end.\<close>

fun b64decode :: "string \<Rightarrow> string res" where
  "b64decode [] = Inr []"
| "b64decode (a # b # c # d # s) = (case (b64_val a, b64_val b) of
      (Some p, Some q) \<Rightarrow>
        let x = char_of (p * 4 + q div 16) in
        if c = CHR ''='' \<and> d = CHR ''='' then if s = [] then Inr [x] else Inl (ValueError ''Excess data after padding'')
        else (case b64_val c of
            None \<Rightarrow> Inl (ValueError ''Invalid base64'')
          | Some r \<Rightarrow>
              let y = char_of (q mod 16 * 16 + r div 4) in
              if d = CHR ''='' then if s = [] then Inr [x, y] else Inl (ValueError ''Excess data after padding'')
              else (case b64_val d of
                  None \<Rightarrow> Inl (ValueError ''Invalid base64'')
                | Some t \<Rightarrow> bindE (b64decode s) (\<lambda>w. Inr (x # y # char_of (r mod 4 * 64 + t) # w))))
    | _ \<Rightarrow> Inl (ValueError ''Invalid base64''))"
| "b64decode s = Inl (ValueError ''Incorrect padding'')"

lemma b64_val_chr: "n < 64 \<Longrightarrow> b64_val (b64_chr n) = Some n"
  by (auto simp: b64_val_def b64_chr_def Let_def)

lemma b64_chr_not_pad: "n < 64 \<Longrightarrow> b64_chr n \<noteq> CHR ''=''"
proof
  assume "n < 64" "b64_chr n = CHR ''=''"
  then have "b64_val (CHR ''='') = Some n" using b64_val_chr by metis
  then show False by (simp add: b64_val_def)
qed

lemma byte_bounds:
  "(of_char a :: nat) div 4 < 64" "(of_char a :: nat) mod 4 * 16 + (of_char b :: nat) div 16 < 64"
  "(of_char b :: nat) mod 16 * 4 + (of_char c :: nat) div 64 < 64" "(of_char c :: nat) mod 64 < 64"
  "(of_char a :: nat) mod 4 * 16 < 64" "(of_char b :: nat) mod 16 * 4 < 64"
proof -
  have "(of_char a :: nat) < 256" "(of_char b :: nat) < 256" "(of_char c :: nat) < 256" by simp_all
  then show "(of_char a :: nat) div 4 < 64" "(of_char a :: nat) mod 4 * 16 + (of_char b :: nat) div 16 < 64"
    "(of_char b :: nat) mod 16 * 4 + (of_char c :: nat) div 64 < 64" "(of_char c :: nat) mod 64 < 64"
    "(of_char a :: nat) mod 4 * 16 < 64" "(of_char b :: nat) mod 16 * 4 < 64"
    by linarith+
qed

lemma byte_joins:
  fixes x y z :: nat
  shows "x div 4 * 4 + (x mod 4 * 16 + y) div 16 = x + y div 16"
    and "y < 256 \<Longrightarrow> (x mod 4 * 16 + y div 16) mod 16 * 16 + (y mod 16 * 4 + z) div 4 = y + z div 4"
    and "z < 256 \<Longrightarrow> (y mod 16 * 4 + z div 64) mod 4 * 64 + z mod 64 = z"
proof -
  have "(x mod 4 * 16 + y) div 16 = x mod 4 + y div 16" by simp
  then show "x div 4 * 4 + (x mod 4 * 16 + y) div 16 = x + y div 16" by simp
  assume "y < 256"
  then have "y div 16 < 16" by linarith
  then have "(x mod 4 * 16 + y div 16) mod 16 = y div 16" by simp
  moreover have "(y mod 16 * 4 + z) div 4 = y mod 16 + z div 4" by simp
  ultimately have "(x mod 4 * 16 + y div 16) mod 16 * 16 + (y mod 16 * 4 + z) div 4 = y div 16 * 16 + y mod 16 + z div 4"
    by simp
  then show "(x mod 4 * 16 + y div 16) mod 16 * 16 + (y mod 16 * 4 + z) div 4 = y + z div 4"
    by (simp only: div_mult_mod_eq)
next
  assume "z < 256"
  then have "z div 64 < 4" by linarith
  then have "(y mod 16 * 4 + z div 64) mod 4 = z div 64" by simp
  then show "(y mod 16 * 4 + z div 64) mod 4 * 64 + z mod 64 = z" by (simp only: div_mult_mod_eq)
qed

lemma byte_joins0:
  fixes x y :: nat
  shows "x div 4 * 4 + x mod 4 * 16 div 16 = x"
    and "y < 256 \<Longrightarrow> (x mod 4 * 16 + y div 16) mod 16 * 16 + y mod 16 * 4 div 4 = y"
  using byte_joins(1) [of x 0] byte_joins(2) [of y x 0] by simp_all

lemma b64decode_encode: "b64decode (b64encode s) = Inr s"
proof (induction s rule: b64encode.induct)
  case (2 a)
  show ?case by (simp add: Let_def b64_val_chr byte_bounds byte_joins0)
next
  case (3 a b)
  have y: "(of_char b :: nat) div 16 div 16 = 0" using byte_bounds(1) [of b] by (simp add: div_mult2_eq [symmetric])
  have "(of_char a :: nat) div 4 * 4 + (of_char a mod 4 * 16 + of_char b div 16) div 16 = of_char a"
    using byte_joins(1) [of "of_char a" "of_char b div 16"] y by simp
  moreover have "((of_char a :: nat) mod 4 * 16 + of_char b div 16) mod 16 * 16 + of_char b mod 16 * 4 div 4 = of_char b"
    by (rule byte_joins0) simp
  ultimately show ?case by (simp add: b64_val_chr b64_chr_not_pad byte_bounds Let_def)
next
  case (4 a b c s)
  have y: "(of_char b :: nat) div 16 div 16 = 0" "(of_char c :: nat) div 64 div 4 = 0"
    using byte_bounds(1) [of b] byte_bounds(1) [of c] by (simp_all add: div_mult2_eq [symmetric])
  have "(of_char a :: nat) div 4 * 4 + (of_char a mod 4 * 16 + of_char b div 16) div 16 = of_char a"
    using byte_joins(1) [of "of_char a" "of_char b div 16"] y by simp
  moreover have "((of_char a :: nat) mod 4 * 16 + of_char b div 16) mod 16 * 16 + (of_char b mod 16 * 4 + of_char c div 64) div 4 = of_char b"
    using byte_joins(2) [of "of_char b" "of_char a" "of_char c div 64"] y by simp
  moreover have "((of_char b :: nat) mod 16 * 4 + of_char c div 64) mod 4 * 64 + of_char c mod 64 = of_char c"
    by (rule byte_joins(3)) simp
  ultimately show ?case using 4 by (simp add: b64_val_chr b64_chr_not_pad byte_bounds Let_def)
qed simp

interpretation base64: codec b64encode b64decode "\<lambda>s. True"
  by unfold_locales (rule b64decode_encode)

end
