(* ===== verification/RecoverySync.thy ===== *)
theory RecoverySync
  imports Recovery Codec
begin

text \<open>
  The synchronisation half of \<open>tools/recovery_layout_sync.py\<close>: default mutations, the layout rows,
  the mutation rows, the own-frontend module list, and \<open>synchronize\<close>, which computes the three and
  writes the files that changed.
\<close>

section \<open>Inventory strings\<close>

definition encode :: "string \<Rightarrow> string" where
  "encode value = dumps_str False value"

text \<open>\<open>json.loads\<close> of a literal that begins with a quote.\<close>

definition decode :: "string \<Rightarrow> string res" where
  "decode literal = (case literal of
       c # s \<Rightarrow> if c \<noteq> DQ then Inl (ValueError ''Expecting value'')
         else (case string_body s of None \<Rightarrow> Inl (ValueError ''Invalid string'')
          | Some (w, r) \<Rightarrow> if r = [] then Inr w else Inl (ValueError ''Extra data''))
     | [] \<Rightarrow> Inl (ValueError ''Expecting value''))"

section \<open>Default mutations\<close>

fun first_some :: "('a \<Rightarrow> 'b option) \<Rightarrow> 'a list \<Rightarrow> 'b option" where
  "first_some f [] = None"
| "first_some f (x # xs) = (case f x of None \<Rightarrow> first_some f xs | Some y \<Rightarrow> Some y)"

definition once :: "string \<Rightarrow> string \<Rightarrow> bool" where
  "once source needle = (count_str needle source = 1)"

definition max_integer :: nat where "max_integer = 9007199254740991"

definition grp_text :: "nat \<Rightarrow> (nat \<times> string) list \<Rightarrow> string" where
  "grp_text g gs = (case grp g gs of None \<Rightarrow> [] | Some w \<Rightarrow> w)"

definition name_rx :: rx where
  "name_rx = Seq (Cls (lower_cls @ one_cls (CHR ''_''))) (Star (Cls (lower_cls @ digit_cls @ one_cls (CHR ''_''))))"

definition int_rx :: rx where "int_rx = rplus (Cls digit_cls)"

definition compare_rx :: rx where
  "compare_rx = alts [lit ''>='', lit ''<='', lit ''=='', lit ''!='', lit ''>'', lit ''<'']"

definition tabs :: rx where "tabs = Star (chr TAB)"
definition bool_rx :: rx where "bool_rx = Alt (lit ''true'') (lit ''false'')"

definition binding_rx :: rx where
  "binding_rx = seqs [Bol, tabs, lit ''mut '', name_rx, lit '' := '', Grp 1 bool_rx, chr NL]"

definition definition_rx :: rx where
  "definition_rx = seqs [Bol, lit ''def '', Cls (upper_cls @ lower_cls @ one_cls (CHR ''_'')),
     Star (Cls (upper_cls @ lower_cls @ digit_cls @ one_cls (CHR ''_''))), lit ''(): Integer'', chr NL,
     Star (Cls (chr_cls [CHR '' '', TAB])), lit ''return '', Grp 1 int_rx, chr NL, lit ''end'', chr NL]"

definition product_rx :: rx where
  "product_rx = seqs [Bol, tabs, name_rx, lit '' := '', name_rx, lit '' * '', Grp 1 int_rx, chr NL]"

definition emitted_rx :: rx where
  "emitted_rx = seqs [chr BSL, chr DQ, at_least 3 (Cls (upper_cls @ lower_cls @ digit_cls @ chr_cls '' _.,:;!?()-'')), chr BSL, chr DQ]"

definition candidates :: "rx \<Rightarrow> string \<Rightarrow> string list" where
  "candidates r body = findall (Alt STRING (Alt COMMENT r)) body"

text \<open>The replacement of the integer of a needle: the text before the group, the successor, and
  the text after it.\<close>

definition bumped :: "nat \<Rightarrow> string \<Rightarrow> string \<Rightarrow> string \<Rightarrow> string" where
  "bumped n pre suf digits = pre @ show_nat (Suc n) @ suf"

definition safe_literal_mutation :: "string \<Rightarrow> string \<Rightarrow> string \<Rightarrow> (string \<times> string \<times> string) option" where
  "safe_literal_mutation name source body = first_some (\<lambda>needle.
     if fullmatch SAFE_LITERAL needle \<and> once source needle
     then Some (name, needle, butlast needle @ [CHR ''~'', DQ]) else None)
     (findall (Alt STRING COMMENT) body)"

definition field_mutation :: "string \<Rightarrow> string \<Rightarrow> string \<Rightarrow> (string \<times> string \<times> string) option" where
  "field_mutation name source body = (let ls = splitlines body in
     first_some (\<lambda>(a, b). let needle = a @ [NL] @ b in
       if fullmatch FIELD a \<and> fullmatch FIELD b \<and> a \<noteq> b \<and> once source needle
       then Some (name, needle, b @ [NL] @ a) else None) (zip ls (tl ls)))"

definition cell_mutation :: "string \<Rightarrow> string \<Rightarrow> string \<Rightarrow> (string \<times> string \<times> string) option" where
  "cell_mutation name source body = first_some (\<lambda>needle.
     if (needle = ''[true]'' \<or> needle = ''[false]'') \<and> once source needle
     then Some (name, needle, if needle = ''[true]'' then ''[false]'' else ''[true]'') else None)
     (candidates (seqs [chr (CHR ''[''), bool_rx, chr (CHR '']'')]) body)"

definition bound_mutation :: "string \<Rightarrow> string \<Rightarrow> string \<Rightarrow> (string \<times> string \<times> string) option" where
  "bound_mutation name source body = first_some (\<lambda>needle.
     (case fullmatch_groups (seqs [Grp 1 compare_rx, lit '' '', Grp 2 int_rx]) needle of None \<Rightarrow> None
      | Some gs \<Rightarrow> let n = nat_of_digits (grp_text 2 gs) in
          if n < max_integer \<and> once source needle
          then Some (name, needle, grp_text 1 gs @ '' '' @ show_nat (n + 1)) else None))
     (candidates (seqs [compare_rx, lit '' '', int_rx, WordB]) body)"

definition divisor_mutation :: "string \<Rightarrow> string \<Rightarrow> string \<Rightarrow> (string \<times> string \<times> string) option" where
  "divisor_mutation name source body = first_some (\<lambda>needle.
     (case fullmatch_groups (seqs [lit ''% '', Grp 1 int_rx]) needle of None \<Rightarrow> None
      | Some gs \<Rightarrow> let n = nat_of_digits (grp_text 1 gs) in
          if 0 < n \<and> n < max_integer \<and> once source needle
          then Some (name, needle, ''% '' @ show_nat (n + 1)) else None))
     (candidates (seqs [lit ''% '', int_rx, WordB]) body)"

definition binding_mutation :: "string \<Rightarrow> string \<Rightarrow> string \<Rightarrow> (string \<times> string \<times> string) option" where
  "binding_mutation name source body = first_some (\<lambda>needle.
     (case fullmatch_groups binding_rx needle of None \<Rightarrow> None
      | Some gs \<Rightarrow> let value = grp_text 1 gs in
          if once source needle
          then Some (name, needle, take (length needle - length value - 1) needle @
             (if value = ''true'' then ''false'' else ''true'') @ [NL]) else None))
     (candidates binding_rx body)"

definition return_mutation :: "string \<Rightarrow> string \<Rightarrow> string \<Rightarrow> (string \<times> string \<times> string) option" where
  "return_mutation name source body = first_some (\<lambda>needle.
     (case fullmatch_groups (seqs [lit ''return '', Grp 1 int_rx, chr NL]) needle of None \<Rightarrow> None
      | Some gs \<Rightarrow> let n = nat_of_digits (grp_text 1 gs) in
          if n < max_integer \<and> once source needle
          then Some (name, needle, ''return '' @ show_nat (n + 1) @ [NL]) else None))
     (candidates (seqs [WordB, lit ''return '', int_rx, chr NL]) body)"

definition definition_mutation :: "string \<Rightarrow> string \<Rightarrow> string \<Rightarrow> (string \<times> string \<times> string) option" where
  "definition_mutation name source body = first_some (\<lambda>needle.
     (case fullmatch_groups definition_rx needle of None \<Rightarrow> None
      | Some gs \<Rightarrow> let digits = grp_text 1 gs; n = nat_of_digits digits; suf = [NL] @ ''end'' @ [NL] in
          if n < max_integer \<and> once source needle
          then Some (name, needle, take (length needle - length digits - length suf) needle @ show_nat (n + 1) @ suf)
          else None))
     (candidates definition_rx body)"

definition product_mutation :: "string \<Rightarrow> string \<Rightarrow> string \<Rightarrow> (string \<times> string \<times> string) option" where
  "product_mutation name source body = first_some (\<lambda>needle.
     (case fullmatch_groups product_rx needle of None \<Rightarrow> None
      | Some gs \<Rightarrow> let digits = grp_text 1 gs; n = nat_of_digits digits in
          if 0 < n \<and> n < max_integer \<and> once source needle
          then Some (name, needle, take (length needle - length digits - 1) needle @ show_nat (n + 1) @ [NL])
          else None))
     (candidates product_rx body)"

definition emitted_mutation :: "string \<Rightarrow> string \<Rightarrow> string \<Rightarrow> (string \<times> string \<times> string) option" where
  "emitted_mutation name source body = first_some (\<lambda>text.
     if once source text then Some (name, text, take (length text - 2) text @ [CHR ''~'', BSL, DQ]) else None)
     (concat (map (findall emitted_rx) (filter (\<lambda>l. startswith l [DQ]) (findall (Alt STRING COMMENT) body))))"

text \<open>The established priority of the kinds of mutation.\<close>

definition default_mutation :: "string \<Rightarrow> string \<Rightarrow> (string \<times> string \<times> string) option res" where
  "default_mutation name source =
     bindE (canonical_imports source) (\<lambda>header.
     (let body = drop (length header) source in
      Inr (first_some (\<lambda>m. m name source body)
        [safe_literal_mutation, field_mutation, cell_mutation, bound_mutation, divisor_mutation,
         binding_mutation, return_mutation, definition_mutation, product_mutation, emitted_mutation])))"

section \<open>The recovery layout\<close>

type_synonym texts = "(string \<times> string) list"

definition text_of :: "texts \<Rightarrow> string \<Rightarrow> string res" where
  "text_of sources name = (case map_of sources name of None \<Rightarrow> Inl (KeyError name) | Some s \<Rightarrow> Inr s)"

text \<open>The order of the rows: kept names in their order, new names in discovery order, the
  compiler entry last.\<close>

definition layout_order :: "string list \<Rightarrow> string list \<Rightarrow> string list" where
  "layout_order names modules =
     filter (\<lambda>n. n \<in> set modules \<and> n \<noteq> ''compiler'') names @
     filter (\<lambda>n. n \<notin> set names \<and> n \<noteq> ''compiler'') modules @ [''compiler'']"

definition layout_row :: "string \<Rightarrow> string \<Rightarrow> string" where
  "layout_row name imps = [TAB, TAB] @ ''RecoveryCompilerModule.new(name: '' @ [DQ] @ name @ [DQ] @
     '', imports: '' @ encode imps @ ''),'' @ [NL]"

definition layout_entry :: "texts \<Rightarrow> string list \<Rightarrow> string list \<times> texts \<Rightarrow> string \<times> (nat \<times> string) list \<Rightarrow> (string list \<times> texts) res" where
  "layout_entry sources modules st row =
     (let (changes, entries) = st; (text, gs) = row; name = grp_text 1 gs; encoded = grp_text 2 gs in
      if name \<notin> set modules then Inr st
      else bindE (text_of sources name) (\<lambda>source. bindE (canonical_imports source) (\<lambda>header.
        (let expected = encode header in
         Inr (if encoded \<noteq> expected then changes @ [''layout: imports '' @ name] else changes,
              AList.update name (replace_str encoded expected text) entries)))))"

definition layout_new_entry :: "texts \<Rightarrow> texts \<Rightarrow> string \<Rightarrow> texts res" where
  "layout_new_entry sources entries name =
     (if name \<in> set (map fst entries) then Inr entries
      else bindE (text_of sources name) (\<lambda>source. bindE (canonical_imports source) (\<lambda>header.
        Inr (AList.update name (layout_row name header) entries))))"

definition sync_layout :: "string list \<Rightarrow> texts \<Rightarrow> string \<Rightarrow> (string list \<times> string) res" where
  "sync_layout modules sources original =
     (let (found, tail) = scan (length original) LAYOUT_ROW [] original;
          rows = map snd found;
          names = map (grp_text 1 \<circ> snd) rows
      in if length rows \<noteq> count_str ''RecoveryCompilerModule.new(name:'' original \<or> rows = []
         then Inl (InventoryError ''recovery layout contains an unrecognized module row'')
         else if list_ex (\<lambda>(skipped, _). skipped \<noteq> []) (tl found)
         then Inl (InventoryError ''recovery layout rows must be contiguous'')
         else if \<not> distinct names then Inl (InventoryError ''duplicate recovery module'')
         else if ''compiler'' \<notin> set modules
         then Inl (InventoryError ''compiler entry is missing from the closure'')
         else
           (let changes = map (\<lambda>n. ''layout: add '' @ n) (filter (\<lambda>n. n \<notin> set names) modules) @
                  map (\<lambda>n. ''layout: remove '' @ n) (filter (\<lambda>n. n \<notin> set modules) names) @
                  (if ''compiler'' \<in> set names \<and> last names \<noteq> ''compiler''
                   then [''layout: move compiler to final position''] else [])
            in bindE (foldE (layout_entry sources modules) (changes, []) rows) (\<lambda>(changes', entries).
               bindE (foldE (layout_new_entry sources) entries modules) (\<lambda>entries'.
               bindE (mapE (text_of entries') (layout_order names modules)) (\<lambda>texts.
               Inr (changes', fst (hd found) @ concat texts @ tail))))))"

section \<open>The recovery mutations\<close>

definition mutation_row :: "string \<times> string \<times> string \<Rightarrow> string" where
  "mutation_row m = (case m of (name, needle, replacement) \<Rightarrow>
     [TAB, TAB] @ ''['' @ encode name @ '', '' @ encode needle @ '', '' @ encode replacement @ ''],'' @ [NL])"

text \<open>One registered row: kept, relocated, regenerated or removed. The state holds the changes, the
  names seen and the rows kept.\<close>

definition mutation_step :: "texts \<Rightarrow> string list \<Rightarrow> texts \<Rightarrow> string list \<times> string list \<times> string list \<Rightarrow>
    string \<times> (nat \<times> string) list \<Rightarrow> (string list \<times> string list \<times> string list) res" where
  "mutation_step sources targets renames st row =
     (let (changes, seen, kept) = st; (text, gs) = row in
      bindE (decode (grp_text 1 gs)) (\<lambda>previous. bindE (decode (grp_text 2 gs)) (\<lambda>needle.
      bindE (decode (grp_text 3 gs)) (\<lambda>replacement.
        (let name = (case map_of renames previous of None \<Rightarrow> previous | Some n \<Rightarrow> n) in
         if name \<notin> set targets \<or> name \<in> set seen
         then Inr (changes @ [''mutations: remove '' @ name], seen, kept)
         else bindE (text_of sources name) (\<lambda>source.
           if needle = replacement \<or> \<not> once source needle
           then bindE (default_mutation name source) (\<lambda>generated.
             (case generated of
                None \<Rightarrow> Inl (InventoryError (''mutation for '' @ name @ '' no longer matches once; add one by hand''))
              | Some m \<Rightarrow> Inr (changes @ [''mutations: regenerate '' @ name], seen @ [name], kept @ [mutation_row m])))
           else if name \<noteq> previous
           then Inr (changes @ [''mutations: relocate '' @ previous @ '' to '' @ name], seen @ [name],
                 kept @ [mutation_row (name, needle, replacement)])
           else Inr (changes, seen @ [name], kept @ [text])))))))"

definition mutation_add :: "texts \<Rightarrow> string list \<times> string list \<times> string list \<Rightarrow> string \<Rightarrow>
    (string list \<times> string list \<times> string list) res" where
  "mutation_add sources st name =
     (let (changes, seen, kept) = st in
      if name \<in> set seen then Inr st
      else bindE (text_of sources name) (\<lambda>source. bindE (default_mutation name source) (\<lambda>generated.
        (case generated of
           None \<Rightarrow> Inl (InventoryError (''no default mutation for '' @ name @ ''; add one by hand''))
         | Some m \<Rightarrow> Inr (changes @ [''mutations: add '' @ name], seen @ [name], kept @ [mutation_row m])))))"

text \<open>The position of the last occurrence.\<close>

definition rfind_str :: "string \<Rightarrow> string \<Rightarrow> nat option" where
  "rfind_str p s = map_option (\<lambda>i. length s - length p - i) (find_str (rev p) (rev s))"

definition sync_mutations :: "string list \<Rightarrow> texts \<Rightarrow> texts \<Rightarrow> string \<Rightarrow> (string list \<times> string) res" where
  "sync_mutations modules sources renames original =
     (let (found, tail) = scan (length original) MUTATION_ROW [] original;
          rows = map snd found;
          targets = filter (\<lambda>n. n \<noteq> ''compiler'') modules
      in if length rows \<noteq> count_str [TAB, TAB, CHR ''['', DQ] original
         then Inl (InventoryError ''recovery mutations contain an unrecognized row'')
         else bindE (foldE (mutation_step sources targets renames) ([], [], []) rows) (\<lambda>st.
           bindE (foldE (mutation_add sources) st targets) (\<lambda>(changes, seen, kept).
             (case rfind_str [TAB, CHR '']'', NL] original of
                None \<Rightarrow> Inl (ValueError ''substring not found'')
              | Some closing \<Rightarrow> Inr (changes,
                  if found = [] then original else fst (hd found) @ concat kept @ drop closing original)))))"

section \<open>The own-frontend module list\<close>

definition find_from :: "string \<Rightarrow> string \<Rightarrow> nat \<Rightarrow> nat option" where
  "find_from p s n = map_option (\<lambda>i. n + i) (find_str p (drop n s))"

definition frontend_order :: "string list \<Rightarrow> string list \<Rightarrow> string list" where
  "frontend_order names modules = filter (\<lambda>n. n \<in> set modules) names @ filter (\<lambda>n. n \<notin> set names) modules"

definition quoted :: "string \<Rightarrow> string" where
  "quoted n = DQ # n @ [DQ]"

definition sync_frontend_test :: "string list \<Rightarrow> string \<Rightarrow> (string list \<times> string) res" where
  "sync_frontend_test modules original =
     (case find_str FRONTEND_TEST_NAME original of None \<Rightarrow> Inl (InventoryError ''own-frontend module list is missing'')
      | Some test \<Rightarrow>
     (case find_from ''names := ['' original test of None \<Rightarrow> Inl (InventoryError ''own-frontend module list is missing'')
      | Some start \<Rightarrow>
     (case find_from '']'' original start of None \<Rightarrow> Inl (InventoryError ''own-frontend module list is missing'')
      | Some finish \<Rightarrow>
          bindE (mapE decode (findall STRING (take (finish - start) (drop start original)))) (\<lambda>names.
          if list_ex (\<lambda>n. \<not> fullmatch MODULE n) names \<or> \<not> distinct names
          then Inl (InventoryError ''own-frontend module list has invalid or duplicated paths'')
          else if names = [] \<or> hd names \<noteq> ''compiler''
          then Inl (InventoryError ''own-frontend module list must start with the compiler entry'')
          else Inr (map (\<lambda>n. ''frontend test: add '' @ n) (filter (\<lambda>n. n \<notin> set names) modules) @
                    map (\<lambda>n. ''frontend test: remove '' @ n) (filter (\<lambda>n. n \<notin> set modules) names),
                  take start original @ ''names := ['' @ join '', '' (map quoted (frontend_order names modules)) @
                  drop finish original)))))"

section \<open>Synchronising the files\<close>

definition rewrite_file :: "fs \<Rightarrow> path \<Rightarrow> bool \<Rightarrow> string \<Rightarrow> string \<Rightarrow> fs res" where
  "rewrite_file f p do_write original updated =
     (if do_write \<and> updated \<noteq> original then write_bytes f p updated else Inr f)"

text \<open>One inventory: the file system after the step and its changes, or the exception it ends in.
  A later failure leaves the files that were already written.\<close>

definition sync_file :: "fs \<Rightarrow> path \<Rightarrow> bool \<Rightarrow> (string \<Rightarrow> (string list \<times> string) res) \<Rightarrow> fs \<times> string list res" where
  "sync_file f p do_write update =
     (case bindE (read_bytes f p) (\<lambda>original. bindE (update original) (\<lambda>(changes, updated).
             bindE (rewrite_file f p do_write original updated) (\<lambda>f'. Inr (changes, f')))) of
        Inl e \<Rightarrow> (f, Inl e)
      | Inr (changes, f') \<Rightarrow> (f', Inr changes))"

fun sync_files :: "fs \<Rightarrow> bool \<Rightarrow> (path \<times> (string \<Rightarrow> (string list \<times> string) res)) list \<Rightarrow> fs \<times> string list res" where
  "sync_files f do_write [] = (f, Inr [])"
| "sync_files f do_write ((p, update) # us) =
     (case sync_file f p do_write update of
        (f', Inl e) \<Rightarrow> (f', Inl e)
      | (f', Inr c) \<Rightarrow>
          (case sync_files f' do_write us of (f'', r) \<Rightarrow> (f'', bindE r (\<lambda>cs. Inr (c @ cs)))))"

definition synchronize :: "fs \<Rightarrow> path \<Rightarrow> bool \<Rightarrow> texts \<Rightarrow> fs \<times> string list res" where
  "synchronize f repo do_write renames =
     (if list_ex (\<lambda>(old, new). \<not> fullmatch MODULE old \<or> \<not> fullmatch MODULE new) renames \<or>
         \<not> distinct (map snd renames)
      then (f, Inl (InventoryError ''invalid or colliding module relocation map''))
      else (case bindE (closure f repo) (\<lambda>modules.
           bindE (mapE (\<lambda>n. bindE (read_bytes f (source_path repo n)) (\<lambda>s. Inr (n, s))) modules) (\<lambda>sources.
           Inr (modules, sources))) of
        Inl e \<Rightarrow> (f, Inl e)
      | Inr (modules, sources) \<Rightarrow> sync_files f do_write
          [(joinp repo LAYOUT, sync_layout modules sources),
           (joinp repo MUTATIONS, sync_mutations modules sources renames),
           (joinp repo FRONTEND_TEST, sync_frontend_test modules)]))"

text \<open>The relocation map restricted to the identities present in the inventory.\<close>

definition relocation_map :: "texts \<Rightarrow> texts \<Rightarrow> string \<Rightarrow> texts res" where
  "relocation_map modules previous_modules inventory =
     bindE (foldE (\<lambda>aliases (previous, owner).
         (case map_of modules owner of
            None \<Rightarrow> Inl (InventoryError (''previous module has no current owner: '' @ previous))
          | Some m \<Rightarrow> Inr (AList.update previous m aliases))) modules previous_modules) (\<lambda>aliases.
     bindE (mapE decode (findall_group 1 MUTATION_ROW inventory)) (\<lambda>present.
     Inr (filter (\<lambda>(old, new). old \<in> set present) aliases)))"

text \<open>\<open>main\<close>: the exit status, what is printed, and the files after the run.\<close>

definition recovery_main :: "fs \<Rightarrow> path \<Rightarrow> bool \<Rightarrow> (texts \<times> texts) option \<Rightarrow> fs \<times> (nat \<times> string list) res" where
  "recovery_main f repo do_write module_map =
     (let (f', r) = (case (case module_map of None \<Rightarrow> Inr []
             | Some (modules, previous) \<Rightarrow> bindE (read_bytes f (joinp repo MUTATIONS)) (relocation_map modules previous)) of
           Inl e \<Rightarrow> (f, Inl e)
         | Inr renames \<Rightarrow> synchronize f repo do_write renames)
      in (f', case r of
          Inl (InventoryError e) \<Rightarrow> Inr (1, [''Recovery inventory error: '' @ e])
        | Inl e \<Rightarrow> Inl e
        | Inr changes \<Rightarrow>
            if changes = [] then Inr (0, [])
            else Inr (if do_write then 0 else 1,
              ''Recovery inventories differ from the compiler closure:'' # map (\<lambda>c. ''  '' @ c) changes @
              (if do_write then [] else [''Run python3 tools/recovery_layout_sync.py --write'']))))"

section \<open>Inventory strings read back\<close>

lemma decode_encode: "decode (encode s) = Inr s"
  using string_body_dumps [of False s "[]"] by (simp add: decode_def encode_def dumps_str_def)

interpretation inventory: codec encode decode "\<lambda>value. True"
  by unfold_locales (rule decode_encode)

section \<open>Theorems\<close>

lemma sync_file_check: "fst (sync_file f p False update) = f"
  by (auto simp: sync_file_def rewrite_file_def bindE_def split: sum.splits)

lemma sync_files_check: "fst (sync_files f False us) = f"
proof (induction us arbitrary: f)
  case (Cons pu us)
  obtain p update where pu: "pu = (p, update)" by (cases pu)
  obtain f' r where r: "sync_file f p False update = (f', r)" by (cases "sync_file f p False update")
  with sync_file_check [of f p update] have "f' = f" by simp
  with r pu Cons [of f] show ?case by (cases r) (simp_all add: case_prod_beta)
qed simp

text \<open>A check never writes: without \<open>--write\<close> the file system after \<open>main\<close> is the one before it,
  whatever the inventories hold and whether or not the run fails.\<close>

theorem recovery_check_readonly: "fst (recovery_main f repo False module_map) = f"
proof -
  have "fst (synchronize f repo False renames) = f" for renames
    by (simp add: synchronize_def sync_files_check del: sync_files.simps split: sum.split prod.split)
  then show ?thesis
    unfolding recovery_main_def Let_def case_prod_beta fst_conv by (simp split: sum.split)
qed

lemma first_some_Some: "first_some f xs = Some y \<Longrightarrow> \<exists>x \<in> set xs. f x = Some y"
  by (induction xs) (auto split: option.splits)

definition unique_edit :: "string \<Rightarrow> string \<Rightarrow> (string \<times> string \<times> string) option \<Rightarrow> bool" where
  "unique_edit name source m = (case m of None \<Rightarrow> True | Some (n, needle, r) \<Rightarrow> n = name \<and> once source needle)"

lemma unique_edit_first:
  "(\<And>x. x \<in> set xs \<Longrightarrow> unique_edit name source (f x)) \<Longrightarrow> unique_edit name source (first_some f xs)"
proof (cases "first_some f xs")
  case (Some m)
  assume "\<And>x. x \<in> set xs \<Longrightarrow> unique_edit name source (f x)"
  with first_some_Some [OF Some] show ?thesis by (metis Some)
qed (simp add: unique_edit_def)

lemma unique_edit_simps [simp]:
  "unique_edit name source None"
  "unique_edit name source (Some (n, needle, r)) \<longleftrightarrow> n = name \<and> once source needle"
  by (simp_all add: unique_edit_def)

lemma unique_edits:
  "unique_edit name source (safe_literal_mutation name source body)"
  "unique_edit name source (field_mutation name source body)"
  "unique_edit name source (cell_mutation name source body)"
  "unique_edit name source (bound_mutation name source body)"
  "unique_edit name source (divisor_mutation name source body)"
  "unique_edit name source (binding_mutation name source body)"
  "unique_edit name source (return_mutation name source body)"
  "unique_edit name source (definition_mutation name source body)"
  "unique_edit name source (product_mutation name source body)"
  "unique_edit name source (emitted_mutation name source body)"
  unfolding safe_literal_mutation_def field_mutation_def cell_mutation_def bound_mutation_def
    divisor_mutation_def binding_mutation_def return_mutation_def definition_mutation_def
    product_mutation_def emitted_mutation_def Let_def
  by (rule unique_edit_first, simp split: option.split prod.split)+

text \<open>A generated mutation is usable: it names the module it was generated for, and its needle
  occurs exactly once in the module's source, so that applying it changes one place.\<close>

theorem default_mutation_unique:
  assumes "default_mutation name source = Inr (Some (n, needle, replacement))"
  shows "n = name \<and> count_str needle source = 1"
proof -
  have "unique_edit name source (first_some (\<lambda>m. m name source body)
      [safe_literal_mutation, field_mutation, cell_mutation, bound_mutation, divisor_mutation,
       binding_mutation, return_mutation, definition_mutation, product_mutation, emitted_mutation])" for body
    by (rule unique_edit_first) (auto simp: unique_edits)
  then have "default_mutation name source = Inr x \<Longrightarrow> unique_edit name source x" for x
    unfolding default_mutation_def bindE_Inr_iff Let_def by auto
  from this [OF assms] have "unique_edit name source (Some (n, needle, replacement))" .
  then show ?thesis by (simp add: once_def)
qed

lemma default_mutation_unique_witness:
  "count_str ([DQ] @ ''name'' @ [DQ]) (''x := '' @ [DQ] @ ''name'' @ [DQ]) = 1"
proof -
  have "default_mutation ''m'' (''x := '' @ [DQ] @ ''name'' @ [DQ]) =
      Inr (Some (''m'', [DQ] @ ''name'' @ [DQ], [DQ] @ ''name~'' @ [DQ]))"
    by code_simp
  from default_mutation_unique [OF this] show ?thesis by simp
qed

text \<open>The rewritten layout lists every module of the closure exactly once and no other, keeps the
  listed modules in their order, and ends with the compiler entry.\<close>

theorem layout_order_complete:
  assumes "distinct names" "distinct modules" "''compiler'' \<in> set modules"
  shows "distinct (layout_order names modules) \<and> set (layout_order names modules) = set modules \<and>
     last (layout_order names modules) = ''compiler'' \<and>
     filter (\<lambda>n. n \<in> set names \<and> n \<noteq> ''compiler'') (layout_order names modules) =
       filter (\<lambda>n. n \<in> set modules \<and> n \<noteq> ''compiler'') names"
  using assms by (auto simp: layout_order_def filter_empty_conv intro: filter_cong)

lemma layout_order_complete_witness:
  "distinct (layout_order [''b'', ''compiler''] [''compiler'', ''a'', ''b'']) \<and>
     set (layout_order [''b'', ''compiler''] [''compiler'', ''a'', ''b'']) = set [''compiler'', ''a'', ''b''] \<and>
     last (layout_order [''b'', ''compiler''] [''compiler'', ''a'', ''b'']) = ''compiler'' \<and>
     filter (\<lambda>n. n \<in> set [''b'', ''compiler''] \<and> n \<noteq> ''compiler'') (layout_order [''b'', ''compiler''] [''compiler'', ''a'', ''b'']) =
       filter (\<lambda>n. n \<in> set [''compiler'', ''a'', ''b''] \<and> n \<noteq> ''compiler'') [''b'', ''compiler'']"
  by (rule layout_order_complete) simp_all

text \<open>The mutation inventory: the names seen are targets, each once.\<close>

definition seen_targets :: "string list \<Rightarrow> string list \<times> string list \<times> string list \<Rightarrow> bool" where
  "seen_targets targets st = (case st of (changes, seen, kept) \<Rightarrow>
     distinct seen \<and> set seen \<subseteq> set targets \<and> length kept = length seen)"

lemma mutation_step_seen:
  assumes "mutation_step sources targets renames st row = Inr st'" "seen_targets targets st"
  shows "seen_targets targets st'"
  using assms
  by (cases st; cases row)
    (auto simp: mutation_step_def Let_def seen_targets_def bindE_Inr_iff split: if_splits option.splits)

lemma mutation_add_seen:
  assumes "mutation_add sources st name = Inr st'" "seen_targets targets st" "name \<in> set targets"
  shows "seen_targets targets st' \<and> insert name (set (fst (snd st))) = set (fst (snd st'))"
  using assms
  by (cases st) (auto simp: mutation_add_def Let_def seen_targets_def bindE_Inr_iff split: if_splits option.splits)

lemma mutation_adds_seen:
  assumes "foldE (mutation_add sources) st names = Inr st'" "seen_targets targets st" "set names \<subseteq> set targets"
  shows "seen_targets targets st' \<and> set names \<union> set (fst (snd st)) = set (fst (snd st'))"
  using assms
proof (induction names arbitrary: st)
  case (Cons n names)
  then obtain u where u: "mutation_add sources st n = Inr u" "foldE (mutation_add sources) u names = Inr st'"
    by (auto simp: bindE_Inr_iff)
  from mutation_add_seen [OF u(1) Cons.prems(2)] Cons.prems(3) have
    "seen_targets targets u" "insert n (set (fst (snd st))) = set (fst (snd u))" by auto
  with Cons.IH [OF u(2)] Cons.prems(3) show ?case by auto
qed simp


definition demo_rows :: string where
  "demo_rows = [TAB, TAB, CHR ''['', DQ] @ ''a'' @ [DQ] @ '', '' @ [DQ] @ ''one'' @ [DQ] @ '', '' @ [DQ] @ ''two'' @ [DQ] @ ''],'' @
     [NL, TAB] @ '']'' @ [NL]"

definition demo_texts :: texts where
  "demo_texts = [(''compiler'', []), (''a'', ''x := 1 # one''), (''b'', [DQ] @ ''text'' @ [DQ])]"


end
