(* ===== verification/DailyState.thy ===== *)
theory DailyState
  imports PyJsonText PyPath
begin

text \<open>
  \<open>tools/daily-performance/state.py\<close>: the bounded state of the daily performance measurement.
  \<open>validate_state\<close> accepts a state document, \<open>restore\<close> takes one from an earlier run's artifact,
  \<open>plan\<close> decides whether to measure, \<open>finish\<close> records the result, \<open>site\<close> publishes. The
  services the tool calls (git, the GitHub API, the clock, SHA-256, the zip reader and the
  decimal form of floats) are the fields of \<open>host\<close>.
\<close>

record host =
  environ :: "(string \<times> string) list"
  clock :: "nat \<Rightarrow> string"
  git_head :: string
  ls_tree :: string
  sha256 :: "string \<Rightarrow> string"
  gh_json :: "string \<Rightarrow> json res"
  gh_bytes :: "string \<Rightarrow> string res"
  zip_member :: "string \<Rightarrow> string \<Rightarrow> (nat \<times> string) res"
  frepr :: "rat \<Rightarrow> string"
  pystr :: "json \<Rightarrow> string"

definition environE :: "host \<Rightarrow> string \<Rightarrow> string res" where
  "environE h k = (case map_of (environ h) k of None \<Rightarrow> Inl (KeyError k) | Some v \<Rightarrow> Inr v)"

section \<open>Documents on disk\<close>

definition read_state :: "fs \<Rightarrow> path \<Rightarrow> json res" where
  "read_state f p = bindE (read_bytes f p) loads"

definition state_opts :: jopts where
  "state_opts = pretty_opts\<lparr>allow_nan := False\<rparr>"

text \<open>A temporary file beside the target takes the text and then replaces the target.\<close>

definition write_state :: "host \<Rightarrow> fs \<Rightarrow> path \<Rightarrow> json \<Rightarrow> fs res" where
  "write_state h f p value =
     bindE (mkdir_p f (butlast p)) (\<lambda>f1.
     bindE (dumps (frepr h) state_opts value) (\<lambda>text.
     bindE (write_bytes f1 (with_suffix p ''.tmp'') (text @ [NL])) (\<lambda>f2.
     replace_path f2 (with_suffix p ''.tmp'') p)))"

definition empty_state :: json where
  "empty_state = JDict [(''schemaVersion'', JInt 1), (''latest'', JNull), (''attempt'', JNull),
     (''history'', JList [])]"

section \<open>Validation\<close>

definition SHA :: rx where "SHA = hex_rx 40"

text \<open>Evaluation checks the digits directly.\<close>

lemma fullmatchE_SHA [code_unfold]:
  "fullmatchE SHA v = (case v of JStr s \<Rightarrow> Inr (is_hex 40 s) | _ \<Rightarrow> Inl TypeError)"
  by (cases v) (simp_all add: SHA_def)

definition statuses :: "string list" where
  "statuses = [''pass'', ''timeout'', ''nonzero-exit'', ''output-mismatch'', ''unexpected-stderr'', ''build-failure'']"

definition weekly_roles :: "string list" where
  "weekly_roles = [''native'', ''pure-go'', ''c'', ''cpp'', ''rust'', ''java'']"

definition daily_roles :: "string list" where
  "daily_roles = [''native'', ''previous'', ''baseline'', ''typerb-go'']"

definition weekly_cases :: "string list" where
  "weekly_cases = [''fannkuch-redux'', ''n-body'', ''spectral-norm'']"

definition is_weekly :: "json \<Rightarrow> bool res" where
  "is_weekly snapshot = bindE (get snapshot ''profile'') (\<lambda>p. Inr (jeq p (JStr ''weekly'')))"

definition base_roles :: "bool \<Rightarrow> string list" where
  "base_roles weekly = (if weekly then weekly_roles else daily_roles)"

subsection \<open>Roles\<close>

definition check_roles :: "json \<Rightarrow> json \<Rightarrow> bool \<Rightarrow> unit res" where
  "check_roles snapshot roles weekly =
     bindE (setE roles) (\<lambda>rs.
     raise_if (Inr (\<not> jset_eq rs (map JStr (base_roles weekly)) \<and>
         \<not> jset_eq rs (map JStr (base_roles weekly @ [''pure-go'']))))
       (ValueError ''Incomplete compiler identities'') (
     bindE (item roles ''native'') (\<lambda>native. bindE (item native ''revision'') (\<lambda>a.
     bindE (item snapshot ''revision'') (\<lambda>b.
     raise_if (Inr (\<not> jeq a b)) (ValueError ''Native revision does not match the snapshot'') (
     bindE (valuesE roles) (forE (\<lambda>role.
       bindE (getd role ''revision'' (JStr [])) (\<lambda>r.
         raise_if (notE (fullmatchE SHA r)) (ValueError ''Invalid compiler revision'') (Inr ()))))))))))"

text \<open>The optional lists of cases that have a Pure Go program or a frozen baseline.\<close>

definition check_coverage :: "json \<Rightarrow> bool \<Rightarrow> json \<Rightarrow> json \<Rightarrow> unit res" where
  "check_coverage roles weekly pure_go_cases baseline_cases =
     bindE (hasE ''pure-go'' roles) (\<lambda>pure.
     bindE (if pure \<and> \<not> weekly then
          raise_if (orE (Inr (\<not> is_list pure_go_cases)) (orE (Inr (\<not> truthy pure_go_cases))
              (orE (bindE (iterE pure_go_cases) (\<lambda>xs. notE (distinctE xs)))
                (bindE (setE pure_go_cases) (\<lambda>xs. Inr (\<not> jsub (map JStr weekly_cases) xs))))))
            (ValueError ''Invalid Pure Go coverage'') (Inr ())
        else if truthy pure_go_cases then Inl (ValueError ''Pure Go cases lack a compiler identity'')
        else Inr ()) (\<lambda>_.
     raise_if (andE (Inr (baseline_cases \<noteq> JNull)) (orE (Inr weekly) (orE (Inr (\<not> is_list baseline_cases))
          (bindE (iterE baseline_cases) (\<lambda>xs. notE (distinctE xs))))))
       (ValueError ''Invalid frozen baseline coverage'') (Inr ())))"

subsection \<open>Measurements\<close>

definition check_metric :: "string \<Rightarrow> json \<Rightarrow> string \<Rightarrow> unit res" where
  "check_metric message metrics name =
     bindE (get metrics name) (\<lambda>value.
       raise_if (orE (Inr (\<not> isinstance_number value)) (orE (notE (isfiniteE value)) (ltE value (JInt 0))))
         (ValueError message) (Inr ()))"

definition range_ok :: "json \<Rightarrow> bool res" where
  "range_ok m =
     bindE (item m ''wallMin'') (\<lambda>a. andE (ltE (JInt 0) a)
    (bindE (item m ''wallSeconds'') (\<lambda>b. andE (leE a b)
    (bindE (item m ''wallMax'') (\<lambda>c. leE b c)))))"

definition wall_metrics :: "string list" where
  "wall_metrics = [''wallSeconds'', ''cpuSeconds'', ''memoryBytes'', ''wallMin'', ''wallMax'']"

definition check_metrics :: "json \<Rightarrow> unit res" where
  "check_metrics metrics =
     bindE (forE (check_metric ''Invalid measurement metric'' metrics) wall_metrics) (\<lambda>_.
     raise_if (notE (range_ok metrics)) (ValueError ''Invalid measurement range'') (Inr ()))"

subsection \<open>Rows\<close>

definition case_rx :: rx where
  "case_rx = rplus (Cls (lower_cls @ digit_cls @ one_cls (CHR ''-'')))"

definition family_rx :: rx where
  "family_rx = rplus (Cls (lower_cls @ one_cls (CHR ''-'')))"

type_synonym seen_cases = "(string \<times> json list) list"

definition members_of :: "seen_cases \<Rightarrow> string \<Rightarrow> json list" where
  "members_of cases c = (case map_of cases c of None \<Rightarrow> [] | Some ms \<Rightarrow> ms)"

fun str_val :: "json \<Rightarrow> string" where
  "str_val (JStr s) = s"
| "str_val _ = []"

definition check_outcome :: "json \<Rightarrow> unit res" where
  "check_outcome row =
     bindE (get row ''status'') (\<lambda>st.
     raise_if (notE (in_setE st statuses)) (ValueError ''Invalid observation status'') (
     bindE (item row ''status'') (\<lambda>status. bindE (get row ''runtime'') (\<lambda>runtime. bindE (get row ''build'') (\<lambda>build.
     raise_if (Inr (jeq status (JStr ''pass'') \<and> (runtime = JNull \<or> build = JNull)))
       (ValueError ''Passing row has missing measurements'') (
     raise_if (Inr (\<not> jeq status (JStr ''pass'') \<and> runtime \<noteq> JNull))
       (ValueError ''Failed row has a passing runtime median'') (
     forE (\<lambda>group. bindE (get row group) (\<lambda>metrics.
       if metrics = JNull then Inr () else check_metrics metrics)) [''runtime'', ''build''])))))))"

definition check_row :: "json \<Rightarrow> seen_cases \<Rightarrow> json \<Rightarrow> seen_cases res" where
  "check_row roles cases row =
     bindE (get row ''case'') (\<lambda>name. bindE (get row ''role'') (\<lambda>role.
     raise_if (orE (Inr (\<not> is_str name)) (orE (notE (fullmatchE case_rx name)) (notE (inE role roles))))
       (ValueError ''Invalid row identity'') (
     (let members = members_of cases (str_val name) in
      raise_if (Inr (jmem role members)) (ValueError ''Duplicate observation row'') (
      raise_if (andE (hasE ''family'' row) (bindE (item row ''family'') (\<lambda>fam.
          orE (Inr (\<not> is_str fam)) (notE (fullmatchE family_rx fam)))))
        (ValueError ''Invalid language family'') (
      bindE (check_outcome row) (\<lambda>_. Inr (AList.update (str_val name) (members @ [role]) cases))))))))"

subsection \<open>Coverage of the rows\<close>

definition expected_roles :: "bool \<Rightarrow> json \<Rightarrow> json \<Rightarrow> string \<Rightarrow> string list res" where
  "expected_roles weekly pure_go_cases baseline_cases name =
     bindE (andE (Inr (baseline_cases \<noteq> JNull)) (notE (inE (JStr name) baseline_cases))) (\<lambda>dropped.
     bindE (inE (JStr name) pure_go_cases) (\<lambda>pure.
     Inr (filter (\<lambda>r. \<not> (dropped \<and> r = ''baseline'')) (base_roles weekly) @ (if pure then [''pure-go''] else []))))"

definition check_complete :: "bool \<Rightarrow> json \<Rightarrow> json \<Rightarrow> seen_cases \<Rightarrow> unit res" where
  "check_complete weekly pure_go_cases baseline_cases cases =
     (let names = map fst cases in
     raise_if (Inr (weekly \<and> set names \<noteq> set weekly_cases)) (ValueError ''Invalid weekly workload coverage'') (
     raise_if (orE (bindE (setE pure_go_cases) (\<lambda>xs. Inr (\<not> jsub xs (map JStr names))))
         (bindE (setE (if truthy baseline_cases then baseline_cases else JList [])) (\<lambda>xs. Inr (\<not> jsub xs (map JStr names)))))
       (ValueError ''Missing Pure Go or frozen baseline workload'') (
     raise_if (anyE (\<lambda>(name, members). bindE (expected_roles weekly pure_go_cases baseline_cases name)
         (\<lambda>es. Inr (\<not> jset_eq members (map JStr es)))) cases)
       (ValueError ''Missing comparison role'') (Inr ()))))"

subsection \<open>The compiler's own measurement\<close>

definition HASH64 :: rx where "HASH64 = hex_rx 64"

definition check_ir :: "json \<Rightarrow> unit res" where
  "check_ir ir = (if ir = JNull then Inr () else
     raise_if (Inr (\<not> is_dict ir)) (ValueError ''Invalid compiler IR measurement'') (
     raise_if (orE (bindE (getd ir ''sha256'' (JStr [])) (\<lambda>s. notE (fullmatchE HASH64 s)))
         (orE (bindE (get ir ''bytes'') (\<lambda>b. Inr (\<not> isinstance_int b)))
           (bindE (item ir ''bytes'') (\<lambda>b. leE b (JInt 0)))))
       (ValueError ''Invalid compiler IR identity'') (
     forE (check_metric ''Invalid compiler IR measurement'' ir) [''wallSeconds'', ''cpuSeconds'', ''memoryBytes''])))"

definition check_build :: "json \<Rightarrow> unit res" where
  "check_build build = (if build = JNull then Inr () else
     raise_if (Inr (\<not> is_dict build)) (ValueError ''Invalid compiler build measurement'') (
     bindE (forE (check_metric ''Invalid compiler build measurement'' build) wall_metrics) (\<lambda>_.
     raise_if (notE (range_ok build)) (ValueError ''Invalid compiler build range'') (Inr ()))))"

definition check_compiler_self :: "json \<Rightarrow> bool \<Rightarrow> unit res" where
  "check_compiler_self cs weekly = (if cs = JNull then Inr () else
     raise_if (orE (Inr (\<not> is_dict cs)) (orE (Inr weekly) (bindE (get cs ''status'') (\<lambda>s. notE (in_setE s statuses)))))
       (ValueError ''Invalid compiler self-measurement status'') (
     bindE (getd cs ''sourceSha256'' (JStr [])) (\<lambda>s.
     raise_if (notE (fullmatchE HASH64 s)) (ValueError ''Invalid compiler source identity'') (
     bindE (get cs ''ir'') (\<lambda>ir. bindE (get cs ''build'') (\<lambda>build. bindE (item cs ''status'') (\<lambda>status.
     raise_if (Inr (jeq status (JStr ''pass'') \<and> (ir = JNull \<or> build = JNull)))
       (ValueError ''Passing compiler self-measurement is incomplete'') (
     bindE (check_ir ir) (\<lambda>_. bindE (check_build build) (\<lambda>_.
     if jeq status (JStr ''pass'') then
       raise_if (orE (bindE (get cs ''binaryBytes'') (\<lambda>b. Inr (\<not> isinstance_int b)))
           (orE (bindE (item cs ''binaryBytes'') (\<lambda>b. leE b (JInt 0)))
             (bindE (getd cs ''binarySha256'' (JStr [])) (\<lambda>s. notE (fullmatchE HASH64 s)))))
         (ValueError ''Invalid compiler binary identity'') (Inr ())
     else Inr ()))))))))))"

subsection \<open>Snapshots and states\<close>

definition validate_snapshot :: "json \<Rightarrow> unit res" where
  "validate_snapshot snapshot =
     bindE (getd snapshot ''revision'' (JStr [])) (\<lambda>revision.
     raise_if (orE (notE (fullmatchE SHA revision)) (bindE (get snapshot ''rows'') (\<lambda>r. Inr (\<not> is_list r))))
       (ValueError ''Malformed snapshot'') (
     bindE (getd snapshot ''roles'' (JDict [])) (\<lambda>roles. bindE (is_weekly snapshot) (\<lambda>weekly.
     bindE (get snapshot ''profile'') (\<lambda>profile.
     raise_if (Inr (profile \<noteq> JNull \<and> \<not> weekly)) (ValueError ''Unknown measurement profile'') (
     bindE (check_roles snapshot roles weekly) (\<lambda>_.
     bindE (getd snapshot ''pureGoCases'' (JList [])) (\<lambda>pure_go_cases.
     bindE (get snapshot ''baselineCases'') (\<lambda>baseline_cases.
     bindE (check_coverage roles weekly pure_go_cases baseline_cases) (\<lambda>_.
     bindE (bindE (item snapshot ''rows'') iterE) (\<lambda>rows.
     raise_if (Inr (\<not> (1 \<le> length rows \<and> length rows \<le> 100))) (ValueError ''Invalid row count'') (
     bindE (foldE (check_row roles) [] rows) (\<lambda>cases.
     bindE (check_complete weekly pure_go_cases baseline_cases cases) (\<lambda>_.
     bindE (get snapshot ''compilerSelf'') (\<lambda>cs. check_compiler_self cs weekly)))))))))))))))"

definition validate_state :: "json \<Rightarrow> json res" where
  "validate_state state =
     bindE (get state ''schemaVersion'') (\<lambda>version. bindE (get state ''history'') (\<lambda>history.
     raise_if (Inr (\<not> jeq version (JInt 1) \<or> \<not> is_list history)) (ValueError ''Unsupported daily state'') (
     bindE (iterE history) (\<lambda>snapshots.
     raise_if (Inr (60 < length snapshots)) (ValueError ''History exceeds its bounded retention'') (
     bindE (get state ''latest'') (\<lambda>latest.
     bindE (forE (\<lambda>s. if s = JNull then Inr () else validate_snapshot s) (latest # snapshots)) (\<lambda>_.
     Inr state)))))))"

section \<open>Restoring an earlier run's state\<close>

text \<open>What the artifact and the run that produced it must be for its state to be taken.\<close>

definition usable :: "host \<Rightarrow> string \<Rightarrow> json \<Rightarrow> json \<Rightarrow> bool res" where
  "usable h repo workflow_id artifact =
     bindE (item artifact ''expired'') (\<lambda>expired.
     if truthy expired then Inr False else
     bindE (bindE (item artifact ''workflow_run'') (\<lambda>r. item r ''head_branch'')) (\<lambda>branch.
     if \<not> jeq branch (JStr ''main'') then Inr False else
     bindE (bindE (item artifact ''workflow_run'') (\<lambda>r. item r ''id'')) (\<lambda>run_id.
     bindE (gh_json h (''repos/'' @ repo @ ''/actions/runs/'' @ str_of (pystr h) run_id)) (\<lambda>run.
     bindE (orE (bindE (item run ''workflow_id'') (\<lambda>w. Inr (\<not> jeq w workflow_id)))
        (bindE (item run ''event'') (\<lambda>e. Inr (\<not> jeq e (JStr ''schedule'') \<and> \<not> jeq e (JStr ''workflow_dispatch''))))) (\<lambda>foreign.
     if foreign then Inr False else
     bindE (item run ''status'') (\<lambda>st.
     if \<not> jeq st (JStr ''completed'') then Inr False else
     bindE (bindE (item run ''head_repository'') (\<lambda>r. item r ''full_name'')) (\<lambda>name.
     Inr (jeq name (JStr repo)))))))))"

definition size_limit :: int where "size_limit = 8000000"

definition fetch_state :: "host \<Rightarrow> string \<Rightarrow> json \<Rightarrow> json res" where
  "fetch_state h repo artifact =
     bindE (item artifact ''size_in_bytes'') (\<lambda>size.
     raise_if (ltE (JInt size_limit) size) (ValueError ''Daily state artifact is too large'') (
     bindE (item artifact ''id'') (\<lambda>i.
     bindE (gh_bytes h (''repos/'' @ repo @ ''/actions/artifacts/'' @ str_of (pystr h) i @ ''/zip'')) (\<lambda>archive.
     bindE (zip_member h archive ''state.json'') (\<lambda>(file_size, text).
     raise_if (Inr (size_limit < int file_size)) (ValueError ''Daily state expands beyond its limit'')
       (loads text))))))"

text \<open>The first usable artifact decides; \<open>None\<close> when there is none.\<close>

fun pick_state :: "host \<Rightarrow> string \<Rightarrow> json \<Rightarrow> (json \<Rightarrow> json res) \<Rightarrow> json list \<Rightarrow> json option res" where
  "pick_state h repo wid validator [] = Inr None"
| "pick_state h repo wid validator (a # as) =
     bindE (usable h repo wid a) (\<lambda>u. if u then bindE (bindE (fetch_state h repo a) validator) (\<lambda>s. Inr (Some s))
       else pick_state h repo wid validator as)"

definition restore :: "host \<Rightarrow> fs \<Rightarrow> path \<Rightarrow> string \<Rightarrow> string \<Rightarrow> (json \<Rightarrow> json res) \<Rightarrow> fs res" where
  "restore h f destination workflow artifact_name validator =
     bindE (environE h ''GITHUB_REPOSITORY'') (\<lambda>repo.
     bindE (bindE (gh_json h (''repos/'' @ repo @ ''/actions/artifacts?name='' @ artifact_name @ ''&per_page=100''))
        (\<lambda>d. item d ''artifacts'')) (\<lambda>artifacts.
     if \<not> truthy artifacts then write_state h f destination empty_state else
     bindE (bindE (gh_json h (''repos/'' @ repo @ ''/actions/workflows/'' @ workflow)) (\<lambda>d. item d ''id'')) (\<lambda>wid.
     bindE (iterE artifacts) (\<lambda>as. bindE (mapE (\<lambda>a. bindE (item a ''id'') (\<lambda>i. Inr (i, a))) as) (\<lambda>keyed.
     bindE (sort_descE keyed) (\<lambda>sorted_as.
     bindE (pick_state h repo wid validator (map snd sorted_as)) (\<lambda>found.
     write_state h f destination (case found of None \<Rightarrow> empty_state | Some s \<Rightarrow> s))))))))"

section \<open>What makes a new measurement necessary\<close>

definition relevant :: "string \<Rightarrow> bool" where
  "relevant p = (if endswith p ''.md'' \<or> endswith p ''_test.trb'' then False else
     (\<exists>d \<in> set [''compiler/'', ''src/'', ''benchmarks/'', ''tools/daily-performance/'', ''tools/weekly-performance/'',
        ''tools/runtime-memory-soak/'', ''tools/runtime-worker-soak/'', ''tools/native-mir-array-loop-recovery/''].
        startswith p d) \<or>
     p \<in> set [''TYPE_RB_REVISION'', ''.github/workflows/daily-performance.yml'', ''.github/workflows/weekly-performance.yml'',
        ''tools/bootstrap-seed.sh'', ''tools/bootstrap-seed-download.sh'', ''tools/compiler-project.sh'',
        ''tools/compiler-cost.sh''])"

text \<open>The entries of \<open>git ls-tree -rz HEAD\<close>: mode, type and object, a tab, the path.\<close>

definition entry_relevant :: "string \<Rightarrow> bool res" where
  "entry_relevant entry = (if entry = [] then Inr False else
     (case partition_str [TAB] entry of None \<Rightarrow> Inl IndexError | Some (meta, p) \<Rightarrow> Inr (relevant p)))"

definition fingerprint :: "host \<Rightarrow> string res" where
  "fingerprint h = bindE (filterE entry_relevant (split_chr NUL (ls_tree h))) (\<lambda>selected.
     Inr (sha256 h (join [NUL] selected)))"

definition read_named :: "fs \<Rightarrow> path \<Rightarrow> json \<Rightarrow> string res" where
  "read_named f repo name = (case name of JStr s \<Rightarrow> read_bytes f (joinp repo s) | _ \<Rightarrow> Inl TypeError)"

definition optional_file :: "fs \<Rightarrow> path \<Rightarrow> json \<Rightarrow> string \<Rightarrow> string res" where
  "optional_file f repo c key = ifE (hasE key c) (bindE (item c key) (read_named f repo)) (Inr [])"

definition case_bytes :: "fs \<Rightarrow> path \<Rightarrow> json \<Rightarrow> string res" where
  "case_bytes f repo c =
     bindE (bindE (item c ''source'') (read_named f repo)) (\<lambda>a.
     bindE (optional_file f repo c ''pureGoSource'') (\<lambda>b.
     bindE (optional_file f repo c ''expectedFile'') (\<lambda>d. Inr (a @ b @ d))))"

definition series :: "host \<Rightarrow> fs \<Rightarrow> path \<Rightarrow> string \<Rightarrow> string res" where
  "series h f repo workflow =
     bindE (read_state f (joinp repo ''tools/daily-performance/suite.json'')) (\<lambda>suite.
     bindE (mapE (\<lambda>n. read_bytes f (joinp repo n))
        [''tools/daily-performance/suite.json'', ''tools/daily-performance/measure.py'', ''TYPE_RB_REVISION'']) (\<lambda>fixed.
     bindE (bindE (item suite ''cases'') iterE) (\<lambda>cases.
     bindE (mapE (case_bytes f repo) cases) (\<lambda>parts.
     bindE (if workflow = ''weekly-performance.yml'' then
          mapE (\<lambda>n. read_bytes f (joinp repo n))
            [''tools/weekly-performance/measure.py'', ''benchmarks/benchmarksgame/context-sources.tsv'']
        else Inr []) (\<lambda>extra.
     Inr (sha256 h (concat (fixed @ parts @ extra))))))))"

section \<open>Planning, finishing, publishing\<close>

text \<open>\<open>state[k1][k2] = v\<close>.\<close>

definition set_in :: "string \<Rightarrow> string \<Rightarrow> json \<Rightarrow> json \<Rightarrow> json res" where
  "set_in k1 k2 v state = bindE (item state k1) (\<lambda>d. bindE (dict_set k2 v d) (\<lambda>d'. dict_set k1 d' state))"

definition plan_state :: "host \<Rightarrow> json \<Rightarrow> bool \<Rightarrow> (json \<times> bool) res" where
  "plan_state h state force =
     bindE (fingerprint h) (\<lambda>current. bindE (item state ''latest'') (\<lambda>latest.
     bindE (orE (Inr (force \<or> \<not> truthy latest))
        (bindE (item latest ''fingerprint'') (\<lambda>x. Inr (\<not> jeq x (JStr current))))) (\<lambda>should_run.
     bindE (dict_set ''checked'' (JDict [(''revision'', JStr (git_head h)), (''at'', JStr (clock h 0)),
        (''fingerprint'', JStr current)]) state) (\<lambda>state1.
     if \<not> should_run then Inr (state1, False) else
     bindE (environE h ''GITHUB_REPOSITORY'') (\<lambda>repository. bindE (environE h ''GITHUB_RUN_ID'') (\<lambda>run.
     (let server = (case map_of (environ h) ''GITHUB_SERVER_URL'' of None \<Rightarrow> ''https://github.com'' | Some u \<Rightarrow> u) in
      bindE (dict_set ''attempt'' (JDict [(''revision'', JStr (git_head h)), (''at'', JStr (clock h 1)),
          (''status'', JStr ''running''),
          (''runUrl'', JStr (server @ ''/'' @ repository @ ''/actions/runs/'' @ run))]) state1) (\<lambda>state2.
      Inr (state2, True)))))))))"

definition previous_revision :: "host \<Rightarrow> fs \<Rightarrow> path \<Rightarrow> string \<Rightarrow> json \<Rightarrow> json res" where
  "previous_revision h f repo workflow latest =
     ifE (andE (Inr (truthy latest)) (bindE (get latest ''series'') (\<lambda>x. bindE (series h f repo workflow) (\<lambda>y. Inr (jeq x (JStr y))))))
       (item latest ''revision'') (Inr (JStr (git_head h)))"

text \<open>\<open>open(output, 'a')\<close>: the text is added to the file, which is created when missing.\<close>

definition append_text :: "fs \<Rightarrow> path \<Rightarrow> string \<Rightarrow> fs res" where
  "append_text f p s = write_bytes f p ((case read_bytes f p of Inl e \<Rightarrow> [] | Inr old \<Rightarrow> old) @ s)"

definition plan :: "host \<Rightarrow> fs \<Rightarrow> path \<Rightarrow> string \<Rightarrow> path \<Rightarrow> path \<Rightarrow> bool \<Rightarrow> fs res" where
  "plan h f repo workflow p output force =
     bindE (bindE (read_state f p) validate_state) (\<lambda>state.
     bindE (plan_state h state force) (\<lambda>(state', should_run).
     bindE (write_state h f p state') (\<lambda>f'.
     bindE (item state ''latest'') (\<lambda>latest.
     bindE (previous_revision h f' repo workflow latest) (\<lambda>previous.
     append_text f' output (''measure='' @ (if should_run then ''true'' else ''false'') @ [NL] @
       ''previous='' @ str_of (pystr h) previous @ [NL]))))))"

text \<open>The state after a run: a successful snapshot becomes the latest one and joins the history,
  of which the last sixty are kept; otherwise the attempt is marked as failed.\<close>

definition retention :: nat where "retention = 60"

definition finish_success :: "host \<Rightarrow> fs \<Rightarrow> path \<Rightarrow> string \<Rightarrow> json \<Rightarrow> json \<Rightarrow> json res" where
  "finish_success h f repo workflow state snapshot =
     (if \<not> is_dict snapshot then Inl AttributeError else
     bindE (bindE (item state ''checked'') (\<lambda>c. item c ''fingerprint'')) (\<lambda>print.
     bindE (series h f repo workflow) (\<lambda>ser.
     bindE (bindE (item state ''attempt'') (\<lambda>a. item a ''runUrl'')) (\<lambda>url.
     bindE (bindE (bindE (dict_set ''fingerprint'' print snapshot) (dict_set ''series'' (JStr ser))) (dict_set ''runUrl'' url)) (\<lambda>snap.
     bindE (bindE (dict_set ''latest'' snap empty_state) validate_state) (\<lambda>_.
     bindE (dict_set ''latest'' snap state) (\<lambda>state1.
     bindE (bindE (item state1 ''history'') iterE) (\<lambda>history.
     bindE (dict_set ''history'' (JList (last_n retention (history @ [snap]))) state1) (\<lambda>state2.
     bindE (item snap ''status'') (\<lambda>status.
     set_in ''attempt'' ''status'' status state2))))))))))"

definition finish_state :: "host \<Rightarrow> fs \<Rightarrow> path \<Rightarrow> string \<Rightarrow> json \<Rightarrow> json \<Rightarrow> string option \<Rightarrow> json res" where
  "finish_state h f repo workflow state snapshot status =
     (if truthy snapshot \<and> status = Some ''success'' then finish_success h f repo workflow state snapshot
      else set_in ''attempt'' ''status'' (JStr ''infrastructure-failure'') state)"

definition finish :: "host \<Rightarrow> fs \<Rightarrow> path \<Rightarrow> string \<Rightarrow> path \<Rightarrow> path \<Rightarrow> string option \<Rightarrow> fs res" where
  "finish h f repo workflow p snapshot_path status =
     bindE (bindE (read_state f p) validate_state) (\<lambda>state.
     bindE (if path_exists f snapshot_path then read_state f snapshot_path else Inr JNull) (\<lambda>snapshot.
     bindE (finish_state h f repo workflow state snapshot status) (\<lambda>state'. write_state h f p state')))"

text \<open>The published copy of the state: a run that was cancelled or failed outside the tool is
  recorded as the latest attempt unless that run already recorded a result.\<close>

definition attempt_field :: "json \<Rightarrow> string \<Rightarrow> json res" where
  "attempt_field state k = bindE (get state ''attempt'') (\<lambda>a. get (if truthy a then a else JDict []) k)"

definition site_state :: "host \<Rightarrow> json \<Rightarrow> json res" where
  "site_state h state =
     (let trigger = map_of (environ h) ''TRIGGER_RUN_ID'' in
      bindE (case trigger of
         Some run \<Rightarrow>
           if run \<noteq> [] \<and> map_of (environ h) ''TRIGGER_CONCLUSION'' \<in> {Some ''failure'', Some ''cancelled'', Some ''timed_out''}
           then bindE (environE h ''GITHUB_REPOSITORY'') (\<lambda>repository.
             (let url = ''https://github.com/'' @ repository @ ''/actions/runs/'' @ run in
              ifE (orE (bindE (attempt_field state ''runUrl'') (\<lambda>u. Inr (\<not> jeq u (JStr url))))
                     (bindE (attempt_field state ''status'') (\<lambda>s. Inr (jeq s (JStr ''running'')))))
                (dict_set ''attempt'' (JDict [(''status'', JStr ''infrastructure-failure''), (''revision'', JStr (git_head h)),
                   (''at'', JStr (clock h 0)), (''runUrl'', JStr url)]) state)
                (Inr state)))
           else Inr state
       | None \<Rightarrow> Inr state) (\<lambda>state1.
      bindE (dict_set ''siteRevision'' (JStr (git_head h)) state1) (\<lambda>state2.
      bindE (item state2 ''latest'') (\<lambda>latest.
      bindE (orE (Inr (\<not> truthy latest)) (bindE (item latest ''fingerprint'') (\<lambda>x.
        bindE (fingerprint h) (\<lambda>y. Inr (\<not> jeq x (JStr y)))))) (\<lambda>pending.
      dict_set ''pendingChanges'' (JBool pending) state2)))))"

datatype command = Restore | Plan bool | Finish "string option" | Site

definition daily_main :: "host \<Rightarrow> fs \<Rightarrow> path \<Rightarrow> bool \<Rightarrow> path \<Rightarrow> path \<Rightarrow> path \<Rightarrow> command \<Rightarrow> fs res" where
  "daily_main h f repo weekly state output snapshot cmd =
     (let workflow = (if weekly then ''weekly-performance.yml'' else ''daily-performance.yml'');
          artifact = (if weekly then ''weekly-performance-state'' else ''daily-performance-state'')
      in case cmd of
           Restore \<Rightarrow> restore h f state workflow artifact validate_state
         | Plan force \<Rightarrow> plan h f repo workflow state output force
         | Finish status \<Rightarrow> finish h f repo workflow state snapshot status
         | Site \<Rightarrow> bindE (bindE (bindE (read_state f state) validate_state) (site_state h)) (write_state h f output))"

section \<open>What acceptance means\<close>

definition field :: "json \<Rightarrow> string \<Rightarrow> json" where
  "field v k = (case v of JDict kvs \<Rightarrow> (case map_of kvs k of None \<Rightarrow> JNull | Some x \<Rightarrow> x) | _ \<Rightarrow> JNull)"

definition snapshots_of :: "json \<Rightarrow> json list" where
  "snapshots_of state = filter (\<lambda>s. s \<noteq> JNull)
     (field state ''latest'' # (case field state ''history'' of JList hs \<Rightarrow> hs | _ \<Rightarrow> []))"

definition state_ok :: "json \<Rightarrow> bool" where
  "state_ok state = (is_dict state \<and> jeq (field state ''schemaVersion'') (JInt 1) \<and>
     (\<exists>hs. field state ''history'' = JList hs \<and> length hs \<le> 60) \<and>
     (\<forall>s \<in> set (snapshots_of state). validate_snapshot s = Inr ()))"

lemma get_field: "get v k = Inr x \<longleftrightarrow> is_dict v \<and> x = field v k"
  by (cases v) (auto simp: field_def)

lemma set_snapshots:
  "x \<in> set (snapshots_of s) \<longleftrightarrow> x \<noteq> JNull \<and>
     (x = field s ''latest'' \<or> (\<exists>hs. field s ''history'' = JList hs \<and> x \<in> set hs))"
  by (auto simp: snapshots_of_def split: json.splits)

lemma validate_state_iff: "validate_state s = Inr t \<longleftrightarrow> t = s \<and> state_ok s"
proof (cases "is_dict s")
  case True
  then have g: "get s k = Inr (field s k)" for k by (simp add: get_field)
  show ?thesis
  proof (cases "is_list (field s ''history'')")
    case list: True
    then obtain hs where hs: "field s ''history'' = JList hs" by (auto simp: is_list_iff)
    show ?thesis unfolding validate_state_def g bindE_simps hs iterE.simps
      using True hs by (auto simp: res_simps state_ok_def set_snapshots)
  next
    case False
    then show ?thesis unfolding validate_state_def g bindE_simps
      by (auto simp: state_ok_def)
  qed
next
  case False
  then show ?thesis by (cases s) (auto simp: validate_state_def state_ok_def)
qed

lemma field_dict_set: "dict_set k x d = Inr e \<Longrightarrow> field e j = (if j = k then x else field d j)"
  by (cases d) (auto simp: field_def update_conv')

lemma is_dict_set: "dict_set k x d = Inr e \<Longrightarrow> is_dict e"
  by (cases d) auto

text \<open>Assignments to other fields do not change what is validated.\<close>

lemma state_ok_dict_set:
  assumes "dict_set k x s = Inr t" "state_ok s"
    and "k \<notin> {''schemaVersion'', ''history'', ''latest''}"
  shows "state_ok t"
proof -
  have "field t j = field s j" if "j \<noteq> k" for j using field_dict_set [OF assms(1)] that by simp
  with assms show ?thesis
    by (auto simp: state_ok_def set_snapshots is_dict_set)
qed

lemma state_ok_set_in:
  "set_in k j x s = Inr t \<Longrightarrow> state_ok s \<Longrightarrow> k \<notin> {''schemaVersion'', ''history'', ''latest''} \<Longrightarrow> state_ok t"
  unfolding set_in_def bindE_Inr_iff by (elim exE conjE) (rule state_ok_dict_set)

lemma state_ok_empty: "state_ok empty_state"
  by (simp add: state_ok_def empty_state_def field_def snapshots_of_def)

section \<open>Theorems\<close>


text \<open>C5. Finishing a run keeps the state acceptable as well: the snapshot it records has been
  validated, the history never exceeds sixty snapshots, and the newest snapshot is its last one.\<close>

theorem finish_keeps_valid:
  assumes "validate_state state = Inr state"
    and "finish_state h f repo workflow state snapshot status = Inr state'"
  shows "validate_state state' = Inr state'"
proof -
  have ok: "state_ok state" using assms(1) by (simp add: validate_state_iff)
  show ?thesis
  proof (cases "truthy snapshot \<and> status = Some ''success''")
    case False
    with assms(2) have "set_in ''attempt'' ''status'' (JStr ''infrastructure-failure'') state = Inr state'"
      by (auto simp: finish_state_def)
    from state_ok_set_in [OF this ok] show ?thesis by (simp add: validate_state_iff)
  next
    case True
    with assms(2) have "finish_success h f repo workflow state snapshot = Inr state'"
      by (simp add: finish_state_def)
    then obtain snap e e' s1 s2 hs x where e: "dict_set ''latest'' snap empty_state = Inr e" "validate_state e = Inr e'"
      and s1: "dict_set ''latest'' snap state = Inr s1"
      and hs: "bindE (item s1 ''history'') iterE = Inr hs"
      and s2: "dict_set ''history'' (JList (last_n retention (hs @ [snap]))) s1 = Inr s2"
      and s3: "set_in ''attempt'' ''status'' x s2 = Inr state'"
      unfolding finish_success_def by (force simp: bindE_Inr_iff split: if_splits)
    have "snap = JNull \<or> validate_snapshot snap = Inr ()"
      using e field_dict_set [OF e(1), of "''latest''"] by (auto simp: validate_state_iff state_ok_def set_snapshots)
    moreover obtain h0 where h0: "field state ''history'' = JList h0" using ok by (auto simp: state_ok_def)
    then have f1: "field s1 ''history'' = JList h0" using field_dict_set [OF s1] by simp
    then have "hs = h0" using hs by (auto simp: item_iff field_def bindE_Inr_iff)
    ultimately have "state_ok s2"
      using ok h0 field_dict_set [OF s1] field_dict_set [OF s2] is_dict_set [OF s2]
        set_last_n [of retention "hs @ [snap]"] length_last_n [of retention "hs @ [snap]"]
      by (auto simp: state_ok_def set_snapshots retention_def)
    from state_ok_set_in [OF s3 this] show ?thesis by (simp add: validate_state_iff)
  qed
qed

section \<open>Rows\<close>

definition row_id :: "json \<Rightarrow> json \<times> json" where
  "row_id r = (field r ''case'', field r ''role'')"

definition seen_ok :: "json list \<Rightarrow> seen_cases \<Rightarrow> bool" where
  "seen_ok rows cases = (distinct (map row_id rows) \<and> distinct (map fst cases) \<and>
     (\<forall>r \<in> set rows. \<exists>c role. row_id r = (JStr c, JStr role)) \<and>
     (\<forall>c role. role \<in> set (members_of cases c) \<longleftrightarrow> (JStr c, role) \<in> row_id ` set rows) \<and>
     (\<forall>c. c \<in> fst ` set cases \<longleftrightarrow> (\<exists>r \<in> set rows. field r ''case'' = JStr c)))"

lemma check_row_elims:
  assumes "check_row roles cases row = Inr cases'" "is_dict roles"
  obtains c role where "row_id row = (JStr c, JStr role)" "JStr role \<notin> set (members_of cases c)"
    "cases' = AList.update c (members_of cases c @ [JStr role]) cases" "check_outcome row = Inr ()"
proof -
  from assms obtain name role where n: "get row ''case'' = Inr name" and r: "get row ''role'' = Inr role"
    and i: "is_str name" "inE role roles = Inr True"
    and m: "\<not> jmem role (members_of cases (str_val name))"
    and o': "check_outcome row = Inr ()"
    and c: "cases' = AList.update (str_val name) (members_of cases (str_val name) @ [role]) cases"
    unfolding check_row_def Let_def by (auto simp: bindE_Inr_iff raise_if_iff orE_iff notE_iff)
  from i assms(2) obtain k where k: "role = JStr k" by (cases roles) (auto split: if_splits)
  from i obtain w where w: "name = JStr w" by (auto simp: is_str_iff)
  show thesis
  proof (rule that [of w k])
    show "row_id row = (JStr w, JStr k)" using n r k w by (auto simp: row_id_def get_field)
  qed (use m c o' k w in \<open>auto simp: jmem_def\<close>)
qed

lemma members_of_update:
  "members_of (AList.update c ms cases) d = (if d = c then ms else members_of cases d)"
  by (simp add: members_of_def update_conv')

lemma seen_ok_step:
  assumes "seen_ok rows cases" "check_row roles cases row = Inr cases'" "is_dict roles"
  shows "seen_ok (rows @ [row]) cases'"
proof -
  from check_row_elims [OF assms(2,3)] obtain c role where
    id: "row_id row = (JStr c, JStr role)" and new: "JStr role \<notin> set (members_of cases c)"
    and c: "cases' = AList.update c (members_of cases c @ [JStr role]) cases" by metis
  have "field row ''case'' = JStr c" using id by (simp add: row_id_def)
  moreover have "row_id row \<notin> row_id ` set rows" using assms(1) id new by (auto simp: seen_ok_def)
  moreover have "fst ` set cases' = insert c (fst ` set cases)"
    using dom_update [of c _ cases] by (simp add: c dom_map_of_conv_image_fst)
  ultimately show ?thesis
    using assms(1) id unfolding seen_ok_def
    by (auto simp: c members_of_update distinct_update)
qed

lemma seen_ok_fold:
  assumes "foldE (check_row roles) [] rows = Inr cases" "is_dict roles"
  shows "seen_ok rows cases"
proof (rule foldE_prefix_invariant [where P = seen_ok, OF assms(1)])
  show "seen_ok [] []" by (simp add: seen_ok_def members_of_def)
qed (rule seen_ok_step [OF _ _ assms(2)])

lemma snapshot_elims:
  assumes "validate_snapshot s = Inr ()"
  obtains rows cases weekly pure baseline where
    "is_dict s" "is_weekly s = Inr weekly" "getd s ''pureGoCases'' (JList []) = Inr pure"
    "baseline = field s ''baselineCases''"
    "field s ''rows'' = JList rows" "1 \<le> length rows" "length rows \<le> 100"
    "foldE (check_row (case getd s ''roles'' (JDict []) of Inr r \<Rightarrow> r)) [] rows = Inr cases"
    "is_dict (case getd s ''roles'' (JDict []) of Inr r \<Rightarrow> r)"
    "check_complete weekly pure baseline cases = Inr ()"
proof -
  from assms obtain rev where "getd s ''revision'' (JStr []) = Inr rev"
    unfolding validate_snapshot_def bindE_Inr_iff by blast
  then have d: "is_dict s" by (auto simp: getd_iff)
  then have g: "get s k = Inr (field s k)" for k by (simp add: get_field)
  from assms obtain roles weekly pure w rows cases u1 u2 where
    v: "getd s ''roles'' (JDict []) = Inr roles" "is_weekly s = Inr weekly"
      "getd s ''pureGoCases'' (JList []) = Inr pure"
      "is_list (field s ''rows'')" "item s ''rows'' = Inr w" "iterE w = Inr rows"
      "1 \<le> length rows" "length rows \<le> 100" "foldE (check_row roles) [] rows = Inr cases"
      "check_complete weekly pure (field s ''baselineCases'') cases = Inr u1"
      "check_roles s roles weekly = Inr u2"
    unfolding validate_snapshot_def g bindE_simps
    unfolding bindE_Inr_iff raise_if_iff orE_iff sum.inject simp_thms not_not
    by (elim exE conjE) (rule that, assumption+)
  have "field s ''rows'' = JList rows"
    using v(4-6) d by (auto simp: item_iff field_def is_list_iff)
  moreover have "is_dict roles"
    using v(11) by (auto simp: check_roles_def bindE_Inr_iff raise_if_iff item_iff)
  ultimately show thesis using that [OF d v(2,3) refl] v by simp
qed


lemma check_metric_finite:
  "check_metric msg m k = Inr () \<Longrightarrow> \<exists>x. num_of (field m k) = Some (Fin x) \<and> 0 \<le> x"
proof -
  assume a: "check_metric msg m k = Inr ()"
  then have d: "is_dict m" by (auto simp: check_metric_def bindE_Inr_iff getd_iff)
  then have g: "get m k = Inr (field m k)" by (simp add: get_field)
  from a have v: "isinstance_number (field m k)" "isfiniteE (field m k) = Inr True"
    "ltE (field m k) (JInt 0) = Inr False"
    by (auto simp: check_metric_def g raise_if_iff orE_iff notE_iff)
  then show ?thesis
    by (cases "field m k" rule: num_of.cases)
      (auto simp: isinstance_number_def isinstance_int_def ltE_def elim: isfinite.elims)
qed

lemma range_ok_finite:
  assumes "range_ok m = Inr True" "is_dict m"
    and "num_of (field m ''wallMin'') = Some (Fin x)" "num_of (field m ''wallSeconds'') = Some (Fin y)"
    and "num_of (field m ''wallMax'') = Some (Fin z)"
  shows "0 < x \<and> x \<le> y \<and> y \<le> z"
proof -
  have i: "item m k = Inr v \<Longrightarrow> v = field m k" for k v by (auto simp: item_iff field_def)
  have lt: "cmpE fn fs u v = Inr b \<Longrightarrow> num_of u = Some p \<Longrightarrow> num_of v = Some q \<Longrightarrow> b = fn p q" for fn fs u v b p q
    by (cases "(fn, fs, u, v)" rule: cmpE.cases) auto
  show ?thesis
    using assms by (auto simp: range_ok_def bindE_Inr_iff andE_iff ltE_def leE_def fle_def dest!: i lt)
qed

lemma check_metrics_ordered:
  assumes "check_metrics m = Inr ()"
  shows "\<exists>x y z. num_of (field m ''wallMin'') = Some (Fin x) \<and> num_of (field m ''wallSeconds'') = Some (Fin y) \<and>
     num_of (field m ''wallMax'') = Some (Fin z) \<and> 0 < x \<and> x \<le> y \<and> y \<le> z"
proof -
  from assms have c: "\<forall>k \<in> set wall_metrics. check_metric ''Invalid measurement metric'' m k = Inr ()"
    and r: "range_ok m = Inr True"
    by (auto simp: check_metrics_def bindE_Inr_iff forE_iff raise_if_iff notE_iff)
  then have "is_dict m" by (auto simp: range_ok_def bindE_Inr_iff item_iff)
  with r range_ok_finite c check_metric_finite show ?thesis
    by (metis (no_types, lifting) list.set_intros wall_metrics_def)
qed

lemma outcome_measured:
  assumes "check_outcome r = Inr ()" "field r ''status'' = JStr ''pass''" "g \<in> {''runtime'', ''build''}"
  shows "check_metrics (field r g) = Inr ()"
proof -
  from assms(1) obtain st where "get r ''status'' = Inr st" unfolding check_outcome_def bindE_Inr_iff by blast
  then have d: "is_dict r" by (simp add: get_field)
  then have gf: "get r k = Inr (field r k)" for k by (simp add: get_field)
  have i: "item r ''status'' = Inr v \<Longrightarrow> v = field r ''status''" for v by (auto simp: item_iff field_def)
  from assms(1) obtain v where "item r ''status'' = Inr v"
    "\<not> (jeq v (JStr ''pass'') \<and> (field r ''runtime'' = JNull \<or> field r ''build'' = JNull))"
    "\<forall>x \<in> {''runtime'', ''build''}. (if field r x = JNull then Inr () else check_metrics (field r x)) = Inr ()"
    unfolding check_outcome_def gf bindE_simps
    by (auto simp: bindE_Inr_iff raise_if_iff split: if_splits)
  then show ?thesis using assms(2,3) i by (auto split: if_splits)
qed

lemma rows_outcomes:
  assumes "foldE (check_row roles) [] rows = Inr cases" "is_dict roles"
  shows "\<forall>r \<in> set rows. check_outcome r = Inr ()"
proof (rule foldE_prefix_invariant [where P = "\<lambda>rs _. \<forall>r \<in> set rs. check_outcome r = Inr ()", OF assms(1)])
  fix ys x u v
  assume "\<forall>r \<in> set ys. check_outcome r = Inr ()" "check_row roles u x = Inr v"
  then show "\<forall>r \<in> set (ys @ [x]). check_outcome r = Inr ()" using check_row_elims [OF _ assms(2)] by auto
qed simp

text \<open>Every passing row of an accepted snapshot has a run time and a build time whose shortest,
  reported and longest wall times are finite, positive and in that order.\<close>

theorem accepted_rows_measured:
  assumes "validate_snapshot s = Inr ()" "field s ''rows'' = JList rows" "r \<in> set rows"
    and "field r ''status'' = JStr ''pass''" "g \<in> {''runtime'', ''build''}"
  shows "\<exists>x y z. num_of (field (field r g) ''wallMin'') = Some (Fin x) \<and>
     num_of (field (field r g) ''wallSeconds'') = Some (Fin y) \<and>
     num_of (field (field r g) ''wallMax'') = Some (Fin z) \<and> 0 < x \<and> x \<le> y \<and> y \<le> z"
proof -
  from snapshot_elims [OF assms(1)] have "check_outcome r = Inr ()"
    using rows_outcomes assms(2,3) by (metis json.inject(5))
  from outcome_measured [OF this assms(4,5)] show ?thesis by (rule check_metrics_ordered)
qed

section \<open>Witnesses\<close>

definition demo_metrics :: json where
  "demo_metrics = JDict [(''wallSeconds'', JFloat (Fin 2)), (''cpuSeconds'', JFloat (Fin 1)), (''memoryBytes'', JFloat (Fin 5)),
     (''wallMin'', JFloat (Fin 1)), (''wallMax'', JFloat (Fin 3))]"

definition demo_row :: "string \<Rightarrow> json" where
  "demo_row role = JDict [(''case'', JStr ''sum''), (''role'', JStr role), (''status'', JStr ''pass''),
     (''runtime'', demo_metrics), (''build'', demo_metrics)]"

definition demo_sha :: string where "demo_sha = replicate 40 (CHR ''a'')"

definition demo_snapshot :: json where
  "demo_snapshot = JDict [(''revision'', JStr demo_sha), (''status'', JStr ''pass''), (''fingerprint'', JStr ''h''),
     (''series'', JStr ''14''), (''runUrl'', JStr ''u''),
     (''roles'', JDict (map (\<lambda>r. (r, JDict [(''revision'', JStr demo_sha)])) daily_roles)),
     (''rows'', JList (map demo_row daily_roles))]"

definition demo_state :: json where
  "demo_state = JDict [(''schemaVersion'', JInt 1), (''latest'', demo_snapshot),
     (''attempt'', JDict [(''runUrl'', JStr ''u'')]), (''history'', JList [demo_snapshot]),
     (''checked'', JDict [(''fingerprint'', JStr ''h'')])]"

definition demo_host :: host where
  "demo_host = \<lparr>environ = [(''GITHUB_REPOSITORY'', ''o/r''), (''GITHUB_RUN_ID'', ''7'')], clock = (\<lambda>n. ''now''),
     git_head = demo_sha, ls_tree = ''100644 blob x'' @ [TAB] @ ''src/a.trb'' @ [NUL], sha256 = (\<lambda>s. show_nat (length s)),
     gh_json = (\<lambda>e. Inl (SubprocessError 1)), gh_bytes = (\<lambda>e. Inl (SubprocessError 1)),
     zip_member = (\<lambda>z n. Inl (KeyError n)), frepr = (\<lambda>q. ''0.5''), pystr = (\<lambda>v. [])\<rparr>"

definition demo_files :: fs where
  "demo_files = map (\<lambda>(p, s). (pure_parts p, NFile s 420))
     [(''tools/daily-performance/suite.json'', [CHR ''{'', DQ] @ ''cases'' @ [DQ] @ '':[]}''),
      (''tools/daily-performance/measure.py'', ''m''), (''TYPE_RB_REVISION'', ''1'')]"

lemma demo_metrics_ok: "check_metrics demo_metrics = Inr ()" "demo_metrics \<noteq> JNull"
  by (simp_all add: check_metrics_def demo_metrics_def wall_metrics_def check_metric_def range_ok_def
      isinstance_number_def ltE_def leE_def fle_def isinstance_int_def)

lemma demo_case: "fullmatch case_rx ''sum''"
  by (simp add: case_rx_def fullmatch_plus_cls in_cls_def lower_cls_def list_all_iff)

lemma demo_hex: "is_hex 40 demo_sha"
  by (simp add: demo_sha_def is_hex_def in_cls_def hex_cls_def list_all_iff)

lemma demo_row_step: "inE (JStr role) roles = Inr True \<Longrightarrow> check_row roles cases (demo_row role) =
    (if JStr role \<in> set (members_of cases ''sum'') then Inl (ValueError ''Duplicate observation row'')
     else Inr (AList.update ''sum'' (members_of cases ''sum'' @ [JStr role]) cases))"
  by (simp add: check_row_def demo_row_def demo_case demo_metrics_ok check_outcome_def in_setE_def statuses_def jmem_def)

lemma demo_valid: "validate_snapshot demo_snapshot = Inr ()" 
  by (simp add: validate_snapshot_def demo_snapshot_def fullmatchE_SHA demo_hex is_weekly_def check_roles_def
      setE_def hashE_def base_roles_def jset_eq_def jsub_def valuesE_def check_coverage_def daily_roles_def
      demo_row_step members_of_def check_complete_def expected_roles_def jmem_def check_compiler_self_def jeq_item_def)

lemma demo_state_valid: "validate_state demo_state = Inr demo_state"
proof -
  have "state_ok demo_state" by (auto simp: state_ok_def set_snapshots demo_state_def field_def demo_valid)
  then show ?thesis by (simp add: validate_state_iff)
qed


lemma accepted_rows_measured_witness:
  "\<exists>x y z. num_of (field (field (demo_row ''native'') ''runtime'') ''wallMin'') = Some (Fin x) \<and>
     num_of (field (field (demo_row ''native'') ''runtime'') ''wallSeconds'') = Some (Fin y) \<and>
     num_of (field (field (demo_row ''native'') ''runtime'') ''wallMax'') = Some (Fin z) \<and> 0 < x \<and> x \<le> y \<and> y \<le> z"
proof (rule accepted_rows_measured [OF demo_valid])
  show "field demo_snapshot ''rows'' = JList (map demo_row daily_roles)"
    by (simp add: demo_snapshot_def field_def)
qed (simp_all add: demo_row_def field_def daily_roles_def)


lemma demo_series: "series demo_host demo_files [] ''d'' = Inr ''14''"
  by code_simp

lemma finish_keeps_valid_witness:
  "\<exists>s. finish_state demo_host demo_files [] ''d'' demo_state demo_snapshot (Some ''success'') = Inr s \<and>
     validate_state s = Inr s"
proof -
  have e: "validate_state (JDict [(''schemaVersion'', JInt 1), (''latest'', demo_snapshot), (''attempt'', JNull),
      (''history'', JList [])]) = Inr (JDict [(''schemaVersion'', JInt 1), (''latest'', demo_snapshot), (''attempt'', JNull),
      (''history'', JList [])])"
    by (auto simp: validate_state_iff state_ok_def set_snapshots field_def demo_valid)
  have d: "dict_set ''fingerprint'' (JStr ''h'') demo_snapshot = Inr demo_snapshot"
    "dict_set ''series'' (JStr ''14'') demo_snapshot = Inr demo_snapshot"
    "dict_set ''runUrl'' (JStr ''u'') demo_snapshot = Inr demo_snapshot" "is_dict demo_snapshot"
    "truthy demo_snapshot" "item demo_snapshot ''status'' = Inr (JStr ''pass'')"
    by (simp_all add: demo_snapshot_def)
  have "\<exists>s. finish_state demo_host demo_files [] ''d'' demo_state demo_snapshot (Some ''success'') = Inr s"
    by (simp add: finish_state_def finish_success_def demo_series d demo_state_def empty_state_def e set_in_def)
  then show ?thesis using finish_keeps_valid [OF demo_state_valid] by blast
qed

end
