(* ===== verification/EvidenceBundle.thy ===== *)
theory EvidenceBundle
  imports Codec PyPath
begin

text \<open>
  \<open>tools/evidence_bundle.py\<close>: evidence files of a CI job packed into one compressed file of JSON
  lines, verified and extracted again. Compression and SHA-256 are parameters.
\<close>

record services =
  gzip :: "string \<Rightarrow> string"
  gunzip :: "string \<Rightarrow> string res"
  sha :: "string \<Rightarrow> string"

section \<open>Paths and lines\<close>

definition evidence_safe :: "string \<Rightarrow> bool" where
  "evidence_safe name = (name \<noteq> [] \<and> BSL \<notin> set name \<and> NUL \<notin> set name \<and> \<not> is_absolute name \<and>
     (\<forall>part \<in> set (split_chr (CHR ''/'') name). part \<notin> {[], ''.'', ''..''}))"

definition safe_path :: "json \<Rightarrow> string res" where
  "safe_path name = (case name of JStr s \<Rightarrow> if evidence_safe s then Inr s else Inl (ValueError ''Unsafe evidence path'')
     | _ \<Rightarrow> Inl (ValueError ''Unsafe evidence path''))"

definition line :: "json \<Rightarrow> string" where
  "line record = json_line_text (sort_json record) @ [NL]"

definition header_record :: "nat \<Rightarrow> string list \<Rightarrow> json" where
  "header_record n missing = JDict [(''format'', JStr ''typerb-evidence-jsonl''), (''schemaVersion'', JInt 1),
     (''files'', JInt (int n)), (''missing'', JList (map JStr (sort missing)))]"

definition file_record :: "services \<Rightarrow> string \<times> nat \<times> string \<Rightarrow> json" where
  "file_record sv e = (case e of (name, mode, data) \<Rightarrow>
     JDict [(''path'', JStr name), (''mode'', JInt (int (mode mod 512))), (''bytes'', JInt (int (length data))),
       (''sha256'', JStr (sha sv data)), (''base64'', JStr (b64encode data))])"

definition bundle_text :: "services \<Rightarrow> string list \<Rightarrow> (string \<times> nat \<times> string) list \<Rightarrow> string" where
  "bundle_text sv missing files =
     line (header_record (length files) missing) @ concat (map (line \<circ> file_record sv) files)"

section \<open>Reading a bundle\<close>

definition evidence_header :: "json \<Rightarrow> bool res" where
  "evidence_header header = notE (
     orE (notE (keys_are header [''format'', ''schemaVersion'', ''files'', ''missing'']))
    (orE (bindE (item header ''format'') (\<lambda>x. Inr (\<not> jeq x (JStr ''typerb-evidence-jsonl''))))
    (orE (bindE (item header ''schemaVersion'') (\<lambda>x. Inr (\<not> jeq x (JInt 1))))
    (orE (bindE (item header ''files'') (\<lambda>x. Inr (\<not> type_is_int x)))
    (orE (bindE (item header ''files'') (\<lambda>x. leE x (JInt 0)))
         (bindE (item header ''missing'') (\<lambda>x. Inr (\<not> is_list x))))))))"

definition metadata_ok :: "json \<Rightarrow> string \<Rightarrow> string list \<Rightarrow> bool res" where
  "metadata_ok record name seen = notE (
     orE (Inr (name \<in> set seen))
    (orE (bindE (item record ''mode'') (\<lambda>x. Inr (\<not> type_is_int x)))
    (orE (bindE (item record ''mode'') (\<lambda>x. notE (andE (leE (JInt 0) x) (leE x (JInt 511)))))
    (orE (bindE (item record ''bytes'') (\<lambda>x. Inr (\<not> type_is_int x)))
    (orE (bindE (item record ''sha256'') (\<lambda>x. Inr (\<not> is_str x)))
         (bindE (item record ''sha256'') (\<lambda>x. notE (fullmatchE (hex_rx 64) x))))))))"

definition b64E :: "json \<Rightarrow> string res" where
  "b64E v = (case v of JStr s \<Rightarrow> b64decode s | _ \<Rightarrow> Inl TypeError)"

text \<open>One record: its name and data, given the names seen before and the missing ones.\<close>

definition read_record :: "services \<Rightarrow> string list \<Rightarrow> string list \<Rightarrow> string \<Rightarrow> (json \<times> string \<times> string) res" where
  "read_record sv missing seen raw =
     bindE (loads raw) (\<lambda>record.
     raise_if (notE (keys_are record [''path'', ''mode'', ''bytes'', ''sha256'', ''base64'']))
       (ValueError ''Invalid evidence record'') (
     bindE (bindE (item record ''path'') safe_path) (\<lambda>name.
     raise_if (notE (metadata_ok record name seen)) (ValueError ''Duplicate path or invalid metadata'') (
     if \<exists>p \<in> set missing. name = p \<or> startswith name (p @ ''/'')
     then Inl (ValueError ''Recorded file conflicts with missing inventory'') else
     bindE (bindE (item record ''base64'') b64E) (\<lambda>data.
     raise_if (orE (bindE (item record ''bytes'') (\<lambda>x. Inr (\<not> jeq x (JInt (int (length data))))))
         (bindE (item record ''sha256'') (\<lambda>x. Inr (\<not> jeq x (JStr (sha sv data))))))
       (ValueError ''Evidence content differs from its size or SHA-256'')
       (Inr (record, name, data)))))))"

definition record_step :: "services \<Rightarrow> string list \<Rightarrow> (json \<times> string \<times> string) list \<Rightarrow> string \<Rightarrow>
    (json \<times> string \<times> string) list res" where
  "record_step sv missing out raw =
     bindE (read_record sv missing (map (fst \<circ> snd) out) raw) (\<lambda>r. Inr (out @ [r]))"

text \<open>\<open>str(parent)\<close> for the parents of a relative path.\<close>

definition parents_of :: "string \<Rightarrow> string list" where
  "parents_of name = (let ps = pure_parts name in
     map (\<lambda>k. if k = 0 then ''.'' else join ''/'' (take k ps)) [0..<length ps])"

definition records :: "services \<Rightarrow> string \<Rightarrow> (json \<times> string \<times> string) list res" where
  "records sv bundle =
     bindE (gunzip sv bundle) (\<lambda>text.
     (case stream_lines text of [] \<Rightarrow> Inl (ValueError ''Expecting value'') | first # rest \<Rightarrow>
     bindE (loads first) (\<lambda>header.
     raise_if (notE (evidence_header header)) (ValueError ''Invalid evidence header'') (
     bindE (bindE (bindE (item header ''missing'') iterE) (mapE safe_path)) (\<lambda>missing.
     if \<not> distinct missing then Inl (ValueError ''Duplicate missing path'') else
     bindE (foldE (record_step sv missing) [] rest) (\<lambda>out.
     bindE (item header ''files'') (\<lambda>files.
     (let seen = map (fst \<circ> snd) out in
      if \<not> jeq files (JInt (int (length seen))) then Inl (ValueError ''Incomplete evidence bundle'')
      else if \<exists>name \<in> set seen. \<exists>parent \<in> set (parents_of name). parent \<in> set seen
      then Inl (ValueError ''File path conflicts with a parent directory'')
      else Inr out))))))))"

definition verify_bytes :: "services \<Rightarrow> string \<Rightarrow> json res" where
  "verify_bytes sv bundle = bindE (records sv bundle) (\<lambda>out.
     Inr (JDict [(''files'', JInt (int (length out))),
       (''sourceBytes'', JInt (\<Sum>(r, n, d)\<leftarrow>out. int (length d))),
       (''bundleBytes'', JInt (int (length bundle))), (''sha256'', JStr (sha sv bundle))]))"

definition verify :: "services \<Rightarrow> fs \<Rightarrow> path \<Rightarrow> json res" where
  "verify sv f bundle = bindE (read_bytes f bundle) (verify_bytes sv)"

section \<open>Packing\<close>

definition hidden :: "path \<Rightarrow> bool" where
  "hidden q = (\<exists>part \<in> set q. startswith part ''.'')"

text \<open>One path below a selection; \<open>base\<close> is resolved.\<close>

definition pack_file :: "fs \<Rightarrow> path \<Rightarrow> path \<Rightarrow> (string \<times> path) list \<Rightarrow> path \<Rightarrow> (string \<times> path) list res" where
  "pack_file f base output paths p =
     (if is_symlink f p then Inl (ValueError ''Evidence symlinks are unsupported'')
      else if is_dir f p then Inr paths
      else if \<not> is_file f p then Inl (ValueError ''Select regular evidence files, excluding the output'')
      else bindE (resolveE f p) (\<lambda>rp. bindE (resolveE f output) (\<lambda>ro.
        if rp = ro then Inl (ValueError ''Select regular evidence files, excluding the output'') else
        (let rel = drop (length base) p; relative = posix rel in
         if hidden rel then Inl (ValueError ''Hidden files need explicit publication review'')
         else if relative \<in> fst ` set paths then Inl (ValueError ''Overlapping evidence selections'')
         else Inr (paths @ [(relative, p)])))))"

definition pack_selection :: "fs \<Rightarrow> path \<Rightarrow> path \<Rightarrow> (string \<times> path) list \<times> string list \<Rightarrow> string \<Rightarrow>
    ((string \<times> path) list \<times> string list) res" where
  "pack_selection f base output st name =
     (let (paths, missing) = st; source = joinp base name in
      bindE (safe_path (JStr name)) (\<lambda>_.
      if \<exists>k \<in> set [length base..<Suc (length source)]. is_symlink f (take k source)
      then Inl (ValueError ''Evidence symlinks are unsupported'')
      else if \<not> path_exists f source then Inr (paths, missing @ [name])
      else bindE (foldE (pack_file f base output) paths
             (if is_file f source then [source] else map (\<lambda>q. source @ q) (rglob f source))) (\<lambda>paths'.
           Inr (paths', missing))))"

definition read_entry :: "fs \<Rightarrow> string \<times> path \<Rightarrow> (string \<times> nat \<times> string) res" where
  "read_entry f e = (case e of (name, p) \<Rightarrow> (case stat f p of
      Some (NFile s m) \<Rightarrow> Inr (name, m, s) | _ \<Rightarrow> Inl (OSError (path_name p))))"

definition pack :: "services \<Rightarrow> fs \<Rightarrow> path \<Rightarrow> path \<Rightarrow> string list \<Rightarrow> (json \<times> fs) res" where
  "pack sv f base output selections =
     bindE (resolveE f base) (\<lambda>base'.
     if selections = [] \<or> \<not> distinct selections then Inl (ValueError ''Select distinct evidence paths'') else
     bindE (foldE (pack_selection f base' output) ([], []) selections) (\<lambda>(paths, missing).
     if paths = [] then Inl (ValueError ''No evidence to retain'') else
     bindE (create_bytes f output []) (\<lambda>_.
     bindE (mapE (read_entry f) (sort_key fst paths)) (\<lambda>entries.
     bindE (create_bytes f output (gzip sv (bundle_text sv missing entries))) (\<lambda>f'.
     bindE (verify sv f' output) (\<lambda>result. Inr (result, f')))))))"

section \<open>Extraction\<close>

definition extract_record :: "path \<Rightarrow> fs \<Rightarrow> json \<times> string \<times> string \<Rightarrow> fs res" where
  "extract_record output f r = (case r of (record, name, data) \<Rightarrow>
     (let target = joinp output name in
      bindE (mkdir_p f (butlast target)) (\<lambda>f1.
      bindE (create_bytes f1 target data) (\<lambda>f2.
      bindE (item record ''mode'') (\<lambda>mode. (case mode of JInt m \<Rightarrow> chmod f2 target (nat m) | _ \<Rightarrow> Inl TypeError))))))"

definition extract_bundle :: "services \<Rightarrow> fs \<Rightarrow> path \<Rightarrow> path \<Rightarrow> (json \<times> fs) res" where
  "extract_bundle sv f bundle output =
     bindE (verify sv f bundle) (\<lambda>result.
     bindE (mkdir_new f output) (\<lambda>f1.
     bindE (bindE (read_bytes f1 bundle) (records sv)) (\<lambda>out.
     bindE (foldE (extract_record output) f1 out) (\<lambda>f2. Inr (result, f2)))))"

datatype evidence_command = Pack path path "string list" | Verify path | Extract path path

definition evidence_main :: "services \<Rightarrow> fs \<Rightarrow> evidence_command \<Rightarrow> (string \<times> fs) res" where
  "evidence_main sv f cmd =
     bindE (case cmd of
        Pack base output paths \<Rightarrow> pack sv f base output paths
      | Verify bundle \<Rightarrow> bindE (verify sv f bundle) (\<lambda>r. Inr (r, f))
      | Extract bundle output \<Rightarrow> extract_bundle sv f bundle output) (\<lambda>(result, f').
     bindE (dumps (\<lambda>q. []) pretty_opts result) (\<lambda>text. Inr (text, f')))"

section \<open>Names\<close>

lemma safe_pathE_iff: "safe_path v = Inr s \<longleftrightarrow> v = JStr s \<and> evidence_safe s"
  by (auto simp: safe_path_def split: json.splits)

lemma safe_parts:
  assumes "evidence_safe s"
  shows "pure_parts s = split_chr (CHR ''/'') s" "list_all plain_name (pure_parts s)" "pure_parts s \<noteq> []"
proof -
  have "filter (\<lambda>c. c \<noteq> [] \<and> c \<noteq> ''.'') (split_chr (CHR ''/'') s) = split_chr (CHR ''/'') s"
    by (rule filter_True) (use assms in \<open>auto simp: evidence_safe_def\<close>)
  then show p: "pure_parts s = split_chr (CHR ''/'') s" by (simp add: pure_parts_def)
  show "list_all plain_name (pure_parts s)" "pure_parts s \<noteq> []"
    using assms by (auto simp: p evidence_safe_def list_all_iff plain_name_def)
qed

lemma joinp_safe: "evidence_safe s \<Longrightarrow> joinp p s = p @ pure_parts s"
  by (simp add: joinp_def evidence_safe_def)

lemma sort_file_record:
  "sort_json (file_record sv (name, mode, data)) = JDict [(''base64'', JStr (b64encode data)),
     (''bytes'', JInt (int (length data))), (''mode'', JInt (int (mode mod 512))), (''path'', JStr name),
     (''sha256'', JStr (sha sv data))]"
  by (simp add: file_record_def)

lemma sort_header_record:
  "sort_json (header_record n missing) = JDict [(''files'', JInt (int n)), (''format'', JStr ''typerb-evidence-jsonl''),
     (''missing'', JList (map JStr (sort missing))), (''schemaVersion'', JInt 1)]"
  by (simp add: header_record_def)

section \<open>The round trip\<close>

definition entries_ok :: "string list \<Rightarrow> (string \<times> nat \<times> string) list \<Rightarrow> bool" where
  "entries_ok missing files = (files \<noteq> [] \<and> distinct (map fst files) \<and> distinct missing \<and>
     list_all evidence_safe missing \<and> list_all (evidence_safe \<circ> fst) files \<and>
     (\<forall>n \<in> fst ` set files. (\<forall>p \<in> set missing. n \<noteq> p \<and> \<not> startswith n (p @ ''/'')) \<and>
        (\<forall>q \<in> set (parents_of n). q \<notin> fst ` set files)))"

definition entry_out :: "services \<Rightarrow> string \<times> nat \<times> string \<Rightarrow> json \<times> string \<times> string" where
  "entry_out sv e = (sort_json (file_record sv e), fst e, snd (snd e))"

lemma entry_out_simps [simp]: "fst (snd (entry_out sv e)) = fst e" "snd (snd (entry_out sv e)) = snd (snd e)"
  by (simp_all add: entry_out_def)

lemma line_values: "line_value (sort_json (file_record sv e))" "line_value (sort_json (header_record n missing))"
proof -
  show "line_value (sort_json (file_record sv e))"
    by (cases e) (simp only: sort_file_record, simp add: line_value_def)
  show "line_value (sort_json (header_record n missing))"
    unfolding sort_header_record by (simp add: line_value_def list_all_iff)
qed

lemma read_line:
  assumes "is_hex 64 (sha sv data)" "evidence_safe name" "name \<notin> set seen"
    and "\<forall>p \<in> set missing. name \<noteq> p \<and> \<not> startswith name (p @ ''/'')"
  shows "read_record sv missing seen (json_line_text (sort_json (file_record sv (name, mode, data))) @ [NL]) =
     Inr (entry_out sv (name, mode, data))"
proof -
  let ?r = "sort_json (file_record sv (name, mode, data))"
  have l: "loads (json_line_text ?r @ [NL]) = Inr ?r" by (rule json_lines.dec_line [OF line_values(1)])
  have k: "keys_are ?r [''path'', ''mode'', ''bytes'', ''sha256'', ''base64''] = Inr True"
    unfolding sort_file_record by auto
  have i: "item ?r ''path'' = Inr (JStr name)" "item ?r ''mode'' = Inr (JInt (int (mode mod 512)))"
    "item ?r ''bytes'' = Inr (JInt (int (length data)))" "item ?r ''sha256'' = Inr (JStr (sha sv data))"
    "item ?r ''base64'' = Inr (JStr (b64encode data))"
    unfolding sort_file_record by simp_all
  have "mode mod 512 < 512" by simp
  then have "mode mod 512 < 511 \<or> mode mod 512 = 511" by linarith
  then have b: "(mode mod 512 < 511 \<or> mode mod 512 = 511) = True" by (rule eqTrueI)
  have b0: "(0 < mode mod 512 \<or> mode mod 512 = 0) = True" by (rule eqTrueI) linarith
  have "metadata_ok ?r name seen = Inr True"
    using assms b b0 by (simp add: metadata_ok_def i leE_def fle_def)
  moreover have "safe_path (JStr name) = Inr name" using assms by (simp add: safe_path_def)
  ultimately show ?thesis
    using assms by (simp add: read_record_def l k i b64E_def base64.dec_enc entry_out_def Bex_def)
qed

lemma read_record_lines:
  assumes "\<forall>d. is_hex 64 (sha sv d)" "list_all (evidence_safe \<circ> fst) files" "distinct (map (fst \<circ> snd) out @ map fst files)"
    and "\<forall>n \<in> fst ` set files. \<forall>p \<in> set missing. n \<noteq> p \<and> \<not> startswith n (p @ ''/'')"
  shows "foldE (record_step sv missing) out
     (map (\<lambda>e. json_line_text (sort_json (file_record sv e)) @ [NL]) files) = Inr (out @ map (entry_out sv) files)"
  using assms
proof (induction files arbitrary: out)
  case (Cons e files)
  obtain n m d where e: "e = (n, m, d)" by (cases e)
  have "record_step sv missing out (json_line_text (sort_json (file_record sv e)) @ [NL]) = Inr (out @ [entry_out sv e])"
  proof -
    have "read_record sv missing (map (fst \<circ> snd) out) (json_line_text (sort_json (file_record sv (n, m, d))) @ [NL]) =
        Inr (entry_out sv (n, m, d))"
    proof (rule read_line)
      show "n \<notin> set (map (fst \<circ> snd) out)" using Cons.prems(3) e by auto
      show "\<forall>p \<in> set missing. n \<noteq> p \<and> \<not> startswith n (p @ ''/'')" using Cons.prems(4) e by simp
    qed (use Cons.prems(1,2) e in simp_all)
    then show ?thesis unfolding record_step_def e by (simp only: bindE_simps)
  qed
  moreover have "foldE (record_step sv missing) (out @ [entry_out sv e])
      (map (\<lambda>e. json_line_text (sort_json (file_record sv e)) @ [NL]) files) =
      Inr ((out @ [entry_out sv e]) @ map (entry_out sv) files)"
    by (rule Cons.IH) (use Cons.prems in \<open>auto simp: entry_out_def\<close>)
  ultimately show ?case by simp
qed simp

lemma records_of_bundle:
  assumes "\<forall>t. gunzip sv (gzip sv t) = Inr t" "\<forall>d. is_hex 64 (sha sv d)" "entries_ok missing files"
  shows "records sv (gzip sv (bundle_text sv missing files)) = Inr (map (entry_out sv) files)"
proof -
  let ?h = "sort_json (header_record (length files) missing)"
  let ?ls = "map (\<lambda>e. json_line_text (sort_json (file_record sv e)) @ [NL]) files"
  have "stream_lines (json_lines.write_lines (?h # map (sort_json \<circ> file_record sv) files)) =
      map (\<lambda>v. json_line_text v @ [NL]) (?h # map (sort_json \<circ> file_record sv) files)"
    by (rule json_lines.lines_written) (simp add: line_values list_all_iff)
  then have lines: "stream_lines (bundle_text sv missing files) = (json_line_text ?h @ [NL]) # ?ls"
    by (simp add: json_lines.write_lines_def bundle_text_def line_def comp_def)
  have h: "loads (json_line_text ?h @ [NL]) = Inr ?h" by (rule json_lines.dec_line [OF line_values(2)])
  have i: "item ?h ''missing'' = Inr (JList (map JStr (sort missing)))" "item ?h ''files'' = Inr (JInt (int (length files)))"
    "item ?h ''format'' = Inr (JStr ''typerb-evidence-jsonl'')" "item ?h ''schemaVersion'' = Inr (JInt 1)"
    unfolding sort_header_record by simp_all
  have k: "keys_are ?h [''format'', ''schemaVersion'', ''files'', ''missing''] = Inr True"
    unfolding sort_header_record by auto
  have "0 < length files" using assms(3) by (simp add: entries_ok_def)
  then have head: "evidence_header ?h = Inr True"
    by (simp add: evidence_header_def k i leE_def fle_def)
  have m: "mapE safe_path (map JStr ms) = Inr ms" if "list_all evidence_safe ms" for ms
    using that by (induction ms) (auto simp: safe_path_def)
  have ms: "mapE safe_path (map JStr (sort missing)) = Inr (sort missing)"
    by (rule m) (use assms(3) in \<open>simp add: entries_ok_def list_all_iff\<close>)
  have f: "foldE (record_step sv (sort missing)) [] ?ls = Inr (map (entry_out sv) files)"
    using read_record_lines [of sv files "[]" "sort missing"] assms(2,3) by (simp add: entries_ok_def)
  have n: "map (fst \<circ> snd) (map (entry_out sv) files) = map fst files"
    by (simp add: entry_out_def)
  show ?thesis
    using assms(1,3)
    by (auto simp: records_def lines h head i ms f n entries_ok_def)
qed

text \<open>C2. Reading a packed bundle gives back exactly the files that were packed, each with its name,
  mode, size and digest and with the bytes it had, in the same order, whenever the names are safe,
  distinct and conflict neither with each other's directories nor with the missing paths.\<close>

theorem bundle_roundtrip:
  assumes "\<forall>t. gunzip sv (gzip sv t) = Inr t" "\<forall>d. is_hex 64 (sha sv d)" "entries_ok missing files"
  shows "records sv (gzip sv (bundle_text sv missing files)) = Inr (map (entry_out sv) files)"
  by (rule records_of_bundle [OF assms])

definition demo_services :: services where
  "demo_services = \<lparr>gzip = rev, gunzip = (\<lambda>t. Inr (rev t)), sha = (\<lambda>d. replicate 64 (CHR ''0''))\<rparr>"

definition demo_entries :: "(string \<times> nat \<times> string) list" where
  "demo_entries = [(''a/b'', 420, ''x''), (''d'', 493, [])]"

lemma demo_entries_ok: "entries_ok [''c''] demo_entries"
  by code_simp

lemma demo_services_ok:
  "\<forall>t. gunzip demo_services (gzip demo_services t) = Inr t" "\<forall>d. is_hex 64 (sha demo_services d)"
  by (simp_all add: demo_services_def is_hex_def list_all_iff in_cls_def hex_cls_def)

lemma bundle_roundtrip_witness:
  "records demo_services (gzip demo_services (bundle_text demo_services [''c''] demo_entries)) =
     Inr (map (entry_out demo_services) demo_entries)"
  by (rule bundle_roundtrip [OF demo_services_ok demo_entries_ok])

section \<open>What a readable bundle guarantees\<close>

definition out_ok :: "services \<Rightarrow> (json \<times> string \<times> string) list \<Rightarrow> bool" where
  "out_ok sv out = (distinct (map (fst \<circ> snd) out) \<and>
     (\<forall>(r, n, d) \<in> set out. evidence_safe n \<and> item r ''path'' = Inr (JStr n) \<and>
        item r ''bytes'' = Inr (JInt (int (length d))) \<and> item r ''sha256'' = Inr (JStr (sha sv d)) \<and>
        (\<exists>m. item r ''mode'' = Inr (JInt m) \<and> 0 \<le> m \<and> m \<le> 511)))"

lemma read_record_ok:
  assumes "read_record sv missing seen raw = Inr (r, n, d)"
  shows "evidence_safe n \<and> n \<notin> set seen \<and> item r ''path'' = Inr (JStr n) \<and>
     item r ''bytes'' = Inr (JInt (int (length d))) \<and> item r ''sha256'' = Inr (JStr (sha sv d)) \<and>
     (\<exists>m. item r ''mode'' = Inr (JInt m) \<and> 0 \<le> m \<and> m \<le> 511)"
proof -
  from assms obtain p b s where p: "item r ''path'' = Inr p" "safe_path p = Inr n"
    and m: "metadata_ok r n seen = Inr True"
    and b: "item r ''bytes'' = Inr b" "jeq b (JInt (int (length d)))"
    and s: "item r ''sha256'' = Inr s" "jeq s (JStr (sha sv d))"
    unfolding read_record_def by (auto simp: bindE_Inr_iff raise_if_iff orE_iff notE_iff split: if_splits)
  obtain t where mode: "item r ''mode'' = Inr t"
    using m by (cases "item r ''mode''"; cases "n \<in> set seen") (simp_all add: metadata_ok_def)
  from m have t: "n \<notin> set seen" "type_is_int b" "item r ''mode'' = Inr t" "type_is_int t"
    "leE (JInt 0) t = Inr True" "leE t (JInt 511) = Inr True"
    unfolding metadata_ok_def mode b(1) bindE_simps notE_iff not_True_eq_False orE_iff not_False_eq_True andE_iff
    by (simp_all add: mode)
  then obtain i j where "t = JInt i" "b = JInt j" by (auto simp: type_is_int_iff)
  moreover from this t have "0 \<le> i" "i \<le> 511" by (auto simp: leE_def fle_def)
  ultimately show ?thesis using p b s t by (auto simp: safe_pathE_iff)
qed

lemma records_ok_fold:
  assumes "foldE (record_step sv missing) [] rest = Inr out"
  shows "out_ok sv out"
proof (rule foldE_invariant [where P = "out_ok sv", OF assms])
  fix u x v
  assume u: "out_ok sv u" and step: "record_step sv missing u x = Inr v"
  then obtain r n d where "read_record sv missing (map (fst \<circ> snd) u) x = Inr (r, n, d)" "v = u @ [(r, n, d)]"
    by (auto simp: record_step_def bindE_Inr_iff)
  then show "out_ok sv v" using u read_record_ok [of sv missing "map (fst \<circ> snd) u" x r n d]
    by (auto simp: out_ok_def)
qed (simp add: out_ok_def)

lemma records_ok:
  assumes "records sv bundle = Inr out"
  shows "out_ok sv out \<and> (\<forall>(r, n, d) \<in> set out. \<forall>q \<in> set (parents_of n). q \<notin> fst ` snd ` set out)"
proof -
  from assms obtain t where t: "gunzip sv bundle = Inr t" by (auto simp: records_def bindE_Inr_iff)
  with assms obtain first rest where ls: "stream_lines t = first # rest"
    by (cases "stream_lines t") (auto simp: records_def)
  from assms obtain missing where
    "foldE (record_step sv missing) [] rest = Inr out"
    "\<not> (\<exists>name \<in> set (map (fst \<circ> snd) out). \<exists>parent \<in> set (parents_of name). parent \<in> set (map (fst \<circ> snd) out))"
    unfolding records_def t bindE_simps ls list.case Let_def
    by (auto simp: bindE_Inr_iff raise_if_iff split: if_splits)
  then show ?thesis using records_ok_fold by (force simp: image_image)
qed

text \<open>C7. Whatever the bytes of a bundle are, if reading it succeeds then every recorded path is
  relative and free of empty, dot and dot-dot components, backslashes and NUL, the paths are
  distinct, none is a directory of another, every mode has only permission bits, and the size and
  SHA-256 of every file are the recorded ones.\<close>

theorem records_safe:
  assumes "records sv bundle = Inr out"
  shows "out_ok sv out \<and> (\<forall>(r, n, d) \<in> set out. \<forall>q \<in> set (parents_of n). q \<notin> fst ` snd ` set out)"
  by (rule records_ok [OF assms])

lemma records_safe_witness: "out_ok demo_services (map (entry_out demo_services) demo_entries)"
  using records_safe [OF records_of_bundle [OF demo_services_ok demo_entries_ok]] by blast

section \<open>Extraction stays inside its directory\<close>

text \<open>The state of an extraction after some records.\<close>

definition extracted :: "fs \<Rightarrow> path \<Rightarrow> (json \<times> string \<times> string) list \<Rightarrow> fs \<Rightarrow> bool" where
  "extracted f0 output done f = (no_links f \<and> (\<forall>p. prefix p output \<longrightarrow> look f p = Some NDir) \<and>
     (\<forall>p. \<not> prefix output p \<longrightarrow> look f p = look f0 p) \<and>
     (\<forall>(r, n, d) \<in> set done. \<exists>m. look f (output @ pure_parts n) = Some (NFile d m)))"

lemma safe_parts_inject: "evidence_safe a \<Longrightarrow> evidence_safe b \<Longrightarrow> pure_parts a = pure_parts b \<longleftrightarrow> a = b"
  by (metis safe_parts(1) join_split_chr)

lemma extract_record_step:
  assumes ex: "extracted f0 output done f" and plain: "list_all plain_name output"
    and step: "extract_record output f (r, n, d) = Inr g" and n: "evidence_safe n"
    and fresh: "n \<notin> fst ` snd ` set done" and safe: "\<forall>x \<in> set done. evidence_safe (fst (snd x))"
  shows "extracted f0 output (done @ [(r, n, d)]) g"
proof -
  let ?t = "output @ pure_parts n"
  have pn: "list_all plain_name (pure_parts n)" "pure_parts n \<noteq> []" using safe_parts [OF n] by simp_all
  have t: "list_all plain_name ?t" "?t \<noteq> []" "list_all plain_name (butlast ?t)" "joinp output n = ?t"
    using plain pn joinp_safe [OF n] list_all_butlast [of plain_name ?t] by simp_all
  have nl: "no_links f" using ex by (simp add: extracted_def)
  from step obtain f1 f2 mode where f1: "mkdir_p f (butlast ?t) = Inr f1" and f2: "create_bytes f1 ?t d = Inr f2"
    and "(case mode of JInt m \<Rightarrow> chmod f2 ?t (nat m) | _ \<Rightarrow> Inl TypeError) = Inr g"
    by (auto simp: extract_record_def t(4) Let_def bindE_Inr_iff)
  then obtain m where g: "chmod f2 ?t (nat m) = Inr g" by (cases mode) auto
  have m1: "mkdirs f [] (butlast ?t) = Inr f1" using f1 mkdir_p_plain [OF nl t(3)] by simp
  have nl1: "no_links f1" by (rule no_links_mkdirs [OF m1 nl])
  from create_bytes_plain [OF nl1 t(1,2) f2] have c: "f2 = fs_put f1 ?t (NFile d 420)" "look f1 ?t = None" "no_links f2"
    by simp_all
  from chmod_plain [OF c(3) t(1,2) g] obtain s k where "look f2 ?t = Some (NFile s k)" "g = fs_put f2 ?t (NFile s (nat m))"
    by blast
  then have g': "g = fs_put f2 ?t (NFile d (nat m))" using c(1) t(2) by (simp add: look_fs_put)
  have lg: "look g p = (if p = ?t then Some (NFile d (nat m)) else look f1 p)" for p
    using t(2) by (simp add: g' c(1) look_fs_put)
  have l1: "look f p \<noteq> None \<Longrightarrow> look f1 p = look f p" for p using mkdirs_look [OF m1, of p] by simp
  have nlg: "no_links g" using no_links_fs_put [OF c(3) _ t(2)] g' by simp
  have "look g p = Some NDir" if p: "prefix p output" for p
  proof -
    have "length p \<le> length output" using p by (rule prefix_length_le)
    then have "p \<noteq> ?t" using pn(2) by auto
    moreover have "look f p = Some NDir" using ex p by (simp add: extracted_def)
    ultimately show ?thesis using l1 [of p] by (simp add: lg)
  qed
  moreover have "look g p = look f0 p" if p: "\<not> prefix output p" for p
  proof -
    have "look f1 p = look f p"
    proof (cases "look f p")
      case None
      have "\<not> prefix p (butlast ?t)"
      proof
        assume a: "prefix p (butlast ?t)"
        then have "prefix p (output @ pure_parts n)" using prefix_order.trans prefixeq_butlast by blast
        then have "prefix p output" using p by (auto simp: prefix_append)
        then show False using ex None by (simp add: extracted_def)
      qed
      then show ?thesis using mkdirs_look [OF m1, of p] by simp
    next
      case (Some nd)
      with l1 show ?thesis by simp
    qed
    moreover have "p \<noteq> ?t" using p by auto
    ultimately show ?thesis using ex p by (simp add: lg extracted_def)
  qed
  moreover have "\<exists>k. look g (output @ pure_parts n') = Some (NFile d' k)"
    if "(r', n', d') \<in> set done" for r' n' d'
  proof -
    from that ex obtain k where k: "look f (output @ pure_parts n') = Some (NFile d' k)" by (auto simp: extracted_def)
    then have "look f1 (output @ pure_parts n') = Some (NFile d' k)" using l1 by simp
    moreover have "pure_parts n' \<noteq> pure_parts n" using safe_parts_inject [of n' n] n that fresh safe by force
    ultimately show ?thesis by (simp add: lg)
  qed
  ultimately show ?thesis using nlg by (auto simp: extracted_def lg)
qed

lemma extract_fold:
  assumes "foldE (extract_record output) f1 out = Inr f2" "out_ok sv out" "list_all plain_name output"
    and "extracted f0 output [] f1"
  shows "extracted f0 output out f2"
proof -
  have "set pre \<subseteq> set out \<Longrightarrow> distinct (map (fst \<circ> snd) pre) \<Longrightarrow> foldE (extract_record output) f1 pre = Inr g \<Longrightarrow>
      extracted f0 output pre g" for pre g
  proof (induction pre arbitrary: g rule: rev_induct)
    case (snoc x pre)
    obtain r n d where x: "x = (r, n, d)" by (cases x)
    from snoc.prems(3) obtain f where f: "foldE (extract_record output) f1 pre = Inr f" "extract_record output f x = Inr g"
      by (auto simp: foldE_append bindE_Inr_iff)
    have safe: "\<forall>x \<in> set pre. evidence_safe (fst (snd x))" "evidence_safe n"
      using assms(2) snoc.prems(1) x by (fastforce simp: out_ok_def)+
    have "n \<notin> fst ` snd ` set pre" using snoc.prems(2) x by (auto simp: image_image)
    with extract_record_step [OF snoc.IH [OF _ _ f(1)] assms(3)] f(2) x safe snoc.prems(1,2)
    show ?case by auto
  qed (use assms(4) in simp)
  with assms(1,2) show ?thesis by (simp add: out_ok_def)
qed

text \<open>C1. Extraction writes nothing outside its output directory and writes every file of the bundle:
  in a file system without links, after a successful extraction every path that is not below the
  output is as it was, and every recorded path below the output holds the recorded bytes.\<close>

theorem extract_confined:
  assumes "no_links f" "is_tree f" "list_all plain_name output" "output \<noteq> []"
    and "extract_bundle sv f bundle output = Inr (result, g)"
  shows "(\<forall>p. \<not> prefix output p \<longrightarrow> look g p = look f p) \<and>
     (\<exists>b out. read_bytes f bundle = Inr b \<and> records sv b = Inr out \<and>
        (\<forall>(r, n, d) \<in> set out. read_bytes g (output @ pure_parts n) = Inr d))"
proof -
  from assms(5) obtain f1 b out b0 where f1: "mkdir_new f output = Inr f1" and b: "read_bytes f1 bundle = Inr b"
    and out: "records sv b = Inr out" and fold: "foldE (extract_record output) f1 out = Inr g"
    and b0: "read_bytes f bundle = Inr b0"
    by (auto simp: extract_bundle_def verify_def bindE_Inr_iff)
  from mkdir_new_plain [OF assms(1,3,4) f1] have l: "f1 = fs_put f output NDir" "look f output = None"
    "look f (butlast output) = Some NDir" by simp_all
  have nl: "no_links f1" using l(1) assms(1,4) by (simp add: no_links_fs_put)
  have "look f1 p = Some NDir" if "prefix p output" for p
  proof (cases "p = output")
    case False
    then have "prefix p (butlast output)" using that assms(4)
      by (metis append_butlast_last_id prefix_snoc)
    from is_tree_prefix [OF assms(2) l(3) this] show ?thesis using False assms(4) by (simp add: l(1) look_fs_put)
  qed (use assms(4) in \<open>simp add: l(1) look_fs_put\<close>)
  then have "extracted f output [] f1"
    using nl assms(4) by (auto simp: extracted_def l(1) look_fs_put)
  moreover have ok: "out_ok sv out" using records_ok [OF out] by simp
  ultimately have e: "extracted f output out g" using extract_fold [OF fold _ assms(3)] by blast
  have "read_bytes g (output @ pure_parts n) = Inr d" if "(r, n, d) \<in> set out" for r n d
  proof -
    have "evidence_safe n" using ok that by (auto simp: out_ok_def)
    then have "list_all plain_name (output @ pure_parts n)" using assms(3) safe_parts(2) by simp
    then have "stat g (output @ pure_parts n) = look g (output @ pure_parts n)"
      using e by (simp add: stat_plain extracted_def)
    with e that show ?thesis by (auto simp: extracted_def read_bytes_def)
  qed
  moreover have "b = b0"
  proof -
    from b0 obtain q m where q: "real_path f bundle = Some q" "look f q = Some (NFile b0 m)"
      by (auto simp: read_bytes_def stat_def split: option.splits node.splits)
    then have "real_path f1 bundle = Some q" using real_path_no_links [OF nl assms(1)] by simp
    moreover have "look f1 q = Some (NFile b0 m)" using q(2) l(2) assms(4) by (auto simp: l(1) look_fs_put)
    ultimately show ?thesis using b by (simp add: read_bytes_def stat_def)
  qed
  ultimately show ?thesis using e b0 out by (auto simp: extracted_def)
qed

definition demo_disk :: fs where
  "demo_disk = [([''b''], NFile (gzip demo_services (bundle_text demo_services [''c''] demo_entries)) 420)]"

lemma extract_confined_witness:
  "\<exists>result g. extract_bundle demo_services demo_disk [''b''] [''out''] = Inr (result, g) \<and>
     look g [''b''] = look demo_disk [''b''] \<and> look g [''c''] = None"
proof -
  have d: "no_links demo_disk" "is_tree demo_disk" "list_all plain_name [''out'']"
    by (auto simp: no_links_def is_tree_def demo_disk_def look_def plain_name_def)
  have r: "records demo_services (gzip demo_services (bundle_text demo_services [''c''] demo_entries)) =
      Inr (map (entry_out demo_services) demo_entries)"
    by (rule records_of_bundle [OF demo_services_ok demo_entries_ok])
  have "\<exists>result g. extract_bundle demo_services demo_disk [''b''] [''out''] = Inr (result, g)"
  proof -
    let ?f1 = "fs_put demo_disk [''out''] NDir"
    have b: "read_bytes demo_disk [''b''] = Inr (gzip demo_services (bundle_text demo_services [''c''] demo_entries))"
      "read_bytes ?f1 [''b''] = Inr (gzip demo_services (bundle_text demo_services [''c''] demo_entries))"
      by (simp_all add: demo_disk_def read_bytes_def stat_def real_path_def look_def fs_put_def)
    have m: "mkdir_new demo_disk [''out''] = Inr ?f1"
      by (simp add: mkdir_new_def path_exists_def is_symlink_def is_dir_def stat_def real_path_def demo_disk_def
          look_def resolveE_def path_name_def)
    have "\<exists>g. foldE (extract_record [''out'']) ?f1 (map (entry_out demo_services) demo_entries) = Inr g"
      by (simp add: demo_entries_def entry_out_def sort_file_record extract_record_def joinp_def is_absolute_def
          pure_parts_def mkdir_p_def resolveE_def real_path_def demo_disk_def look_def fs_put_def create_bytes_def
          path_exists_def stat_def is_symlink_def write_bytes_def chmod_def path_name_def)
    then show ?thesis using b m r by (auto simp: extract_bundle_def verify_def verify_bytes_def)
  qed
  then obtain result g where g: "extract_bundle demo_services demo_disk [''b''] [''out''] = Inr (result, g)" by blast
  from extract_confined [OF d _ this] have "look g p = look demo_disk p" if "\<not> prefix [''out''] p" for p
    using that by simp
  then have "look g [''b''] = look demo_disk [''b'']" "look g [''c''] = look demo_disk [''c'']" by simp_all
  moreover have "look demo_disk [''c''] = None" by (simp add: look_def demo_disk_def)
  ultimately show ?thesis using g by auto
qed

end
