(* ===== verification/PyNum.thy ===== *)
theory PyNum
  imports PyJson
begin

text \<open>
  Python's arithmetic on the numbers of JSON documents: integers stay exact, an operation with a
  float converts the other operand and rounds, true division always gives a float.
\<close>

fun as_int :: "json \<Rightarrow> int option" where
  "as_int (JInt i) = Some i"
| "as_int (JBool b) = Some (if b then 1 else 0)"
| "as_int _ = None"

text \<open>\<open>float(x)\<close> of a number: an integer too large for a float raises.\<close>

fun to_float :: "json \<Rightarrow> pyfloat res" where
  "to_float (JFloat f) = Inr f"
| "to_float (JInt i) = (case round64 (of_int i) of Fin q \<Rightarrow> Inr (Fin q) | _ \<Rightarrow> Inl OverflowError)"
| "to_float (JBool b) = Inr (Fin (if b then 1 else 0))"
| "to_float _ = Inl TypeError"

fun fadd :: "pyfloat \<Rightarrow> pyfloat \<Rightarrow> pyfloat" where
  "fadd (Fin a) (Fin b) = round64 (a + b)"
| "fadd PInf (Fin b) = PInf"
| "fadd PInf PInf = PInf"
| "fadd NInf (Fin b) = NInf"
| "fadd NInf NInf = NInf"
| "fadd (Fin a) PInf = PInf"
| "fadd (Fin a) NInf = NInf"
| "fadd _ _ = NaN"

fun fneg :: "pyfloat \<Rightarrow> pyfloat" where
  "fneg (Fin a) = Fin (- a)"
| "fneg PInf = NInf"
| "fneg NInf = PInf"
| "fneg NaN = NaN"

fun fmul :: "pyfloat \<Rightarrow> pyfloat \<Rightarrow> pyfloat" where
  "fmul (Fin a) (Fin b) = round64 (a * b)"
| "fmul NaN _ = NaN"
| "fmul _ NaN = NaN"
| "fmul (Fin a) y = (if a = 0 then NaN else if 0 < a then y else fneg y)"
| "fmul x (Fin b) = (if b = 0 then NaN else if 0 < b then x else fneg x)"
| "fmul x y = (if x = y then PInf else NInf)"

text \<open>Division of floats; a zero divisor raises. A finite value over an infinity is zero.\<close>

fun fdiv :: "pyfloat \<Rightarrow> pyfloat \<Rightarrow> pyfloat res" where
  "fdiv x (Fin b) = (if b = 0 then Inl ZeroDivisionError else Inr (case x of Fin a \<Rightarrow> round64 (a / b)
     | PInf \<Rightarrow> if 0 < b then PInf else NInf | NInf \<Rightarrow> if 0 < b then NInf else PInf | NaN \<Rightarrow> NaN))"
| "fdiv (Fin a) PInf = Inr (Fin 0)"
| "fdiv (Fin a) NInf = Inr (Fin 0)"
| "fdiv _ _ = Inr NaN"

definition arithE :: "(int \<Rightarrow> int \<Rightarrow> json res) \<Rightarrow> (pyfloat \<Rightarrow> pyfloat \<Rightarrow> pyfloat res) \<Rightarrow> json \<Rightarrow> json \<Rightarrow> json res" where
  "arithE fi ff x y = (case (as_int x, as_int y) of
      (Some i, Some j) \<Rightarrow> fi i j
    | _ \<Rightarrow> if num_of x = None \<or> num_of y = None then Inl TypeError
           else bindE (to_float x) (\<lambda>a. bindE (to_float y) (\<lambda>b. bindE (ff a b) (\<lambda>c. Inr (JFloat c)))))"

definition num_addE :: "json \<Rightarrow> json \<Rightarrow> json res" where
  "num_addE x y = arithE (\<lambda>i j. Inr (JInt (i + j))) (\<lambda>a b. Inr (fadd a b)) x y"

definition num_subE :: "json \<Rightarrow> json \<Rightarrow> json res" where
  "num_subE x y = arithE (\<lambda>i j. Inr (JInt (i - j))) (\<lambda>a b. Inr (fadd a (fneg b))) x y"

definition num_mulE :: "json \<Rightarrow> json \<Rightarrow> json res" where
  "num_mulE x y = arithE (\<lambda>i j. Inr (JInt (i * j))) (\<lambda>a b. Inr (fmul a b)) x y"

text \<open>\<open>x / y\<close>: the quotient of two integers is rounded once.\<close>

definition int_quotient :: "int \<Rightarrow> int \<Rightarrow> pyfloat res" where
  "int_quotient i j = (if j = 0 then Inl ZeroDivisionError
     else (case round64 (of_int i / of_int j) of Fin q \<Rightarrow> Inr (Fin q) | _ \<Rightarrow> Inl OverflowError))"

definition num_divE :: "json \<Rightarrow> json \<Rightarrow> json res" where
  "num_divE x y = arithE (\<lambda>i j. bindE (int_quotient i j) (\<lambda>q. Inr (JFloat q))) fdiv x y"

text \<open>\<open>sum(xs)\<close>.\<close>

definition sumE :: "json list \<Rightarrow> json res" where
  "sumE xs = foldE num_addE (JInt 0) xs"

lemma sumE_ints: "sumE (map JInt is) = Inr (JInt (sum_list is))"
proof -
  have "foldE num_addE (JInt k) (map JInt is) = Inr (JInt (k + sum_list is))" for k
    by (induction "is" arbitrary: k) (simp_all add: num_addE_def arithE_def add.assoc)
  from this [of 0] show ?thesis by (simp add: sumE_def)
qed

end
