(* ===== verification/ResultArchive.thy ===== *)
theory ResultArchive
  imports Codec PyPath PyNum "HOL-Library.Product_Lexorder"
begin

text \<open>
  \<open>tools/result_archive.py\<close>: committed result files are packed into a verified archive, replaced
  by a record of it, and the results kept in Git are checked against a budget and a registry.
  git, SHA-1, SHA-256 and the tar format are parameters: \<open>git\<close> runs a read-only command,
  \<open>git_rm\<close> removes files from the work tree, \<open>tar_gz\<close> and \<open>untar_gz\<close> write and read an archive.
\<close>

record member =
  m_name :: string
  m_isfile :: bool
  m_size :: nat
  m_mode :: nat
  m_data :: string

record archive_tools =
  git :: "string list \<Rightarrow> string res"
  git_rm :: "string list \<Rightarrow> fs \<Rightarrow> fs res"
  a_sha1 :: "string \<Rightarrow> string"
  a_sha256 :: "string \<Rightarrow> string"
  tar_gz :: "(string \<times> string \<times> nat) list \<Rightarrow> string"
  untar_gz :: "string \<Rightarrow> member list res"

definition REPOSITORY :: string where
  "REPOSITORY = ''https://github.com/type-rb/type-rb-native''"

definition KEEP_SUFFIXES :: "string list" where
  "KEEP_SUFFIXES = [''.md'', ''.csv'', ''.tsv'', ''.json'', ''.sha256'']"

definition FORBIDDEN_SUFFIXES :: "string list" where
  "FORBIDDEN_SUFFIXES = [''.raw'', ''.stripped'', ''.ssa'', ''.s'', ''.o'', ''.a'', ''.so'',
     ''.dylib'', ''.exe'', ''.zip'', ''.gz'', ''.xz'', ''.zst'',
     ''.stdout'', ''.stderr'', ''.status'', ''.rss-kib'']"

definition ACTIVE_SLOTS :: "string list" where
  "ACTIVE_SLOTS = [''published-runtime'', ''published-build'', ''compatibility'', ''bootstrap-seed'',
     ''target-amd64'', ''persistent-memory'', ''accepted-compiler'',
     ''candidate'', ''comparison-baseline'', ''runtime-investigation'']"

section \<open>The tracked result files\<close>

text \<open>Name, and mode, object and size, of each tracked file below \<open>results\<close>.\<close>

type_synonym entry = "string \<times> string \<times> nat"
type_synonym entries = "(string \<times> entry) list"

definition entry_size :: "entry \<Rightarrow> nat" where "entry_size e = snd (snd e)"
definition entry_oid :: "entry \<Rightarrow> string" where "entry_oid e = fst (snd e)"

definition parse_size :: "string \<Rightarrow> nat res" where
  "parse_size s = (if s \<noteq> [] \<and> list_all is_digit s then Inr (nat_of_digits s) else Inl (ValueError ''invalid literal for int()''))"

definition tree_row :: "string \<Rightarrow> (string \<times> entry) res" where
  "tree_row row = (case partition_str [TAB] row of
      None \<Rightarrow> Inl (ValueError ''not enough values to unpack'')
    | Some (meta, name) \<Rightarrow> (case split_ws meta of
        [mode, kind, oid, sz] \<Rightarrow>
          if kind \<noteq> ''blob'' \<or> mode \<notin> {''100644'', ''100755''}
          then Inl (ValueError ''Evidence must contain only regular Git files'')
          else bindE (parse_size sz) (\<lambda>n. Inr (name, mode, oid, n))
      | _ \<Rightarrow> Inl (ValueError ''values to unpack'')))"

definition tree :: "archive_tools \<Rightarrow> string \<Rightarrow> entries res" where
  "tree t revision =
     bindE (git t [''ls-tree'', ''-rlz'', revision, ''--'', ''results'']) (\<lambda>out.
     foldE (\<lambda>d row. if row = [] then Inr d else bindE (tree_row row) (\<lambda>(n, e). Inr (AList.update n e d)))
       [] (split_chr NUL out))"

definition parts_of :: "string \<Rightarrow> string list" where
  "parts_of p = split_chr (CHR ''/'') p"

text \<open>\<open>p.split('/')[1]\<close>.\<close>

definition result_of :: "string \<Rightarrow> string res" where
  "result_of p = (case parts_of p of a # b # _ \<Rightarrow> Inr b | _ \<Rightarrow> Inl IndexError)"

text \<open>The result directories: second components of the paths with at least three.\<close>

definition result_dirs :: "entries \<Rightarrow> string list" where
  "result_dirs entries = remdups (map (\<lambda>p. parts_of p ! 1) (filter (\<lambda>p. 3 \<le> length (parts_of p)) (map fst entries)))"

section \<open>The registry of active results\<close>

definition directory_rx :: rx where
  "directory_rx = Seq (Cls (lower_cls @ digit_cls)) (rplus (Cls (lower_cls @ digit_cls @ one_cls (CHR ''-''))))"

definition blankE :: "json \<Rightarrow> string \<Rightarrow> bool res" where
  "blankE it k = bindE (item it k) (\<lambda>v. Inr (case v of JStr s \<Rightarrow> strip s = [] | _ \<Rightarrow> True))"

text \<open>One item of the registry; the state holds the slots and directories taken before.\<close>

definition registry_item :: "entries \<Rightarrow> json list \<times> string list \<Rightarrow> json \<Rightarrow> (json list \<times> string list) res" where
  "registry_item entries st it = (let (slots, directories) = st in
     raise_if (orE (notE (keys_are it [''slot'', ''directory'', ''reason'', ''retireWhen'']))
       (orE (bindE (item it ''slot'') (\<lambda>s. notE (in_setE s ACTIVE_SLOTS)))
       (orE (bindE (item it ''slot'') (\<lambda>s. Inr (jmem s slots)))
       (orE (bindE (item it ''directory'') (\<lambda>d. notE (fullmatchE directory_rx d)))
       (orE (bindE (item it ''directory'') (\<lambda>d. Inr (jmem d (map JStr directories))))
            (anyE (blankE it) [''reason'', ''retireWhen'']))))))
       (ValueError ''Invalid, duplicated or unexplained active result'') (
     bindE (item it ''slot'') (\<lambda>slot. bindE (item it ''directory'') (\<lambda>d. (case d of
        JStr dir \<Rightarrow>
          if ''results/'' @ dir @ ''/README.md'' \<notin> set (map fst entries)
          then Inl (ValueError ''Active result needs a retained README'')
          else Inr (slots @ [slot], directories @ [dir])
      | _ \<Rightarrow> Inl TypeError)))))"

definition registry_errors :: "archive_tools \<Rightarrow> entries \<Rightarrow> string list res" where
  "registry_errors t entries =
     (case map_of entries ''results/active.json'' of None \<Rightarrow> Inl (KeyError ''results/active.json'') | Some r \<Rightarrow>
     bindE (git t [''cat-file'', ''blob'', entry_oid r]) (\<lambda>blob. bindE (loads blob) (\<lambda>manifest.
     raise_if (orE (notE (keys_are manifest [''schemaVersion'', ''entries'']))
         (bindE (item manifest ''schemaVersion'') (\<lambda>v. Inr (\<not> jeq v (JInt 1)))))
       (ValueError ''Invalid active result registry'') (
     bindE (bindE (item manifest ''entries'') iterE) (\<lambda>items.
     bindE (foldE (registry_item entries) ([], []) items) (\<lambda>(slots, directories).
     Inr ((if set (result_dirs entries) \<noteq> set directories
           then [''Every result directory must occupy one active slot; remove superseded directories''] else []) @
          (if list_ex (\<lambda>p. length (parts_of p) = 2 \<and> p \<notin> {''results/README.md'', ''results/active.json''}) (map fst entries)
           then [''Unregistered top-level result file''] else []))))))))"

definition caught :: "pyerr \<Rightarrow> bool" where
  "caught e = (is_KeyError e \<or> e = TypeError \<or> is_ValueError e)"

definition lifecycle_errors :: "archive_tools \<Rightarrow> entries \<Rightarrow> string list res" where
  "lifecycle_errors t entries =
     bindE (catchE (registry_errors t entries) caught
        (\<lambda>e. Inr [''Missing or invalid results/active.json lifecycle registry''])) (\<lambda>es.
     Inr ((if 512 < length entries \<or> 4 * 1024 ^ 2 < sum_list (map (entry_size \<circ> snd) entries)
           then [''Active results exceed the global 512-file / 4 MiB budget''] else []) @ es))"

section \<open>References to results\<close>

definition reference_rx :: rx where
  "reference_rx = seqs [ropt (seqs [lit ''https://github.com/type-rb/type-rb-native/'', Alt (lit ''blob'') (lit ''tree''), lit ''/'',
       Grp 1 (between 7 40 (Cls [(CHR ''a'', CHR ''f''), (CHR ''0'', CHR ''9'')])), lit ''/'']),
     lit ''results/'', Grp 2 (seqs [Rep 4 (Cls digit_cls), lit ''-'',
       rplus (Cls (upper_cls @ lower_cls @ digit_cls @ chr_cls ''_-''))])]"

definition group_of :: "nat \<Rightarrow> (nat \<times> string) list \<Rightarrow> string" where
  "group_of g gs = (case grp g gs of None \<Rightarrow> [] | Some w \<Rightarrow> w)"

definition SOURCE_SUFFIXES :: "string list" where
  "SOURCE_SUFFIXES = [''.md'', ''.js'', ''.mjs'', ''.json'', ''.jsonc'', ''.py'',
     ''.trb'', ''.sh'', ''.yml'', ''.yaml'', ''.html'', ''.toml'']"

definition reference_error :: "archive_tools \<Rightarrow> string list \<Rightarrow> string \<times> string \<Rightarrow> string list res" where
  "reference_error t directories r = (case r of (pinned, directory) \<Rightarrow>
     if pinned \<noteq> [] then
       (case git t [''cat-file'', ''-e'', pinned @ '':results/'' @ directory] of
          Inl (SubprocessError c) \<Rightarrow> Inr [''Historical result reference is unavailable: '' @ pinned @ ''/'' @ directory]
        | Inl e \<Rightarrow> Inl e
        | Inr _ \<Rightarrow> Inr [])
     else if directory \<notin> set directories
     then Inr [''Retired result reference must use an exact historical revision: '' @ directory]
     else Inr [])"

definition result_reference_errors :: "archive_tools \<Rightarrow> string \<Rightarrow> entries \<Rightarrow> string list res" where
  "result_reference_errors t revision entries =
     bindE (git t [''ls-tree'', ''-rz'', ''--name-only'', revision]) (\<lambda>names.
     (let sources = filter (\<lambda>p. pure_suffix p \<in> set SOURCE_SUFFIXES) (split_chr NUL names) in
      if sources = [] then Inr [] else
      (case git t ([''grep'', ''-I'', ''-h'', ''-E'', ''results/[0-9]{4}-'', revision, ''--''] @ sources) of
         Inl (SubprocessError c) \<Rightarrow> if c = 1 then Inr [] else Inl (SubprocessError c)
       | Inl e \<Rightarrow> Inl e
       | Inr ls \<Rightarrow>
          bindE (mapE (reference_error t (result_dirs entries))
             (sort (remdups (map (\<lambda>(m, gs). (group_of 1 gs, group_of 2 gs)) (finditer reference_rx ls))))) (\<lambda>ess.
          Inr (concat ess)))))"

section \<open>Packing\<close>

definition archive_path :: "string \<Rightarrow> bool" where
  "archive_path name = (startswith name ''results/'' \<and> 3 \<le> length (posix_parts name) \<and>
     (\<forall>part \<in> set (parts_of name). part \<notin> {[], ''.'', ''..''}) \<and> BSL \<notin> set name \<and> NUL \<notin> set name \<and> \<not> is_absolute name)"

definition archive_safe_path :: "json \<Rightarrow> string res" where
  "archive_safe_path v = (case v of JStr name \<Rightarrow>
       if archive_path name then Inr name else Inl (ValueError ''Unsafe evidence path'')
     | _ \<Rightarrow> Inl TypeError)"

text \<open>The bytes of a tracked file, which must be those of its Git object.\<close>

definition committed_bytes :: "archive_tools \<Rightarrow> fs \<Rightarrow> path \<Rightarrow> string \<Rightarrow> entry \<Rightarrow> string res" where
  "committed_bytes t f repo name e =
     bindE (resolveE f repo) (\<lambda>base.
     (let p = joinp base name in
      bindE (resolveE f p) (\<lambda>rp.
      if is_symlink f p \<or> \<not> is_file f p \<or> (\<exists>k \<in> set [length base..<length p]. is_symlink f (take k p)) \<or>
         \<not> is_relative_to rp base
      then Inl (ValueError (''Not a regular evidence file: '' @ name)) else
      bindE (read_bytes f p) (\<lambda>content.
      if length content \<noteq> entry_size e \<or>
         a_sha1 t (''blob '' @ show_nat (length content) @ [NUL] @ content) \<noteq> entry_oid e
      then Inl (ValueError (''Evidence differs from the recorded Git revision: '' @ name))
      else Inr content))))"

definition entry_mode :: "entry \<Rightarrow> nat" where
  "entry_mode e = (case read_base 8 0 (fst e) of None \<Rightarrow> 0 | Some n \<Rightarrow> n mod 512)"

definition pack_record :: "archive_tools \<Rightarrow> fs \<Rightarrow> path \<Rightarrow> string \<times> entry \<Rightarrow> (json \<times> string \<times> string \<times> nat) res" where
  "pack_record t f repo ne = (case ne of (name, e) \<Rightarrow>
     bindE (archive_safe_path (JStr name)) (\<lambda>_. bindE (committed_bytes t f repo name e) (\<lambda>content.
     Inr (JDict [(''path'', JStr name), (''bytes'', JInt (int (length content))),
            (''sha256'', JStr (a_sha256 t content)), (''mode'', JInt (int (entry_mode e)))],
          name, content, entry_mode e))))"

definition manifest_opts :: jopts where
  "manifest_opts = plain_opts\<lparr>sort_keys := True\<rparr>"

definition select_entries :: "string list \<Rightarrow> entries \<Rightarrow> entries res" where
  "select_entries names entries = filterE (\<lambda>(n, e). bindE (result_of n) (\<lambda>r. Inr (r \<in> set names))) entries"

definition pack_archive :: "archive_tools \<Rightarrow> fs \<Rightarrow> path \<Rightarrow> path \<Rightarrow> string list \<Rightarrow> (json \<times> fs) res" where
  "pack_archive t f repo output names =
     bindE (resolveE f output) (\<lambda>ro. bindE (resolveE f repo) (\<lambda>rr.
     if is_relative_to ro rr then Inl (ValueError ''Write archives outside the repository'')
     else if \<not> distinct names \<or> names = [] then Inl (ValueError ''Choose distinct result directory names'')
     else if list_ex (\<lambda>n. \<not> fullmatch directory_rx n) names then Inl (ValueError ''Choose an exact result directory name'')
     else bindE (git t [''rev-parse'', ''HEAD'']) (\<lambda>head. (let revision = strip head in
     bindE (bindE (tree t revision) (select_entries names)) (\<lambda>entries.
     bindE (mapE (\<lambda>(n, e). result_of n) entries) (\<lambda>present.
     if set present \<noteq> set names then Inl (ValueError ''A selected result is absent from Git'') else
     bindE (mapE (pack_record t f repo) (sort_key fst entries)) (\<lambda>records.
     (let manifest = JDict [(''schemaVersion'', JInt 1), (''sourceRevision'', JStr revision),
            (''results'', JList (map JStr (sort names))), (''files'', JList (map fst records))];
          archive = tar_gz t ((''MANIFEST.json'', json_text (\<lambda>q. []) manifest_opts 0 (sort_json manifest) @ [NL], 420) #
            map (\<lambda>(r, name, content, mode). (name, content, mode)) records)
      in bindE (create_bytes f output archive) (\<lambda>f'.
         Inr (JDict [(''sha256'', JStr (a_sha256 t archive)), (''archiveBytes'', JInt (int (length archive))),
            (''files'', JInt (int (length records))),
            (''sourceBytes'', JInt (\<Sum>(r, n, c, m)\<leftarrow>records. int (length c))),
            (''sourceRevision'', JStr revision), (''results'', JList (map JStr (sort names)))], f'))))))))))"

section \<open>Verifying an archive\<close>

definition manifest_ok :: "json \<Rightarrow> bool res" where
  "manifest_ok manifest = notE (
     orE (notE (keys_are manifest [''schemaVersion'', ''sourceRevision'', ''results'', ''files'']))
    (orE (bindE (item manifest ''schemaVersion'') (\<lambda>v. Inr (\<not> jeq v (JInt 1))))
         (bindE (item manifest ''sourceRevision'') (\<lambda>v. notE (fullmatchE (hex_rx 40) v)))))"

type_synonym archive_records = "(string \<times> json) list"

definition manifest_record :: "archive_records \<Rightarrow> json \<Rightarrow> archive_records res" where
  "manifest_record records record =
     bindE (bindE (item record ''path'') archive_safe_path) (\<lambda>name.
     raise_if (orE (Inr (name \<in> fst ` set records))
         (bindE (item record ''mode'') (\<lambda>m. Inr (\<not> jeq m (JInt 420) \<and> \<not> jeq m (JInt 493)))))
       (ValueError ''Duplicate path or invalid mode'') (Inr (records @ [(name, record)])))"

definition check_member :: "archive_tools \<Rightarrow> archive_records \<Rightarrow> string list \<Rightarrow> member \<Rightarrow> string list res" where
  "check_member t records seen m =
     (if m_name m \<in> set seen \<or> \<not> m_isfile m then Inl (ValueError ''Unexpected, duplicate or non-regular archive member'') else
      (case map_of records (m_name m) of
         None \<Rightarrow> Inl (ValueError ''Unexpected, duplicate or non-regular archive member'')
       | Some record \<Rightarrow>
          raise_if (orE (bindE (item record ''bytes'') (\<lambda>x. Inr (\<not> jeq x (JInt (int (m_size m))))))
              (bindE (item record ''mode'') (\<lambda>x. Inr (\<not> jeq x (JInt (int (m_mode m)))))))
            (ValueError ''Archive size or mode differs'') (
          raise_if (bindE (item record ''sha256'') (\<lambda>x. Inr (\<not> jeq x (JStr (a_sha256 t (m_data m))))))
            (ValueError ''Archive member SHA-256 differs'') (Inr (seen @ [m_name m])))))"

definition verify_members :: "archive_tools \<Rightarrow> member list \<Rightarrow> (json \<times> archive_records) res" where
  "verify_members t members = (case members of
      [] \<Rightarrow> Inl (ValueError ''Missing or excessive archive manifest'')
    | first # rest \<Rightarrow>
        if m_name first \<noteq> ''MANIFEST.json'' \<or> \<not> m_isfile first \<or> 32 * 1024 ^ 2 < m_size first
        then Inl (ValueError ''Missing or excessive archive manifest'') else
        bindE (loads (m_data first)) (\<lambda>manifest.
        raise_if (notE (manifest_ok manifest)) (ValueError ''Invalid archive manifest'') (
        bindE (bindE (item manifest ''files'') iterE) (\<lambda>files.
        bindE (foldE manifest_record [] files) (\<lambda>records.
        bindE (mapE (result_of \<circ> fst) records) (\<lambda>results.
        bindE (item manifest ''results'') (\<lambda>listed.
        if \<not> jeq (JList (map JStr (sort (remdups results)))) listed then Inl (ValueError ''Result inventory differs'') else
        bindE (foldE (check_member t records) [] rest) (\<lambda>seen.
        if set seen \<noteq> fst ` set records then Inl (ValueError ''Incomplete archive'')
        else Inr (manifest, records)))))))))"

definition verify_archive :: "archive_tools \<Rightarrow> fs \<Rightarrow> path \<Rightarrow> string \<Rightarrow> json res" where
  "verify_archive t f archive expected =
     (if \<not> fullmatch (hex_rx 64) expected then Inl (ValueError ''Archive SHA-256 differs'') else
     bindE (read_bytes f archive) (\<lambda>data.
     if a_sha256 t data \<noteq> expected then Inl (ValueError ''Archive SHA-256 differs'') else
     bindE (untar_gz t data) (\<lambda>members. bindE (verify_members t members) (\<lambda>(manifest, records). Inr manifest))))"

section \<open>Compacting\<close>

definition keep :: "string \<Rightarrow> bool" where
  "keep name = (pure_suffix name \<in> set KEEP_SUFFIXES \<or> endswith name ''SHA256SUMS'')"

definition asset_rx :: rx where
  "asset_rx = seqs [lit REPOSITORY, lit ''/releases/download/'',
     rplus (Cls (upper_cls @ lower_cls @ digit_cls @ chr_cls ''._-'')), lit ''/'',
     rplus (Cls (upper_cls @ lower_cls @ digit_cls @ chr_cls ''._-'')), lit ''.tar.gz'']"

definition notice :: string where
  "notice = ''> Storage update: detailed files are preserved in the verified public archive'' @ [NL] @
     ''> identified by [ARCHIVE.json](ARCHIVE.json). Tables and measurements remain in Git.'' @ [NL] @
     ''> Original reports and every archived file are included unchanged in that archive.'' @ [NL, NL]"

text \<open>The text of a manifest field that verification has established to be a string.\<close>

definition strE :: "json \<Rightarrow> string res" where
  "strE v = (case v of JStr s \<Rightarrow> Inr s | _ \<Rightarrow> Inl TypeError)"

definition compact_record :: "archive_tools \<Rightarrow> fs \<Rightarrow> path \<Rightarrow> entries \<Rightarrow> json \<Rightarrow> unit res" where
  "compact_record t f repo current record =
     bindE (bindE (item record ''path'') strE) (\<lambda>p.
     (case map_of current p of None \<Rightarrow> Inl (KeyError p) | Some e \<Rightarrow>
     bindE (committed_bytes t f repo p e) (\<lambda>data.
     raise_if (bindE (item record ''sha256'') (\<lambda>x. Inr (\<not> jeq x (JStr (a_sha256 t data)))))
       (ValueError ''Current evidence differs from archive'') (Inr ()))))"

definition result_dir :: "path \<Rightarrow> string \<Rightarrow> path" where
  "result_dir repo name = joinp (joinp repo ''results'') name"

definition write_archive_record :: "path \<Rightarrow> string \<Rightarrow> string \<Rightarrow> nat \<Rightarrow> json \<Rightarrow> string list \<Rightarrow> fs \<Rightarrow> string \<Rightarrow> fs res" where
  "write_archive_record repo checksum url archive_bytes revision paths f name =
     (let dir = result_dir repo name; member_prefix = ''results/'' @ name @ ''/'';
          record = JDict [(''schemaVersion'', JInt 1), (''url'', JStr url), (''sha256'', JStr checksum),
            (''archiveBytes'', JInt (int archive_bytes)), (''sourceRevision'', revision), (''memberPrefix'', JStr member_prefix),
            (''files'', JInt (int (length (filter (\<lambda>p. startswith p member_prefix) paths))))]
      in bindE (write_bytes f (dir @ [''ARCHIVE.json'']) (json_text (\<lambda>q. []) pretty_opts 0 record @ [NL])) (\<lambda>f1.
         bindE (read_bytes f1 (dir @ [''README.md''])) (\<lambda>readme.
         write_bytes f1 (dir @ [''README.md'']) (notice @ readme))))"

definition compact :: "archive_tools \<Rightarrow> fs \<Rightarrow> path \<Rightarrow> path \<Rightarrow> string \<Rightarrow> string \<Rightarrow> (json \<times> fs) res" where
  "compact t f repo archive checksum url =
     (if \<not> fullmatch asset_rx url then Inl (ValueError ''Use a public evidence release asset URL in this repository'') else
     bindE (verify_archive t f archive checksum) (\<lambda>manifest.
     bindE (tree t ''HEAD'') (\<lambda>current.
     bindE (bindE (bindE (item manifest ''results'') iterE) (mapE strE)) (\<lambda>results.
     bindE (bindE (item manifest ''files'') iterE) (\<lambda>files.
     bindE (mapE (\<lambda>r. bindE (item r ''path'') strE) files) (\<lambda>paths.
     bindE (select_entries results current) (\<lambda>chosen.
     if set (map fst chosen) \<noteq> set paths then Inl (ValueError ''Current result inventory differs; do not compact it'') else
     bindE (forE (compact_record t f repo current) files) (\<lambda>_.
     bindE (forE (\<lambda>name.
        if path_exists f (result_dir repo name @ [''ARCHIVE.json'']) then Inl (ValueError ''An archive record already exists'')
        else if ''results/'' @ name @ ''/README.md'' \<notin> set (map fst chosen)
        then Inl (ValueError ''Each compacted result needs an existing README'') else Inr ()) results) (\<lambda>_.
     bindE (filterE (\<lambda>r. bindE (bindE (item r ''path'') strE) (\<lambda>p. Inr (\<not> keep p))) files) (\<lambda>removed.
     bindE (mapE (\<lambda>r. bindE (item r ''path'') strE) removed) (\<lambda>removed_paths.
     bindE (if removed = [] then Inr f else git_rm t removed_paths f) (\<lambda>f1.
     bindE (read_bytes f1 archive) (\<lambda>bytes. bindE (item manifest ''sourceRevision'') (\<lambda>revision.
     bindE (foldE (write_archive_record repo checksum url (length bytes) revision paths) f1 results) (\<lambda>f2.
     bindE (bindE (mapE (\<lambda>r. item r ''bytes'') removed) sumE) (\<lambda>total.
     Inr (JDict [(''removedFiles'', JInt (int (length removed))), (''removedBytes'', total)], f2)))))))))))))))))"

section \<open>The budget check\<close>

definition changed_file_errors :: "archive_tools \<Rightarrow> entries \<Rightarrow> string \<times> entry \<Rightarrow> string list res" where
  "changed_file_errors t old ne = (case ne of (name, e) \<Rightarrow>
     if map_of old name = Some e then Inr []
     else if entry_size e = 0 \<or> 256 * 1024 < entry_size e \<or> pure_suffix name \<in> set FORBIDDEN_SUFFIXES
     then Inr [''Archive detailed/empty/large evidence instead: '' @ name]
     else bindE (git t [''cat-file'', ''blob'', entry_oid e]) (\<lambda>blob.
       Inr (if NUL \<in> set blob then [''Archive binary evidence instead: '' @ name] else [])))"

definition sizes_below :: "string \<Rightarrow> entries \<Rightarrow> nat list" where
  "sizes_below p entries = map (\<lambda>(n, e). entry_size e) (filter (\<lambda>(n, e). startswith n p) entries)"

definition result_errors :: "entries \<Rightarrow> entries \<Rightarrow> string \<Rightarrow> string list" where
  "result_errors old new result =
     (let before = sizes_below (''results/'' @ result @ ''/'') old; after = sizes_below (''results/'' @ result @ ''/'') new in
      if max 100 (length before) < length after \<or> max (2 * 1024 ^ 2) (sum_list before) < sum_list after
      then [''Result exceeds 100 files / 2 MiB or grows an existing oversized result: '' @ result] else [])"

text \<open>A Python set is traversed in an unspecified order; the result directories are taken in the
  order of the entries.\<close>

definition check_results :: "archive_tools \<Rightarrow> string \<Rightarrow> string \<Rightarrow> string list res" where
  "check_results t base head =
     bindE (tree t base) (\<lambda>old. bindE (tree t head) (\<lambda>new.
     bindE (lifecycle_errors t new) (\<lambda>e1. bindE (result_reference_errors t head new) (\<lambda>e2.
     bindE (mapE (changed_file_errors t old) new) (\<lambda>e3.
     Inr (e1 @ e2 @ concat e3 @ concat (map (result_errors old new) (result_dirs new))))))))"

datatype archive_command = PackResults path "string list" | VerifyArchive path string
  | Compact path string string | CheckResults string string

text \<open>The text printed and the files after the run; a check with errors exits with status 1 after
  printing them.\<close>

definition archive_main :: "archive_tools \<Rightarrow> fs \<Rightarrow> path \<Rightarrow> archive_command \<Rightarrow> (nat \<times> string \<times> fs) res" where
  "archive_main t f repo cmd =
     bindE (case cmd of
         PackResults output names \<Rightarrow> bindE (pack_archive t f repo output names) (\<lambda>(r, f'). Inr (0, r, f'))
       | VerifyArchive archive sha \<Rightarrow> bindE (verify_archive t f archive sha) (\<lambda>m.
           bindE (bindE (item m ''files'') lenE) (\<lambda>n. bindE (item m ''sourceRevision'') (\<lambda>r.
           Inr (0, JDict [(''verified'', JBool True), (''files'', JInt (int n)), (''sourceRevision'', r)], f))))
       | Compact archive sha url \<Rightarrow> bindE (compact t f repo archive sha url) (\<lambda>(r, f'). Inr (0, r, f'))
       | CheckResults base head \<Rightarrow> bindE (check_results t base head) (\<lambda>es.
           Inr (if es = [] then 0 else 1, JList (map JStr es), f))) (\<lambda>(status, result, f').
     bindE (dumps (\<lambda>q. []) pretty_opts result) (\<lambda>text. Inr (status, text @ [NL], f')))"

section \<open>What verification establishes\<close>

lemma archive_safe_pathE_iff: "archive_safe_path v = Inr s \<longleftrightarrow> v = JStr s \<and> archive_path s"
  by (auto simp: archive_safe_path_def split: json.splits)

definition records_listed :: "archive_records \<Rightarrow> bool" where
  "records_listed records = (distinct (map fst records) \<and>
     list_all (\<lambda>(n, r). archive_path n \<and> item r ''path'' = Inr (JStr n)) records)"

lemma manifest_record_listed:
  assumes "manifest_record records r = Inr records'" "records_listed records"
  shows "records_listed records'"
proof -
  from assms(1) obtain n p where "item r ''path'' = Inr p" "archive_safe_path p = Inr n" "n \<notin> fst ` set records"
    "records' = records @ [(n, r)]"
    unfolding manifest_record_def by (auto simp: bindE_Inr_iff raise_if_iff orE_iff)
  with assms(2) show ?thesis by (auto simp: records_listed_def archive_safe_pathE_iff)
qed

definition member_ok :: "archive_tools \<Rightarrow> archive_records \<Rightarrow> member \<Rightarrow> bool" where
  "member_ok t records m = (m_isfile m \<and> (case map_of records (m_name m) of None \<Rightarrow> False
     | Some r \<Rightarrow> item r ''sha256'' = Inr (JStr (a_sha256 t (m_data m))) \<and>
         (\<exists>b. item r ''bytes'' = Inr b \<and> jeq b (JInt (int (m_size m)))) \<and>
         (\<exists>b. item r ''mode'' = Inr b \<and> jeq b (JInt (int (m_mode m))))))"

lemma check_member_ok:
  assumes "check_member t records seen m = Inr seen'"
  shows "seen' = seen @ [m_name m] \<and> m_name m \<notin> set seen \<and> member_ok t records m"
proof -
  from assms have fresh: "m_name m \<notin> set seen" "m_isfile m" by (auto simp: check_member_def split: if_splits)
  from assms fresh obtain r where r: "map_of records (m_name m) = Some r"
    by (auto simp: check_member_def split: option.splits)
  from assms fresh have "seen' = seen @ [m_name m]" "item r ''sha256'' = Inr (JStr (a_sha256 t (m_data m)))"
    "\<exists>b. item r ''bytes'' = Inr b \<and> jeq b (JInt (int (m_size m)))"
    "\<exists>b. item r ''mode'' = Inr b \<and> jeq b (JInt (int (m_mode m)))"
    unfolding check_member_def r option.case
    by (auto simp: raise_if_iff orE_iff bindE_Inr_iff simp del: jeq.simps)
  with fresh r show ?thesis by (simp add: member_ok_def)
qed

lemma check_members_ok:
  assumes "foldE (check_member t records) [] rest = Inr seen"
  shows "seen = map m_name rest \<and> distinct seen \<and> list_all (member_ok t records) rest"
proof (rule foldE_prefix_invariant [where P = "\<lambda>ms s. s = map m_name ms \<and> distinct s \<and> list_all (member_ok t records) ms", OF assms])
  fix ys m u v
  assume "u = map m_name ys \<and> distinct u \<and> list_all (member_ok t records) ys" "check_member t records u m = Inr v"
  then show "v = map m_name (ys @ [m]) \<and> distinct v \<and> list_all (member_ok t records) (ys @ [m])"
    using check_member_ok [of t records u m v] by auto
qed simp


section \<open>What a clean check bounds\<close>

lemma mapE_concat_Nil:
  "mapE f xs = Inr ess \<Longrightarrow> concat ess = [] \<Longrightarrow> x \<in> set xs \<Longrightarrow> f x = Inr []"
  by (auto simp: mapE_iff list_all2_conv_all_nth in_set_conv_nth) (metis nth_mem)

lemma result_errors_Nil:
  "result_errors old new r = [] \<longleftrightarrow>
     length (sizes_below (''results/'' @ r @ ''/'') new) \<le> max 100 (length (sizes_below (''results/'' @ r @ ''/'') old)) \<and>
     sum_list (sizes_below (''results/'' @ r @ ''/'') new) \<le>
       max (2 * 1024 ^ 2) (sum_list (sizes_below (''results/'' @ r @ ''/'') old))"
  by (simp only: result_errors_def Let_def not_less [symmetric] split: if_split) blast

text \<open>C13. When the check of two revisions reports no error, the results of the new one are within
  their budget: at most 512 files and 4 MiB in all, every new or changed file between one byte and
  256 KiB, without NUL bytes and without a detailed-evidence suffix, and every result directory
  within 100 files and 2 MiB or no larger than it was.\<close>

theorem clean_check_bounds:
  assumes "check_results t base head = Inr []"
  shows "\<exists>old new. tree t base = Inr old \<and> tree t head = Inr new \<and> length new \<le> 512 \<and>
     sum_list (map (entry_size \<circ> snd) new) \<le> 4 * 1024 ^ 2 \<and>
     (\<forall>n e. (n, e) \<in> set new \<and> map_of old n \<noteq> Some e \<longrightarrow>
        0 < entry_size e \<and> entry_size e \<le> 256 * 1024 \<and> pure_suffix n \<notin> set FORBIDDEN_SUFFIXES \<and>
        (\<exists>blob. git t [''cat-file'', ''blob'', entry_oid e] = Inr blob \<and> NUL \<notin> set blob)) \<and>
     (\<forall>r \<in> set (result_dirs new).
        length (sizes_below (''results/'' @ r @ ''/'') new) \<le> max 100 (length (sizes_below (''results/'' @ r @ ''/'') old)) \<and>
        sum_list (sizes_below (''results/'' @ r @ ''/'') new) \<le>
          max (2 * 1024 ^ 2) (sum_list (sizes_below (''results/'' @ r @ ''/'') old)))"
proof -
  from assms obtain old new e3 where t: "tree t base = Inr old" "tree t head = Inr new"
    and life: "lifecycle_errors t new = Inr []"
    and e3: "mapE (changed_file_errors t old) new = Inr e3" "concat e3 = []"
    and res: "concat (map (result_errors old new) (result_dirs new)) = []"
    unfolding check_results_def by (auto simp: bindE_Inr_iff)
  from life have budget: "length new \<le> 512" "sum_list (map (entry_size \<circ> snd) new) \<le> 4 * 1024 ^ 2"
    unfolding lifecycle_errors_def by (auto simp: bindE_Inr_iff not_less split: if_splits)
  have ch: "0 < entry_size e \<and> entry_size e \<le> 256 * 1024 \<and> pure_suffix n \<notin> set FORBIDDEN_SUFFIXES \<and>
      (\<exists>blob. git t [''cat-file'', ''blob'', entry_oid e] = Inr blob \<and> NUL \<notin> set blob)"
    if "(n, e) \<in> set new" "map_of old n \<noteq> Some e" for n e
  proof -
    have "changed_file_errors t old (n, e) = Inr []" by (rule mapE_concat_Nil [OF e3 that(1)])
    with that(2) show ?thesis
      unfolding changed_file_errors_def prod.case
      by (auto simp: bindE_Inr_iff split: if_splits)
  qed
  have "result_errors old new r = []" if "r \<in> set (result_dirs new)" for r
    using res that by simp
  then have dirs: "length (sizes_below (''results/'' @ r @ ''/'') new) \<le> max 100 (length (sizes_below (''results/'' @ r @ ''/'') old)) \<and>
        sum_list (sizes_below (''results/'' @ r @ ''/'') new) \<le>
          max (2 * 1024 ^ 2) (sum_list (sizes_below (''results/'' @ r @ ''/'') old))"
    if "r \<in> set (result_dirs new)" for r
    using that unfolding result_errors_Nil by blast
  show ?thesis
    by (intro exI [of _ old] exI [of _ new] conjI) (use t budget ch dirs in \<open>blast+\<close>)
qed

section \<open>Witnesses\<close>

definition demo_registry :: string where
  "demo_registry = json_text (\<lambda>q. []) plain_opts 0 (JDict [(''schemaVersion'', JInt 1), (''entries'', JList [])])"

definition demo_git :: "string list \<Rightarrow> string res" where
  "demo_git args = (if hd args = ''cat-file'' then Inr demo_registry
     else if args = [''ls-tree'', ''-rlz'', ''h'', ''--'', ''results'']
     then Inr (''100644 blob abc 9'' @ [TAB] @ ''results/active.json'' @ [NUL]) else Inr [])"

definition demo_archive_tools :: archive_tools where
  "demo_archive_tools = \<lparr>git = demo_git, git_rm = (\<lambda>ps f. Inr f), a_sha1 = (\<lambda>s. ''1''), a_sha256 = (\<lambda>s. ''2''),
     tar_gz = (\<lambda>ms. []), untar_gz = (\<lambda>s. Inr [])\<rparr>"

definition demo_manifest :: json where
  "demo_manifest = JDict [(''schemaVersion'', JInt 1), (''sourceRevision'', JStr (replicate 40 (CHR ''a''))),
     (''results'', JList [JStr ''r'']), (''files'', JList [JDict [(''path'', JStr ''results/r/a''), (''bytes'', JInt 1),
        (''sha256'', JStr ''2''), (''mode'', JInt 420)]])]"

definition demo_members :: "member list" where
  "demo_members = [\<lparr>m_name = ''MANIFEST.json'', m_isfile = True, m_size = 9, m_mode = 420, m_data = json_text (\<lambda>q. []) plain_opts 0 demo_manifest\<rparr>,
     \<lparr>m_name = ''results/r/a'', m_isfile = True, m_size = 1, m_mode = 420, m_data = ''x''\<rparr>]"

lemma demo_loads:
  "loads demo_registry = Inr (JDict [(''schemaVersion'', JInt 1), (''entries'', JList [])])"
  "loads (json_text (\<lambda>q. []) plain_opts 0 demo_manifest) = Inr demo_manifest"
proof -
  show "loads demo_registry = Inr (JDict [(''schemaVersion'', JInt 1), (''entries'', JList [])])"
    using loads_json_text [OF seps_ok_opts(1), of "\<lambda>q. []" "JDict [(''schemaVersion'', JInt 1), (''entries'', JList [])]" "[]"]
    by (simp add: demo_registry_def)
  show "loads (json_text (\<lambda>q. []) plain_opts 0 demo_manifest) = Inr demo_manifest"
    using loads_json_text [OF seps_ok_opts(1), of "\<lambda>q. []" demo_manifest "[]"]
    by (simp add: demo_manifest_def)
qed

lemma demo_manifest_fields:
  "manifest_ok demo_manifest = Inr True" "archive_path ''results/r/a''" "result_of ''results/r/a'' = Inr ''r''"
proof -
  have "is_hex 40 (replicate 40 (CHR ''a''))" by (simp add: is_hex_def list_all_iff in_cls_def hex_cls_def)
  then show "manifest_ok demo_manifest = Inr True" by (auto simp: manifest_ok_def demo_manifest_def)
  show "archive_path ''results/r/a''" by (simp add: archive_path_def posix_parts_def pure_parts_def parts_of_def is_absolute_def)
  show "result_of ''results/r/a'' = Inr ''r''" by (simp add: result_of_def parts_of_def)
qed


lemma clean_check_bounds_witness:
  "\<exists>new. tree demo_archive_tools ''h'' = Inr new \<and> length new \<le> 512 \<and> map fst new = [''results/active.json'']"
proof -
  have t: "tree demo_archive_tools ''h'' = Inr [(''results/active.json'', ''100644'', ''abc'', 9)]"
    by (simp add: tree_def demo_archive_tools_def demo_git_def tree_row_def partition_str_def split_ws_def is_space_def
        parse_size_def is_digit_def nat_of_digits_def)
  have b: "tree demo_archive_tools ''b'' = Inr []"
    by (simp add: tree_def demo_archive_tools_def demo_git_def)
  have g: "git demo_archive_tools = demo_git" by (simp add: demo_archive_tools_def)
  let ?new = "[(''results/active.json'', ''100644'', ''abc'', 9)]"
  have d: "result_dirs ?new = []" by (simp add: result_dirs_def parts_of_def)
  have r: "registry_errors demo_archive_tools ?new = Inr []"
    by (simp add: registry_errors_def g demo_git_def demo_loads d)
  have l: "lifecycle_errors demo_archive_tools ?new = Inr []"
    by (simp add: lifecycle_errors_def r entry_size_def)
  have e: "result_reference_errors demo_archive_tools ''h'' ?new = Inr []"
    by (simp add: result_reference_errors_def g demo_git_def pure_suffix_def pure_parts_def name_suffix_def
        path_name_def SOURCE_SUFFIXES_def)
  have c: "changed_file_errors demo_archive_tools [] (''results/active.json'', ''100644'', ''abc'', 9) = Inr []"
  proof -
    have "list_all (\<lambda>c. c \<noteq> NUL) (json_text (\<lambda>q. []) plain_opts 0 (JDict [(''schemaVersion'', JInt 1), (''entries'', JList [])]))"
      by code_simp
    then have "NUL \<notin> set demo_registry" by (auto simp: demo_registry_def list_all_iff)
    then show ?thesis
      by (simp add: changed_file_errors_def g demo_git_def entry_size_def pure_suffix_def pure_parts_def
          name_suffix_def path_name_def FORBIDDEN_SUFFIXES_def)
  qed
  have "check_results demo_archive_tools ''b'' ''h'' = Inr []"
    by (simp add: check_results_def t b l e c d)
  from clean_check_bounds [OF this] t show ?thesis by auto
qed

end
