(* ===== verification/PyProc.thy ===== *)
theory PyProc
  imports PyPath
begin

text \<open>
  Child processes and temporary files: the result of \<open>subprocess.run\<close> with captured output, file
  copies and removals, and the text operations the tools apply to captured output. What a program
  answers is a parameter of the tool that runs it.
\<close>

record completed =
  returncode :: int
  proc_out :: string
  proc_err :: string

text \<open>\<open>s.partition(p)[2]\<close> and \<open>s.partition(p)[0]\<close>.\<close>

definition after_str :: "string \<Rightarrow> string \<Rightarrow> string" where
  "after_str p s = (case partition_str p s of None \<Rightarrow> [] | Some (u, v) \<Rightarrow> v)"

definition before_str :: "string \<Rightarrow> string \<Rightarrow> string" where
  "before_str p s = (case partition_str p s of None \<Rightarrow> s | Some (u, v) \<Rightarrow> u)"

text \<open>Lines joined with a newline after each.\<close>

definition text_lines :: "string list \<Rightarrow> string" where
  "text_lines ls = concat (map (\<lambda>l. l @ [NL]) ls)"

text \<open>\<open>shutil.copy2(p, q)\<close> to a file name, \<open>shutil.rmtree(p)\<close>, and the entries of a directory with
  a suffix, sorted.\<close>

definition copy2 :: "fs \<Rightarrow> path \<Rightarrow> path \<Rightarrow> fs res" where
  "copy2 f p q = (case stat f p of
      Some (NFile s m) \<Rightarrow> bindE (write_bytes f q s) (\<lambda>f'. chmod f' q m)
    | _ \<Rightarrow> Inl (OSError (path_name p)))"

definition remove_tree :: "fs \<Rightarrow> path \<Rightarrow> fs" where
  "remove_tree f p = filter (\<lambda>(q, n). \<not> prefix p q) f"

definition glob_suffix :: "fs \<Rightarrow> path \<Rightarrow> string \<Rightarrow> string list" where
  "glob_suffix f d w = filter (\<lambda>n. endswith n w) (iterdir f d)"

lemma map_of_filter_key: "map_of (filter (\<lambda>(q, n). P q) f) k = (if P k then map_of f k else None)"
  by (induction f) auto

lemma look_remove_tree:
  "p \<noteq> [] \<Longrightarrow> look (remove_tree f p) q = (if prefix p q then None else look f q)"
  by (auto simp: look_def remove_tree_def map_of_filter_key)

lemma no_links_remove_tree: "no_links f \<Longrightarrow> no_links (remove_tree f p)"
  by (auto simp: no_links_def look_def remove_tree_def map_of_filter_key split: if_splits)

definition not_link :: "node \<Rightarrow> bool" where
  "not_link n = (case n of NLink t \<Rightarrow> False | _ \<Rightarrow> True)"

lemma no_links_list: "list_all (\<lambda>(p, n). not_link n) f \<Longrightarrow> no_links f"
  by (auto simp: no_links_def look_def list_all_iff not_link_def dest!: map_of_SomeD bspec)

text \<open>Copying and renaming as updates of one or two paths.\<close>

lemma read_bytes_plain:
  "no_links f \<Longrightarrow> list_all plain_name p \<Longrightarrow> read_bytes f p = Inr s \<longleftrightarrow> (\<exists>m. look f p = Some (NFile s m))"
  by (auto simp: read_bytes_def stat_plain split: option.splits node.splits)

lemma copy2_plain:
  assumes "no_links f" "list_all plain_name p" "list_all plain_name q" "q \<noteq> []" "copy2 f p q = Inr g"
  shows "\<exists>s m n. read_bytes f p = Inr s \<and> g = fs_put (fs_put f q (NFile s n)) q (NFile s m)"
proof -
  from assms obtain s m f1 where p: "look f p = Some (NFile s m)" and w: "write_bytes f q s = Inr f1"
    and c: "chmod f1 q m = Inr g"
    by (auto simp: copy2_def stat_plain bindE_Inr_iff split: option.splits node.splits)
  obtain n where f1: "f1 = fs_put f q (NFile s n)" using write_bytes_plain [OF assms(1,3,4) w] by blast
  then have "no_links f1" using assms(1,4) by (simp add: no_links_fs_put)
  from chmod_plain [OF this assms(3,4) c] f1 have "g = fs_put f1 q (NFile s m)"
    by (auto simp: look_fs_put assms(4))
  with f1 p assms(1,2) show ?thesis by (auto simp: read_bytes_plain)
qed

lemma replace_path_plain:
  assumes "no_links f" "list_all plain_name p" "list_all plain_name q" "p \<noteq> []" "q \<noteq> []"
    "replace_path f p q = Inr g"
  shows "\<exists>n. look f p = Some n \<and> n \<noteq> NDir \<and>
     (\<forall>r. look g r = (if r = q then Some n else if r = p then None else look f r))"
proof -
  have b: "list_all plain_name (butlast p)" "list_all plain_name (butlast q)"
    using assms(2,3) by (auto intro: list_all_butlast)
  have n: "butlast p @ [path_name p] = p" "butlast q @ [path_name q] = q"
    using assms(4,5) by (simp_all add: path_name_def)
  show ?thesis
    using assms(6) assms(4,5)
    by (auto simp: replace_path_def real_path_plain [OF assms(1)] b n Let_def look_fs_put look_delete
        split: option.splits node.splits if_splits)
qed

lemma no_links_replace:
  assumes "no_links f" "replace_path f p q = Inr g"
  shows "no_links g"
proof -
  from assms(2) obtain src dst n where n: "look f src = Some n" and g: "g = f \<or> g = fs_put (AList.delete src f) dst n"
    and ne: "src \<noteq> []" "dst \<noteq> []"
    by (auto simp: replace_path_def Let_def split: option.splits node.splits if_splits)
  have "look g r \<noteq> Some (NLink t)" for r t
    using g n assms(1) ne by (cases "r = dst"; cases "r = src") (auto simp: no_links_def look_fs_put look_delete)
  then show ?thesis by (simp add: no_links_def)
qed

lemma no_links_mkdir_p: "no_links f \<Longrightarrow> mkdir_p f p = Inr g \<Longrightarrow> no_links g"
  by (auto simp: mkdir_p_def bindE_Inr_iff dest: no_links_mkdirs)

text \<open>\<open>p.parent.mkdir(parents=True, exist_ok=True)\<close> and a write, and what the two do to a file system
  without links: the file, and the missing directories above it.\<close>

definition put_file :: "fs \<Rightarrow> path \<Rightarrow> string \<Rightarrow> fs res" where
  "put_file f p s = bindE (mkdir_p f (butlast p)) (\<lambda>f1. write_bytes f1 p s)"

lemma put_file_plain:
  assumes "no_links f" "list_all plain_name p" "p \<noteq> []" "put_file f p s = Inr g"
  shows "no_links g" "read_bytes g p = Inr s" "look f p \<noteq> Some NDir"
    "q \<noteq> p \<Longrightarrow> look g q = (if look f q = None \<and> q \<noteq> [] \<and> prefix q (butlast p) then Some NDir else look f q)"
proof -
  from assms(4) obtain f1 where f1: "mkdir_p f (butlast p) = Inr f1" "write_bytes f1 p s = Inr g"
    by (auto simp: put_file_def bindE_Inr_iff)
  have "mkdirs f [] (butlast p) = Inr f1"
    using f1(1) assms(1) list_all_butlast [OF assms(2)] by (simp add: mkdir_p_plain)
  note l = mkdirs_look [OF this]
  have nl: "no_links f1" by (rule no_links_mkdir_p [OF assms(1) f1(1)])
  obtain m where m: "g = fs_put f1 p (NFile s m)" "look f1 p \<noteq> Some NDir"
    using write_bytes_plain [OF nl assms(2,3) f1(2)] by blast
  show "read_bytes g p = Inr s" "no_links g" using write_then_read [OF nl assms(2,3) f1(2)] by auto
  have "length (butlast p) < length p" using assms(3) by simp
  then have "\<not> prefix p (butlast p)" by (auto dest: prefix_length_le)
  then show "look f p \<noteq> Some NDir" using m(2) l [of p] by auto
  show "q \<noteq> p \<Longrightarrow> look g q = (if look f q = None \<and> q \<noteq> [] \<and> prefix q (butlast p) then Some NDir else look f q)"
    using assms(3) by (auto simp: m(1) look_fs_put l strict_prefix_def)
qed

lemma put_file_total:
  assumes "no_links f" "list_all plain_name p" "p \<noteq> []" "makeable f (butlast p)" "look f p \<noteq> Some NDir"
  shows "\<exists>g. put_file f p s = Inr g"
proof -
  obtain f1 where f1: "mkdir_p f (butlast p) = Inr f1" "no_links f1" "look f1 (butlast p) = Some NDir"
      "look f1 p = look f p \<or> look f1 p = Some NDir \<and> prefix p (butlast p)"
    using mkdir_p_total [OF assms(1) list_all_butlast [OF assms(2)] assms(4)] by metis
  have "\<not> prefix p (butlast p)" using assms(3) by (cases p rule: rev_cases) (auto dest: prefix_length_le)
  with f1(4) assms(5) have "look f1 p \<noteq> Some NDir" by auto
  moreover have "look f1 p \<noteq> Some (NLink t)" for t using f1(2) by (simp add: no_links_def)
  ultimately have "\<exists>g. write_bytes f1 p s = Inr g"
    using f1(3) by (auto simp: write_bytes_def real_path_plain [OF f1(2) assms(2)] split: option.split node.split)
  with f1(1) show ?thesis by (simp add: put_file_def)
qed

end
