(* ===== verification/QbeToolchain.thy ===== *)
theory QbeToolchain
  imports Codec PyProc PyNum
begin

text \<open>
  \<open>tools/qbe_toolchain.py\<close>: the pinned backend is identified by its record and the digests of its
  patches, a built binary is accepted only when it answers the probes as required, and a build is
  published together with a receipt of its inputs. The binary under test, the external commands
  (\<open>curl\<close>, \<open>tar\<close>, \<open>patch\<close>, \<open>make\<close>) and SHA-256 are parameters.
\<close>

record qbe_tools =
  qbe_run :: "string \<Rightarrow> string list \<Rightarrow> string \<Rightarrow> completed res"
  sh :: "string list \<Rightarrow> path option \<Rightarrow> fs \<Rightarrow> fs res"
  q_sha256 :: "string \<Rightarrow> string"

text \<open>Running the file at a path with arguments and an input text.\<close>

type_synonym runner = "string list \<Rightarrow> string \<Rightarrow> completed res"

definition run_binary :: "qbe_tools \<Rightarrow> fs \<Rightarrow> path \<Rightarrow> runner" where
  "run_binary t f p args input = bindE (read_bytes f p) (\<lambda>bytes. qbe_run t bytes args input)"

section \<open>Probes\<close>

definition QBE_CFLAGS :: string where
  "QBE_CFLAGS = ''-std=c99 -O2 -g -Wall -Wextra -Wpedantic''"

definition MOTION_PROBE :: string where
  "MOTION_PROBE = text_lines [''export function l $motion(l %a, l %b, l %c, l %n) {'', ''@start'', '' jmp @loop'',
     ''@loop'', '' %i =l phi @start 0, @join %next'', '' %sum =l phi @start 0, @join %newsum'',
     '' %more =w csltl %i, %n'', '' jnz %more, @body, @done'',
     ''@body'', '' %one =w csltl %a, %b'', '' %two =w cnel %b, %c'', '' %both =w and %one, %two'',
     '' jnz %both, @yes, @no'', ''@yes'', '' %left =l add %sum, 7'', '' jmp @join'',
     ''@no'', '' %right =l sub %sum, 3'', '' jmp @join'',
     ''@join'', '' %newsum =l phi @yes %left, @no %right'', '' %next =l add %i, 1'', '' jmp @loop'',
     ''@done'', '' ret %sum'', ''}'']"

definition ADDRESS_MOTION_PROBE :: string where
  "ADDRESS_MOTION_PROBE = text_lines [''export function l $address_motion(l %p, l %i, l %n) {'', ''@start'',
     '' %offset =l shl %i, 3'', '' %address =l add %p, %offset'', '' jmp @loop'',
     ''@loop'', '' %count =l phi @start 0, @body %next'', '' %sum =l phi @start 0, @body %newsum'',
     '' %more =w csltl %count, %n'', '' jnz %more, @body, @done'',
     ''@body'', '' %value =l loadl %address'', '' %newsum =l add %sum, %value'', '' %next =l add %count, 1'',
     '' jmp @loop'', ''@done'', '' ret %sum'', ''}'']"

definition COPY_CYCLE_PROBE :: string where
  "COPY_CYCLE_PROBE = text_lines [''export function l $copy_cycle(l %a, l %b, l %n) {'', ''@start'', '' jmp @loop'',
     ''@loop'', '' %i =l phi @start 0, @body %next'', '' %left =l phi @start %a, @body %right'',
     '' %right =l phi @start %b, @body %left'', '' %more =w csltl %i, %n'', '' jnz %more, @body, @done'',
     ''@body'', '' %next =l add %i, 1'', '' jmp @loop'', ''@done'', '' ret %i'', ''}'']"

definition ORDERED_CALLS_PROBE :: string where
  "ORDERED_CALLS_PROBE = text_lines [''export function l $ordered_calls(l %p) {'', ''@start'', '' jmp @init'',
     ''@init'', '' call $change_order(l %p)'', '' %r =l call $inspect_order(l %p)'', '' jnz 1, @first, @second'',
     ''@first'', '' %one =l add %r, 8'', '' %a =l loadl %one'', '' ret %a'',
     ''@second'', '' %two =l add %r, 8'', '' %b =l loadl %two'', '' ret %b'', ''}'']"

definition CONTRACTION_PROBE :: string where
  "CONTRACTION_PROBE = text_lines [''export function d $contract(d %a, d %b, d %c) {'', ''@start'',
     '' %product =d mulc %a, %b'', '' %result =d add %product, %c'', '' ret %result'', ''}'']"

definition CAPABILITY_PROBE :: string where
  "CAPABILITY_PROBE = text_lines [''export function d $probe(d %x) {'', ''@start'', '' %y =d sqrt %x'', '' ret %y'', ''}'',
     ''export function l $integer(l %x) {'', ''@start'', '' %a =l add %x, 7'',
     '' %b =l and %a, 65535'', '' %c =l sar %b, 65'', '' ret %c'', ''}'',
     ''export function l $memory(l %p) {'', ''@start'', '' %a =l add %p, 8'',
     '' %x =l loadl %a'', '' %b =l add %p, 16'', '' storel %x, %b'', '' ret %x'', ''}'',
     ''export function l $indexed(l %p, l %i, l %j) {'', ''@start'',
     '' %offset =l shl %i, 3'', '' %a =l add %p, %offset'', '' %x =l loadl %a'',
     '' %small =l shl %j, 2'', '' %b =l add %p, %small'', '' storew %x, %b'', '' ret %x'', ''}'',
     ''export function l $shared_memory(l %p, l %i, l %v) {'', ''@start'',
     '' %offset =l shl %i, 3'', '' %a =l add %p, %offset'', '' %old =l loadl %a'',
     '' storel %v, %a'', '' ret %old'', ''}'']"

section \<open>The checks\<close>

definition gcm_args :: "string \<Rightarrow> string list" where
  "gcm_args target = [''-t'', target, ''-d'', ''G'']"

definition moved_code :: "completed \<Rightarrow> string" where
  "moved_code r = after_str ''> After GCM:'' (proc_err r)"

definition call_rx :: rx where
  "call_rx = seqs [WordB, lit ''call $'', Grp 1 (rplus (Cls (lower_cls @ one_cls (CHR ''_''))))]"

definition check_ordered_effects :: "runner \<Rightarrow> string \<Rightarrow> unit res" where
  "check_ordered_effects run target =
     bindE (run (gcm_args target) ORDERED_CALLS_PROBE) (\<lambda>result.
     if returncode result \<noteq> 0 \<or> findall_group 1 call_rx (moved_code result) \<noteq> [''change_order'', ''inspect_order'']
     then Inl (ValueError ''QBE lacks the required ordered side effects'') else Inr ())"

definition ret_rx :: rx where
  "ret_rx = seqs [WordB, lit ''ret'', ropt (Cls (chr_cls ''wlsd'')), lit '' '']"

definition copy_rx :: rx where
  "copy_rx = seqs [lit ''%'', Alt (lit ''left'') (lit ''right''), ropt (Seq (lit ''.'') (rplus (Cls digit_cls))), WordB]"

definition check_copy_liveness :: "runner \<Rightarrow> unit res" where
  "check_copy_liveness run =
     bindE (run (gcm_args ''arm64'') COPY_CYCLE_PROBE) (\<lambda>result.
     if returncode result \<noteq> 0 \<or> search ret_rx (moved_code result) = None \<or> search copy_rx (moved_code result) \<noteq> None
     then Inl (ValueError ''QBE lacks the required dead copy cycle elimination'') else Inr ())"

definition fmadd_rx :: rx where
  "fmadd_rx = seqs [WordB, lit ''fmadd'', WordB]"

definition check_contraction_of :: "runner \<Rightarrow> string \<times> bool \<Rightarrow> unit res" where
  "check_contraction_of run tp = (case tp of (target, permitted) \<Rightarrow>
     bindE (run [''-t'', target] (if permitted then CONTRACTION_PROBE else replace_str '' mulc '' '' mul '' CONTRACTION_PROBE)) (\<lambda>result.
     if returncode result \<noteq> 0 \<or> (search fmadd_rx (proc_out result) \<noteq> None) \<noteq> (permitted \<and> startswith target ''arm64'')
     then Inl (ValueError (''QBE lacks the required '' @ target @ '' Float contraction behavior'')) else Inr ()))"

definition check_contraction :: "runner \<Rightarrow> unit res" where
  "check_contraction run = forE (check_contraction_of run)
     (List.product [''arm64'', ''arm64_apple'', ''amd64_sysv''] [True, False])"

text \<open>The instruction patterns: an operation, anything on the line, and its operand.\<close>

definition op_rx :: "string \<Rightarrow> rx list \<Rightarrow> rx" where
  "op_rx operation operand = seqs ([WordB, lit operation, rplus (Cls space_cls), Star (NCls (one_cls NL))] @ operand)"

definition register_rx :: rx where
  "register_rx = Seq (lit ''x'') (rplus (Cls digit_cls))"

definition immediate_rx :: "string \<times> string \<Rightarrow> rx" where
  "immediate_rx oc = (case oc of (operation, constant) \<Rightarrow>
     op_rx operation [lit ('', #'' @ constant), Star (Cls space_cls), Eol])"

definition offset_rx :: "string \<times> string \<Rightarrow> rx" where
  "offset_rx oc = (case oc of (operation, offset) \<Rightarrow>
     op_rx operation [lit ''['', register_rx, lit ('', #'' @ offset @ '']'')])"

definition indexed_rx :: "string \<times> string \<Rightarrow> rx" where
  "indexed_rx oc = (case oc of (operation, shift) \<Rightarrow>
     op_rx operation [lit ''['', register_rx, lit '', '', register_rx, lit ('', lsl #'' @ shift @ '']'')])"

definition shared_rx :: rx where
  "shared_rx = seqs [Bol, ropt (lit ''_''), lit ''shared_memory:'', Star (Cls space_cls), Eol]"

definition require_all :: "rx list \<Rightarrow> string \<Rightarrow> string \<Rightarrow> unit res" where
  "require_all rs s message = (if list_ex (\<lambda>r. search r s = None) rs then Inl (ValueError message) else Inr ())"

definition check_selection :: "string \<Rightarrow> string \<Rightarrow> unit res" where
  "check_selection target out =
     bindE (require_all (map immediate_rx [(''add'', ''7''), (''and'', ''65535''), (''asr'', ''1'')]) out
       (''QBE lacks the required '' @ target @ '' integer immediate selection'')) (\<lambda>_.
     bindE (require_all (map offset_rx [(''ldr'', ''8''), (''str'', ''16'')]) out
       (''QBE lacks the required '' @ target @ '' memory operand selection'')) (\<lambda>_.
     bindE (require_all (map indexed_rx [(''ldr'', ''3''), (''str'', ''2'')]) out
       (''QBE lacks the required '' @ target @ '' indexed memory operand selection'')) (\<lambda>_.
     (case split_rx shared_rx out of
        [before, shared] \<Rightarrow> require_all (map indexed_rx [(''ldr'', ''3''), (''str'', ''3'')]) shared
          (''QBE lacks the required '' @ target @ '' shared memory operand selection'')
      | _ \<Rightarrow> Inl (ValueError (''QBE lacks the required '' @ target @ '' shared memory operand selection''))))))"

definition check_target :: "runner \<Rightarrow> string \<times> string \<Rightarrow> unit res" where
  "check_target run ti = (case ti of (target, instruction) \<Rightarrow>
     bindE (run [''-t'', target] CAPABILITY_PROBE) (\<lambda>result.
     if returncode result \<noteq> 0 \<or> \<not> contains instruction (proc_out result)
     then Inl (ValueError (''QBE lacks the required '' @ target @ '' sqrt operation: '' @ strip (proc_err result)))
     else if startswith target ''arm64'' then check_selection target (proc_out result) else Inr ()))"

text \<open>The text of a block of the moved code: after its label, up to another label.\<close>

definition block :: "string \<Rightarrow> string \<Rightarrow> completed \<Rightarrow> string" where
  "block from_label to_label result = before_str (to_label @ [NL]) (after_str (from_label @ [NL]) (moved_code result))"

definition invariant_rx :: rx where
  "invariant_rx = seqs [WordB, alts [lit ''csltl'', lit ''cnel'', lit ''and''], WordB]"

definition load_sink_rx :: rx where
  "load_sink_rx = seqs [WordB, lit ''load %snk.'', rplus (Cls digit_cls)]"

definition check_capability :: "runner \<Rightarrow> unit res" where
  "check_capability run =
     bindE (forE (check_target run) [(''arm64_apple'', ''fsqrt''), (''arm64'', ''fsqrt''), (''amd64_sysv'', ''sqrtsd'')]) (\<lambda>_.
     bindE (run (gcm_args ''arm64'') MOTION_PROBE) (\<lambda>result.
     (let body = block ''@body'' ''@yes'' result in
     if returncode result \<noteq> 0 \<or> body = [] \<or> search invariant_rx body \<noteq> None
     then Inl (ValueError ''QBE lacks the required invariant expression motion'') else
     bindE (run (gcm_args ''arm64'') ADDRESS_MOTION_PROBE) (\<lambda>result.
     if returncode result \<noteq> 0 \<or> search load_sink_rx (block ''@body'' ''@done'' result) = None
     then Inl (ValueError ''QBE lacks the required loop address rematerialization'') else
     bindE (run (gcm_args ''arm64'') (replace_str ''%both =w and %one, %two'' ''%both =w copy %one'' MOTION_PROBE)) (\<lambda>result.
     if returncode result \<noteq> 0 \<or> \<not> contains ''csltl'' (block ''@body'' ''@yes'' result)
     then Inl (ValueError ''QBE lacks the required single comparison rematerialization'') else
     bindE (check_copy_liveness run) (\<lambda>_. bindE (check_contraction run) (\<lambda>_.
     check_ordered_effects run ''arm64'')))))))"

section \<open>The identity of the backend\<close>

definition digest_path :: "qbe_tools \<Rightarrow> fs \<Rightarrow> path \<Rightarrow> string res" where
  "digest_path t f p = bindE (read_bytes f p) (\<lambda>s. Inr (q_sha256 t s))"

definition PATCHES :: "string list" where
  "PATCHES = [''tools/qbe/sqrt.patch'', ''tools/qbe/arm64-immediates.patch'', ''tools/qbe/arm64-memory.patch'',
     ''tools/qbe/gcm.patch'', ''tools/qbe/fma.patch'']"

definition is_notE :: "json \<Rightarrow> string \<Rightarrow> string \<Rightarrow> bool res" where
  "is_notE d k s = bindE (item d k) (\<lambda>v. Inr (\<not> jeq v (JStr s)))"

definition startswithE :: "json \<Rightarrow> string \<Rightarrow> bool res" where
  "startswithE v p = (case v of JStr s \<Rightarrow> Inr (startswith s p) | _ \<Rightarrow> Inl AttributeError)"

definition check_patch :: "qbe_tools \<Rightarrow> fs \<Rightarrow> path \<Rightarrow> json \<times> string \<Rightarrow> unit res" where
  "check_patch t f base pp = (case pp of (patch, p) \<Rightarrow>
     raise_if (orE (notE (keys_are patch [''path'', ''sha256''])) (is_notE patch ''path'' p))
       (ValueError ''invalid QBE patch identity'') (
     bindE (digest_path t f (joinp base p)) (\<lambda>d.
     raise_if (is_notE patch ''sha256'' d) (ValueError ''QBE patch digest differs'') (Inr ()))))"

definition backend_identity :: "qbe_tools \<Rightarrow> fs \<Rightarrow> path \<Rightarrow> json res" where
  "backend_identity t f base =
     bindE (bindE (read_bytes f (joinp base ''tools/qbe/backend.json'')) loads) (\<lambda>backend.
     raise_if (notE (keys_are backend [''name'', ''version'', ''sourceURL'', ''sourceSHA256'', ''variant'', ''patches'']))
       (ValueError ''invalid QBE identity shape'') (
     raise_if (orE (is_notE backend ''name'' ''QBE'') (orE (is_notE backend ''version'' ''1.3'')
         (is_notE backend ''variant'' ''typerb-late-product-v1''))) (ValueError ''unsupported QBE identity'') (
     raise_if (orE (notE (bindE (item backend ''sourceURL'') (\<lambda>u. startswithE u ''https://'')))
         (notE (bindE (item backend ''sourceSHA256'') (fullmatchE (hex_rx 64))))) (ValueError ''invalid QBE source identity'') (
     bindE (item backend ''patches'') (\<lambda>ps. bindE (lenE ps) (\<lambda>n.
     if n \<noteq> length PATCHES then Inl (ValueError ''invalid QBE patch set'') else
     bindE (iterE ps) (\<lambda>patches. bindE (forE (check_patch t f base) (zip patches PATCHES)) (\<lambda>_.
     Inr backend))))))))"

section \<open>Building\<close>

record build_env =
  be_cc :: path
  be_platform :: string
  be_machine :: string
  be_builder :: path
  be_base :: path
  be_temp :: string

definition path_str :: "path \<Rightarrow> string" where
  "path_str p = CHR ''/'' # join ''/'' p"

definition build_inputs :: "qbe_tools \<Rightarrow> build_env \<Rightarrow> fs \<Rightarrow> json \<Rightarrow> path \<Rightarrow> json res" where
  "build_inputs t env f backend cc =
     bindE (digest_path t f (be_builder env)) (\<lambda>builder. bindE (digest_path t f cc) (\<lambda>compiler.
     Inr (JDict [(''backend'', backend), (''builderSHA256'', JStr builder), (''ccSHA256'', JStr compiler),
       (''platform'', JStr (be_platform env)), (''machine'', JStr (be_machine env)), (''cflags'', JStr QBE_CFLAGS)])))"

text \<open>The receipt of an earlier build still describes the inputs and the published binary.\<close>

definition reusable :: "qbe_tools \<Rightarrow> fs \<Rightarrow> json \<Rightarrow> path \<Rightarrow> path \<Rightarrow> bool res" where
  "reusable t f inputs receipt binary =
     (if is_file f receipt \<and> is_file f binary then
        bindE (bindE (read_bytes f receipt) loads) (\<lambda>previous.
        andE (bindE (get previous ''inputs'') (\<lambda>v. Inr (jeq v inputs)))
             (bindE (get previous ''binarySHA256'') (\<lambda>v. bindE (digest_path t f binary) (\<lambda>d. Inr (jeq v (JStr d))))))
      else Inr False)"

text \<open>The archive, downloaded when it is not there; its digest must be the recorded one.\<close>

definition fetch_archive :: "qbe_tools \<Rightarrow> json \<Rightarrow> path \<Rightarrow> path \<Rightarrow> fs \<Rightarrow> fs res" where
  "fetch_archive t backend stage archive f =
     bindE (item backend ''sourceURL'') (\<lambda>url. bindE (item backend ''sourceSHA256'') (\<lambda>sha.
     (let download = stage @ [''source.tar.xz''] in
      if is_file f archive then Inr f else
      bindE (sh t [''curl'', ''--fail'', ''--location'', ''--retry'', ''3'', str_of (\<lambda>v. []) url, ''-o'', path_str download] None f) (\<lambda>f1.
      bindE (digest_path t f1 download) (\<lambda>d.
      if \<not> jeq sha (JStr d) then Inl (ValueError ''QBE archive digest differs'') else
      bindE (mkdir_p f1 (butlast archive)) (\<lambda>f2. replace_path f2 download archive))))))"

definition apply_patch :: "qbe_tools \<Rightarrow> build_env \<Rightarrow> path \<Rightarrow> fs \<Rightarrow> json \<Rightarrow> fs res" where
  "apply_patch t env source f patch =
     bindE (item patch ''path'') (\<lambda>p.
     sh t [''patch'', ''--batch'', ''--fuzz=0'', ''-p1'', ''-i'', path_str (joinp (be_base env) (str_of (\<lambda>v. []) p))] (Some source) f)"

text \<open>Unpacking, patching and compiling below the stage; the directory of the source is returned.\<close>

definition compile_source :: "qbe_tools \<Rightarrow> build_env \<Rightarrow> json \<Rightarrow> path \<Rightarrow> path \<Rightarrow> path \<Rightarrow> fs \<Rightarrow> fs res" where
  "compile_source t env backend cc stage archive f =
     bindE (item backend ''sourceSHA256'') (\<lambda>sha. bindE (digest_path t f archive) (\<lambda>d.
     if \<not> jeq sha (JStr d) then Inl (ValueError ''QBE archive digest differs'') else
     bindE (sh t [''tar'', ''-xf'', path_str archive, ''-C'', path_str stage] None f) (\<lambda>f1.
     bindE (bindE (item backend ''patches'') iterE) (\<lambda>patches.
     bindE (foldE (apply_patch t env (stage @ [''qbe-1.3''])) f1 patches) (\<lambda>f2.
     sh t [''make'', ''-j2'', ''CC='' @ path_str cc, ''CFLAGS='' @ QBE_CFLAGS] (Some (stage @ [''qbe-1.3''])) f2)))))"

definition receipt_text :: "json \<Rightarrow> string \<Rightarrow> string" where
  "receipt_text inputs sha = json_text (\<lambda>q. []) pretty_opts 0 (JDict [(''inputs'', inputs), (''binarySHA256'', JStr sha)]) @ [NL]"

definition publish_binary :: "qbe_tools \<Rightarrow> json \<Rightarrow> path \<Rightarrow> path \<Rightarrow> path \<Rightarrow> fs \<Rightarrow> fs res" where
  "publish_binary t inputs stage source output f =
     bindE (mkdir_p f output) (\<lambda>f1.
     bindE (copy2 f1 source (stage @ [''published-qbe''])) (\<lambda>f2.
     bindE (digest_path t f2 (stage @ [''published-qbe''])) (\<lambda>sha.
     bindE (write_bytes f2 (stage @ [''build-info.json'']) (receipt_text inputs sha)) (\<lambda>f3.
     bindE (replace_path f3 (stage @ [''published-qbe'']) (output @ [''qbe''])) (\<lambda>f4.
     replace_path f4 (stage @ [''build-info.json'']) (output @ [''build-info.json'']))))))"

definition build_fresh :: "qbe_tools \<Rightarrow> build_env \<Rightarrow> json \<Rightarrow> json \<Rightarrow> path \<Rightarrow> path \<Rightarrow> path \<Rightarrow> fs \<Rightarrow> fs res" where
  "build_fresh t env backend inputs cc output archive f =
     (let stage = butlast output @ [''qbe-build-'' @ be_temp env]; source = stage @ [''qbe-1.3'', ''qbe''] in
      bindE (mkdir_new f stage) (\<lambda>f1.
      bindE (fetch_archive t backend stage archive f1) (\<lambda>f2.
      bindE (compile_source t env backend cc stage archive f2) (\<lambda>f3.
      bindE (check_capability (run_binary t f3 source)) (\<lambda>_.
      bindE (publish_binary t inputs stage source output f3) (\<lambda>f4.
      Inr (remove_tree f4 stage)))))))"

definition build :: "qbe_tools \<Rightarrow> build_env \<Rightarrow> fs \<Rightarrow> path \<Rightarrow> path option \<Rightarrow> (path \<times> fs) res" where
  "build t env f output archive =
     bindE (backend_identity t f (be_base env)) (\<lambda>backend.
     bindE (resolveE f output) (\<lambda>output.
     bindE (mkdir_p f (butlast output)) (\<lambda>f1.
     bindE (resolveE f1 (be_cc env)) (\<lambda>cc.
     if \<not> is_file f1 cc then Inl (ValueError ''QBE C compiler is not an executable file'') else
     bindE (build_inputs t env f1 backend cc) (\<lambda>inputs.
     bindE (reusable t f1 inputs (output @ [''build-info.json'']) (output @ [''qbe''])) (\<lambda>done.
     if done then Inr (output @ [''qbe''], f1) else
     bindE (case archive of None \<Rightarrow> Inr (butlast output @ [''qbe-1.3.tar.xz'']) | Some a \<Rightarrow> resolveE f1 a) (\<lambda>archive.
     bindE (build_fresh t env backend inputs cc output archive f1) (\<lambda>f2.
     Inr (output @ [''qbe''], f2)))))))))"

record qbe_arguments =
  arg_output :: "path option"
  arg_archive :: "path option"
  arg_check :: "path option"
  arg_identity :: bool

fun is_SubprocessError :: "pyerr \<Rightarrow> bool" where
  "is_SubprocessError (SubprocessError c) = True"
| "is_SubprocessError e = False"

text \<open>The exit status, the text on standard output and the files, which are not described after a failure.\<close>

definition qbe_main :: "qbe_tools \<Rightarrow> build_env \<Rightarrow> fs \<Rightarrow> qbe_arguments \<Rightarrow> (nat \<times> string \<times> fs option) res" where
  "qbe_main t env f args = catchE
     (if arg_identity args then
        bindE (backend_identity t f (be_base env)) (\<lambda>b.
        Inr (0, json_text (\<lambda>q. []) plain_opts 0 (sort_json b) @ [NL], Some f))
      else (case arg_check args of
          Some p \<Rightarrow> bindE (backend_identity t f (be_base env)) (\<lambda>_. bindE (resolveE f p) (\<lambda>binary.
            bindE (check_capability (run_binary t f binary)) (\<lambda>_. Inr (0, [], Some f))))
        | None \<Rightarrow> (case arg_output args of
            Some output \<Rightarrow> bindE (build t env f output (arg_archive args)) (\<lambda>(binary, f'). Inr (0, path_str binary @ [NL], Some f'))
          | None \<Rightarrow> Inl (SystemExit ''provide an output directory, --check or --identity''))))
     (\<lambda>e. is_ValueError e \<or> is_OSError e \<or> is_SubprocessError e) (\<lambda>e. Inr (1, [], None))"


section \<open>What an accepted identity and a published build establish\<close>

lemma check_patch_ok:
  assumes "check_patch t f base (patch, p) = Inr ()"
  shows "item patch ''path'' = Inr (JStr p) \<and>
    (\<exists>s. read_bytes f (joinp base p) = Inr s \<and> item patch ''sha256'' = Inr (JStr (q_sha256 t s)))"
  using assms by (auto simp: check_patch_def is_notE_def digest_path_def bindE_Inr_iff raise_if_iff orE_iff)


lemma run_binary_bytes: "read_bytes f p = Inr s \<Longrightarrow> run_binary t f p = qbe_run t s"
  by (intro ext) (simp add: run_binary_def)

text \<open>Publishing puts the checked bytes and their receipt in place.\<close>

lemma publish_binary_places:
  assumes pub: "publish_binary t inputs stage source output f = Inr g"
    and f: "no_links f" and src: "list_all plain_name source" and st: "list_all plain_name stage"
    and out: "list_all plain_name output" and apart: "\<not> prefix stage output"
  shows "\<exists>s m n. read_bytes f source = Inr s \<and> look g (output @ [''qbe'']) = Some (NFile s m) \<and>
     look g (output @ [''build-info.json'']) = Some (NFile (receipt_text inputs (q_sha256 t s)) n) \<and> no_links g"
proof -
  let ?b = "stage @ [''published-qbe'']" and ?r = "stage @ [''build-info.json'']"
  let ?q = "output @ [''qbe'']" and ?i = "output @ [''build-info.json'']"
  from pub obtain f1 f2 sha f3 f4 where f1: "mkdir_p f output = Inr f1" and f2: "copy2 f1 source ?b = Inr f2"
    and sha: "digest_path t f2 ?b = Inr sha" and f3: "write_bytes f2 ?r (receipt_text inputs sha) = Inr f3"
    and f4: "replace_path f3 ?b ?q = Inr f4" and g: "replace_path f4 ?r ?i = Inr g"
    unfolding publish_binary_def by (auto simp: bindE_Inr_iff)
  have pl: "list_all plain_name ?b" "list_all plain_name ?r" "list_all plain_name ?q" "list_all plain_name ?i"
    using st out by (simp_all add: plain_name_def)
  from f1 have m: "mkdirs f [] output = Inr f1" by (simp add: mkdir_p_plain [OF f out])
  have n1: "no_links f1" by (rule no_links_mkdirs [OF m f])
  obtain s m n where s: "read_bytes f1 source = Inr s" and e2: "f2 = fs_put (fs_put f1 ?b (NFile s n)) ?b (NFile s m)"
    using copy2_plain [OF n1 src pl(1) _ f2] by auto
  have n2: "no_links f2" unfolding e2 using n1 by (intro no_links_fs_put) auto
  have b2: "look f2 ?b = Some (NFile s m)" by (simp add: e2 look_fs_put)
  with sha have sha': "sha = q_sha256 t s"
    using read_bytes_plain [OF n2 pl(1)] by (auto simp: digest_path_def bindE_Inr_iff)
  from write_bytes_plain [OF n2 pl(2) _ f3] obtain k where e3: "f3 = fs_put f2 ?r (NFile (receipt_text inputs sha) k)" by auto
  have n3: "no_links f3" unfolding e3 using n2 by (intro no_links_fs_put) auto
  have l3: "look f3 ?b = Some (NFile s m)" "look f3 ?r = Some (NFile (receipt_text inputs sha) k)"
    using b2 by (simp_all add: e3 look_fs_put)
  from replace_path_plain [OF n3 pl(1,3) _ _ f4] l3
  have l4: "look f4 r = (if r = ?q then Some (NFile s m) else if r = ?b then None else look f3 r)" for r by auto
  have n4: "no_links f4" by (rule no_links_replace [OF n3 f4])
  have ne: "?r \<noteq> ?q" "?r \<noteq> ?b" "?q \<noteq> ?i" by auto
  have "?q \<noteq> ?r" by simp
  from replace_path_plain [OF n4 pl(2,4) _ _ g] l4 l3 ne
  have lg: "look g r = (if r = ?i then Some (NFile (receipt_text inputs sha) k) else if r = ?r then None else look f4 r)" for r
    by auto
  have "no_links g" by (rule no_links_replace [OF n4 g])
  moreover have "read_bytes f source = Inr s"
    using s by (auto simp: read_bytes_plain [OF f src] read_bytes_plain [OF n1 src] mkdirs_look [OF m] split: if_splits)
  ultimately show ?thesis using lg l4 sha' by auto
qed

definition sh_links :: "qbe_tools \<Rightarrow> bool" where
  "sh_links t = (\<forall>args cwd g g'. sh t args cwd g = Inr g' \<longrightarrow> no_links g \<longrightarrow> no_links g')"

lemma sh_linksD: "sh_links t \<Longrightarrow> sh t args cwd g = Inr g' \<Longrightarrow> no_links g \<Longrightarrow> no_links g'"
  by (auto simp: sh_links_def)

lemma fetch_archive_links:
  assumes "sh_links t" "fetch_archive t backend stage archive f = Inr g" "no_links f"
  shows "no_links g"
proof (cases "is_file f archive")
  case True
  with assms show ?thesis by (auto simp: fetch_archive_def bindE_Inr_iff)
next
  case False
  with assms(2) obtain args f1 f2 where f1: "sh t args None f = Inr f1"
    and f2: "mkdir_p f1 (butlast archive) = Inr f2" and g: "replace_path f2 (stage @ [''source.tar.xz'']) archive = Inr g"
    unfolding fetch_archive_def by (auto simp: bindE_Inr_iff Let_def split: if_splits)
  have "no_links f2" by (rule no_links_mkdir_p [OF sh_linksD [OF assms(1) f1 assms(3)] f2])
  then show ?thesis by (rule no_links_replace [OF _ g])
qed

lemma compile_source_links:
  assumes "sh_links t" "compile_source t env backend cc stage archive f = Inr g" "no_links f"
  shows "no_links g"
proof -
  let ?s = "stage @ [''qbe-1.3'']"
  from assms(2) obtain a1 a2 f1 patches f2 where f1: "sh t a1 None f = Inr f1"
    and f2: "foldE (apply_patch t env ?s) f1 patches = Inr f2" and g: "sh t a2 (Some ?s) f2 = Inr g"
    unfolding compile_source_def by (auto simp: bindE_Inr_iff split: if_splits)
  have "no_links f2"
  proof (rule foldE_invariant [where P = no_links, OF f2])
    show "no_links f1" by (rule sh_linksD [OF assms(1) f1 assms(3)])
  qed (auto simp: apply_patch_def bindE_Inr_iff dest: sh_linksD [OF assms(1)])
  then show ?thesis by (rule sh_linksD [OF assms(1) g])
qed

lemma build_fresh_places:
  assumes fresh: "build_fresh t env backend inputs cc output archive f = Inr g"
    and f: "no_links f" "sh_links t" and out: "list_all plain_name output"
    and apart: "\<not> prefix (butlast output @ [''qbe-build-'' @ be_temp env]) output"
  shows "\<exists>s. read_bytes g (output @ [''qbe'']) = Inr s \<and>
     read_bytes g (output @ [''build-info.json'']) = Inr (receipt_text inputs (q_sha256 t s)) \<and>
     check_capability (qbe_run t s) = Inr ()"
proof -
  let ?st = "butlast output @ [''qbe-build-'' @ be_temp env]"
  let ?src = "?st @ [''qbe-1.3'', ''qbe'']"
  from fresh obtain f1 f2 f3 f4 where f1: "mkdir_new f ?st = Inr f1" and f2: "fetch_archive t backend ?st archive f1 = Inr f2"
    and f3: "compile_source t env backend cc ?st archive f2 = Inr f3"
    and chk: "check_capability (run_binary t f3 ?src) = Inr ()"
    and pub: "publish_binary t inputs ?st ?src output f3 = Inr f4" and g: "g = remove_tree f4 ?st"
    unfolding build_fresh_def by (auto simp: bindE_Inr_iff Let_def)
  have st: "list_all plain_name ?st" using list_all_butlast [OF out] by (simp add: plain_name_def)
  then have src: "list_all plain_name ?src" by (simp add: plain_name_def)
  have "no_links f1" using mkdir_new_plain(1) [OF f(1) st _ f1] f(1) by (simp add: no_links_fs_put)
  then have n3: "no_links f3"
    by (intro compile_source_links [OF f(2) f3] fetch_archive_links [OF f(2) f2])
  obtain s m n where s: "read_bytes f3 ?src = Inr s" "look f4 (output @ [''qbe'']) = Some (NFile s m)"
    "look f4 (output @ [''build-info.json'']) = Some (NFile (receipt_text inputs (q_sha256 t s)) n)" "no_links f4"
    using publish_binary_places [OF pub n3 src st out apart] by blast
  have q: "\<not> prefix ?st (output @ [''qbe''])" "\<not> prefix ?st (output @ [''build-info.json''])"
    using apart by (auto simp: prefix_snoc)
  have ng: "no_links g" unfolding g by (rule no_links_remove_tree [OF s(4)])
  have pl: "list_all plain_name (output @ [''qbe''])" "list_all plain_name (output @ [''build-info.json''])"
    using out by (simp_all add: plain_name_def)
  have "look g (output @ [''qbe'']) = Some (NFile s m)"
    "look g (output @ [''build-info.json'']) = Some (NFile (receipt_text inputs (q_sha256 t s)) n)"
    unfolding g using s q by (simp_all add: look_remove_tree)
  then have "read_bytes g (output @ [''qbe'']) = Inr s"
    "read_bytes g (output @ [''build-info.json'']) = Inr (receipt_text inputs (q_sha256 t s))"
    by (simp_all add: read_bytes_plain [OF ng pl(1)] read_bytes_plain [OF ng pl(2)])
  with chk s(1) show ?thesis by (auto simp: run_binary_bytes)
qed


section \<open>Witnesses\<close>

definition demo_sha :: string where
  "demo_sha = replicate 64 (CHR ''a'')"

definition demo_qbe :: qbe_tools where
  "demo_qbe = \<lparr>qbe_run = (\<lambda>b args input. Inl (OSError ''qbe'')), sh = (\<lambda>args cwd g. Inl (OSError ''sh'')), q_sha256 = (\<lambda>s. demo_sha)\<rparr>"

definition demo_backend :: json where
  "demo_backend = JDict [(''name'', JStr ''QBE''), (''version'', JStr ''1.3''), (''sourceURL'', JStr ''https://c9x.me''),
     (''sourceSHA256'', JStr demo_sha), (''variant'', JStr ''typerb-late-product-v1''),
     (''patches'', JList (map (\<lambda>p. JDict [(''path'', JStr p), (''sha256'', JStr demo_sha)]) PATCHES))]"

definition demo_env :: build_env where
  "demo_env = \<lparr>be_cc = [''cc''], be_platform = ''linux'', be_machine = ''arm64'', be_builder = [''r'', ''b''], be_base = [''r''], be_temp = ''x''\<rparr>"

definition demo_inputs :: json where
  "demo_inputs = JDict [(''backend'', demo_backend), (''builderSHA256'', JStr demo_sha), (''ccSHA256'', JStr demo_sha),
       (''platform'', JStr ''linux''), (''machine'', JStr ''arm64''), (''cflags'', JStr QBE_CFLAGS)]"

definition demo_qbe_fs :: fs where
  "demo_qbe_fs = [([''cc''], NFile [] 493), ([''r'', ''b''], NFile [] 420),
     ([''r'', ''tools'', ''qbe'', ''backend.json''], NFile (json_text (\<lambda>q. []) plain_opts 0 demo_backend) 420),
     ([''o''], NDir), ([''o'', ''out'', ''qbe''], NFile [] 493),
     ([''o'', ''out'', ''build-info.json''], NFile (receipt_text demo_inputs demo_sha) 420)] @
     map (\<lambda>p. ([''r''] @ pure_parts p, NFile [] 420)) PATCHES"

lemma demo_qbe_links: "no_links demo_qbe_fs"
  by (rule no_links_list) (simp add: demo_qbe_fs_def not_link_def list_all_iff PATCHES_def)

lemma demo_qbe_look:
  "look demo_qbe_fs [''cc''] = Some (NFile [] 493)" "look demo_qbe_fs [''r'', ''b''] = Some (NFile [] 420)"
  "look demo_qbe_fs [''o''] = Some NDir" "look demo_qbe_fs [''o'', ''out'', ''qbe''] = Some (NFile [] 493)"
  "look demo_qbe_fs [''o'', ''out'', ''build-info.json''] = Some (NFile (receipt_text demo_inputs demo_sha) 420)"
  "look demo_qbe_fs [''r'', ''tools'', ''qbe'', ''backend.json''] = Some (NFile (json_text (\<lambda>q. []) plain_opts 0 demo_backend) 420)"
  by (simp_all add: look_def demo_qbe_fs_def)

lemma demo_patch_look: "q \<in> set PATCHES \<Longrightarrow> look demo_qbe_fs ([''r''] @ pure_parts q) = Some (NFile [] 420)"
  by (auto simp: PATCHES_def pure_parts_def look_def demo_qbe_fs_def)

lemma demo_qbe_reads:
  "read_bytes demo_qbe_fs [''cc''] = Inr []" "read_bytes demo_qbe_fs [''r'', ''b''] = Inr []"
  "read_bytes demo_qbe_fs [''o'', ''out'', ''qbe''] = Inr []"
  "read_bytes demo_qbe_fs [''o'', ''out'', ''build-info.json''] = Inr (receipt_text demo_inputs demo_sha)"
  "read_bytes demo_qbe_fs [''r'', ''tools'', ''qbe'', ''backend.json''] = Inr (json_text (\<lambda>q. []) plain_opts 0 demo_backend)"
  by (simp_all add: read_bytes_plain [OF demo_qbe_links] plain_name_def demo_qbe_look)

lemma demo_backend_json:
  "loads (json_text (\<lambda>q. []) plain_opts 0 demo_backend) = Inr demo_backend"
  "loads (receipt_text demo_inputs demo_sha) = Inr (JDict [(''inputs'', demo_inputs), (''binarySHA256'', JStr demo_sha)])"
proof -
  have w: "wf_json (\<lambda>q. []) demo_backend" by (simp add: demo_backend_def PATCHES_def)
  from loads_json_text [OF seps_ok_opts(1) w, of "[]"]
  show "loads (json_text (\<lambda>q. []) plain_opts 0 demo_backend) = Inr demo_backend" by simp
  have "wf_json (\<lambda>q. []) (JDict [(''inputs'', demo_inputs), (''binarySHA256'', JStr demo_sha)])"
    by (simp add: demo_inputs_def w)
  from loads_json_text [OF seps_ok_opts(2) this, of "[NL]"]
  show "loads (receipt_text demo_inputs demo_sha) = Inr (JDict [(''inputs'', demo_inputs), (''binarySHA256'', JStr demo_sha)])"
    by (simp add: receipt_text_def is_ws_def)
qed

lemma demo_identity: "backend_identity demo_qbe demo_qbe_fs [''r''] = Inr demo_backend"
proof -
  have p: "joinp [''r''] ''tools/qbe/backend.json'' = [''r'', ''tools'', ''qbe'', ''backend.json'']"
    by (simp add: joinp_def is_absolute_def pure_parts_def)
  have "read_bytes demo_qbe_fs (joinp [''r''] q) = Inr []" if "q \<in> set PATCHES" for q
  proof -
    have "list_all plain_name ([''r''] @ pure_parts q)" "joinp [''r''] q = [''r''] @ pure_parts q"
      using that by (auto simp: PATCHES_def joinp_def is_absolute_def pure_parts_def plain_name_def)
    with demo_patch_look [OF that] show ?thesis by (simp add: read_bytes_plain [OF demo_qbe_links])
  qed
  then have "check_patch demo_qbe demo_qbe_fs [''r''] (JDict [(''path'', JStr q), (''sha256'', JStr demo_sha)], q) = Inr ()"
    if "q \<in> set PATCHES" for q
    using that by (simp add: check_patch_def is_notE_def digest_path_def demo_qbe_def)
  then have "forE (check_patch demo_qbe demo_qbe_fs [''r''])
      (zip (map (\<lambda>p. JDict [(''path'', JStr p), (''sha256'', JStr demo_sha)]) PATCHES) PATCHES) = Inr ()"
    by (auto simp: forE_iff PATCHES_def)
  moreover have "is_hex 64 demo_sha"
    by (simp add: is_hex_def demo_sha_def list_all_iff in_cls_def hex_cls_def)
  ultimately show ?thesis
    by (simp add: backend_identity_def p demo_qbe_reads demo_backend_json)
      (simp add: demo_backend_def is_notE_def startswithE_def)
qed


lemma demo_build: "build demo_qbe demo_env demo_qbe_fs [''o'', ''out''] None = Inr ([''o'', ''out'', ''qbe''], demo_qbe_fs)"
proof -
  have m: "mkdir_p demo_qbe_fs [''o''] = Inr demo_qbe_fs"
    by (simp add: mkdir_p_plain [OF demo_qbe_links] plain_name_def demo_qbe_look)
  have r: "resolveE demo_qbe_fs [''o'', ''out''] = Inr [''o'', ''out'']" "resolveE demo_qbe_fs [''cc''] = Inr [''cc'']"
    by (simp_all add: resolveE_def real_path_plain [OF demo_qbe_links] plain_name_def)
  have fl: "is_file demo_qbe_fs [''cc'']" "is_file demo_qbe_fs [''o'', ''out'', ''qbe'']"
    "is_file demo_qbe_fs [''o'', ''out'', ''build-info.json'']"
    by (simp_all add: is_file_def stat_plain [OF demo_qbe_links] plain_name_def demo_qbe_look)
  have i: "build_inputs demo_qbe demo_env demo_qbe_fs demo_backend [''cc''] = Inr demo_inputs"
    by (simp add: build_inputs_def digest_path_def demo_env_def demo_qbe_reads demo_inputs_def demo_qbe_def)
  have "jeq demo_inputs demo_inputs" by (simp add: demo_inputs_def demo_backend_def PATCHES_def)
  then have u: "reusable demo_qbe demo_qbe_fs demo_inputs [''o'', ''out'', ''build-info.json''] [''o'', ''out'', ''qbe''] = Inr True"
    by (simp add: reusable_def fl demo_qbe_reads demo_backend_json digest_path_def demo_qbe_def)
  show ?thesis
    by (simp add: build_def demo_env_def [THEN arg_cong [where f = be_base]] demo_identity r m)
      (simp add: demo_env_def r fl i [unfolded demo_env_def] u)
qed


end
