(* ===== verification/PyRegexText.thy ===== *)
theory PyRegexText
  imports PyRegex PyJsonText
begin

text \<open>
  \<open>re.compile\<close> for patterns that are data: the part of the pattern language the schema files of the
  repository use (literals, escapes, classes, groups, alternation, \<open>*\<close>, \<open>+\<close>, \<open>?\<close>, \<open>{n}\<close>, \<open>^\<close>, \<open>$\<close>,
  \<open>.\<close>). A pattern outside this language does not compile. Groups are not numbered, because only
  whether \<open>re.search\<close> finds a match is used.
\<close>

definition escape_cls :: "char \<Rightarrow> cls option" where
  "escape_cls c = (if c = CHR ''d'' then Some digit_cls else if c = CHR ''w'' then Some word_cls
     else if c = CHR ''s'' then Some space_cls else if c = CHR ''n'' then Some (one_cls NL)
     else if c = CHR ''t'' then Some (one_cls TAB)
     else if in_cls (lower_cls @ upper_cls @ digit_cls) c then None else Some (one_cls c))"

text \<open>The members of a class, after its opening bracket; a \<open>-\<close> before the closing bracket stands
  for itself.\<close>

fun class_body :: "cls \<Rightarrow> string \<Rightarrow> (cls \<times> string) option" where
  "class_body acc [] = None"
| "class_body acc (a # s) =
     (if a = CHR '']'' \<and> acc \<noteq> [] then Some (acc, s)
      else if a = BSL then
        (case s of [] \<Rightarrow> None
         | e # t \<Rightarrow> (case escape_cls e of None \<Rightarrow> None | Some k \<Rightarrow> class_body (acc @ k) t))
      else
        (case s of
           h # b # t \<Rightarrow>
             if h = CHR ''-'' \<and> b \<noteq> CHR '']'' then
               (if b = BSL \<or> (of_char b :: nat) < of_char a then None else class_body (acc @ [(a, b)]) t)
             else class_body (acc @ one_cls a) s
         | _ \<Rightarrow> class_body (acc @ one_cls a) s))"

definition class_rx :: "string \<Rightarrow> (rx \<times> string) option" where
  "class_rx s = (if startswith s ''^''
     then map_option (\<lambda>(k, t). (NCls k, t)) (class_body [] (tl s))
     else map_option (\<lambda>(k, t). (Cls k, t)) (class_body [] s))"

text \<open>A repetition after an atom.\<close>

definition repeat_rx :: "rx \<Rightarrow> string \<Rightarrow> (rx \<times> string) option" where
  "repeat_rx r s = (case s of
      [] \<Rightarrow> Some (r, [])
    | c # t \<Rightarrow>
        if c = CHR ''*'' then Some (Star r, t)
        else if c = CHR ''+'' then Some (rplus r, t)
        else if c = CHR ''?'' then Some (ropt r, t)
        else if c = CHR ''{'' then
          (let ds = takeWhile is_digit t in
           if ds \<noteq> [] \<and> startswith (dropWhile is_digit t) ''}''
           then Some (Rep (nat_of_digits ds) r, tl (dropWhile is_digit t)) else None)
        else Some (r, s))"

text \<open>Each call consumes a character or hands the same text to the next level, so three times the
  length of the pattern is enough fuel.\<close>

fun alt_rx :: "nat \<Rightarrow> string \<Rightarrow> (rx \<times> string) option"
  and seq_rx :: "nat \<Rightarrow> string \<Rightarrow> (rx \<times> string) option"
  and atom_rx :: "nat \<Rightarrow> string \<Rightarrow> (rx \<times> string) option" where
  "alt_rx 0 s = None"
| "alt_rx (Suc n) s = (case seq_rx n s of None \<Rightarrow> None
     | Some (r, t) \<Rightarrow> if startswith t ''|''
         then map_option (\<lambda>(q, u). (Alt r q, u)) (alt_rx n (tl t)) else Some (r, t))"
| "seq_rx 0 s = None"
| "seq_rx (Suc n) s =
     (if s = [] \<or> startswith s '')'' \<or> startswith s ''|'' then Some (Eps, s) else
      (case atom_rx n s of None \<Rightarrow> None
       | Some (a, t) \<Rightarrow> (case repeat_rx a t of None \<Rightarrow> None
          | Some (r, u) \<Rightarrow> map_option (\<lambda>(q, v). (Seq r q, v)) (seq_rx n u))))"
| "atom_rx 0 s = None"
| "atom_rx (Suc n) s = (case s of [] \<Rightarrow> None
     | c # t \<Rightarrow>
        if c = CHR ''('' then
          (if startswith t ''?'' \<and> \<not> startswith t ''?:'' then None else
           (case alt_rx n (if startswith t ''?:'' then drop 2 t else t) of None \<Rightarrow> None
            | Some (r, u) \<Rightarrow> if startswith u '')'' then Some (r, tl u) else None))
        else if c = CHR ''['' then class_rx t
        else if c = CHR ''.'' then Some (Dot, t)
        else if c = CHR ''^'' then Some (Bot, t)
        else if c = CHR ''$'' then Some (Eot, t)
        else if c = BSL then
          (case t of [] \<Rightarrow> None
           | e # u \<Rightarrow> if e = CHR ''b'' then Some (WordB, u)
               else map_option (\<lambda>k. (Cls k, u)) (escape_cls e))
        else if c \<in> set ''*+?{'' then None
        else Some (chr c, t))"

definition compile_rx :: "string \<Rightarrow> rx option" where
  "compile_rx s = (case alt_rx (3 * length s + 3) s of
      Some (r, []) \<Rightarrow> Some r
    | _ \<Rightarrow> None)"

text \<open>Whether \<open>re.search(pattern, s)\<close> matches; \<open>None\<close> is \<open>re.error\<close>.\<close>

definition re_search :: "string \<Rightarrow> string \<Rightarrow> bool option" where
  "re_search pat s = map_option (\<lambda>r. search r s \<noteq> None) (compile_rx pat)"


end
