(* ===== verification/StrictJson.thy ===== *)
theory StrictJson
  imports PyJsonRoundtrip
begin

text \<open>
  The strict JSON reader of \<open>tools/compatibility_manifest.py\<close>: objects with a repeated member are
  refused. It refines \<open>json.loads\<close>.
\<close>

section \<open>Strict reading\<close>

definition add_member :: "(string \<times> json) list \<Rightarrow> string \<times> json \<Rightarrow> (string \<times> json) list res" where
  "add_member result kv = (case kv of (key, v) \<Rightarrow>
     if key \<in> fst ` set result then Inl (ValidationError (''duplicate JSON object member: '' @ key))
     else Inr (result @ [(key, v)]))"

definition reject_duplicate_members :: "(string \<times> json) list \<Rightarrow> json res" where
  "reject_duplicate_members pairs =
     bindE (foldE add_member [] pairs) (\<lambda>result. Inr (JDict result))"

definition strict_hooks :: hooks where
  "strict_hooks = plain_hooks\<lparr>pairs_hook := reject_duplicate_members\<rparr>"

definition load_json_text_strict :: "string \<Rightarrow> string \<Rightarrow> json res" where
  "load_json_text_strict source label = catchE (loads_with strict_hooks source) is_ValueError
     (\<lambda>e. Inl (ValidationError (label @ '': invalid JSON'')))"


section \<open>Strict reading refines plain reading\<close>

lemma fold_add_member:
  "foldE add_member acc kvs = Inr out \<longleftrightarrow>
     distinct (map fst kvs) \<and> fst ` set acc \<inter> fst ` set kvs = {} \<and> out = acc @ kvs"
proof (induction kvs arbitrary: acc)
  case (Cons kv kvs)
  obtain k v where kv: "kv = (k, v)" by (cases kv)
  show ?case
  proof (cases "k \<in> fst ` set acc")
    case False
    then show ?thesis using Cons.IH [of "acc @ [(k, v)]"] by (auto simp: kv add_member_def)
  qed (auto simp: kv add_member_def)
qed auto

lemma reject_duplicate_members_iff:
  "reject_duplicate_members kvs = Inr v \<longleftrightarrow> distinct (map fst kvs) \<and> v = JDict kvs"
  by (auto simp: reject_duplicate_members_def bindE_Inr_iff fold_add_member)

lemma fold_add_member_Inl: "foldE add_member acc kvs = Inl e \<Longrightarrow> \<exists>m. e = ValidationError m"
proof (induction kvs arbitrary: acc)
  case (Cons kv kvs)
  then show ?case by (cases kv) (auto simp: add_member_def bindE_Inl_iff split: if_splits)
qed simp

lemma reject_duplicate_members_Inl: "reject_duplicate_members kvs = Inl e \<Longrightarrow> \<exists>m. e = ValidationError m"
  by (auto simp: reject_duplicate_members_def bindE_Inl_iff dest: fold_add_member_Inl)

lemma strict_faithful: "faithful_hooks strict_hooks" "keeps_consts strict_hooks v"
  by (simp_all add: faithful_hooks_def keeps_consts_def strict_hooks_def reject_duplicate_members_iff)

text \<open>Only an object and an array go on to their members; on every other text the two readers agree.\<close>

lemma strict_value_cases:
  obtains (object) "\<not> startswith s [DQ]" "startswith s ''{''" "\<not> startswith (skip_ws (tl s)) ''}''"
  | (array) "\<not> startswith s [DQ]" "\<not> startswith s ''{''" "startswith s ''[''" "\<not> startswith (skip_ws (tl s)) '']''"
  | (other) "pval strict_hooks (Suc n) s = pval plain_hooks (Suc n) s"
      "\<not> startswith s ''{'' \<or> startswith (skip_ws (tl s)) ''}''" "\<not> startswith s ''['' \<or> startswith (skip_ws (tl s)) '']''"
proof -
  have c: "const_hook strict_hooks = const_hook plain_hooks" by (simp add: strict_hooks_def)
  have e: "pairs_hook strict_hooks [] = pairs_hook plain_hooks []"
    by (simp add: strict_hooks_def plain_hooks_def reject_duplicate_members_def dict_of_def)
  show thesis
  proof (cases "startswith s [DQ]")
    case True
    have "\<not> startswith s ''{''" "\<not> startswith s ''[''" using True by (cases s; simp)+
    then show thesis by (intro other) (simp_all add: True cong: if_cong)
  next
    case q: False
    show thesis
    proof (cases "startswith s ''{''")
      case True
      show thesis
      proof (cases "startswith (skip_ws (tl s)) ''}''")
        case False
        show thesis by (rule object [OF q True False])
      next
        case True2: True
        have "\<not> startswith s ''[''" using True by (cases s) simp_all
        then show thesis by (intro other) (simp_all add: q True True2 e Let_def)
      qed
    next
      case b: False
      show thesis
      proof (cases "startswith s ''[''")
        case True
        show thesis
        proof (cases "startswith (skip_ws (tl s)) '']''")
          case False
          show thesis by (rule array [OF q b True False])
        next
          case True2: True
          show thesis by (rule other) (simp_all add: q b True True2 Let_def)
        qed
      next
        case False
        show thesis by (rule other) (simp_all add: q b False c)
      qed
    qed
  qed
qed

lemma plain_value_error:
  assumes "pval plain_hooks (Suc n) s = Inl e" "\<not> startswith s ''{'' \<or> startswith (skip_ws (tl s)) ''}''"
    "\<not> startswith s ''['' \<or> startswith (skip_ws (tl s)) '']''"
  shows "is_ValueError e"
proof -
  have "const_hook plain_hooks c \<noteq> Inl x" "pairs_hook plain_hooks [] \<noteq> Inl x" for c x
    by (simp_all add: plain_hooks_def)
  with assms show ?thesis by (auto simp: Let_def bindE_Inl_iff split: if_splits option.splits)
qed

lemma strict_scan_plain:
  "pval strict_hooks n s = Inr r \<Longrightarrow> pval plain_hooks n s = Inr r"
  "pelems strict_hooks n xs s = Inr r \<Longrightarrow> pelems plain_hooks n xs s = Inr r"
  "pmembers strict_hooks n kvs s = Inr r \<Longrightarrow> pmembers plain_hooks n kvs s = Inr r"
proof (induction strict_hooks n s and strict_hooks n xs s and strict_hooks n kvs s arbitrary: r and r and r
    rule: pval_pelems_pmembers.induct)
  case (2 n s)
  show ?case
  proof (cases rule: strict_value_cases [where s = s and n = n])
    case object
    with 2(1) 2(3) show ?thesis by (simp add: Let_def)
  next
    case array
    with 2(2) 2(3) show ?thesis by (simp add: Let_def)
  qed (use 2(3) in simp)
next
  case (4 n acc s)
  from 4(3) obtain v t where v: "pval strict_hooks n s = Inr (v, t)" by (auto simp: bindE_Inr_iff)
  with 4(3) 4(1) 4(2) [of "(v, t)" v t "skip_ws t"] show ?case by (simp add: Let_def split: if_splits)
next
  case (6 n acc s)
  have p: "pairs_hook plain_hooks kvs = Inr v" if "pairs_hook strict_hooks kvs = Inr v" for kvs v
    using that by (simp add: strict_hooks_def plain_hooks_def reject_duplicate_members_iff dict_of_distinct)
  from 6(3) obtain k t where k: "startswith s [DQ]" "string_body (tl s) = Some (k, t)" "startswith (skip_ws t) '':''"
    by (auto simp: Let_def split: if_splits option.splits)
  with 6(3) obtain v u where v: "pval strict_hooks n (skip_ws (tl (skip_ws t))) = Inr (v, u)"
    by (auto simp: bindE_Inr_iff)
  have v': "pval plain_hooks n (skip_ws (tl (skip_ws t))) = Inr (v, u)" using 6(1) k v by blast
  have m: "pmembers plain_hooks n (acc @ [(k, v)]) (skip_ws (tl (skip_ws u))) = Inr r"
    if "startswith (skip_ws u) '',''" "pmembers strict_hooks n (acc @ [(k, v)]) (skip_ws (tl (skip_ws u))) = Inr r"
    using 6(2) k v that by blast
  show ?case using 6(3) k v v' m by (auto simp: Let_def bindE_Inr_iff dest!: p split: if_splits)
qed simp_all

lemma strict_scan_errors:
  "pval strict_hooks n s = Inl e \<Longrightarrow> is_ValueError e \<or> (\<exists>m. e = ValidationError m)"
  "pelems strict_hooks n xs s = Inl e \<Longrightarrow> is_ValueError e \<or> (\<exists>m. e = ValidationError m)"
  "pmembers strict_hooks n kvs s = Inl e \<Longrightarrow> is_ValueError e \<or> (\<exists>m. e = ValidationError m)"
proof (induction strict_hooks n s and strict_hooks n xs s and strict_hooks n kvs s arbitrary: e and e and e
    rule: pval_pelems_pmembers.induct)
  case (2 n s)
  show ?case
  proof (cases rule: strict_value_cases [where s = s and n = n])
    case object
    with 2(1) 2(3) show ?thesis by (simp add: Let_def)
  next
    case array
    with 2(2) 2(3) show ?thesis by (simp add: Let_def)
  next
    case other
    with 2(3) show ?thesis using plain_value_error by metis
  qed
next
  case (4 n acc s)
  show ?case
  proof (cases "pval strict_hooks n s")
    case (Inr vt)
    obtain v t where "vt = (v, t)" by (cases vt)
    with Inr 4(3) 4(2) [of "(v, t)" v t "skip_ws t"] show ?thesis by (simp add: Let_def split: if_splits) force
  qed (use 4 in simp)
next
  case (6 n acc s)
  have p: "\<exists>m. x = ValidationError m" if "pairs_hook strict_hooks kvs = Inl x" for kvs x
    using that by (auto simp: strict_hooks_def dest: reject_duplicate_members_Inl)
  from 6 show ?case by (auto simp: Let_def bindE_Inl_iff dest!: p split: if_splits option.splits) blast+
qed simp_all

lemma load_strict_cases:
  "case load_json_text_strict source label of Inl e \<Rightarrow> \<exists>m. e = ValidationError m | Inr v \<Rightarrow> loads source = Inr v"
proof (cases "loads_with strict_hooks source")
  case (Inl e)
  have "is_ValueError e \<or> (\<exists>m. e = ValidationError m)"
  proof (cases "pval strict_hooks (2 * length source + 2) (skip_ws source)")
    case (Inl e')
    with \<open>loads_with strict_hooks source = Inl e\<close> strict_scan_errors(1) [OF Inl] show ?thesis
      unfolding loads_with_def by (simp del: pval.simps)
  next
    case (Inr vt)
    with \<open>loads_with strict_hooks source = Inl e\<close> show ?thesis
      unfolding loads_with_def by (cases vt) (auto simp del: pval.simps split: if_splits)
  qed
  then show ?thesis using Inl by (auto simp: load_json_text_strict_def)
next
  case (Inr v)
  then obtain vt where vt: "pval strict_hooks (2 * length source + 2) (skip_ws source) = Inr vt"
    unfolding loads_with_def bindE_Inr_iff by blast
  with Inr strict_scan_plain(1) [OF vt] have "loads source = Inr v"
    unfolding loads_def loads_with_def by (simp del: pval.simps)
  then show ?thesis using Inr by (simp add: load_json_text_strict_def)
qed



end
