(* ===== verification/Compatibility.thy ===== *)
theory Compatibility
  imports QbeToolchain PyRegexText StrictJson
begin

text \<open>
  \<open>tools/compatibility_manifest.py\<close>: the compatibility declaration is read strictly, validated
  against its schema, and compared with the values the repository pins in its files, workflows and
  tools. The reference compiler is a parameter; the texts of floats and of containers inside
  messages are left out.
\<close>

section \<open>Reading files\<close>

definition read_or :: "string \<Rightarrow> fs \<Rightarrow> path \<Rightarrow> string res" where
  "read_or message f p = catchE (read_bytes f p) is_OSError (\<lambda>e. Inl (ValidationError (message @ posix p)))"

definition load_json_strict :: "fs \<Rightarrow> path \<Rightarrow> json res" where
  "load_json_strict f p = bindE (read_or ''cannot read '' f p) (\<lambda>source. load_json_text_strict source (posix p))"

section \<open>The schema\<close>

definition json_type_matches :: "json \<Rightarrow> json \<Rightarrow> bool res" where
  "json_type_matches v expected =
     (if expected = JStr ''object'' then Inr (is_dict v)
      else if expected = JStr ''array'' then Inr (is_list v)
      else if expected = JStr ''string'' then Inr (is_str v)
      else if expected = JStr ''integer'' then Inr (isinstance_int v \<and> \<not> is_bool v)
      else if expected = JStr ''null'' then Inr (v = JNull)
      else Inl (ValidationError ''schema uses unsupported type''))"

definition bad :: "string \<Rightarrow> string \<Rightarrow> pyerr" where
  "bad location message = ValidationError (location @ '': '' @ message)"

text \<open>The keywords that apply to every value.\<close>

definition check_value :: "json \<Rightarrow> json \<Rightarrow> string \<Rightarrow> unit res" where
  "check_value v schema location =
     bindE (get schema ''type'') (\<lambda>expected.
     raise_if (andE (Inr (expected \<noteq> JNull)) (notE (json_type_matches v expected))) (bad location ''expected type'') (
     raise_if (andE (hasE ''const'' schema) (bindE (item schema ''const'') (\<lambda>c. Inr (\<not> jeq v c)))) (bad location ''expected constant'') (
     raise_if (andE (hasE ''enum'' schema) (bindE (item schema ''enum'') (\<lambda>e. notE (inE v e))))
       (bad location ''value is not in the allowed set'') (Inr ()))))"

definition check_pattern :: "json \<Rightarrow> json \<Rightarrow> string \<Rightarrow> unit res" where
  "check_pattern v schema location = (case v of
      JStr s \<Rightarrow> ifE (hasE ''pattern'' schema)
        (bindE (item schema ''pattern'') (\<lambda>p. (case p of
            JStr pat \<Rightarrow> (case re_search pat s of
               None \<Rightarrow> Inl (bad location ''invalid schema pattern'')
             | Some matched \<Rightarrow> if matched then Inr () else Inl (bad location ''value does not match the required pattern''))
          | _ \<Rightarrow> Inl TypeError)))
        (Inr ())
    | _ \<Rightarrow> Inr ())"

definition check_members :: "json \<Rightarrow> json \<Rightarrow> string \<Rightarrow> unit res" where
  "check_members v schema location =
     bindE (bindE (getd schema ''required'' (JList [])) iterE) (\<lambda>required.
     bindE (filterE (\<lambda>k. notE (inE k v)) required) (\<lambda>missing.
     if missing \<noteq> [] then Inl (bad location ''missing required member'') else
     bindE (getd schema ''properties'' (JDict [])) (\<lambda>properties.
     bindE (get schema ''additionalProperties'') (\<lambda>ap.
     if ap \<noteq> JBool False then Inr () else
     bindE (iterE v) (\<lambda>keys. bindE (filterE (\<lambda>k. notE (inE k properties)) keys) (\<lambda>unknown.
     if unknown \<noteq> [] then Inl (bad location ''unknown member'') else Inr ()))))))"

definition encode_item :: "(rat \<Rightarrow> string) \<Rightarrow> json \<Rightarrow> string" where
  "encode_item fr v = json_text fr canonical_opts 0 (sort_json v)"

definition check_items :: "(rat \<Rightarrow> string) \<Rightarrow> json list \<Rightarrow> json \<Rightarrow> string \<Rightarrow> unit res" where
  "check_items fr xs schema location =
     raise_if (bindE (getd schema ''minItems'' (JInt 0)) (\<lambda>m. ltE (JInt (int (length xs))) m)) (bad location ''array has too few items'') (
     raise_if (andE (hasE ''maxItems'' schema) (bindE (item schema ''maxItems'') (\<lambda>m. ltE m (JInt (int (length xs))))))
       (bad location ''array has too many items'') (
     raise_if (bindE (get schema ''uniqueItems'') (\<lambda>u. Inr (truthy u \<and> \<not> distinct (map (encode_item fr) xs))))
       (bad location ''array items must be unique'') (Inr ())))"

text \<open>The whole check, recursive over the instance: the members that the schema names, and the items
  when the schema has an item schema.\<close>

function (sequential) validate_schema :: "(rat \<Rightarrow> string) \<Rightarrow> json \<Rightarrow> json \<Rightarrow> string \<Rightarrow> unit res"
  and validate_members :: "(rat \<Rightarrow> string) \<Rightarrow> (string \<times> json) list \<Rightarrow> json \<Rightarrow> string \<Rightarrow> unit res"
  and validate_items :: "(rat \<Rightarrow> string) \<Rightarrow> json list \<Rightarrow> nat \<Rightarrow> json \<Rightarrow> string \<Rightarrow> unit res" where
  "validate_schema fr v schema location =
     bindE (check_value v schema location) (\<lambda>_.
     bindE (check_pattern v schema location) (\<lambda>_.
     (case v of
        JDict kvs \<Rightarrow> bindE (check_members v schema location) (\<lambda>_.
          bindE (getd schema ''properties'' (JDict [])) (\<lambda>properties. validate_members fr kvs properties location))
      | JList xs \<Rightarrow> bindE (check_items fr xs schema location) (\<lambda>_.
          bindE (get schema ''items'') (\<lambda>s. if s = JNull then Inr () else validate_items fr xs 0 s location))
      | _ \<Rightarrow> Inr ())))"
| "validate_members fr [] properties location = Inr ()"
| "validate_members fr ((key, v) # kvs) properties location =
     bindE (ifE (hasE key properties)
        (bindE (item properties key) (\<lambda>s. validate_schema fr v s (location @ ''.'' @ key))) (Inr ())) (\<lambda>_.
     validate_members fr kvs properties location)"
| "validate_items fr [] i s location = Inr ()"
| "validate_items fr (v # vs) i s location =
     bindE (validate_schema fr v s (location @ ''['' @ show_nat i @ '']'')) (\<lambda>_. validate_items fr vs (Suc i) s location)"
  by pat_completeness auto

termination
  by (relation "measure (\<lambda>x. case x of
        Inl (fr, v, schema, location) \<Rightarrow> size v
      | Inr (Inl (fr, kvs, properties, location)) \<Rightarrow> size (JDict kvs) - 1
      | Inr (Inr (fr, xs, i, s, location)) \<Rightarrow> size (JList xs) - 1)") auto

section \<open>Repository inputs\<close>

definition canonical_line :: "fs \<Rightarrow> path \<Rightarrow> string res" where
  "canonical_line f p =
     bindE (read_or ''cannot read canonical input '' f p) (\<lambda>source.
     if \<not> endswith source [NL] \<or> count_list source NL \<noteq> 1
     then Inl (ValidationError (posix p @ '': expected exactly one newline-terminated value''))
     else if butlast source = [] then Inl (ValidationError (posix p @ '': canonical value is empty''))
     else Inr (butlast source))"

definition repository_path :: "fs \<Rightarrow> path \<Rightarrow> json \<Rightarrow> path res" where
  "repository_path f base relative = (case relative of
      JStr r \<Rightarrow>
        if is_absolute r then Inl (ValidationError (''evidence path must be relative: '' @ r)) else
        bindE (resolveE f (joinp base r)) (\<lambda>candidate. bindE (resolveE f base) (\<lambda>rb.
        if \<not> is_relative_to candidate rb then Inl (ValidationError (''evidence path escapes the repository: '' @ r))
        else if \<not> is_file f candidate then Inl (ValidationError (''evidence file does not exist: '' @ r))
        else Inr candidate))
    | _ \<Rightarrow> Inl TypeError)"

definition require_text :: "fs \<Rightarrow> path \<Rightarrow> json list \<Rightarrow> string \<Rightarrow> string res" where
  "require_text f p vs label =
     bindE (read_or ''cannot read '' f p) (\<lambda>source.
     bindE (allE (\<lambda>v. inE v (JStr source)) vs) (\<lambda>present.
     if present then Inr source else Inl (ValidationError (label @ '': a canonical value is absent from '' @ posix p))))"

definition expected_target :: "json \<Rightarrow> json res" where
  "expected_target target =
     bindE (item target ''profile'') (\<lambda>profile. bindE (item target ''os'') (\<lambda>os.
     bindE (item target ''architecture'') (\<lambda>architecture. bindE (item target ''qbeTarget'') (\<lambda>qbe.
     bindE (item target ''ccBoundary'') (\<lambda>cc.
     Inr (JDict [(''profile'', profile), (''status'', JStr ''experimental''), (''os'', os),
       (''architecture'', architecture), (''qbeTarget'', qbe), (''ccBoundary'', cc)]))))))"

definition expected_targets :: "json \<Rightarrow> json list res" where
  "expected_targets seed_manifest = bindE (bindE (item seed_manifest ''targets'') iterE) (mapE expected_target)"

section \<open>Reference checkouts in the workflows\<close>

definition REFERENCE_WORKFLOWS :: "(string \<times> string \<times> nat) list" where
  "REFERENCE_WORKFLOWS = [(''native-validation.yml'', ''direct'', 1), (''pull-request.yml'', ''direct'', 2),
     (''runtime-worker-memory.yml'', ''environment'', 1), (''benchmarksgame-formal.yml'', ''environment'', 1),
     (''benchmarksgame-build-formal.yml'', ''environment'', 1), (''linux-amd64-targets.yml'', ''environment'', 1),
     (''daily-performance.yml'', ''derived'', 1), (''cumulative-performance.yml'', ''derived'', 1),
     (''weekly-performance.yml'', ''derived'', 1), (''representative-performance.yml'', ''derived'', 1)]"

definition without_comment_lines :: "string \<Rightarrow> string" where
  "without_comment_lines source = join [NL] (filter (\<lambda>line. \<not> startswith (lstrip line) ''#'') (split_chr NL source))"

definition quote_cls :: cls where
  "quote_cls = [(CHR 0x27, CHR 0x27), (DQ, DQ)]"

definition spaces_rx :: rx where
  "spaces_rx = Star (chr (CHR '' ''))"

definition repository_rx :: rx where
  "repository_rx = seqs [Grp 1 (rplus (chr (CHR '' ''))), lit ''repository:'', spaces_rx, ropt (Cls quote_cls),
     lit ''type-rb/type-rb'', ropt (Cls quote_cls), spaces_rx, ropt (Seq (lit ''#'') (Star Dot))]"

definition ref_rx :: "nat \<Rightarrow> rx" where
  "ref_rx indent = seqs [Rep indent (chr (CHR '' '')), lit ''ref:'', spaces_rx, Grp 1 (LazyStar Dot), spaces_rx]"

definition line_indent :: "string \<Rightarrow> nat" where
  "line_indent line = length line - length (lstrip line)"

text \<open>The lines around line \<open>index\<close> that are blank or at least as deep as it.\<close>

definition within_block :: "nat \<Rightarrow> string \<Rightarrow> bool" where
  "within_block indent line = (strip line = [] \<or> indent \<le> line_indent line)"

definition block_lines :: "string list \<Rightarrow> nat \<Rightarrow> nat \<Rightarrow> string list" where
  "block_lines lines index indent =
     rev (takeWhile (within_block indent) (rev (take index lines))) @
     [lines ! index] @ takeWhile (within_block indent) (drop (Suc index) lines)"

definition group_value :: "nat \<Rightarrow> (nat \<times> string) list \<Rightarrow> string" where
  "group_value g gs = (case grp g gs of None \<Rightarrow> [] | Some w \<Rightarrow> w)"

definition ref_of :: "string list \<Rightarrow> string \<Rightarrow> nat \<Rightarrow> string list res" where
  "ref_of lines name index = (case fullmatch_groups repository_rx (lines ! index) of
      None \<Rightarrow> Inr []
    | Some gs \<Rightarrow>
        (let indent = length (group_value 1 gs);
             vs = map (group_value 1) (List.map_filter (fullmatch_groups (ref_rx indent)) (block_lines lines index indent))
         in if length vs \<noteq> 1
            then Inl (ValidationError (''reference checkout '' @ name @ '': expected one ref per checkout''))
            else Inr vs))"

definition reference_refs :: "string \<Rightarrow> string \<Rightarrow> string list res" where
  "reference_refs source name =
     (let lines = splitlines source in bindE (mapE (ref_of lines name) [0..<length lines]) (\<lambda>refs. Inr (concat refs)))"

definition command_rx :: "string \<Rightarrow> rx" where
  "command_rx command = seqs [Bol, Star (Cls (chr_cls ('' '' @ [TAB]))), ropt (lit ''run: ''), lit command,
     Star (Cls (chr_cls ('' '' @ [TAB]))), Eol]"

definition command_count :: "string \<Rightarrow> string \<Rightarrow> nat" where
  "command_count source command = length (findall (command_rx command) source)"

definition consumer_rx :: rx where
  "consumer_rx = Seq (lit ''type-rb/type-rb'') (NotAhead (word_cls @ chr_cls ''-/''))"

definition not_space_rx :: rx where
  "not_space_rx = rplus (NCls space_cls)"

text \<open>\<open>(?m)^ *KEY: *(\S+) *$\<close> and \<open>(?m)^KEY=(\S+)$\<close>.\<close>

definition yaml_rx :: "string \<Rightarrow> rx" where
  "yaml_rx key = seqs [Bol, spaces_rx, lit (key @ '':''), spaces_rx, Grp 1 not_space_rx, spaces_rx, Eol]"

definition shell_rx :: "string \<Rightarrow> rx" where
  "shell_rx key = seqs [Bol, lit (key @ ''=''), Grp 1 not_space_rx, Eol]"

definition reference_id_rx :: rx where
  "reference_id_rx = seqs [Bol, rplus (chr (CHR '' '')), lit ''id: reference'', Eol]"

definition dq :: "string \<Rightarrow> string" where
  "dq s = DQ # s @ [DQ]"

definition producer :: string where
  "producer = ''run: echo '' @ dq ''revision=$(cat TYPE_RB_REVISION)'' @ '' >> '' @ dq ''$GITHUB_OUTPUT''"

definition head_of :: string where
  "head_of = dq ''$(git -C .type-rb rev-parse HEAD)''"

definition checkout_error :: "string \<Rightarrow> string \<Rightarrow> pyerr" where
  "checkout_error name message = ValidationError (''reference checkout '' @ name @ '': '' @ message)"

text \<open>The expected ref and the identity commands of a workflow, after the checks of its mode.\<close>

definition derived_ok :: "string \<Rightarrow> bool" where
  "derived_ok source = (length (findall reference_id_rx source) = 1 \<and> command_count source producer = 1 \<and>
     (case (find_str ''repository: type-rb/type-rb'' source, find_str producer source) of
        (Some checkout, Some p) \<Rightarrow> \<not> checkout < p | _ \<Rightarrow> False))"

definition expected_checkout :: "string \<Rightarrow> string \<Rightarrow> string \<Rightarrow> string \<Rightarrow> (string \<times> string list) res" where
  "expected_checkout revision name mode source =
     (if mode = ''direct'' then
        Inr (revision, [''test '' @ dq ''$(cat TYPE_RB_REVISION)'' @ '' = '' @ head_of])
      else if mode = ''derived'' then
        if \<not> derived_ok source then Inl (checkout_error name ''canonical producer differs'')
        else Inr (''${{ steps.reference.outputs.revision }}'', [''test '' @ head_of @ '' = '' @ dq ''$(cat TYPE_RB_REVISION)''])
      else
        (let pin = (if mode = ''environment'' then revision else mode);
             canonical = (if name = ''linux-amd64-targets.yml'' then ''.native-target-candidate/TYPE_RB_REVISION'' else ''TYPE_RB_REVISION'')
         in if findall_group 1 (yaml_rx ''TYPE_RB_REVISION'') source \<noteq> [pin]
            then Inl (checkout_error name ''environment pin differs'')
            else Inr (''${{ env.TYPE_RB_REVISION }}'',
              [''test '' @ head_of @ '' = '' @ dq ''$TYPE_RB_REVISION'',
               ''test '' @ dq (''$(cat '' @ canonical @ '')'') @ '' = '' @ dq ''$TYPE_RB_REVISION''])))"

definition build_command :: "string \<Rightarrow> string" where
  "build_command name =
     ''python3 '' @ (if name = ''linux-amd64-targets.yml'' then ''.native-target-candidate/'' else []) @
     ''tools/build-reference.py .type-rb '' @ dq ''$RUNNER_TEMP/trb'' @
     (if name \<in> {''benchmarksgame-formal.yml'', ''benchmarksgame-build-formal.yml'', ''daily-performance.yml'',
        ''weekly-performance.yml'', ''cumulative-performance.yml'', ''representative-performance.yml''}
      then '' --trimpath'' else [])"

definition check_workflow :: "string \<Rightarrow> (string \<times> string) list \<Rightarrow> string \<times> string \<times> nat \<Rightarrow> unit res" where
  "check_workflow revision sources w = (case w of (name, mode, count) \<Rightarrow> (case map_of sources name of
      None \<Rightarrow> Inl (KeyError name)
    | Some source \<Rightarrow>
        bindE (reference_refs source name) (\<lambda>refs.
        bindE (expected_checkout revision name mode source) (\<lambda>(expected_ref, identities).
        if refs \<noteq> replicate count expected_ref then Inl (checkout_error name ''exact checkout refs differ'')
        else if list_ex (\<lambda>i. command_count source i \<noteq> count) identities
        then Inl (checkout_error name ''post-checkout identity differs'')
        else if mode \<in> {''direct'', ''derived'', ''environment''} \<and> command_count source (build_command name) \<noteq> count
        then Inl (checkout_error name ''canonical versioned build differs'')
        else Inr ()))))"

definition controller_identity :: string where
  "controller_identity = ''test '' @ dq (''$(tr -d '' @ [CHR 0x27, BSL, CHR ''n'', CHR 0x27] @ '' < '' @
     dq ''$candidate_root/TYPE_RB_REVISION'' @ '')'') @ '' = '' @ dq ''$TYPE_RB_REVISION'' @ '' ||''"

definition workflow_sources :: "fs \<Rightarrow> path \<Rightarrow> (string \<times> string) list res" where
  "workflow_sources f directory =
     mapE (\<lambda>name. bindE (require_text f (directory @ [name]) [] ''reference checkout'') (\<lambda>source.
        Inr (name, without_comment_lines source)))
       (glob_suffix f directory ''.yml'' @ glob_suffix f directory ''.yaml'')"

definition validate_reference_checkouts :: "fs \<Rightarrow> path \<Rightarrow> string \<Rightarrow> (string \<times> string) list res" where
  "validate_reference_checkouts f base revision =
     bindE (workflow_sources f (joinp base ''.github/workflows'')) (\<lambda>sources.
     (let observed = map fst (filter (\<lambda>(name, source). search consumer_rx source \<noteq> None) sources) in
      if set observed \<noteq> set (map fst REFERENCE_WORKFLOWS)
      then Inl (ValidationError ''reference checkout inventory differs'') else
      bindE (forE (check_workflow revision sources) REFERENCE_WORKFLOWS) (\<lambda>_.
      bindE (require_text f (joinp base ''tools/linux-amd64-targets.sh'') [] ''reference controller'') (\<lambda>body.
      (let source = without_comment_lines body in
       if findall_group 1 (shell_rx ''TYPE_RB_REVISION'') source \<noteq> [revision]
       then Inl (checkout_error ''linux-amd64-targets.sh'' ''controller pin differs'')
       else if command_count source controller_identity \<noteq> 1
       then Inl (checkout_error ''linux-amd64-targets.sh'' ''candidate identity differs'')
       else Inr sources)))))"

section \<open>The values the repository pins\<close>

record compat_env =
  ce_qbe :: qbe_tools
  ce_reference :: "path \<Rightarrow> completed res"

definition at_path :: "json \<Rightarrow> string list \<Rightarrow> json res" where
  "at_path v ks = foldE item v ks"

definition differsE :: "json res \<Rightarrow> json res \<Rightarrow> bool res" where
  "differsE a b = bindE a (\<lambda>x. bindE b (\<lambda>y. Inr (\<not> jeq x y)))"

definition require_equal :: "json res \<Rightarrow> json res \<Rightarrow> string \<Rightarrow> unit res" where
  "require_equal a b message = raise_if (differsE a b) (ValidationError message) (Inr ())"

text \<open>The text of a value in an f-string.\<close>

definition fmt :: "json \<Rightarrow> string" where
  "fmt v = str_of (\<lambda>v. []) v"

definition version_list :: "json \<Rightarrow> json res" where
  "version_list manifest = bindE (at_path manifest [''typeRB'', ''version'']) (\<lambda>v. Inr (JList [v]))"

definition check_versions :: "json \<Rightarrow> (string \<times> string) list \<Rightarrow> string \<Rightarrow> unit res" where
  "check_versions manifest workflows name = (case map_of workflows name of None \<Rightarrow> Inl (KeyError name)
     | Some source \<Rightarrow> require_equal (Inr (JList (map JStr (findall_group 1 (yaml_rx ''TYPE_RB_VERSION'') source))))
         (version_list manifest) (''reference checkout '' @ name @ '': environment version differs''))"

definition check_reference_compiler :: "compat_env \<Rightarrow> json \<Rightarrow> path option \<Rightarrow> unit res" where
  "check_reference_compiler env manifest reference_trb = (case reference_trb of None \<Rightarrow> Inr ()
     | Some trb \<Rightarrow>
        bindE (catchE (ce_reference env trb) is_OSError (\<lambda>e. Inl (ValidationError ''cannot execute reference compiler''))) (\<lambda>done.
        (let reported = rstrip_chr NL (proc_out done) in
         if returncode done \<noteq> 0 \<or> proc_err done \<noteq> [] \<or> NL \<in> set reported
         then Inl (ValidationError ''reference compiler did not return one clean version line'')
         else require_equal (Inr (JStr reported)) (at_path manifest [''typeRB'', ''version''])
           ''typeRB.version disagrees with the pinned reference compiler'')))"

definition check_snapshot :: "fs \<Rightarrow> path \<Rightarrow> json \<Rightarrow> string \<Rightarrow> unit res" where
  "check_snapshot f base manifest workflow =
     bindE (at_path manifest [''bootstrap'', ''snapshotSchemaVersion'']) (\<lambda>v.
     (let version = fmt v in
     bindE (require_text f (joinp base ''recovery/src/managed/snapshot.trb'') [JStr (''if version != '' @ version)] ''bootstrap snapshot'') (\<lambda>source.
     if re_search (''if version != '' @ version @ [BSL, CHR ''b'']) source \<noteq> Some True
     then Inl (ValidationError ''snapshotSchemaVersion disagrees with the current decoder'')
     else if \<not> contains (''tools/check-bootstrap-snapshot.sh '' @ dq ''$RUNNER_TEMP/trb'') workflow
     then Inl (ValidationError ''snapshotSchemaVersion disagrees with the bootstrap workflow'')
     else bindE (read_bytes f (joinp base ''tools/check-bootstrap-snapshot.sh'')) (\<lambda>check.
       if \<not> contains (''--snapshot-version '' @ version) check
       then Inl (ValidationError ''snapshotSchemaVersion disagrees with the bootstrap snapshot check'')
       else Inr ()))))"

definition SEED_MANIFEST :: string where
  "SEED_MANIFEST = ''results/2026-08-30-gate6l-bootstrap-seed-darwin-linux-arm64/release/type-rb-native-bootstrap-manifest-v1.json''"

definition check_seed :: "json \<Rightarrow> json \<Rightarrow> unit res" where
  "check_seed seed seed_manifest =
     bindE (require_equal (item seed ''releaseTag'') (item seed_manifest ''releaseTag'')
       ''bootstrap seed releaseTag disagrees with the retained release manifest'') (\<lambda>_.
     bindE (require_equal (item seed ''manifestSchemaVersion'') (item seed_manifest ''schemaVersion'')
       ''bootstrap seed manifestSchemaVersion disagrees with the retained release manifest'') (\<lambda>_.
     require_equal (item seed ''status'') (item seed_manifest ''status'')
       ''bootstrap seed status disagrees with the retained release manifest''))"

definition expected_backend :: "json \<Rightarrow> json res" where
  "expected_backend seed_manifest =
     bindE (at_path seed_manifest [''backend'', ''name'']) (\<lambda>name. bindE (at_path seed_manifest [''backend'', ''version'']) (\<lambda>version.
     bindE (at_path seed_manifest [''backend'', ''sourceUrl'']) (\<lambda>url. bindE (at_path seed_manifest [''backend'', ''sourceSha256'']) (\<lambda>sha.
     Inr (JDict [(''name'', name), (''version'', version), (''sourceURL'', url), (''sourceSHA256'', sha)])))))"

definition check_backend :: "compat_env \<Rightarrow> fs \<Rightarrow> path \<Rightarrow> json \<Rightarrow> json \<Rightarrow> unit res" where
  "check_backend env f base manifest expected =
     bindE (bindE (iterE expected) (mapE (\<lambda>k. (case k of JStr key \<Rightarrow>
         bindE (at_path manifest [''backend'', key]) (\<lambda>v. Inr (key, v)) | _ \<Rightarrow> Inl TypeError)))) (\<lambda>declared.
     bindE (require_equal (Inr (JDict declared)) (Inr expected) ''backend identity disagrees with the retained release manifest'') (\<lambda>_.
     bindE (catchE (backend_identity (ce_qbe env) f base) (\<lambda>e. is_ValueError e \<or> is_OSError e)
        (\<lambda>e. Inl (ValidationError ''backend identity''))) (\<lambda>current.
     require_equal (item manifest ''backend'') (Inr current) ''backend identity disagrees with the current patched backend'')))"

definition takeE :: "nat \<Rightarrow> json \<Rightarrow> json res" where
  "takeE n v = (case v of JList xs \<Rightarrow> Inr (JList (take n xs)) | JStr s \<Rightarrow> Inr (JStr (take n s)) | _ \<Rightarrow> Inl TypeError)"

text \<open>The targets of the declaration: distinct profiles, the seed's targets first. The targets
  recovered outside the seed are returned, after all of them.\<close>

definition check_target_list :: "json \<Rightarrow> json \<Rightarrow> (json list \<times> json list) res" where
  "check_target_list manifest seed_manifest =
     bindE (expected_targets seed_manifest) (\<lambda>seed_targets.
     bindE (item manifest ''targets'') (\<lambda>current. bindE (iterE current) (\<lambda>targets.
     bindE (mapE (\<lambda>t. item t ''profile'') targets) (\<lambda>profiles. bindE (distinctE profiles) (\<lambda>d.
     if \<not> d then Inl (ValidationError ''target profiles must be unique'') else
     bindE (require_equal (takeE (length seed_targets) current) (Inr (JList seed_targets))
        ''target profiles disagree with the retained release manifest'') (\<lambda>_.
     Inr (targets, drop (length seed_targets) targets)))))))"

definition runtime_literal :: "string \<Rightarrow> json \<Rightarrow> json res" where
  "runtime_literal key target = bindE (item target key) (\<lambda>v. Inr (JStr (''b '' @ [BSL, DQ] @ fmt v @ [BSL, DQ])))"

definition escapeE :: "json \<Rightarrow> string \<Rightarrow> string res" where
  "escapeE target key = bindE (item target key) (\<lambda>v. (case v of JStr s \<Rightarrow> Inr s | _ \<Rightarrow> Inl TypeError))"

definition mapping_rx :: "string \<Rightarrow> string \<Rightarrow> string \<Rightarrow> string \<Rightarrow> rx" where
  "mapping_rx profile os architecture qbe = seqs [Bol, lit (profile @ '')'' @ [NL]),
     Star (Cls space_cls), lit (''os='' @ os @ [NL]), Star (Cls space_cls), lit (''architecture='' @ architecture @ [NL]),
     Star (Cls space_cls), lit (''qbe_target='' @ qbe @ [NL])]"

definition check_mapping :: "string \<Rightarrow> json \<Rightarrow> unit res" where
  "check_mapping bootstrap_tool target =
     bindE (escapeE target ''profile'') (\<lambda>profile. bindE (escapeE target ''os'') (\<lambda>os.
     bindE (escapeE target ''architecture'') (\<lambda>architecture. bindE (escapeE target ''qbeTarget'') (\<lambda>qbe.
     if search (mapping_rx profile os architecture qbe) bootstrap_tool = None
     then Inl (ValidationError (''target profile '' @ profile @ '' disagrees with bootstrap tooling'')) else Inr ()))))"

definition check_tooling :: "fs \<Rightarrow> path \<Rightarrow> json list \<Rightarrow> unit res" where
  "check_tooling f base targets =
     bindE (mapE (runtime_literal ''profile'') targets) (\<lambda>profiles. bindE (mapE (runtime_literal ''qbeTarget'') targets) (\<lambda>qbes.
     bindE (require_text f (joinp base ''compiler/src/backend/qbe/runtime/system.trb'') (profiles @ qbes) ''self-hosted target profile'') (\<lambda>source.
     if source = [] then Inl (ValidationError ''self-hosted runtime source is empty'') else
     bindE (read_bytes f (joinp base ''tools/bootstrap-seed.sh'')) (\<lambda>tool. forE (check_mapping tool) targets))))"

definition check_seed_tool :: "fs \<Rightarrow> path \<Rightarrow> json \<Rightarrow> json \<Rightarrow> unit res" where
  "check_seed_tool f base seed expected =
     bindE (item seed ''releaseTag'') (\<lambda>tag. bindE (item expected ''sourceURL'') (\<lambda>url.
     bindE (item expected ''sourceSHA256'') (\<lambda>sha. bindE (item expected ''version'') (\<lambda>version.
     bindE (require_text f (joinp base ''tools/bootstrap-seed-manifest.sh'') (map JStr [''RELEASE_TAG='' @ fmt tag,
        ''QBE_SOURCE_URL='' @ fmt url, ''QBE_SOURCE_SHA256='' @ fmt sha, ''version: '' @ dq (fmt version)])
        ''bootstrap and backend identity'') (\<lambda>source.
     if source = [] then Inl (ValidationError ''bootstrap seed manifest tool is empty'') else Inr ())))))"

text \<open>An evidence file of the repository names the values it is evidence for.\<close>

definition check_evidence :: "fs \<Rightarrow> path \<Rightarrow> json \<Rightarrow> json res list \<Rightarrow> string \<Rightarrow> unit res" where
  "check_evidence f base evidence vs label =
     bindE (bindE (item evidence ''result'') (repository_path f base)) (\<lambda>p.
     bindE (mapE (\<lambda>v. v) vs) (\<lambda>texts. bindE (require_text f p texts label) (\<lambda>_. Inr ())))"

definition endswithE :: "json \<Rightarrow> json \<Rightarrow> bool res" where
  "endswithE v w = (case v of
      JStr s \<Rightarrow> (case w of JStr p \<Rightarrow> Inr (endswith s (CHR ''/'' # p)) | _ \<Rightarrow> Inl TypeError)
    | _ \<Rightarrow> Inl AttributeError)"

definition check_all_evidence :: "fs \<Rightarrow> path \<Rightarrow> json \<Rightarrow> json \<Rightarrow> json list \<Rightarrow> unit res" where
  "check_all_evidence f base manifest seed recovered =
     bindE (at_path manifest [''evidence'', ''compatibility'']) (\<lambda>compat.
     bindE (check_evidence f base compat [at_path manifest [''typeRB'', ''version''], at_path manifest [''typeRB'', ''revision''],
        item compat ''nativeRevision'', item compat ''workflow''] ''compatibility evidence'') (\<lambda>_.
     bindE (at_path manifest [''evidence'', ''bootstrap'']) (\<lambda>boot.
     bindE (check_evidence f base boot [item boot ''nativeRevision'', item seed ''releaseTag'', item boot ''release''] ''bootstrap evidence'') (\<lambda>_.
     raise_if (bindE (item boot ''release'') (\<lambda>r. bindE (item seed ''releaseTag'') (\<lambda>tag. notE (endswithE r tag))))
        (ValidationError ''bootstrap evidence release disagrees with bootstrap.seed.releaseTag'') (
     bindE (bindE (at_path manifest [''evidence'', ''targetChains'']) iterE) (\<lambda>chains.
     bindE (mapE (\<lambda>e. item e ''profile'') chains) (\<lambda>evidence_profiles.
     bindE (mapE (\<lambda>t. item t ''profile'') recovered) (\<lambda>recovered_profiles.
     if \<not> jeq (JList evidence_profiles) (JList recovered_profiles)
     then Inl (ValidationError ''target-chain evidence must exactly cover targets recovered outside the seed manifest'') else
     raise_if (notE (distinctE evidence_profiles)) (ValidationError ''target-chain evidence profiles must be unique'') (
     forE (\<lambda>e. check_evidence f base e [item e ''profile'', item e ''nativeRevision'', item e ''workflow'']
        ''target-chain evidence'') chains)))))))))"

definition validate_repository_values :: "compat_env \<Rightarrow> fs \<Rightarrow> path \<Rightarrow> json \<Rightarrow> path option \<Rightarrow> unit res" where
  "validate_repository_values env f base manifest reference_trb =
     bindE (canonical_line f (joinp base ''NATIVE_VERSION'')) (\<lambda>native_version.
     bindE (canonical_line f (joinp base ''TYPE_RB_REVISION'')) (\<lambda>revision.
     bindE (require_equal (item manifest ''nativeVersion'') (Inr (JStr native_version)) ''nativeVersion disagrees with NATIVE_VERSION'') (\<lambda>_.
     bindE (require_equal (at_path manifest [''typeRB'', ''revision'']) (Inr (JStr revision)) ''typeRB.revision disagrees with TYPE_RB_REVISION'') (\<lambda>_.
     bindE (validate_reference_checkouts f base revision) (\<lambda>workflows.
     (case map_of workflows ''native-validation.yml'' of None \<Rightarrow> Inl (KeyError ''native-validation.yml'') | Some workflow \<Rightarrow>
     bindE (forE (check_versions manifest workflows) [''linux-amd64-targets.yml'', ''runtime-worker-memory.yml'']) (\<lambda>_.
     bindE (read_bytes f (joinp base ''tools/linux-amd64-targets.sh'')) (\<lambda>controller.
     bindE (require_equal (Inr (JList (map JStr (findall_group 1 (shell_rx ''TYPE_RB_VERSION'') controller)))) (version_list manifest)
        ''reference checkout linux-amd64-targets.sh: controller version differs'') (\<lambda>_.
     bindE (check_reference_compiler env manifest reference_trb) (\<lambda>_.
     bindE (check_snapshot f base manifest workflow) (\<lambda>_.
     bindE (load_json_strict f (joinp base SEED_MANIFEST)) (\<lambda>seed_manifest.
     bindE (at_path manifest [''bootstrap'', ''seed'']) (\<lambda>seed.
     bindE (check_seed seed seed_manifest) (\<lambda>_.
     bindE (expected_backend seed_manifest) (\<lambda>expected.
     bindE (check_backend env f base manifest expected) (\<lambda>_.
     bindE (check_target_list manifest seed_manifest) (\<lambda>(targets, recovered).
     bindE (check_tooling f base targets) (\<lambda>_.
     bindE (check_seed_tool f base seed expected) (\<lambda>_.
     check_all_evidence f base manifest seed recovered)))))))))))))))))))"

definition validate_manifest_data :: "compat_env \<Rightarrow> (rat \<Rightarrow> string) \<Rightarrow> fs \<Rightarrow> path \<Rightarrow> json \<Rightarrow> json \<Rightarrow> path option \<Rightarrow> unit res" where
  "validate_manifest_data env fr f base manifest schema reference_trb =
     bindE (validate_schema fr manifest schema ''$'') (\<lambda>_. validate_repository_values env f base manifest reference_trb)"

record compat_arguments =
  ca_root :: path
  ca_manifest :: "path option"
  ca_schema :: "path option"
  ca_reference :: "path option"

fun is_ValidationError :: "pyerr \<Rightarrow> bool" where
  "is_ValidationError (ValidationError m) = True"
| "is_ValidationError e = False"

text \<open>The exit status and the text on standard output.\<close>

definition compatibility_main :: "compat_env \<Rightarrow> (rat \<Rightarrow> string) \<Rightarrow> fs \<Rightarrow> compat_arguments \<Rightarrow> (nat \<times> string) res" where
  "compatibility_main env fr f args =
     bindE (resolveE f (ca_root args)) (\<lambda>base.
     bindE (catchE
       (bindE (load_json_strict f (case ca_manifest args of None \<Rightarrow> joinp base ''compatibility/current.json'' | Some p \<Rightarrow> p)) (\<lambda>manifest.
        bindE (load_json_strict f (case ca_schema args of None \<Rightarrow> joinp base ''compatibility/schema-v3.json'' | Some p \<Rightarrow> p)) (\<lambda>schema.
        if \<not> is_dict manifest \<or> \<not> is_dict schema then Inl (ValidationError ''manifest and schema roots must be JSON objects'') else
        bindE (validate_manifest_data env fr f base manifest schema (ca_reference args)) (\<lambda>_. Inr (Some manifest)))))
       is_ValidationError (\<lambda>e. Inr None)) (\<lambda>r. (case r of
         None \<Rightarrow> Inr (1, [])
       | Some manifest \<Rightarrow>
          bindE (item manifest ''nativeVersion'') (\<lambda>native. bindE (at_path manifest [''typeRB'', ''version'']) (\<lambda>version.
          bindE (at_path manifest [''typeRB'', ''revision'']) (\<lambda>revision.
          Inr (0, ''compatibility-manifest: valid Native '' @ fmt native @ '' -> TypeRB '' @ fmt version @ ''@'' @ fmt revision @ [NL])))))))"

section \<open>What an accepted instance satisfies\<close>

text \<open>The value \<open>w\<close> inside \<open>v\<close> is governed by the part \<open>t\<close> of the schema \<open>s\<close>: members by the schemas of
  their properties, items by the item schema.\<close>

inductive governed :: "json \<Rightarrow> json \<Rightarrow> json \<Rightarrow> json \<Rightarrow> bool" where
  here: "governed v s v s"
| member: "(k, x) \<in> set kvs \<Longrightarrow> getd s ''properties'' (JDict []) = Inr ps \<Longrightarrow> item ps k = Inr u \<Longrightarrow>
    governed x u w t \<Longrightarrow> governed (JDict kvs) s w t"
| element: "x \<in> set xs \<Longrightarrow> get s ''items'' = Inr u \<Longrightarrow> u \<noteq> JNull \<Longrightarrow> governed x u w t \<Longrightarrow> governed (JList xs) s w t"

text \<open>The keywords of the schema language, each on its own.\<close>

definition has_type :: "json \<Rightarrow> string \<Rightarrow> bool" where
  "has_type v ty = (ty = ''object'' \<and> is_dict v \<or> ty = ''array'' \<and> is_list v \<or> ty = ''string'' \<and> is_str v \<or>
     ty = ''integer'' \<and> type_is_int v \<or> ty = ''null'' \<and> v = JNull)"

definition keyword :: "json \<Rightarrow> string \<Rightarrow> json option" where
  "keyword s k = (case s of JDict kvs \<Rightarrow> map_of kvs k | _ \<Rightarrow> None)"

definition value_ok :: "json \<Rightarrow> json \<Rightarrow> bool" where
  "value_ok v s =
     ((case keyword s ''type'' of None \<Rightarrow> True | Some ty \<Rightarrow> ty = JNull \<or> (case ty of JStr n \<Rightarrow> has_type v n | _ \<Rightarrow> False)) \<and>
      (case keyword s ''const'' of None \<Rightarrow> True | Some c \<Rightarrow> jeq v c) \<and>
      (case keyword s ''enum'' of Some (JList es) \<Rightarrow> list_ex (jeq_item v) es | _ \<Rightarrow> True) \<and>
      (case (v, keyword s ''pattern'') of (JStr w, Some p) \<Rightarrow> (case p of JStr pat \<Rightarrow> re_search pat w = Some True | _ \<Rightarrow> False)
       | _ \<Rightarrow> True))"

definition object_ok :: "(string \<times> json) list \<Rightarrow> json \<Rightarrow> bool" where
  "object_ok kvs s =
     ((case keyword s ''required'' of Some (JList ks) \<Rightarrow> list_all (\<lambda>k. list_ex (\<lambda>(n, x). k = JStr n) kvs) ks | _ \<Rightarrow> True) \<and>
      (keyword s ''additionalProperties'' = Some (JBool False) \<longrightarrow>
        (case keyword s ''properties'' of None \<Rightarrow> kvs = [] | Some (JDict ps) \<Rightarrow> fst ` set kvs \<subseteq> fst ` set ps | _ \<Rightarrow> True)))"

definition array_ok :: "(rat \<Rightarrow> string) \<Rightarrow> json list \<Rightarrow> json \<Rightarrow> bool" where
  "array_ok fr xs s =
     ((case keyword s ''minItems'' of Some (JInt m) \<Rightarrow> m \<le> int (length xs) | _ \<Rightarrow> True) \<and>
      (case keyword s ''maxItems'' of Some (JInt m) \<Rightarrow> int (length xs) \<le> m | _ \<Rightarrow> True) \<and>
      (keyword s ''uniqueItems'' = Some (JBool True) \<longrightarrow> distinct (map (encode_item fr) xs)))"

definition node_ok :: "(rat \<Rightarrow> string) \<Rightarrow> json \<Rightarrow> json \<Rightarrow> bool" where
  "node_ok fr v s = (value_ok v s \<and>
     (case v of JDict kvs \<Rightarrow> object_ok kvs s | JList xs \<Rightarrow> array_ok fr xs s | _ \<Rightarrow> True))"

lemma getd_keyword: "getd s k d = Inr x \<Longrightarrow> x = (case keyword s k of None \<Rightarrow> d | Some y \<Rightarrow> y)"
  by (auto simp: getd_iff keyword_def)

lemma hasE_keyword: "is_dict s \<Longrightarrow> hasE k s = Inr (keyword s k \<noteq> None)"
proof -
  have "(\<exists>(n, v) \<in> set kvs. JStr k = JStr n) \<longleftrightarrow> map_of kvs k \<noteq> None" for kvs :: "(string \<times> json) list"
    by (induction kvs) auto
  then show "is_dict s \<Longrightarrow> hasE k s = Inr (keyword s k \<noteq> None)" by (cases s) (simp_all add: keyword_def)
qed

lemma item_keyword: "item s k = Inr x \<longleftrightarrow> keyword s k = Some x"
  by (cases s) (auto simp: keyword_def split: option.splits)

lemma json_type_matches_sound: "json_type_matches v ty = Inr True \<Longrightarrow> \<exists>n. ty = JStr n \<and> has_type v n"
  by (cases v) (auto simp: json_type_matches_def has_type_def isinstance_int_def split: if_splits)

lemma check_value_dict: "check_value v s l = Inr u \<Longrightarrow> is_dict s"
  by (auto simp: check_value_def bindE_Inr_iff getd_iff)

lemma check_value_sound:
  assumes "check_value v s l = Inr ()" "check_pattern v s l = Inr ()"
  shows "value_ok v s"
proof -
  have d: "is_dict s" by (rule check_value_dict [OF assms(1)])
  from assms(1) obtain ty where ty: "get s ''type'' = Inr ty" "ty \<noteq> JNull \<Longrightarrow> json_type_matches v ty = Inr True"
    and c: "\<And>c. item s ''const'' = Inr c \<Longrightarrow> keyword s ''const'' \<noteq> None \<Longrightarrow> jeq v c"
    and e: "\<And>e. item s ''enum'' = Inr e \<Longrightarrow> keyword s ''enum'' \<noteq> None \<Longrightarrow> inE v e = Inr True"
    unfolding check_value_def by (auto simp: bindE_Inr_iff raise_if_iff andE_iff notE_iff hasE_keyword [OF d])
  have p: "\<exists>pat. p = JStr pat \<and> re_search pat w = Some True" if "v = JStr w" "keyword s ''pattern'' = Some p" for w p
    using assms(2) that
    by (auto simp: check_pattern_def ifE_iff hasE_keyword [OF d] item_keyword bindE_Inr_iff
        split: json.splits option.splits if_splits)
  have "case keyword s ''type'' of None \<Rightarrow> True | Some ty \<Rightarrow> ty = JNull \<or> (case ty of JStr n \<Rightarrow> has_type v n | _ \<Rightarrow> False)"
    using getd_keyword [OF ty(1)] ty(2) by (cases "ty = JNull") (auto split: option.splits dest!: json_type_matches_sound)
  moreover have "case keyword s ''const'' of None \<Rightarrow> True | Some c \<Rightarrow> jeq v c"
    using c by (auto simp: item_keyword split: option.splits)
  moreover have "case keyword s ''enum'' of Some (JList es) \<Rightarrow> list_ex (jeq_item v) es | _ \<Rightarrow> True"
    using e by (auto simp: item_keyword list_ex_iff split: option.splits json.splits)
  moreover have "case (v, keyword s ''pattern'') of (JStr w, Some p) \<Rightarrow> (case p of JStr pat \<Rightarrow> re_search pat w = Some True | _ \<Rightarrow> False)
       | _ \<Rightarrow> True"
  proof (cases "\<exists>w p. v = JStr w \<and> keyword s ''pattern'' = Some p")
    case True
    then obtain w q where wq: "v = JStr w" "keyword s ''pattern'' = Some q" by blast
    from p [OF wq] wq show ?thesis by auto
  qed (auto split: json.splits option.splits)
  ultimately show ?thesis by (simp add: value_ok_def)
qed

lemma filterE_Nil: "filterE p xs = Inr [] \<Longrightarrow> x \<in> set xs \<Longrightarrow> p x = Inr False"
  by (induction xs) (auto simp: bindE_Inr_iff split: if_splits)

lemma check_members_sound:
  assumes "check_members (JDict kvs) s l = Inr ()"
  shows "object_ok kvs s"
proof -
  from assms obtain req keys ps ap where req: "bindE (getd s ''required'' (JList [])) iterE = Inr req"
    and miss: "filterE (\<lambda>k. notE (inE k (JDict kvs))) req = Inr []"
    and ps: "getd s ''properties'' (JDict []) = Inr ps" and ap: "get s ''additionalProperties'' = Inr ap"
    and unk: "ap = JBool False \<Longrightarrow> filterE (\<lambda>k. notE (inE k ps)) (map (JStr \<circ> fst) kvs) = Inr []"
    unfolding check_members_def by (auto simp: bindE_Inr_iff split: if_splits)
  have "list_ex (\<lambda>(n, x). k = JStr n) kvs" if "keyword s ''required'' = Some (JList ks)" "k \<in> set ks" for ks k
  proof -
    from req that(1) have "req = ks" by (auto simp: bindE_Inr_iff dest!: getd_keyword)
    with filterE_Nil [OF miss, of k] that(2) have "inE k (JDict kvs) = Inr True" by (simp add: notE_iff)
    then show ?thesis by (auto simp: list_ex_iff split: if_splits)
  qed
  moreover have "case keyword s ''properties'' of None \<Rightarrow> kvs = [] | Some (JDict ps) \<Rightarrow> fst ` set kvs \<subseteq> fst ` set ps | _ \<Rightarrow> True"
    if "keyword s ''additionalProperties'' = Some (JBool False)"
  proof -
    have u: "inE (JStr k) ps = Inr True" if "(k, x) \<in> set kvs" for k x
    proof -
      have "JStr k \<in> set (map (JStr \<circ> fst) kvs)" using that by force
      from filterE_Nil [OF unk this] getd_keyword [OF ap] \<open>keyword s ''additionalProperties'' = _\<close>
      show ?thesis by (simp add: notE_iff)
    qed
    show ?thesis
    proof (cases "keyword s ''properties''")
      case None
      then have "inE (JStr k) (JDict []) = Inr True" if "(k, x) \<in> set kvs" for k x
        using u [OF that] getd_keyword [OF ps] by simp
      then have "kvs = []" by (cases kvs) auto
      with None show ?thesis by simp
    next
      case (Some q)
      have "k \<in> fst ` set qs" if "q = JDict qs" "(k, x) \<in> set kvs" for qs k x
        using u [OF that(2)] getd_keyword [OF ps] Some that(1) by (force split: if_splits)
      with Some show ?thesis by (auto split: json.splits)
    qed
  qed
  ultimately show ?thesis by (auto simp: object_ok_def list_all_iff split: option.splits json.splits)
qed

lemma check_items_sound:
  assumes "check_items fr xs s l = Inr ()" "is_dict s"
  shows "array_ok fr xs s"
proof -
  from assms obtain mn u where mn: "getd s ''minItems'' (JInt 0) = Inr mn" "ltE (JInt (int (length xs))) mn = Inr False"
    and mx: "\<And>m. keyword s ''maxItems'' = Some m \<Longrightarrow> ltE m (JInt (int (length xs))) = Inr False"
    and u: "get s ''uniqueItems'' = Inr u" "truthy u \<Longrightarrow> distinct (map (encode_item fr) xs)"
    unfolding check_items_def
    by (auto simp: bindE_Inr_iff raise_if_iff andE_iff hasE_keyword item_keyword) blast+
  have "m \<le> int (length xs)" if "keyword s ''minItems'' = Some (JInt m)" for m
    using mn that by (auto simp: ltE_def dest!: getd_keyword)
  moreover have "int (length xs) \<le> m" if "keyword s ''maxItems'' = Some (JInt m)" for m
    using mx [OF that] by (auto simp: ltE_def)
  moreover have "distinct (map (encode_item fr) xs)" if "keyword s ''uniqueItems'' = Some (JBool True)"
    using u that by (auto dest!: getd_keyword)
  ultimately show ?thesis by (auto simp: array_ok_def split: option.splits json.splits)
qed

lemma validate_members_each:
  "validate_members fr kvs ps l = Inr () \<Longrightarrow> (k, x) \<in> set kvs \<Longrightarrow> item ps k = Inr u \<Longrightarrow>
     \<exists>l'. validate_schema fr x u l' = Inr ()"
proof (induction kvs)
  case (Cons kv kvs)
  have h: "hasE k ps \<noteq> Inr False" using Cons.prems(3) by (cases ps) (force dest: map_of_SomeD split: option.splits)+
  from Cons show ?case using h by (cases kv) (auto simp: bindE_Inr_iff ifE_iff simp del: validate_schema.simps)
qed simp

lemma validate_items_each:
  "validate_items fr xs i s l = Inr () \<Longrightarrow> x \<in> set xs \<Longrightarrow> \<exists>l'. validate_schema fr x s l' = Inr ()"
  by (induction xs arbitrary: i) (auto simp: bindE_Inr_iff simp del: validate_schema.simps)

text \<open>C14. An instance that validates satisfies, at every value the schema reaches through properties and
  items, each keyword of the part of the schema that governs it: type, constant, enumeration and
  pattern, required and unknown members, and the size and uniqueness of arrays.\<close>

theorem schema_sound:
  assumes "governed v s w t" "validate_schema fr v s location = Inr ()"
  shows "node_ok fr w t"
  using assms
proof (induction arbitrary: location rule: governed.induct)
  case (here v s)
  then have v: "check_value v s location = Inr ()" "check_pattern v s location = Inr ()" by (auto simp: bindE_Inr_iff)
  show ?case
  proof (cases v)
    case (JDict kvs)
    with here have "check_members (JDict kvs) s location = Inr ()" by (auto simp: bindE_Inr_iff)
    from check_members_sound [OF this] check_value_sound [OF v] JDict show ?thesis by (simp add: node_ok_def)
  next
    case (JList xs)
    with here have "check_items fr xs s location = Inr ()" by (auto simp: bindE_Inr_iff)
    from check_items_sound [OF this check_value_dict [OF v(1)]] check_value_sound [OF v] JList show ?thesis
      by (simp add: node_ok_def)
  qed (use check_value_sound [OF v] in \<open>simp_all add: node_ok_def\<close>)
next
  case (member k x kvs s ps u w t)
  then have "validate_members fr kvs ps location = Inr ()" by (auto simp: bindE_Inr_iff)
  with member obtain l' where "validate_schema fr x u l' = Inr ()" using validate_members_each by blast
  then show ?case by (rule member.IH)
next
  case (element x xs s u w t)
  then have "validate_items fr xs 0 u location = Inr ()" by (auto simp: bindE_Inr_iff)
  with element obtain l' where "validate_schema fr x u l' = Inr ()" using validate_items_each by blast
  then show ?case by (rule element.IH)
qed

definition demo_schema :: json where
  "demo_schema = JDict [(''type'', JStr ''object''), (''required'', JList [JStr ''n'']), (''additionalProperties'', JBool False),
     (''properties'', JDict [(''n'', JDict [(''type'', JStr ''integer'')])])]"

lemma schema_sound_witness:
  "validate_schema (\<lambda>q. []) (JDict [(''n'', JInt 3)]) demo_schema ''$'' = Inr () \<and>
   node_ok (\<lambda>q. []) (JInt 3) (JDict [(''type'', JStr ''integer'')])"
proof
  show v: "validate_schema (\<lambda>q. []) (JDict [(''n'', JInt 3)]) demo_schema ''$'' = Inr ()"
    by (simp add: demo_schema_def check_value_def check_members_def check_pattern_def json_type_matches_def isinstance_int_def)
  have "governed (JDict [(''n'', JInt 3)]) demo_schema (JInt 3) (JDict [(''type'', JStr ''integer'')])"
    by (rule governed.member [OF _ _ _ governed.here]) (auto simp: demo_schema_def)
  then show "node_ok (\<lambda>q. []) (JInt 3) (JDict [(''type'', JStr ''integer'')])" by (rule schema_sound [OF _ v])
qed

section \<open>What a passing workflow pins\<close>

definition is_checkout :: "string \<Rightarrow> bool" where
  "is_checkout line = fullmatch repository_rx line"

lemma ref_of_iff:
  "ref_of lines name i = Inr rs \<longleftrightarrow> (case fullmatch_groups repository_rx (lines ! i) of None \<Rightarrow> rs = []
     | Some gs \<Rightarrow> length rs = 1 \<and> rs = map (group_value 1)
         (List.map_filter (fullmatch_groups (ref_rx (length (group_value 1 gs)))) (block_lines lines i (length (group_value 1 gs)))))"
  by (auto simp: ref_of_def Let_def split: option.splits)

lemma concat_refs:
  assumes "mapE (ref_of lines name) is = Inr rss"
  shows "length (concat rss) = length (filter (\<lambda>i. is_checkout (lines ! i)) is) \<and>
    (\<forall>i \<in> set is. is_checkout (lines ! i) \<longrightarrow> (\<exists>r \<in> set (concat rss). ref_of lines name i = Inr [r]))"
  using assms
proof (induction "is" arbitrary: rss)
  case (Cons i ys)
  from Cons.prems obtain rs rss' where rs: "ref_of lines name i = Inr rs" and r: "mapE (ref_of lines name) ys = Inr rss'"
    and e: "rss = rs # rss'" by (auto simp: bindE_Inr_iff simp del: mapE_iff)
  have "length rs = (if is_checkout (lines ! i) then 1 else 0)"
    using rs unfolding ref_of_iff is_checkout_def fullmatch_iff_groups by (auto split: option.splits)
  moreover from this have "is_checkout (lines ! i) \<Longrightarrow> \<exists>r. rs = [r]" by (cases rs) auto
  ultimately show ?case using Cons.IH [OF r] rs e by auto
qed auto


definition demo_workflow :: string where
  "demo_workflow = text_lines [''  with:'', ''    repository: type-rb/type-rb'', ''    ref: abc'',
     ''test '' @ dq ''$(cat TYPE_RB_REVISION)'' @ '' = '' @ head_of, build_command ''w'']"


end
