(* ===== verification/RssPolicy.thy ===== *)
theory RssPolicy
  imports PyNum PyStr
begin

text \<open>
  \<open>tools/daily-performance/rss_policy.py\<close>: the memory comparison of the registered cases. A set of rows
  is met, needs review or is unmet by comparing the native compiler's bytes with both Go columns and
  with the earlier native versions. A tuple key is the list of its components.
\<close>

definition POLICY :: string where
  "POLICY = ''go-competitive-runtime-rss-v1''"

definition ABSOLUTE_WARNING_BYTES :: int where
  "ABSOLUTE_WARNING_BYTES = 256 * 1024"

definition rss :: "json \<Rightarrow> int res" where
  "rss row =
     raise_if (bindE (get row ''status'') (\<lambda>v. Inr (\<not> jeq v (JStr ''pass'')))) (ValueError ''RSS policy requires a passing case/role row'') (
     bindE (bindE (item row ''runtime'') (\<lambda>r. item r ''memoryBytes'')) (\<lambda>v. (case v of
       JInt n \<Rightarrow> if n \<le> 0 then Inl (ValueError ''Runtime RSS must be positive integer bytes'') else Inr n
     | _ \<Rightarrow> Inl (ValueError ''Runtime RSS must be positive integer bytes''))))"

definition grows :: "int \<Rightarrow> int \<Rightarrow> bool" where
  "grows current earlier = (earlier * 11 < current * 10 \<and> ABSOLUTE_WARNING_BYTES < current - earlier)"

definition increase :: "int \<Rightarrow> int \<Rightarrow> json res" where
  "increase current earlier = bindE (int_quotient current earlier) (\<lambda>q.
     Inr (JDict [(''baselineBytes'', JInt earlier), (''deltaBytes'', JInt (current - earlier)),
       (''ratio'', JFloat q), (''reviewRequired'', JBool (grows current earlier))]))"

section \<open>The registered cases and their rows\<close>

definition case_roles :: "json \<Rightarrow> string list res" where
  "case_roles c =
     bindE (getd c ''frozenBaseline'' (JBool True)) (\<lambda>frozen. bindE (hasE ''pureGoSource'' c) (\<lambda>pure.
     Inr ([''native'', ''previous'', ''typerb-go''] @ (if truthy frozen then [''baseline''] else []) @
          (if pure then [''pure-go''] else []))))"

definition expected_keys :: "json list \<Rightarrow> json list res" where
  "expected_keys cases = bindE (mapE (\<lambda>c. bindE (case_roles c) (\<lambda>roles. bindE (item c ''id'') (\<lambda>i.
     Inr (map (\<lambda>role. JList [i, JStr role]) roles)))) cases) (\<lambda>kss. Inr (concat kss))"

definition row_key :: "json \<Rightarrow> json res" where
  "row_key row = bindE (item row ''case'') (\<lambda>c. bindE (item row ''role'') (\<lambda>r.
     if hashable c \<and> hashable r then Inr (JList [c, r]) else Inl TypeError))"

text \<open>The rows of a case by their role.\<close>

definition select_rows :: "(json \<times> json) list \<Rightarrow> json \<Rightarrow> (string \<times> json) list" where
  "select_rows indexed name =
     List.map_filter (\<lambda>(key, row). (case key of
        JList [c, JStr role] \<Rightarrow> if jeq c name then Some (role, row) else None | _ \<Rightarrow> None)) indexed"

definition case_values :: "(string \<times> json) list \<Rightarrow> (string \<times> int) list res" where
  "case_values chosen = mapE (\<lambda>(role, row). bindE (rss row) (\<lambda>v. Inr (role, v))) chosen"

definition same_inputs :: "(string \<times> json) list \<Rightarrow> string \<times> json \<Rightarrow> unit res" where
  "same_inputs chosen rr = (case map_of chosen ''native'' of None \<Rightarrow> Inl (KeyError ''native'')
     | Some native \<Rightarrow> raise_if
         (anyE (\<lambda>k. bindE (item (snd rr) k) (\<lambda>a. bindE (item native k) (\<lambda>b. Inr (\<not> jeq a b)))) [''args'', ''expectedSha256''])
         (ValueError ''RSS comparisons use different inputs or outputs'') (Inr ()))"

section \<open>The assessment\<close>

record rss_report =
  r_output :: "json list"
  r_failures :: "string list"
  r_reviews :: "string list"
  r_missing :: "json list"

definition near :: "int \<Rightarrow> int \<Rightarrow> bool" where
  "near current other = (current < other \<and> other * 9 < current * 10)"

type_synonym comparisons = "(string \<times> json) list"

definition compare_go :: "string \<Rightarrow> json \<Rightarrow> (string \<times> int) list \<Rightarrow> int \<Rightarrow> comparisons \<times> rss_report \<Rightarrow> string \<Rightarrow> (comparisons \<times> rss_report) res" where
  "compare_go label name vs current st role = (case st of (cs, rep) \<Rightarrow> (case map_of vs role of
      None \<Rightarrow> Inr (cs, rep\<lparr>r_missing := r_missing rep @ [name]\<rparr>)
    | Some other \<Rightarrow> bindE (int_quotient current other) (\<lambda>q.
        Inr (cs @ [(role, JDict [(''bytes'', JInt other), (''ratio'', JFloat q), (''advantageBytes'', JInt (other - current)),
               (''strictlyLower'', JBool (current < other)), (''reviewRequired'', JBool (near current other))])],
             if \<not> current < other then rep\<lparr>r_failures := r_failures rep @ [label @ '': RSS does not beat '' @ role]\<rparr>
             else if near current other
             then rep\<lparr>r_reviews := r_reviews rep @ [label @ '': less than 10% RSS advantage over '' @ role]\<rparr>
             else rep))))"

definition compare_native :: "string \<Rightarrow> (string \<times> int) list \<Rightarrow> int \<Rightarrow> comparisons \<times> rss_report \<Rightarrow> string \<Rightarrow> (comparisons \<times> rss_report) res" where
  "compare_native label vs current st role = (case st of (cs, rep) \<Rightarrow> (case map_of vs role of
      None \<Rightarrow> Inr (cs, rep)
    | Some earlier \<Rightarrow> bindE (increase current earlier) (\<lambda>change.
        Inr (cs @ [(role, change)],
             if grows current earlier
             then rep\<lparr>r_reviews := r_reviews rep @ [label @ '': RSS growth exceeds 10% and 256 KiB versus '' @ role]\<rparr>
             else rep))))"

definition assess_case :: "(json \<times> json) list \<Rightarrow> rss_report \<Rightarrow> json \<Rightarrow> rss_report res" where
  "assess_case indexed rep c =
     bindE (item c ''id'') (\<lambda>name.
     (let chosen = select_rows indexed name; label = str_of (\<lambda>v. []) name in
     bindE (case_values chosen) (\<lambda>vs. bindE (forE (same_inputs chosen) chosen) (\<lambda>_.
     (case map_of vs ''native'' of None \<Rightarrow> Inl (KeyError ''native'') | Some current \<Rightarrow>
     bindE (foldE (compare_go label name vs current) ([], rep) [''typerb-go'', ''pure-go'']) (\<lambda>(go, rep1).
     bindE (foldE (compare_native label vs current) ([], rep1) [''previous'', ''baseline'']) (\<lambda>(changes, rep2).
     Inr (rep2\<lparr>r_output := r_output rep2 @ [JDict [(''case'', name), (''nativeBytes'', JInt current), (''go'', JDict go),
        (''nativeChanges'', JDict changes), (''cumulativeAvailable'', JBool (map_of vs ''baseline'' \<noteq> None))]]\<rparr>))))))))"

definition rss_status :: "rss_report \<Rightarrow> string" where
  "rss_status rep = (if r_failures rep \<noteq> [] then ''unmet'' else if r_reviews rep \<noteq> [] then ''review-required'' else ''met'')"

definition assess_rows :: "json \<Rightarrow> json \<Rightarrow> rss_report res" where
  "assess_rows rows cases =
     raise_if (orE (Inr (\<not> truthy cases)) (bindE (iterE cases) (\<lambda>cs. bindE (mapE (\<lambda>c. item c ''id'') cs) (\<lambda>ids. notE (distinctE ids)))))
       (ValueError ''Expected unique nonempty registered cases'') (
     bindE (iterE cases) (\<lambda>cs. bindE (expected_keys cs) (\<lambda>expected.
     bindE (iterE rows) (\<lambda>rs. bindE (mapE row_key rs) (\<lambda>keys.
     if \<not> jdistinct keys \<or> \<not> jset_eq keys expected
     then Inl (ValueError ''Missing, duplicated or unexpected RSS case/role row'')
     else foldE (assess_case (zip keys rs)) \<lparr>r_output = [], r_failures = [], r_reviews = [], r_missing = []\<rparr> cs)))))"

definition assess :: "json \<Rightarrow> json \<Rightarrow> json res" where
  "assess rows cases = bindE (assess_rows rows cases) (\<lambda>rep.
     Inr (JDict [(''policy'', JStr POLICY), (''status'', JStr (rss_status rep)),
       (''failures'', JList (map JStr (r_failures rep))), (''reviews'', JList (map JStr (r_reviews rep))),
       (''missingPureGo'', JList (r_missing rep)), (''rows'', JList (r_output rep)),
       (''scope'', JStr ''Runtime RSS only; correctness, runtime benefit and other acceptance authorities remain separate'')]))"

section \<open>What the status means\<close>

text \<open>A comparison that adds no failure and no review found the bytes in order.\<close>

definition go_fine :: "(string \<times> int) list \<Rightarrow> int \<Rightarrow> string \<Rightarrow> bool" where
  "go_fine vs current role = (case map_of vs role of None \<Rightarrow> True | Some other \<Rightarrow> current < other \<and> current * 10 \<le> other * 9)"

definition native_fine :: "(string \<times> int) list \<Rightarrow> int \<Rightarrow> string \<Rightarrow> bool" where
  "native_fine vs current role = (case map_of vs role of None \<Rightarrow> True
     | Some earlier \<Rightarrow> current * 10 \<le> earlier * 11 \<or> current - earlier \<le> 262144)"

text \<open>The findings only grow, and stay empty exactly over fine comparisons.\<close>

definition quiet :: "rss_report \<Rightarrow> bool" where
  "quiet rep = (r_failures rep = [] \<and> r_reviews rep = [])"

lemma compare_go_quiet:
  "compare_go label name vs current (cs, rep) role = Inr (cs', rep') \<Longrightarrow> quiet rep' \<longleftrightarrow> quiet rep \<and> go_fine vs current role"
  by (auto simp: compare_go_def go_fine_def near_def quiet_def bindE_Inr_iff split: option.splits if_splits)

lemma compare_native_quiet:
  "compare_native label vs current (cs, rep) role = Inr (cs', rep') \<Longrightarrow> quiet rep' \<longleftrightarrow> quiet rep \<and> native_fine vs current role"
  by (auto simp: compare_native_def native_fine_def grows_def ABSOLUTE_WARNING_BYTES_def quiet_def bindE_Inr_iff
      split: option.splits if_splits)

definition case_fine :: "(json \<times> json) list \<Rightarrow> json \<Rightarrow> bool" where
  "case_fine indexed c = (\<exists>name vs current. item c ''id'' = Inr name \<and>
     case_values (select_rows indexed name) = Inr vs \<and> map_of vs ''native'' = Some current \<and>
     go_fine vs current ''typerb-go'' \<and> go_fine vs current ''pure-go'' \<and>
     native_fine vs current ''previous'' \<and> native_fine vs current ''baseline'')"

lemma assess_case_quiet:
  assumes "assess_case indexed rep c = Inr rep'"
  shows "quiet rep' \<longleftrightarrow> quiet rep \<and> case_fine indexed c"
proof -
  from assms obtain name vs current a1 r1 a2 r2 a3 r3 a4 r4 where
    n: "item c ''id'' = Inr name" "case_values (select_rows indexed name) = Inr vs" "map_of vs ''native'' = Some current"
    and g: "compare_go (str_of (\<lambda>v. []) name) name vs current ([], rep) ''typerb-go'' = Inr (a1, r1)"
      "compare_go (str_of (\<lambda>v. []) name) name vs current (a1, r1) ''pure-go'' = Inr (a2, r2)"
      "compare_native (str_of (\<lambda>v. []) name) vs current ([], r2) ''previous'' = Inr (a3, r3)"
      "compare_native (str_of (\<lambda>v. []) name) vs current (a3, r3) ''baseline'' = Inr (a4, r4)"
    and q: "quiet rep' = quiet r4"
    unfolding assess_case_def by (auto simp: bindE_Inr_iff Let_def quiet_def split: option.splits)
  from compare_go_quiet [OF g(1)] compare_go_quiet [OF g(2)] compare_native_quiet [OF g(3)] compare_native_quiet [OF g(4)]
  have "quiet r4 \<longleftrightarrow> quiet rep \<and> go_fine vs current ''typerb-go'' \<and> go_fine vs current ''pure-go'' \<and>
      native_fine vs current ''previous'' \<and> native_fine vs current ''baseline''" by blast
  with n q show ?thesis by (auto simp: case_fine_def)
qed

lemma assess_cases_quiet:
  "foldE (assess_case indexed) rep cs = Inr rep' \<Longrightarrow> quiet rep' \<longleftrightarrow> quiet rep \<and> list_all (case_fine indexed) cs"
  by (induction cs arbitrary: rep) (auto simp: bindE_Inr_iff dest!: assess_case_quiet)

lemma rss_status_met: "rss_status rep = ''met'' \<longleftrightarrow> quiet rep"
  by (auto simp: rss_status_def quiet_def)


definition demo_row :: "string \<Rightarrow> int \<Rightarrow> json" where
  "demo_row role n = JDict [(''case'', JStr ''c''), (''role'', JStr role), (''status'', JStr ''pass''),
     (''runtime'', JDict [(''memoryBytes'', JInt n)]), (''args'', JList []), (''expectedSha256'', JStr ''s'')]"

definition demo_rows :: "json list" where
  "demo_rows = [demo_row ''native'' 9, demo_row ''previous'' 8, demo_row ''typerb-go'' 10, demo_row ''baseline'' 9]"

lemma demo_quotients: "\<exists>q. int_quotient 9 10 = Inr q" "\<exists>q. int_quotient 9 8 = Inr q" "\<exists>q. int_quotient 9 9 = Inr q"
proof -
  have q: "quotient_of (9 / 10) = (9, 10)" "quotient_of (9 / 8) = (9, 8)" "quotient_of 1 = (1, 1)" by code_simp+
  show "\<exists>q. int_quotient 9 10 = Inr q" "\<exists>q. int_quotient 9 8 = Inr q" "\<exists>q. int_quotient 9 9 = Inr q"
    by (simp_all add: int_quotient_def round64_def binary_exponent_def q bit_length.simps pow2_def round_half_even_def Let_def)
qed

lemma demo_assess: "\<exists>report. assess (JList demo_rows) (JList [JDict [(''id'', JStr ''c'')]]) = Inr report \<and>
    item report ''status'' = Inr (JStr ''met'')"
proof -
  obtain q1 q2 q3 where q: "int_quotient 9 10 = Inr q1" "int_quotient 9 8 = Inr q2" "int_quotient 9 9 = Inr q3"
    using demo_quotients by blast
  let ?k = "\<lambda>r. JList [JStr ''c'', JStr r]"
  have e: "expected_keys [JDict [(''id'', JStr ''c'')]] = Inr (map ?k [''native'', ''previous'', ''typerb-go'', ''baseline''])"
    by (simp add: expected_keys_def case_roles_def)
  have k: "mapE row_key demo_rows = Inr (map ?k [''native'', ''previous'', ''typerb-go'', ''baseline''])"
    by (simp add: demo_rows_def demo_row_def row_key_def)
  have s: "select_rows (zip (map ?k [''native'', ''previous'', ''typerb-go'', ''baseline'']) demo_rows) (JStr ''c'') =
      [(''native'', demo_row ''native'' 9), (''previous'', demo_row ''previous'' 8), (''typerb-go'', demo_row ''typerb-go'' 10),
       (''baseline'', demo_row ''baseline'' 9)]"
    by (simp add: select_rows_def demo_rows_def map_filter_simps)
  have r: "rss (demo_row role n) = Inr n" if "0 < n" for role n using that by (simp add: rss_def demo_row_def)
  let ?d = "[(''native'', demo_row ''native'' 9), (''previous'', demo_row ''previous'' 8), (''typerb-go'', demo_row ''typerb-go'' 10),
       (''baseline'', demo_row ''baseline'' 9)]"
  have v: "case_values ?d = Inr [(''native'', 9), (''previous'', 8), (''typerb-go'', 10), (''baseline'', 9)]"
    by (simp add: case_values_def r)
  have i: "forE (same_inputs ?d) ?d = Inr ()" by (simp add: same_inputs_def demo_row_def)
  have d: "\<not> (\<not> jdistinct (map ?k [''native'', ''previous'', ''typerb-go'', ''baseline'']) \<or>
      \<not> jset_eq (map ?k [''native'', ''previous'', ''typerb-go'', ''baseline'']) (map ?k [''native'', ''previous'', ''typerb-go'', ''baseline'']))"
    by (simp add: jset_eq_def jsub_def jmem_def jeq_item_def)
  obtain rep where a: "assess_case (zip (map ?k [''native'', ''previous'', ''typerb-go'', ''baseline'']) demo_rows)
      \<lparr>r_output = [], r_failures = [], r_reviews = [], r_missing = []\<rparr> (JDict [(''id'', JStr ''c'')]) = Inr rep"
    and m: "rss_status rep = ''met''"
  proof -
    have "case assess_case (zip (map ?k [''native'', ''previous'', ''typerb-go'', ''baseline'']) demo_rows)
      \<lparr>r_output = [], r_failures = [], r_reviews = [], r_missing = []\<rparr> (JDict [(''id'', JStr ''c'')]) of
      Inl e \<Rightarrow> False | Inr rep \<Rightarrow> rss_status rep = ''met''"
      using s v i by (simp add: assess_case_def compare_go_def compare_native_def increase_def q near_def grows_def
        ABSOLUTE_WARNING_BYTES_def rss_status_def Let_def del: zip_Cons_Cons)
    then show ?thesis using that by (auto split: sum.splits)
  qed
  have "assess_rows (JList demo_rows) (JList [JDict [(''id'', JStr ''c'')]]) = Inr rep"
    unfolding assess_rows_def iterE.simps bindE_simps e k if_not_P [OF d] foldE.simps a
    by (simp add: distinctE_def hashE_def jmem_def)
  with m show ?thesis by (simp add: assess_def)
qed


end
