(* ===== verification/SeedRelease.thy ===== *)
theory SeedRelease
  imports StrictJson PyProc PyNum
begin

text \<open>
  \<open>tools/bootstrap-seed-release.py\<close>: the release package of the bootstrap compilers is created from
  reviewed inputs, and a downloaded package is verified against its manifest, its checksum index
  and the published release. SHA-256 is a parameter.
\<close>

section \<open>The registered releases\<close>

definition TAG :: string where
  "TAG = ''bootstrap-seed-2026-09-29-module-cycles''"

definition MANIFEST :: string where
  "MANIFEST = ''type-rb-native-bootstrap-manifest-v2.json''"

definition predecessor :: "string \<Rightarrow> string \<Rightarrow> string \<Rightarrow> string \<Rightarrow> string \<Rightarrow> json" where
  "predecessor tag revision manifest darwin linux = JDict [(''releaseTag'', JStr tag), (''nativeRevision'', JStr revision),
     (''manifestSha256'', JStr manifest), (''targets'', JList [
       JDict [(''asset'', JStr ''type-rb-native-bootstrap-darwin-arm64''), (''sha256'', JStr darwin)],
       JDict [(''asset'', JStr ''type-rb-native-bootstrap-linux-arm64''), (''sha256'', JStr linux)]])]"

definition PREDECESSORS :: "(string \<times> json) list" where
  "PREDECESSORS = [
     (''bootstrap-seed-2026-09-07'', predecessor ''bootstrap-seed-2026-08-30'' ''0058818314977633c50393796ef9b9f8f1fda50f''
        ''a46d8c789f661a96aa38b1d4b9fd9ee21e46ccb3f4f2303a4f4d43caae1701b0''
        ''ef438d13598c534766334b408a39715c56ff1b69db528910ebf7d90ec7720b65''
        ''b4307c244edc9e4da620f2a7c1b03a733e575da032efefae615f9edf75048a37''),
     (''bootstrap-seed-2026-09-08'', predecessor ''bootstrap-seed-2026-09-07'' ''1f7e8a110bbb2b13f0609709deb6fc8f09dc8b44''
        ''330e59e08bb1173b5865e782a7c578a556942ba5174422434cc56ab4fedfeed5''
        ''b960d8720ad6bb256fb019d04cd6ab80e86870228bed16776bba9fbe78f5769f''
        ''ff3bc9a2409e91eba0e2ef5109bf72a10aa16d4f360bc32aceafc50baa96a580''),
     (''bootstrap-seed-2026-09-08-loop-transfers'', predecessor ''bootstrap-seed-2026-09-08'' ''f8c293f6f9683b0a29b7eee614fc4fff261d36b8''
        ''6b92832b482e8b502045a71f7f267f2e3bb5b221cd2c52ce1c07e9a4405fe083''
        ''9a815fd3bdcfd24a082111814442ee11380d31532058024cc7d7564e203b0629''
        ''77e8e9df3b91cbbf7cb823044c0c79c23e63767c5986369f8d9a11e23773abf3''),
     (''bootstrap-seed-2026-09-08-boolean-arrays'', predecessor ''bootstrap-seed-2026-09-08-loop-transfers'' ''1d53ed0f5b9471335c913dd9d148ff3b9eb1b483''
        ''1262b05399ff63f3890b126f34bcce2c8c92405149ce902d49a3eb3d979dab68''
        ''756413fe6daa7b2a286bd4ae2721099807bf2061122f6d84f0414ea851c31d8f''
        ''13ae8ba588768b1e1936d83d022b85341144a401687e1cea2afa839f0e1a1e48''),
     (''bootstrap-seed-2026-09-09-record-arrays'', predecessor ''bootstrap-seed-2026-09-08-boolean-arrays'' ''e99df93e81c36c765ead99526fe58b2c2a978ced''
        ''faf866e10a4b1f3ca45fcf2c85db0efb01fbed9f02f44876ade0b4037f28da92''
        ''1c8fdd630b3e129b9e121abce34c6d6dbd928b844cbfc1cff5f20a53b6ccaec7''
        ''af5549d42390d3ac3ec74c646ddd37c5930b411f706e5cf2dfd4ca7258bb09fd''),
     (''bootstrap-seed-2026-09-10-hash'', predecessor ''bootstrap-seed-2026-09-09-record-arrays'' ''db48f64f6c3f6ce3fb904b2d28c95fa46522ebfc''
        ''67a6d9eb4a5449404fc513e7865be431d09fd158b14ecaede81e035abdd313f7''
        ''a95b8758af7d45ccbd40100cf00e15f2783a381b66a253a21fe683c06968e9bd''
        ''b77758a43f9341880ee2d78602ac131d3e6580808136df36a2de60e6dd633560''),
     (''bootstrap-seed-2026-09-11-array-iteration'', predecessor ''bootstrap-seed-2026-09-10-hash'' ''79f699e9245f79131646ebf43207f6b7526c4f68''
        ''0fc38b20b2f5a4e0bdd7f15c33b1bac3cb66406d72b54006fcb8a518e5f80ee0''
        ''13d2b494b5b4864f0f7c823a5c9e2c38850e865725ed8cef87fd487d1358185d''
        ''6bae5730fc543c9dc8609a19d4884064b8d363ca038fe75a5b74465eb8b3c7a5''),
     (''bootstrap-seed-2026-09-12-compiler-names'', predecessor ''bootstrap-seed-2026-09-11-array-iteration'' ''b4a1b383e5678907649334203f534ae62fa42af6''
        ''3e3c71b9921a81d58224e67833957dcd281840dd80204cb114f54700332b39b0''
        ''7ba29a5897782366569be9b2be3461f59fcf3e8feccfe41694ae4a29c457d19a''
        ''8c9d2ea099880ebbce4f4e91230b1cfab40e3fce4c145adacba36718ddbc5852''),
     (''bootstrap-seed-2026-09-29-module-cycles'', predecessor ''bootstrap-seed-2026-09-12-compiler-names'' ''d7ffb9384229125216696a220c7f370422472178''
        ''04a0242b06818641e72d65ccbe4ece79380d875768772e60500fa36f05559c83''
        ''28d1b5a3aa42013ea8876173dbf760f7e71ee221a69bf16c915e485ccf60bdd9''
        ''40cf35282750792c60dee1efdbdf331681ee7b5dd7efb5fae7a551824db4221c'')]"

definition LIMITS :: "(string \<times> int option \<times> int option \<times> int option) list" where
  "LIMITS = [
     (''bootstrap-seed-2026-09-07'', Some 350000, Some 317000, Some 667000),
     (''bootstrap-seed-2026-09-08'', Some 350000, Some 317000, Some 667000),
     (''bootstrap-seed-2026-09-08-loop-transfers'', Some 350000, Some 317000, Some 667000),
     (''bootstrap-seed-2026-09-08-boolean-arrays'', Some 350000, Some 328000, Some 678000),
     (''bootstrap-seed-2026-09-09-record-arrays'', Some 366000, Some 328000, Some 694000),
     (''bootstrap-seed-2026-09-10-hash'', Some 400000, Some 370000, Some 770000),
     (''bootstrap-seed-2026-09-11-array-iteration'', Some 417000, Some 388000, Some 805000),
     (''bootstrap-seed-2026-09-12-compiler-names'', None, None, None),
     (''bootstrap-seed-2026-09-29-module-cycles'', None, None, None)]"

definition BACKEND :: json where
  "BACKEND = JDict [(''name'', JStr ''QBE''), (''version'', JStr ''1.3''),
     (''sourceSha256'', JStr ''d587905d620dc5e1d2bfa7c2cc642b9b837aa89a3188c6e37b53d756cf66e320'')]"

text \<open>Name, operating system, runner and backend target.\<close>

type_synonym seed_target = "string \<times> string \<times> string \<times> string"

definition TARGETS :: "seed_target list" where
  "TARGETS = [(''darwin-arm64'', ''darwin'', ''macos-15'', ''arm64_apple''),
     (''linux-arm64'', ''linux'', ''ubuntu-24.04-arm'', ''arm64'')]"

definition TARGET_KEYS :: "string list" where
  "TARGET_KEYS = [''asset'', ''profile'', ''os'', ''architecture'', ''runnerImage'', ''qbeTarget'', ''ccBoundary'', ''mode'',
     ''size'', ''sha256'', ''attestationSubjectSha256'', ''qbeBinarySize'', ''qbeBinarySha256'']"

section \<open>Reading\<close>

definition require :: "bool res \<Rightarrow> string \<Rightarrow> unit res" where
  "require c message = raise_if (notE c) (ValueError message) (Inr ())"

definition unique_object :: "(string \<times> json) list \<Rightarrow> json res" where
  "unique_object pairs =
     bindE (foldE (\<lambda>result (key, v). bindE (require (Inr (key \<notin> fst ` set result)) ''duplicate JSON key'') (\<lambda>_.
        Inr (result @ [(key, v)]))) [] pairs) (\<lambda>result. Inr (JDict result))"

definition seed_hooks :: hooks where
  "seed_hooks = \<lparr>pairs_hook = unique_object, const_hook = (\<lambda>c. Inl (ValueError ''non-finite JSON''))\<rparr>"

definition read_seed_json :: "fs \<Rightarrow> path \<Rightarrow> json res" where
  "read_seed_json f p = bindE (read_bytes f p) (loads_with seed_hooks)"

definition sha_ok :: "json \<Rightarrow> nat \<Rightarrow> bool" where
  "sha_ok v width = (case v of JStr s \<Rightarrow> fullmatch (hex_rx width) s | _ \<Rightarrow> False)"

definition size_ok :: "json \<Rightarrow> int option \<Rightarrow> bool" where
  "size_ok v maximum = (case v of JInt n \<Rightarrow> 0 < n \<and> (case maximum of None \<Rightarrow> True | Some m \<Rightarrow> n \<le> m) | _ \<Rightarrow> False)"

section \<open>The manifest\<close>

definition eqE :: "json \<Rightarrow> string \<Rightarrow> json \<Rightarrow> bool res" where
  "eqE d k x = bindE (item d k) (\<lambda>v. Inr (jeq v x))"

definition target_identity :: "seed_target \<Rightarrow> (string \<times> string) list" where
  "target_identity expected = (case expected of (name, os, runner, qbe) \<Rightarrow>
     [(''asset'', ''type-rb-native-bootstrap-'' @ name), (''profile'', name @ ''-v0''), (''os'', os), (''architecture'', ''arm64''),
      (''runnerImage'', runner), (''qbeTarget'', qbe), (''ccBoundary'', ''system-cc''), (''mode'', ''0755'')])"

definition validate_target :: "seed_target \<Rightarrow> int option \<Rightarrow> json \<Rightarrow> unit res" where
  "validate_target expected limit target =
     bindE (require (andE (Inr (is_dict target)) (keys_are target TARGET_KEYS)) ''target keys differ'') (\<lambda>_.
     bindE (forE (\<lambda>(key, v). require (eqE target key (JStr v)) (''target identity differs: '' @ key)) (target_identity expected)) (\<lambda>_.
     bindE (require (bindE (item target ''size'') (\<lambda>v. Inr (size_ok v limit))) ''compiler size exceeds accepted target limit'') (\<lambda>_.
     bindE (require (bindE (item target ''sha256'') (\<lambda>s. andE (Inr (sha_ok s 64)) (eqE target ''attestationSubjectSha256'' s))) ''target digest differs'') (\<lambda>_.
     require (andE (bindE (item target ''qbeBinarySize'') (\<lambda>v. Inr (size_ok v None)))
        (bindE (item target ''qbeBinarySha256'') (\<lambda>v. Inr (sha_ok v 64)))) ''QBE binary identity invalid''))))"

definition MANIFEST_KEYS :: "string list" where
  "MANIFEST_KEYS = [''schemaVersion'', ''status'', ''releaseTag'', ''nativeRevision'', ''predecessor'', ''backend'', ''targets'']"

definition validate_targets :: "int option \<times> int option \<times> int option \<Rightarrow> json \<Rightarrow> unit res" where
  "validate_targets limits ts = (case limits of (darwin, linux, combined) \<Rightarrow> (case ts of
        JList [a, b] \<Rightarrow>
          bindE (validate_target (TARGETS ! 0) darwin a) (\<lambda>_. bindE (validate_target (TARGETS ! 1) linux b) (\<lambda>_.
          (case combined of None \<Rightarrow> Inr ()
           | Some m \<Rightarrow> require (bindE (bindE (mapE (\<lambda>t. item t ''size'') [a, b]) sumE) (\<lambda>total. leE total (JInt m)))
              ''combined size exceeds accepted limit'')))
      | _ \<Rightarrow> Inl (ValueError ''target count differs'')))"

definition validate_manifest :: "json \<Rightarrow> string \<Rightarrow> string \<Rightarrow> unit res" where
  "validate_manifest manifest revision tag = (case (map_of PREDECESSORS tag, map_of LIMITS tag) of
       (Some before, Some (darwin, linux, combined)) \<Rightarrow>
     bindE (require (Inr (sha_ok (JStr revision) 40)) ''invalid source revision'') (\<lambda>_.
     bindE (require (andE (Inr (is_dict manifest)) (keys_are manifest MANIFEST_KEYS)) ''manifest keys differ'') (\<lambda>_.
     bindE (require (bindE (item manifest ''schemaVersion'') (\<lambda>v. Inr (type_is_int v \<and> jeq v (JInt 2)))) ''manifest version differs'') (\<lambda>_.
     bindE (require (andE (eqE manifest ''status'' (JStr ''experimental'')) (eqE manifest ''releaseTag'' (JStr tag))) ''release identity differs'') (\<lambda>_.
     bindE (require (eqE manifest ''nativeRevision'' (JStr revision)) ''source revision differs'') (\<lambda>_.
     bindE (require (eqE manifest ''predecessor'' before) ''predecessor provenance differs'') (\<lambda>_.
     bindE (require (eqE manifest ''backend'' BACKEND) ''backend identity differs'') (\<lambda>_.
     bindE (item manifest ''targets'') (validate_targets (darwin, linux, combined)))))))))
     | _ \<Rightarrow> Inl (ValueError ''unknown release tag''))"

section \<open>Creating and verifying a package\<close>

definition strE_seed :: "json \<Rightarrow> string \<Rightarrow> string res" where
  "strE_seed d k = bindE (item d k) (\<lambda>v. (case v of JStr s \<Rightarrow> Inr s | _ \<Rightarrow> Inl TypeError))"

definition file_is :: "(string \<Rightarrow> string) \<Rightarrow> fs \<Rightarrow> path \<Rightarrow> json \<Rightarrow> bool res" where
  "file_is sha256 f p target =
     andE (Inr (is_file f p)) (andE (bindE (file_size f p) (\<lambda>n. bindE (item target ''size'') (\<lambda>v. Inr (jeq (JInt (int n)) v))))
       (bindE (read_bytes f p) (\<lambda>s. eqE target ''sha256'' (JStr (sha256 s)))))"

definition copy_asset :: "path \<Rightarrow> path \<Rightarrow> fs \<Rightarrow> json \<Rightarrow> fs res" where
  "copy_asset inputs output f target =
     bindE (strE_seed target ''asset'') (\<lambda>asset.
     bindE (read_bytes f (joinp inputs asset)) (\<lambda>s.
     bindE (write_bytes f (joinp output asset) s) (\<lambda>g. chmod g (joinp output asset) 493)))"

definition manifest_text :: "json \<Rightarrow> string" where
  "manifest_text manifest = json_text (\<lambda>q. []) (pretty_opts\<lparr>sort_keys := True\<rparr>) 0 (sort_json manifest) @ [NL]"

definition sum_line :: "string \<Rightarrow> string \<Rightarrow> string" where
  "sum_line sha name = sha @ ''  '' @ name @ [NL]"

definition create :: "(string \<Rightarrow> string) \<Rightarrow> fs \<Rightarrow> string \<Rightarrow> path \<Rightarrow> path \<Rightarrow> fs res" where
  "create sha256 f revision inputs output =
     bindE (mapE (\<lambda>(name, _). read_seed_json f (joinp inputs (name @ ''.json''))) TARGETS) (\<lambda>targets.
     (let manifest = JDict [(''schemaVersion'', JInt 2), (''status'', JStr ''experimental''), (''releaseTag'', JStr TAG),
        (''nativeRevision'', JStr revision), (''predecessor'', the (map_of PREDECESSORS TAG)), (''backend'', BACKEND), (''targets'', JList targets)]
      in bindE (validate_manifest manifest revision TAG) (\<lambda>_.
         bindE (forE (\<lambda>t. bindE (strE_seed t ''asset'') (\<lambda>asset. require (file_is sha256 f (joinp inputs asset) t) ''input compiler differs'')) targets) (\<lambda>_.
         bindE (mkdir_new f output) (\<lambda>f1.
         bindE (foldE (copy_asset inputs output) f1 targets) (\<lambda>f2.
         bindE (write_bytes f2 (joinp output MANIFEST) (manifest_text manifest)) (\<lambda>f3.
         bindE (mapE (\<lambda>t. strE_seed t ''asset'') targets) (\<lambda>assets.
         bindE (mapE (\<lambda>name. bindE (read_bytes f3 (joinp output name)) (\<lambda>s. Inr (sum_line (sha256 s) name))) (assets @ [MANIFEST])) (\<lambda>ls.
         write_bytes f3 (joinp output ''SHA256SUMS'') (concat ls))))))))))"

definition flag_is :: "json \<Rightarrow> string \<Rightarrow> json \<Rightarrow> bool res" where
  "flag_is d k x = bindE (get d k) (\<lambda>v. Inr (v = x))"

definition release_ok :: "json \<Rightarrow> string \<Rightarrow> string \<Rightarrow> unit res" where
  "release_ok release tag revision =
     bindE (require (andE (bindE (get release ''tag_name'') (\<lambda>v. Inr (jeq v (JStr tag))))
        (bindE (get release ''target_commitish'') (\<lambda>v. Inr (jeq v (JStr revision))))) ''published release revision differs'') (\<lambda>_.
     require (andE (flag_is release ''draft'' (JBool False)) (andE (flag_is release ''prerelease'' (JBool True))
        (flag_is release ''immutable'' (JBool True)))) ''release is not an immutable prerelease'')"

definition check_asset :: "(string \<times> json \<times> string) list \<Rightarrow> json \<Rightarrow> unit res" where
  "check_asset expected entry =
     bindE (item entry ''name'') (\<lambda>n. (case n of
        JStr name \<Rightarrow> (case map_of expected name of None \<Rightarrow> Inl (KeyError name)
          | Some (count, checksum) \<Rightarrow> require (andE (bindE (get entry ''size'') (\<lambda>v. Inr (type_is_int v)))
              (andE (bindE (item entry ''size'') (\<lambda>v. Inr (jeq v count)))
                (bindE (get entry ''digest'') (\<lambda>v. Inr (jeq v (JStr (''sha256:'' @ checksum))))))) ''release asset metadata differs'')
      | _ \<Rightarrow> Inl TypeError))"

definition file_entry :: "(string \<Rightarrow> string) \<Rightarrow> fs \<Rightarrow> path \<Rightarrow> string \<Rightarrow> (string \<times> json \<times> string) res" where
  "file_entry sha256 f directory name = bindE (read_bytes f (joinp directory name)) (\<lambda>s. Inr (name, JInt (int (length s)), sha256 s))"

definition target_entry :: "json \<Rightarrow> (string \<times> json \<times> string) res" where
  "target_entry t = bindE (strE_seed t ''asset'') (\<lambda>asset. bindE (item t ''size'') (\<lambda>n. bindE (strE_seed t ''sha256'') (\<lambda>s.
     Inr (asset, n, s))))"

definition check_assets :: "(string \<times> json \<times> string) list \<Rightarrow> json \<Rightarrow> unit res" where
  "check_assets expected v = (case v of
      JList assets \<Rightarrow>
        if length assets \<noteq> length expected then Inl (ValueError ''release asset count differs'') else
        bindE (mapE (\<lambda>a. get a ''name'') assets) (\<lambda>names. bindE (hashE names) (\<lambda>hs.
        if \<not> jset_eq hs (map (JStr \<circ> fst) expected) then Inl (ValueError ''release asset names differ'') else
        forE (check_asset expected) assets))
    | _ \<Rightarrow> Inl (ValueError ''release asset count differs''))"

definition verify_published :: "(string \<Rightarrow> string) \<Rightarrow> fs \<Rightarrow> string \<Rightarrow> string \<Rightarrow> path \<Rightarrow> path \<Rightarrow> (string \<times> json \<times> string) list \<Rightarrow> unit res" where
  "verify_published sha256 f tag revision directory release_path listed =
     bindE (read_seed_json f release_path) (\<lambda>release.
     bindE (release_ok release tag revision) (\<lambda>_.
     bindE (file_entry sha256 f directory ''SHA256SUMS'') (\<lambda>se.
     bindE (get release ''assets'') (check_assets (listed @ [se])))))"

definition verify_sums :: "(string \<Rightarrow> string) \<Rightarrow> fs \<Rightarrow> path \<Rightarrow> (string \<times> json \<times> string) list \<Rightarrow> (string \<times> json \<times> string) list res" where
  "verify_sums sha256 f directory entries =
     bindE (file_entry sha256 f directory MANIFEST) (\<lambda>me.
     bindE (read_bytes f (joinp directory ''SHA256SUMS'')) (\<lambda>found.
     if found \<noteq> concat (map (\<lambda>(name, n, s). sum_line s name) (entries @ [me]))
     then Inl (ValueError ''checksum index differs'') else Inr (entries @ [me])))"

definition verify_release :: "(string \<Rightarrow> string) \<Rightarrow> fs \<Rightarrow> string \<Rightarrow> string \<Rightarrow> string \<Rightarrow> path \<Rightarrow> path \<Rightarrow> unit res" where
  "verify_release sha256 f tag revision asset directory release_path =
     bindE (read_seed_json f (joinp directory MANIFEST)) (\<lambda>manifest.
     bindE (validate_manifest manifest revision tag) (\<lambda>_.
     bindE (bindE (item manifest ''targets'') iterE) (\<lambda>targets.
     bindE (mapE target_entry targets) (\<lambda>entries.
     (case map_of (zip (map fst entries) targets) asset of None \<Rightarrow> Inl (ValueError ''unknown target'') | Some target \<Rightarrow>
     bindE (require (file_is sha256 f (joinp directory asset) target) ''downloaded compiler differs'') (\<lambda>_.
     bindE (verify_sums sha256 f directory entries) (verify_published sha256 f tag revision directory release_path)))))))"

section \<open>What verification establishes\<close>

lemma require_iff [res_simps]: "require c m = Inr u \<longleftrightarrow> c = Inr True"
  by (auto simp: require_def raise_if_iff notE_iff)

lemma eqE_str: "eqE d k (JStr s) = Inr True \<longleftrightarrow> item d k = Inr (JStr s)"
  by (auto simp: eqE_def bindE_Inr_iff)

lemma size_ok_iff: "size_ok v m \<longleftrightarrow> (\<exists>n. v = JInt n \<and> 0 < n \<and> (\<forall>x. m = Some x \<longrightarrow> n \<le> x))"
  by (cases v) (auto simp: size_ok_def split: option.splits)

text \<open>The size and digest a target records.\<close>

definition target_records :: "json \<Rightarrow> string \<Rightarrow> int \<Rightarrow> string \<Rightarrow> bool" where
  "target_records t asset n sha = (item t ''asset'' = Inr (JStr asset) \<and> item t ''size'' = Inr (JInt n) \<and> 0 < n \<and>
     item t ''sha256'' = Inr (JStr sha) \<and> is_hex 64 sha)"

lemma validate_target_records:
  assumes "validate_target expected limit t = Inr ()"
  shows "\<exists>n sha. target_records t (''type-rb-native-bootstrap-'' @ fst expected) n sha \<and> (\<forall>m. limit = Some m \<longrightarrow> n \<le> m)"
proof -
  obtain name os runner qbe where e: "expected = (name, os, runner, qbe)" by (cases expected)
  from assms have id: "forE (\<lambda>(key, v). require (eqE t key (JStr v)) (''target identity differs: '' @ key)) (target_identity expected) = Inr ()"
    by (simp add: validate_target_def bindE_Inr_iff)
  then have a: "item t ''asset'' = Inr (JStr (''type-rb-native-bootstrap-'' @ name))"
    by (simp add: e target_identity_def bindE_Inr_iff require_iff eqE_str)
  from assms obtain v s where v: "item t ''size'' = Inr v" "size_ok v limit" and s: "item t ''sha256'' = Inr s" "sha_ok s 64"
    by (auto simp: validate_target_def bindE_Inr_iff require_iff andE_iff)
  from s(2) obtain w where "s = JStr w" "is_hex 64 w" by (auto simp: sha_ok_def split: json.splits)
  with v s a show ?thesis by (auto simp: target_records_def size_ok_iff e)
qed

lemma manifest_records:
  assumes "validate_manifest manifest revision tag = Inr ()" "map_of LIMITS tag = Some (darwin, linux, combined)"
  shows "\<exists>ta tb a b sa sb. item manifest ''targets'' = Inr (JList [ta, tb]) \<and>
     target_records ta ''type-rb-native-bootstrap-darwin-arm64'' a sa \<and> target_records tb ''type-rb-native-bootstrap-linux-arm64'' b sb \<and>
     (\<forall>x. darwin = Some x \<longrightarrow> a \<le> x) \<and> (\<forall>x. linux = Some x \<longrightarrow> b \<le> x) \<and> (\<forall>x. combined = Some x \<longrightarrow> a + b \<le> x)"
proof -
  from assms obtain before where "map_of PREDECESSORS tag = Some before"
    by (auto simp: validate_manifest_def split: option.splits)
  with assms obtain ts where ts: "item manifest ''targets'' = Inr ts"
    and rest: "validate_targets (darwin, linux, combined) ts = Inr ()"
    by (auto simp: validate_manifest_def bindE_Inr_iff)
  from rest obtain ta tb where e: "ts = JList [ta, tb]" and va: "validate_target (TARGETS ! 0) darwin ta = Inr ()"
    and vb: "validate_target (TARGETS ! 1) linux tb = Inr ()"
    and sum: "\<And>m. combined = Some m \<Longrightarrow> bindE (bindE (mapE (\<lambda>t. item t ''size'') [ta, tb]) sumE) (\<lambda>total. leE total (JInt m)) = Inr True"
    unfolding validate_targets_def
    by (cases combined) (auto simp: bindE_Inr_iff require_iff simp del: mapE.simps split: json.splits list.splits)
  obtain a sa where a: "target_records ta ''type-rb-native-bootstrap-darwin-arm64'' a sa" "\<And>m. darwin = Some m \<Longrightarrow> a \<le> m"
    using validate_target_records [OF va] by (auto simp: TARGETS_def)
  obtain b sb where b: "target_records tb ''type-rb-native-bootstrap-linux-arm64'' b sb" "\<And>m. linux = Some m \<Longrightarrow> b \<le> m"
    using validate_target_records [OF vb] by (auto simp: TARGETS_def)
  have "a + b \<le> m" if "combined = Some m" for m
  proof -
    have "mapE (\<lambda>t. item t ''size'') [ta, tb] = Inr (map JInt [a, b])" using a b by (simp add: target_records_def)
    with sum [OF that] show ?thesis
      by (simp only: bindE_simps sumE_ints) (auto simp: leE_def fle_def simp del: mapE.simps of_int_add simp flip: of_int_add)
  qed
  with ts e a b show ?thesis by blast
qed

lemma manifest_targets:
  assumes "validate_manifest manifest revision tag = Inr ()"
  shows "\<exists>ta tb. item manifest ''targets'' = Inr (JList [ta, tb]) \<and>
     (\<exists>n sha. target_records ta ''type-rb-native-bootstrap-darwin-arm64'' n sha) \<and>
     (\<exists>n sha. target_records tb ''type-rb-native-bootstrap-linux-arm64'' n sha)"
proof -
  from assms obtain d l c where "map_of LIMITS tag = Some (d, l, c)"
    by (auto simp: validate_manifest_def split: option.splits)
  from manifest_records [OF assms this] show ?thesis by blast
qed

text \<open>C20. A manifest that validates for a release records two compilers with positive sizes and SHA-256
  digests, and respects the limits registered for that release: one for each target and one for
  both together.\<close>

theorem manifest_bounds:
  assumes "validate_manifest manifest revision tag = Inr ()" "map_of LIMITS tag = Some (darwin, linux, combined)"
  shows "\<exists>ta tb a b sa sb. item manifest ''targets'' = Inr (JList [ta, tb]) \<and>
     target_records ta ''type-rb-native-bootstrap-darwin-arm64'' a sa \<and> target_records tb ''type-rb-native-bootstrap-linux-arm64'' b sb \<and>
     (\<forall>x. darwin = Some x \<longrightarrow> a \<le> x) \<and> (\<forall>x. linux = Some x \<longrightarrow> b \<le> x) \<and> (\<forall>x. combined = Some x \<longrightarrow> a + b \<le> x)"
  by (rule manifest_records [OF assms])

definition entry_published :: "(string \<times> json \<times> string) list \<Rightarrow> json \<Rightarrow> bool" where
  "entry_published expected e = (\<exists>name n s v. map_of expected name = Some (n, s) \<and> item e ''name'' = Inr (JStr name) \<and>
     item e ''size'' = Inr v \<and> jeq v n \<and> item e ''digest'' = Inr (JStr (''sha256:'' @ s)))"

lemma get_strE: "get e k = Inr v \<and> jeq v (JStr s) \<longleftrightarrow> v = JStr s \<and> item e k = Inr v"
  by (cases e) (auto split: option.splits)

lemma check_asset_published:
  assumes "check_asset expected e = Inr ()"
  shows "entry_published expected e"
proof -
  from assms obtain name n s where n: "item e ''name'' = Inr (JStr name)" "map_of expected name = Some (n, s)"
    and r: "require (andE (bindE (get e ''size'') (\<lambda>v. Inr (type_is_int v)))
              (andE (bindE (item e ''size'') (\<lambda>v. Inr (jeq v n)))
                (bindE (get e ''digest'') (\<lambda>v. Inr (jeq v (JStr (''sha256:'' @ s))))))) ''release asset metadata differs'' = Inr ()"
    unfolding check_asset_def bindE_Inr_iff by (elim exE conjE) (simp split: json.splits option.splits prod.splits)
  from r obtain v d where "item e ''size'' = Inr v" "jeq v n" "get e ''digest'' = Inr d \<and> jeq d (JStr (''sha256:'' @ s))"
    unfolding require_iff andE_iff bindE_Inr_iff by auto
  with n get_strE [of e "''digest''" d] show ?thesis by (auto simp: entry_published_def)
qed

lemma file_is_iff:
  "file_is sha256 f p t = Inr True \<longleftrightarrow> is_file f p \<and> (\<exists>s v. read_bytes f p = Inr s \<and> item t ''size'' = Inr v \<and>
     jeq (JInt (int (length s))) v \<and> item t ''sha256'' = Inr (JStr (sha256 s)))"
  by (auto simp: file_is_def andE_iff bindE_Inr_iff file_size_def eqE_str)

lemma target_entry_iff:
  "target_entry t = Inr (name, n, s) \<longleftrightarrow> item t ''asset'' = Inr (JStr name) \<and> item t ''size'' = Inr n \<and> item t ''sha256'' = Inr (JStr s)"
proof -
  have "strE_seed t k = Inr w \<longleftrightarrow> item t k = Inr (JStr w)" for k w
  proof (cases "item t k")
    case (Inr v)
    then show ?thesis by (cases v) (auto simp: strE_seed_def)
  qed (simp add: strE_seed_def)
  then show ?thesis by (auto simp: target_entry_def bindE_Inr_iff)
qed

text \<open>What the published release must list: the recorded targets, the manifest and the checksum index.\<close>

definition release_files :: "(string \<Rightarrow> string) \<Rightarrow> fs \<Rightarrow> path \<Rightarrow> json list \<Rightarrow> (string \<times> json \<times> string) list res" where
  "release_files sha256 f directory targets = bindE (mapE target_entry targets) (\<lambda>entries.
     bindE (file_entry sha256 f directory MANIFEST) (\<lambda>me. bindE (file_entry sha256 f directory ''SHA256SUMS'') (\<lambda>se.
     Inr (entries @ [me, se]))))"

text \<open>C21. When a downloaded compiler verifies, its manifest validates and records the size and SHA-256 of
  exactly the downloaded bytes under that asset's name, and the published release lists as many
  assets as expected, with the expected names, each with the size and digest of the recorded
  target or of the manifest and checksum files at hand.\<close>

theorem verified_release_exact:
  assumes "verify_release sha256 f tag revision asset directory release_path = Inr ()"
  shows "\<exists>manifest targets t s release assets expected names.
     read_seed_json f (joinp directory MANIFEST) = Inr manifest \<and> validate_manifest manifest revision tag = Inr () \<and>
     bindE (item manifest ''targets'') iterE = Inr targets \<and> t \<in> set targets \<and>
     read_bytes f (joinp directory asset) = Inr s \<and> item t ''asset'' = Inr (JStr asset) \<and>
     item t ''size'' = Inr (JInt (int (length s))) \<and> item t ''sha256'' = Inr (JStr (sha256 s)) \<and>
     release_files sha256 f directory targets = Inr expected \<and> get release ''assets'' = Inr (JList assets) \<and>
     read_seed_json f release_path = Inr release \<and> length assets = length expected \<and>
     mapE (\<lambda>a. get a ''name'') assets = Inr names \<and> jset_eq names (map (JStr \<circ> fst) expected) \<and>
     list_all (entry_published expected) assets"
proof -
  from assms obtain manifest targets entries where
      m: "read_seed_json f (joinp directory MANIFEST) = Inr manifest" "validate_manifest manifest revision tag = Inr ()"
      "bindE (item manifest ''targets'') iterE = Inr targets" "mapE target_entry targets = Inr entries"
    and rest: "(case map_of (zip (map fst entries) targets) asset of None \<Rightarrow> Inl (ValueError ''unknown target'') | Some target \<Rightarrow>
     bindE (require (file_is sha256 f (joinp directory asset) target) ''downloaded compiler differs'') (\<lambda>_.
     bindE (verify_sums sha256 f directory entries) (verify_published sha256 f tag revision directory release_path))) = Inr ()"
    unfolding verify_release_def by (auto simp: bindE_Inr_iff simp del: mapE_iff)
  from rest obtain t listed where t: "map_of (zip (map fst entries) targets) asset = Some t"
      "file_is sha256 f (joinp directory asset) t = Inr True"
    and l: "verify_sums sha256 f directory entries = Inr listed"
    and p: "verify_published sha256 f tag revision directory release_path listed = Inr ()"
    by (auto simp: bindE_Inr_iff require_iff split: option.splits)
  from l obtain me where me: "file_entry sha256 f directory MANIFEST = Inr me" "listed = entries @ [me]"
    unfolding verify_sums_def by (auto simp: bindE_Inr_iff split: if_splits)
  from p obtain release se v where r: "read_seed_json f release_path = Inr release"
      "file_entry sha256 f directory ''SHA256SUMS'' = Inr se" "get release ''assets'' = Inr v"
    and v: "check_assets (listed @ [se]) v = Inr ()"
    unfolding verify_published_def by (auto simp: bindE_Inr_iff)
  from v obtain assets names where a: "v = JList assets" "length assets = length (listed @ [se])"
    "mapE (\<lambda>a. get a ''name'') assets = Inr names" "jset_eq names (map (JStr \<circ> fst) (listed @ [se]))"
    "forE (check_asset (listed @ [se])) assets = Inr ()"
    unfolding check_assets_def by (auto simp: bindE_Inr_iff hashE_def simp del: mapE_iff split: json.splits if_splits)
  have "(asset, t) \<in> set (zip (map fst entries) targets)" using t(1) by (rule map_of_SomeD)
  then obtain i where i: "i < length targets" "i < length entries" "fst (entries ! i) = asset" "targets ! i = t"
    by (auto simp: set_zip)
  with m(4) have "target_entry t = Inr (entries ! i)" by (auto simp: mapE_iff list_all2_conv_all_nth)
  with i(3) have ta: "item t ''asset'' = Inr (JStr asset)" by (cases "entries ! i") (auto simp: target_entry_iff)
  obtain ta' tb where tt: "targets = [ta', tb]" "\<exists>n sha. target_records ta' ''type-rb-native-bootstrap-darwin-arm64'' n sha"
    "\<exists>n sha. target_records tb ''type-rb-native-bootstrap-linux-arm64'' n sha"
  proof -
    from manifest_targets [OF m(2)] obtain x y where xy: "item manifest ''targets'' = Inr (JList [x, y])"
      "\<exists>n sha. target_records x ''type-rb-native-bootstrap-darwin-arm64'' n sha"
      "\<exists>n sha. target_records y ''type-rb-native-bootstrap-linux-arm64'' n sha" by blast
    then have "targets = [x, y]" using m(3) by simp
    with xy show thesis using that by blast
  qed
  have "t \<in> set targets" using i by auto
  then obtain n where n: "item t ''size'' = Inr (JInt n)" using tt by (auto simp: target_records_def)
  from t(2) n obtain s where s: "read_bytes f (joinp directory asset) = Inr s" "item t ''size'' = Inr (JInt (int (length s)))"
    "item t ''sha256'' = Inr (JStr (sha256 s))"
    by (auto simp: file_is_iff)
  have "release_files sha256 f directory targets = Inr (listed @ [se])" by (simp add: release_files_def m(4) me r(2))
  moreover have "list_all (entry_published (listed @ [se])) assets"
    using a(5) by (auto simp: forE_iff list_all_iff intro: check_asset_published)
  ultimately show ?thesis using m r(1,3) ta s a \<open>t \<in> set targets\<close> by blast
qed

section \<open>Witnesses\<close>

definition seed_sha :: string where "seed_sha = replicate 64 (CHR ''a'')"
definition seed_revision :: string where "seed_revision = replicate 40 (CHR ''b'')"
definition seed_tag :: string where "seed_tag = ''bootstrap-seed-2026-09-07''"

definition seed_demo_target :: "seed_target \<Rightarrow> json" where
  "seed_demo_target e = JDict (map (\<lambda>(k, v). (k, JStr v)) (target_identity e) @
     [(''size'', JInt 1), (''sha256'', JStr seed_sha), (''attestationSubjectSha256'', JStr seed_sha),
      (''qbeBinarySize'', JInt 2), (''qbeBinarySha256'', JStr seed_sha)])"

definition seed_predecessor :: json where
  "seed_predecessor = the (map_of PREDECESSORS seed_tag)"

definition seed_demo_manifest :: json where
  "seed_demo_manifest = JDict [(''schemaVersion'', JInt 2), (''status'', JStr ''experimental''), (''releaseTag'', JStr seed_tag),
     (''nativeRevision'', JStr seed_revision), (''predecessor'', seed_predecessor), (''backend'', BACKEND),
     (''targets'', JList (map seed_demo_target TARGETS))]"

lemma seed_hex: "is_hex 64 seed_sha" "is_hex 40 seed_revision"
  by (simp_all add: is_hex_def seed_sha_def seed_revision_def list_all_iff in_cls_def hex_cls_def)

lemma keys_are_list: "map fst kvs = ks \<Longrightarrow> keys_are (JDict kvs) ks = Inr True"
  by (auto simp del: set_map simp flip: set_map)

lemma seed_target_valid: "e \<in> set TARGETS \<Longrightarrow> (\<And>x. l = Some x \<Longrightarrow> 1 \<le> x) \<Longrightarrow> validate_target e l (seed_demo_target e) = Inr ()"
proof -
  assume e: "e \<in> set TARGETS" and l: "\<And>x. l = Some x \<Longrightarrow> 1 \<le> x"
  have "size_ok (JInt 1) l" using l by (simp add: size_ok_iff)
  moreover have "keys_are (seed_demo_target e) TARGET_KEYS = Inr True"
    unfolding seed_demo_target_def
    by (rule keys_are_list) (simp add: target_identity_def TARGET_KEYS_def split_def)
  moreover have "is_dict (seed_demo_target e)" by (simp add: seed_demo_target_def)
  moreover have "item (seed_demo_target e) ''size'' = Inr (JInt 1)" "item (seed_demo_target e) ''sha256'' = Inr (JStr seed_sha)"
    "item (seed_demo_target e) ''attestationSubjectSha256'' = Inr (JStr seed_sha)"
    "item (seed_demo_target e) ''qbeBinarySize'' = Inr (JInt 2)" "item (seed_demo_target e) ''qbeBinarySha256'' = Inr (JStr seed_sha)"
    using e by (auto simp: TARGETS_def seed_demo_target_def target_identity_def)
  moreover have "item (seed_demo_target e) k = Inr (JStr v)" if "(k, v) \<in> set (target_identity e)" for k v
    using e that by (auto simp: TARGETS_def seed_demo_target_def target_identity_def)
  ultimately show ?thesis
    by (simp add: validate_target_def bindE_Inr_iff require_iff andE_iff eqE_str forE_iff sha_ok_def seed_hex size_ok_def split_def)
qed

lemma seed_predecessor_shape: "\<exists>a b c d e. seed_predecessor = predecessor a b c d e"
  unfolding seed_predecessor_def PREDECESSORS_def seed_tag_def by (simp, blast)

lemma predecessor_facts:
  "jeq (predecessor a b c d e) (predecessor a b c d e)" "wf_json fr (predecessor a b c d e)" "all_finite (predecessor a b c d e)"
  by (simp_all add: predecessor_def)

lemma seed_predecessor_value: "map_of PREDECESSORS seed_tag = Some seed_predecessor"
  by (simp add: seed_predecessor_def PREDECESSORS_def seed_tag_def)

lemma seed_limits: "map_of LIMITS seed_tag = Some (Some 350000, Some 317000, Some 667000)"
  by (simp add: LIMITS_def seed_tag_def)

lemma seed_manifest_valid: "validate_manifest seed_demo_manifest seed_revision seed_tag = Inr ()"
proof -
  have "jeq seed_predecessor seed_predecessor"
    using seed_predecessor_shape predecessor_facts(1) by metis
  moreover have "jeq BACKEND BACKEND" by (simp add: BACKEND_def)
  moreover have "keys_are seed_demo_manifest MANIFEST_KEYS = Inr True"
    unfolding seed_demo_manifest_def by (rule keys_are_list) (simp add: MANIFEST_KEYS_def)
  moreover have "is_dict seed_demo_manifest" by (simp add: seed_demo_manifest_def)
  moreover have "validate_targets (Some 350000, Some 317000, Some 667000) (JList (map seed_demo_target TARGETS)) = Inr ()"
  proof -
    have "validate_target (TARGETS ! 0) (Some 350000) (seed_demo_target (TARGETS ! 0)) = Inr ()"
      "validate_target (TARGETS ! 1) (Some 317000) (seed_demo_target (TARGETS ! 1)) = Inr ()"
      by (rule seed_target_valid; simp add: TARGETS_def)+
    moreover have "map seed_demo_target TARGETS = [seed_demo_target (TARGETS ! 0), seed_demo_target (TARGETS ! 1)]"
      by (simp add: TARGETS_def)
    moreover have "mapE (\<lambda>t. item t ''size'') [seed_demo_target (TARGETS ! 0), seed_demo_target (TARGETS ! 1)] = Inr (map JInt [1, 1])"
      by (simp add: seed_demo_target_def target_identity_def TARGETS_def)
    moreover have "sumE (map JInt [1, 1]) = Inr (JInt 2)" by (simp only: sumE_ints) simp
    ultimately show ?thesis by (simp add: validate_targets_def require_iff leE_def fle_def del: mapE.simps)
  qed
  ultimately show ?thesis
    by (simp add: validate_manifest_def seed_predecessor_value seed_limits bindE_Inr_iff require_iff andE_iff sha_ok_def seed_hex)
      (simp add: seed_demo_manifest_def eqE_def)
qed

lemma manifest_bounds_witness:
  "\<exists>ta tb a b. item seed_demo_manifest ''targets'' = Inr (JList [ta, tb]) \<and> (a :: int) + b \<le> 667000 \<and>
     item ta ''size'' = Inr (JInt a) \<and> item tb ''size'' = Inr (JInt b)"
  using manifest_bounds [OF seed_manifest_valid seed_limits] by (auto simp: target_records_def)

definition seed_digest :: "string \<Rightarrow> string" where "seed_digest s = seed_sha"

definition seed_text :: string where "seed_text = json_text (\<lambda>q. []) plain_opts 0 seed_demo_manifest"

definition seed_sums :: string where
  "seed_sums = concat (map (sum_line seed_sha) [''type-rb-native-bootstrap-darwin-arm64'', ''type-rb-native-bootstrap-linux-arm64'', MANIFEST])"

definition seed_asset :: "string \<Rightarrow> nat \<Rightarrow> json" where
  "seed_asset name n = JDict [(''name'', JStr name), (''size'', JInt (int n)), (''digest'', JStr (''sha256:'' @ seed_sha))]"

definition seed_release :: json where
  "seed_release = JDict [(''tag_name'', JStr seed_tag), (''target_commitish'', JStr seed_revision), (''draft'', JBool False),
     (''prerelease'', JBool True), (''immutable'', JBool True),
     (''assets'', JList [seed_asset ''type-rb-native-bootstrap-darwin-arm64'' 1, seed_asset ''type-rb-native-bootstrap-linux-arm64'' 1,
       seed_asset MANIFEST (length seed_text), seed_asset ''SHA256SUMS'' (length seed_sums)])]"

definition seed_fs :: fs where
  "seed_fs = [([''d'', MANIFEST], NFile seed_text 420), ([''d'', ''type-rb-native-bootstrap-darwin-arm64''], NFile ''x'' 420),
     ([''d'', ''SHA256SUMS''], NFile seed_sums 420), ([''rel''], NFile (json_text (\<lambda>q. []) plain_opts 0 seed_release) 420)]"

lemma seed_links: "no_links seed_fs"
  by (rule no_links_list) (simp add: seed_fs_def not_link_def)

lemma seed_look:
  "look seed_fs [''d'', MANIFEST] = Some (NFile seed_text 420)"
  "look seed_fs [''d'', ''type-rb-native-bootstrap-darwin-arm64''] = Some (NFile ''x'' 420)"
  "look seed_fs [''d'', ''SHA256SUMS''] = Some (NFile seed_sums 420)"
  "look seed_fs [''rel''] = Some (NFile (json_text (\<lambda>q. []) plain_opts 0 seed_release) 420)"
  by (simp_all add: look_def seed_fs_def MANIFEST_def)

lemma seed_join:
  "joinp [''d''] MANIFEST = [''d'', MANIFEST]" "joinp [''d''] ''SHA256SUMS'' = [''d'', ''SHA256SUMS'']"
  "joinp [''d''] ''type-rb-native-bootstrap-darwin-arm64'' = [''d'', ''type-rb-native-bootstrap-darwin-arm64'']"
  by (simp_all add: joinp_def is_absolute_def pure_parts_def MANIFEST_def)

lemma seed_reads:
  "read_bytes seed_fs [''d'', MANIFEST] = Inr seed_text"
  "read_bytes seed_fs [''d'', ''type-rb-native-bootstrap-darwin-arm64''] = Inr ''x''"
  "read_bytes seed_fs [''d'', ''SHA256SUMS''] = Inr seed_sums"
  "read_bytes seed_fs [''rel''] = Inr (json_text (\<lambda>q. []) plain_opts 0 seed_release)"
proof -
  have p: "list_all plain_name [''d'', MANIFEST]" by (simp add: plain_name_def MANIFEST_def)
  show "read_bytes seed_fs [''d'', MANIFEST] = Inr seed_text" by (simp add: read_bytes_plain [OF seed_links p] seed_look)
qed (simp_all add: read_bytes_plain [OF seed_links] seed_look plain_name_def)

lemma seed_hooks_faithful: "faithful_hooks seed_hooks"
proof -
  have "distinct (map fst kvs) \<Longrightarrow> fst ` set acc \<inter> fst ` set kvs = {} \<Longrightarrow>
      foldE (\<lambda>result (key, v). bindE (require (Inr (key \<notin> fst ` set result)) ''duplicate JSON key'') (\<lambda>_.
        Inr (result @ [(key, v)]))) acc kvs = Inr (acc @ kvs)" for acc kvs :: "(string \<times> json) list"
    by (induction kvs arbitrary: acc) (auto simp: require_def)
  from this [of _ "[]"] show ?thesis by (simp add: faithful_hooks_def seed_hooks_def unique_object_def)
qed

lemma seed_json:
  "read_seed_json seed_fs [''d'', MANIFEST] = Inr seed_demo_manifest" "read_seed_json seed_fs [''rel''] = Inr seed_release"
proof -
  have p: "wf_json (\<lambda>q. []) seed_predecessor" "all_finite seed_predecessor"
    using seed_predecessor_shape predecessor_facts by metis+
  have m: "wf_json (\<lambda>q. []) seed_demo_manifest" "all_finite seed_demo_manifest"
    by (simp_all add: seed_demo_manifest_def p BACKEND_def TARGETS_def seed_demo_target_def target_identity_def)
  have r: "wf_json (\<lambda>q. []) seed_release" "all_finite seed_release"
    by (simp_all add: seed_release_def seed_asset_def)
  show "read_seed_json seed_fs [''d'', MANIFEST] = Inr seed_demo_manifest"
    using loads_with_json_text [OF seps_ok_opts(1) m(1) _ seed_hooks_faithful, of "[]"] m(2)
    by (simp add: read_seed_json_def seed_reads seed_text_def keeps_consts_def)
  show "read_seed_json seed_fs [''rel''] = Inr seed_release"
    using loads_with_json_text [OF seps_ok_opts(1) r(1) _ seed_hooks_faithful, of "[]"] r(2)
    by (simp add: read_seed_json_def seed_reads keeps_consts_def)
qed

lemma seed_verifies:
  "verify_release seed_digest seed_fs seed_tag seed_revision ''type-rb-native-bootstrap-darwin-arm64'' [''d''] [''rel''] = Inr ()"
proof -
  let ?d = "seed_demo_target (TARGETS ! 0)" and ?l = "seed_demo_target (TARGETS ! 1)"
  let ?es = "[(''type-rb-native-bootstrap-darwin-arm64'', JInt 1, seed_sha), (''type-rb-native-bootstrap-linux-arm64'', JInt 1, seed_sha)]"
  have ts: "bindE (item seed_demo_manifest ''targets'') iterE = Inr [?d, ?l]"
    by (simp add: seed_demo_manifest_def TARGETS_def)
  have es: "mapE target_entry [?d, ?l] = Inr ?es"
    by (simp add: target_entry_def strE_seed_def seed_demo_target_def target_identity_def TARGETS_def)
  have fl: "is_file seed_fs [''d'', ''type-rb-native-bootstrap-darwin-arm64'']"
    by (simp add: is_file_def stat_plain [OF seed_links] plain_name_def seed_look)
  have fi: "file_is seed_digest seed_fs [''d'', ''type-rb-native-bootstrap-darwin-arm64''] ?d = Inr True"
    by (simp add: file_is_iff fl seed_reads) (simp add: seed_demo_target_def target_identity_def TARGETS_def seed_digest_def)
  have vs: "verify_sums seed_digest seed_fs [''d''] ?es = Inr (?es @ [(MANIFEST, JInt (int (length seed_text)), seed_sha)])"
    by (simp add: verify_sums_def file_entry_def seed_join seed_reads seed_digest_def seed_sums_def)
  have g: "get seed_release ''assets'' = Inr (JList [seed_asset ''type-rb-native-bootstrap-darwin-arm64'' 1, seed_asset ''type-rb-native-bootstrap-linux-arm64'' 1,
       seed_asset MANIFEST (length seed_text), seed_asset ''SHA256SUMS'' (length seed_sums)])"
    by (simp add: seed_release_def)
  have ro: "release_ok seed_release seed_tag seed_revision = Inr ()"
    by (simp add: release_ok_def seed_release_def require_def flag_is_def)
  have ca: "check_asset xs (seed_asset name n) = Inr ()" if "map_of xs name = Some (JInt (int n), seed_sha)" for xs name n
    using that by (simp add: check_asset_def seed_asset_def require_def)
  let ?all = "?es @ [(MANIFEST, JInt (int (length seed_text)), seed_sha), (''SHA256SUMS'', JInt (int (length seed_sums)), seed_sha)]"
  have nm: "get (seed_asset name n) ''name'' = Inr (JStr name)" for name n by (simp add: seed_asset_def)
  have js: "jset_eq (map JStr ks) (map (JStr \<circ> fst) xs) \<longleftrightarrow> set ks = set (map fst xs)" for ks and xs :: "(string \<times> json \<times> string) list"
    using jset_eq_strs [of ks "map fst xs"] by simp
  have "check_assets ?all (JList [seed_asset ''type-rb-native-bootstrap-darwin-arm64'' 1, seed_asset ''type-rb-native-bootstrap-linux-arm64'' 1,
       seed_asset MANIFEST (length seed_text), seed_asset ''SHA256SUMS'' (length seed_sums)]) = Inr ()"
    using js [of "[''type-rb-native-bootstrap-darwin-arm64'', ''type-rb-native-bootstrap-linux-arm64'', MANIFEST, ''SHA256SUMS'']" ?all]
    by (simp add: check_assets_def nm hashE_def ca MANIFEST_def)
  then have "verify_published seed_digest seed_fs seed_tag seed_revision [''d''] [''rel'']
      (?es @ [(MANIFEST, JInt (int (length seed_text)), seed_sha)]) = Inr ()"
    by (simp add: verify_published_def seed_json ro file_entry_def seed_join seed_reads seed_digest_def g)
  with ts es fi vs show ?thesis
    by (simp add: verify_release_def seed_join seed_json seed_manifest_valid require_def del: mapE.simps append.simps)
qed

lemma verified_release_exact_witness:
  "\<exists>manifest s. read_seed_json seed_fs [''d'', MANIFEST] = Inr manifest \<and>
     read_bytes seed_fs [''d'', ''type-rb-native-bootstrap-darwin-arm64''] = Inr s \<and> length s = 1"
  using verified_release_exact [OF seed_verifies] by (auto simp: seed_join seed_reads)

end
