(* ===== verification/LanguageCoverage.thy ===== *)
theory LanguageCoverage
  imports PyJsonText PyProc
begin

text \<open>
  \<open>tools/native-language-coverage.py\<close>: the registry of small language cases with the reviewed
  outcomes of both compilers, the comparison of an observation with them, the coverage views
  and the run over every case. The child process, UTF-8 decoding, SHA-256 and the shortest
  decimal of a float are parameters.
\<close>

section \<open>Reviewed outcomes\<close>

definition PATHS :: "string list" where
  "PATHS = [''check'', ''build'', ''execute'', ''repl'']"

fun dict_keys :: "json \<Rightarrow> string list" where
  "dict_keys (JDict kvs) = map fst kvs"
| "dict_keys _ = []"

definition isE :: "(json \<Rightarrow> bool) \<Rightarrow> json \<Rightarrow> string \<Rightarrow> bool res" where
  "isE p v k = bindE (item v k) (\<lambda>x. Inr (p x))"

definition outcome_fields :: "json \<Rightarrow> string list" where
  "outcome_fields v = filter (\<lambda>k. k \<noteq> ''invalidUtf8'') (dict_keys v)"

definition is_prefix_outcome :: "json \<Rightarrow> bool" where
  "is_prefix_outcome v = (set (outcome_fields v) = {''code'', ''stdout'', ''stderrFirstLine''})"

definition exit_code_ok :: "json \<Rightarrow> bool" where
  "exit_code_ok v = (case v of JInt n \<Rightarrow> 0 \<le> n \<and> n \<le> 255 | _ \<Rightarrow> False)"

definition texts_ok :: "json \<Rightarrow> bool" where
  "texts_ok v = (case v of JDict kvs \<Rightarrow>
     list_all (\<lambda>(k, x). k = ''code'' \<or> k = ''invalidUtf8'' \<or> is_str x) kvs | _ \<Rightarrow> False)"

definition bad_prefix :: "string \<Rightarrow> json \<Rightarrow> bool res" where
  "bad_prefix action v = orE (Inr (action \<noteq> ''execute'')) (orE (isE (\<lambda>c. jeq c (JInt 0)) v ''code'')
     (orE (isE (\<lambda>s. \<not> truthy s) v ''stderrFirstLine'')
       (bindE (item v ''stderrFirstLine'') (inE (JStr [NL])))))"

definition bad_outcome :: "string \<Rightarrow> json \<Rightarrow> bool res" where
  "bad_outcome action v =
     orE (Inr (set (outcome_fields v) \<noteq> {''code'', ''stdout'', ''stderr''} \<and> \<not> is_prefix_outcome v))
       (orE (bindE (get v ''code'') (\<lambda>c. Inr (\<not> exit_code_ok c)))
         (orE (Inr (\<not> texts_ok v)) (andE (Inr (is_prefix_outcome v)) (bad_prefix action v))))"

definition hex_pairs_rx :: rx where
  "hex_pairs_rx = rplus (Rep 2 (Cls hex_cls))"

definition bad_raw :: "json \<Rightarrow> json \<Rightarrow> bool" where
  "bad_raw v raw = (case raw of
     JDict kvs \<Rightarrow> kvs = [] \<or> \<not> set (map fst kvs) \<subseteq> {''stdout'', ''stderr''} \<or>
       \<not> list_all (\<lambda>(k, x). case x of JStr s \<Rightarrow> fullmatch hex_pairs_rx s | _ \<Rightarrow> False) kvs \<or> is_prefix_outcome v
   | _ \<Rightarrow> True)"

definition check_path_outcome :: "string \<times> json \<Rightarrow> unit res" where
  "check_path_outcome av = (let (action, v) = av in
     if action = ''execute'' \<and> v = JNull then Inr ()
     else if \<not> is_dict v then Inl (ValueError ''invalid path outcome'')
     else raise_if (bad_outcome action v) (ValueError ''invalid path outcome'') (
       bindE (hasE ''invalidUtf8'' v) (\<lambda>b. if b
         then raise_if (isE (bad_raw v) v ''invalidUtf8'') (ValueError ''invalid UTF-8 evidence'') (Inr ())
         else Inr ())))"

definition codeE :: "json \<Rightarrow> string \<Rightarrow> json res" where
  "codeE v p = bindE (item v p) (\<lambda>o1. item o1 ''code'')"

definition succeedsE :: "json \<Rightarrow> string \<Rightarrow> bool res" where
  "succeedsE v p = bindE (codeE v p) (\<lambda>c. Inr (jeq c (JInt 0)))"

definition validate_outcomes :: "json \<Rightarrow> unit res" where
  "validate_outcomes expected =
     (if \<not> is_dict expected \<or> set (dict_keys expected) \<noteq> set PATHS
      then Inl (ValueError ''missing reviewed path expectations'')
      else bindE (itemsE expected) (\<lambda>kvs. bindE (forE check_path_outcome kvs) (\<lambda>_.
        bindE (item expected ''execute'') (\<lambda>e. bindE (succeedsE expected ''build'') (\<lambda>b.
        if (e = JNull) = b then Inl (ValueError ''execution must follow a successful build'') else Inr ())))))"

section \<open>Comparing outcomes\<close>

definition timed_out_flag :: "json \<Rightarrow> bool res" where
  "timed_out_flag v = bindE (get v ''timedOut'') (\<lambda>t. Inr (truthy t))"

definition same_member :: "string \<Rightarrow> json \<Rightarrow> json \<Rightarrow> bool res" where
  "same_member k x y = bindE (item x k) (\<lambda>a. bindE (item y k) (\<lambda>b. Inr (jeq a b)))"

definition splitlinesE :: "json \<Rightarrow> string list res" where
  "splitlinesE v = (case v of JStr s \<Rightarrow> Inr (splitlines s) | _ \<Rightarrow> Inl AttributeError)"

definition first_line_is :: "json \<Rightarrow> json \<Rightarrow> bool res" where
  "first_line_is actual expected = bindE (item actual ''stderr'') (\<lambda>s. bindE (splitlinesE s) (\<lambda>ls.
     bindE (item expected ''stderrFirstLine'') (\<lambda>l. Inr (jeq (JList (map JStr (take 1 ls))) (JList [l])))))"

definition outcome_matches :: "json \<Rightarrow> json \<Rightarrow> bool res" where
  "outcome_matches actual expected =
     (if actual = JNull \<or> expected = JNull then Inr (actual = expected)
      else bindE (timed_out_flag actual) (\<lambda>t. if t then Inr False else
        bindE (hasE ''stderrFirstLine'' expected) (\<lambda>b. if b
          then andE (same_member ''code'' actual expected) (andE (same_member ''stdout'' actual expected)
                (andE (notE (hasE ''invalidUtf8'' actual)) (first_line_is actual expected)))
          else Inr (jeq actual expected))))"

definition outcomes_match :: "json \<Rightarrow> json \<Rightarrow> bool res" where
  "outcomes_match actual expected = allE (\<lambda>p. bindE (item actual p) (\<lambda>a. bindE (item expected p) (outcome_matches a))) PATHS"

definition execution_expectations_match :: "json \<Rightarrow> json \<Rightarrow> bool res" where
  "execution_expectations_match left right =
     (if left = JNull \<or> right = JNull then Inr (left = right)
      else ifE (orE (timed_out_flag left) (timed_out_flag right)) (Inr False)
        (ifE (andE (hasE ''stderrFirstLine'' left) (notE (hasE ''stderrFirstLine'' right))) (outcome_matches right left)
          (ifE (andE (hasE ''stderrFirstLine'' right) (notE (hasE ''stderrFirstLine'' left))) (outcome_matches left right)
            (Inr (jeq left right)))))"

definition rejected_as_reference :: "json \<Rightarrow> json \<Rightarrow> bool res" where
  "rejected_as_reference left right =
     andE (isE truthy left ''stderr'') (andE (isE truthy right ''stderr'') (andE (same_member ''code'' left right)
       (andE (same_member ''stdout'' left right) (notE (hasE ''invalidUtf8'' left)))))"

text \<open>The four tests in the order of the code; \<open>gap b p\<close> is the path when the test finds one.\<close>

definition gap :: "bool \<Rightarrow> string \<Rightarrow> string list" where
  "gap b p = (if b then [p] else [])"

definition acceptance_differs :: "json \<Rightarrow> json \<Rightarrow> string \<Rightarrow> bool res" where
  "acceptance_differs native reference p =
     bindE (succeedsE native p) (\<lambda>a. bindE (succeedsE reference p) (\<lambda>b. Inr (a \<noteq> b)))"

definition execution_differs :: "json \<Rightarrow> json \<Rightarrow> bool res" where
  "execution_differs native reference = bindE (item native ''execute'') (\<lambda>l. bindE (item reference ''execute'') (\<lambda>r.
     notE (execution_expectations_match l r)))"

definition repl_differs :: "json \<Rightarrow> json \<Rightarrow> bool res" where
  "repl_differs native reference = bindE (item native ''repl'') (\<lambda>l. bindE (item reference ''repl'') (\<lambda>r.
     bindE (rejected_as_reference l r) (\<lambda>rejected. Inr (\<not> jeq l r \<and> \<not> rejected))))"

definition parity_gaps :: "json \<Rightarrow> string list res" where
  "parity_gaps c = bindE (item c ''native'') (\<lambda>native. bindE (item c ''reference'') (\<lambda>reference.
     bindE (acceptance_differs native reference ''check'') (\<lambda>g1.
     bindE (acceptance_differs native reference ''build'') (\<lambda>g2.
     bindE (execution_differs native reference) (\<lambda>g3.
     bindE (repl_differs native reference) (\<lambda>g4.
     Inr (gap g1 ''check'' @ gap g2 ''build'' @ gap g3 ''execute'' @ gap g4 ''repl'')))))))"

section \<open>The registry\<close>

definition case_file_rx :: rx where
  "case_file_rx = seqs [Cls lower_cls, Star (Cls (lower_cls @ digit_cls @ chr_cls ''_/-'')), lit ''.trb'']"

definition control_rx :: rx where
  "control_rx = Cls [(CHR 0x00, CHR 0x1F), (CHR 0x7F, CHR 0x7F), (BSL, BSL)]"

definition valid_case_file :: "string \<Rightarrow> bool \<Rightarrow> bool" where
  "valid_case_file name project_check =
     (if name = ''main.trb'' then False
      else if \<exists>part \<in> set (split_chr (CHR ''/'') name). part \<in> {[], ''.'', ''..''} then False
      else if fullmatch case_file_rx name then True
      else project_check \<and> startswith name ''routes/'' \<and> endswith name ''.trb'' \<and> search control_rx name = None)"

definition identity_rx :: rx where
  "identity_rx = seqs [Cls lower_cls, Star (Cls (lower_cls @ digit_cls @ chr_cls ''-''))]"

definition CASE_KEYS :: "string list" where
  "CASE_KEYS = [''id'', ''title'', ''declarations'', ''body'', ''files'', ''reference'', ''native'']"

definition bad_case_fields :: "json \<Rightarrow> bool res" where
  "bad_case_fields c =
     orE (Inr (\<not> is_dict c)) (orE (notE (orE (keys_are c CASE_KEYS) (keys_are c (CASE_KEYS @ [''projectCheck'']))))
      (orE (andE (hasE ''projectCheck'' c) (isE (\<lambda>p. \<not> is_bool p) c ''projectCheck''))
       (orE (notE (allE (isE is_str c) [''id'', ''title'', ''declarations'', ''body'']))
        (orE (notE (bindE (item c ''id'') (fullmatchE identity_rx)))
         (orE (isE (\<lambda>t. \<not> truthy t) c ''title'') (isE (\<lambda>b. \<not> truthy b) c ''body''))))))"

definition check_case_file :: "bool \<Rightarrow> string \<times> json \<Rightarrow> unit res" where
  "check_case_file project_check ns =
     (if \<not> valid_case_file (fst ns) project_check \<or> \<not> is_str (snd ns) then Inl (ValueError ''invalid case file'') else Inr ())"

definition check_case :: "json list \<Rightarrow> json \<Rightarrow> json list res" where
  "check_case identities c =
     raise_if (bad_case_fields c) (ValueError ''invalid language case fields'') (
     bindE (item c ''id'') (\<lambda>i. if jmem i identities then Inl (ValueError ''duplicate language case'') else
     bindE (item c ''files'') (\<lambda>fs. if \<not> is_dict fs then Inl (ValueError ''invalid case files'') else
     bindE (getd c ''projectCheck'' (JBool False)) (\<lambda>p.
     bindE (itemsE fs) (\<lambda>kvs. bindE (forE (check_case_file (truthy p)) kvs) (\<lambda>_.
     bindE (item c ''reference'') (\<lambda>r. bindE (validate_outcomes r) (\<lambda>_.
     bindE (item c ''native'') (\<lambda>n. bindE (validate_outcomes n) (\<lambda>_. Inr (identities @ [i])))))))))))"

definition FEATURE_KEYS :: "string list" where
  "FEATURE_KEYS = [''id'', ''title'', ''scope'', ''syntax'', ''cases'', ''pending'', ''note'']"

definition node_rx :: rx where
  "node_rx = seqs [Cls upper_cls, rplus (Cls (upper_cls @ lower_cls))]"

fun list_of :: "json \<Rightarrow> json list" where
  "list_of (JList xs) = xs"
| "list_of _ = []"

definition list_allE :: "(json \<Rightarrow> bool) \<Rightarrow> json \<Rightarrow> string \<Rightarrow> bool res" where
  "list_allE p v k = isE (\<lambda>xs. is_list xs \<and> list_all p (list_of xs)) v k"

definition syntax_node :: "json \<Rightarrow> bool" where
  "syntax_node v = (case v of JStr s \<Rightarrow> fullmatch node_rx s | _ \<Rightarrow> False)"

record registry =
  reg_ids :: "json list"
  reg_nodes :: "json list"
  reg_covered :: "json list"

text \<open>Every list element is a string once the earlier tests have passed, so the sets of the code
  are the lists of their elements.\<close>

definition feature_fields_ok :: "json \<Rightarrow> bool res" where
  "feature_fields_ok f =
     andE (Inr (is_dict f)) (andE (keys_are f FEATURE_KEYS)
      (andE (allE (isE is_str f) [''id'', ''title'', ''scope'', ''note''])
       (andE (bindE (item f ''id'') (fullmatchE identity_rx)) (andE (isE truthy f ''title'')
        (bindE (item f ''scope'') (\<lambda>s. in_setE s [''basic'', ''toolchain'', ''packages'', ''retired'']))))))"

definition feature_lists_ok :: "json list \<Rightarrow> json list \<Rightarrow> json \<Rightarrow> bool res" where
  "feature_lists_ok identities nodes f =
     andE (allE (isE is_list f) [''syntax'', ''cases'', ''pending''])
      (andE (list_allE (\<lambda>x. is_str x \<and> truthy x) f ''pending'') (andE (list_allE is_str f ''cases'')
       (andE (list_allE syntax_node f ''syntax'')
        (bindE (item f ''syntax'') (\<lambda>s. bindE (item f ''cases'') (\<lambda>cs. bindE (item f ''scope'') (\<lambda>scope. bindE (item f ''note'') (\<lambda>note.
           Inr (jdistinct (list_of s) \<and> list_all (\<lambda>x. \<not> jmem x nodes) (list_of s) \<and> jdistinct (list_of cs) \<and>
             jsub (list_of cs) identities \<and> \<not> (scope = JStr ''basic'' \<and> \<not> truthy cs) \<and>
             \<not> (scope \<noteq> JStr ''basic'' \<and> \<not> truthy note))))))))))"

definition check_feature :: "json list \<Rightarrow> registry \<Rightarrow> json \<Rightarrow> registry res" where
  "check_feature identities st f =
     raise_if (notE (andE (feature_fields_ok f) (andE (bindE (item f ''id'') (\<lambda>i. Inr (\<not> jmem i (reg_ids st))))
         (feature_lists_ok identities (reg_nodes st) f)))) (ValueError ''invalid or incomplete feature inventory'') (
     bindE (item f ''id'') (\<lambda>i. bindE (item f ''syntax'') (\<lambda>s. bindE (item f ''cases'') (\<lambda>cs.
     Inr \<lparr>reg_ids = reg_ids st @ [i], reg_nodes = reg_nodes st @ list_of s, reg_covered = reg_covered st @ list_of cs\<rparr>))))"

definition registry_header_ok :: "json \<Rightarrow> bool res" where
  "registry_header_ok d =
     andE (Inr (is_dict d)) (andE (keys_are d [''schemaVersion'', ''referenceAstSha256'', ''features'', ''cases''])
      (andE (isE (\<lambda>v. v = JInt 2) d ''schemaVersion'')
       (andE (isE is_str d ''referenceAstSha256'') (bindE (item d ''referenceAstSha256'') (fullmatchE (Rep 64 (Cls hex_cls)))))))"

definition check_features :: "json \<Rightarrow> json list \<Rightarrow> unit res" where
  "check_features d identities = bindE (item d ''features'') (\<lambda>fs.
     if \<not> is_list fs \<or> \<not> truthy fs then Inl (ValueError ''empty feature inventory'') else
     bindE (foldE (check_feature identities) \<lparr>reg_ids = [], reg_nodes = [], reg_covered = []\<rparr> (list_of fs)) (\<lambda>st.
     if \<not> jset_eq (reg_covered st) identities then Inl (ValueError ''unmapped language cases'') else Inr ()))"

definition validate_registry :: "json \<Rightarrow> json list res" where
  "validate_registry d =
     raise_if (notE (registry_header_ok d)) (ValueError ''invalid language case registry'') (
     bindE (item d ''cases'') (\<lambda>cs.
     if \<not> is_list cs \<or> \<not> truthy cs then Inl (ValueError ''empty language cases'') else
     bindE (foldE check_case [] (list_of cs)) (\<lambda>identities.
     bindE (check_features d identities) (\<lambda>_. Inr (list_of cs)))))"

section \<open>The syntax inventory and the views\<close>

definition syntax_rx :: rx where
  "syntax_rx = seqs [lit ''func'', rplus (Cls space_cls), lit ''('', Star (Cls space_cls),
     ropt (Seq (rplus (Cls word_cls)) (rplus (Cls space_cls))), lit ''*'', Grp 1 (rplus (Cls word_cls)), Star (Cls space_cls), lit '')'',
     rplus (Cls space_cls), Alt (lit ''statementNode'') (lit ''expressionNode''), Star (Cls space_cls), lit ''('', Star (Cls space_cls), lit '')'']"

definition reference_nodes :: "fs \<Rightarrow> path \<Rightarrow> string list res" where
  "reference_nodes f d = bindE (mapE (\<lambda>n. bindE (read_bytes f (d @ [n])) (\<lambda>s. Inr (findall_group 1 syntax_rx s)))
     (filter (\<lambda>n. \<not> endswith n ''_test.go'') (glob_suffix f d ''.go''))) (\<lambda>nss. Inr (concat nss))"

definition mapped_nodes :: "json \<Rightarrow> json list res" where
  "mapped_nodes d = bindE (item d ''features'') (\<lambda>fs. bindE (iterE fs) (\<lambda>features.
     bindE (mapE (\<lambda>x. bindE (item x ''syntax'') iterE) features) (\<lambda>nss. hashE (concat nss))))"

definition verify_reference_ast :: "(string \<Rightarrow> string) \<Rightarrow> fs \<Rightarrow> json \<Rightarrow> path \<Rightarrow> unit res" where
  "verify_reference_ast sha256 f d p =
     bindE (read_bytes f p) (\<lambda>s. bindE (item d ''referenceAstSha256'') (\<lambda>h.
     if \<not> jeq (JStr (sha256 s)) h then Inl (ValueError ''reference AST changed; review the syntax inventory with the pin'') else
     bindE (reference_nodes f (butlast p)) (\<lambda>actual. bindE (mapped_nodes d) (\<lambda>mapped.
     if actual = [] \<or> \<not> jset_eq (map JStr actual) mapped then Inl (ValueError ''unmapped or unknown reference syntax'') else Inr ()))))"

definition acceptance :: "json \<Rightarrow> json \<Rightarrow> string \<Rightarrow> string res" where
  "acceptance expected reference p = bindE (succeedsE expected p) (\<lambda>accepts. bindE (succeedsE reference p) (\<lambda>b.
     Inr (if accepts then (if b then ''accepts'' else ''accepts; reference rejects'')
          else if b then ''rejects valid input'' else ''rejects as reference'')))"

definition execution_state :: "json \<Rightarrow> json \<Rightarrow> string res" where
  "execution_state expected reference = bindE (item expected ''execute'') (\<lambda>e.
     if e = JNull then Inr ''not reached'' else
     bindE (item reference ''execute'') (\<lambda>r. bindE (execution_expectations_match e r) (\<lambda>m.
     Inr (if m then ''matches reference'' else ''differs''))))"

definition repl_state :: "json \<Rightarrow> json \<Rightarrow> json \<Rightarrow> string res" where
  "repl_state c expected reference = bindE (item expected ''repl'') (\<lambda>l. bindE (item reference ''repl'') (\<lambda>r.
     if jeq l r then Inr ''matches reference'' else
     bindE (parity_gaps c) (\<lambda>gaps. if ''repl'' \<notin> set gaps then Inr ''rejects as reference'' else
     bindE (isE truthy l ''stderr'') (\<lambda>a.
     if \<not> a then Inr ''output differs'' else
     bindE (isE truthy r ''stderr'') (\<lambda>b. Inr (if \<not> b then ''rejects valid input'' else ''diagnostic/output differs''))))))"

definition coverage_states :: "json \<Rightarrow> json res" where
  "coverage_states c = bindE (item c ''native'') (\<lambda>expected. bindE (item c ''reference'') (\<lambda>reference.
     bindE (execution_state expected reference) (\<lambda>execution. bindE (repl_state c expected reference) (\<lambda>repl.
     bindE (acceptance expected reference ''check'') (\<lambda>chk. bindE (acceptance expected reference ''build'') (\<lambda>bld.
     Inr (JDict [(''check'', JStr chk), (''build'', JStr bld), (''execute'', JStr execution), (''repl'', JStr repl)])))))))"

definition html_chr :: "char \<Rightarrow> string" where
  "html_chr c = (if c = CHR ''&'' then ''&amp;'' else if c = CHR ''<'' then ''&lt;'' else if c = CHR ''>'' then ''&gt;''
     else if c = DQ then ''&quot;'' else if c = CHR 0x27 then ''&#x27;'' else [c])"

definition table_cell :: "string \<Rightarrow> string" where
  "table_cell s = replace_str [NL] '' '' (replace_str ''|'' ''&#124;'' (concat (map html_chr s)))"

definition str_value :: "json \<Rightarrow> string res" where
  "str_value v = (case v of JStr s \<Rightarrow> Inr s | _ \<Rightarrow> Inl TypeError)"

definition case_index :: "json \<Rightarrow> (string \<times> json) list res" where
  "case_index d = bindE (item d ''cases'') (\<lambda>cs. bindE (iterE cs) (\<lambda>cases.
     mapE (\<lambda>c. bindE (item c ''id'') (\<lambda>i. bindE (str_value i) (\<lambda>k. Inr (k, c)))) cases))"

definition gap_count :: "(string \<times> json) list \<Rightarrow> json list \<Rightarrow> nat res" where
  "gap_count cases ids = bindE (filterE (\<lambda>i. bindE (str_value i) (\<lambda>k. (case map_of (rev cases) k of
       None \<Rightarrow> Inl (KeyError k) | Some c \<Rightarrow> bindE (parity_gaps c) (\<lambda>gaps. Inr (gaps \<noteq> []))))) ids) (\<lambda>xs. Inr (length xs))"

definition joinE :: "string \<Rightarrow> json \<Rightarrow> string res" where
  "joinE sep v = bindE (iterE v) (\<lambda>xs. bindE (mapE str_value xs) (\<lambda>ss. Inr (join sep ss)))"

definition feature_row :: "(string \<times> json) list \<Rightarrow> json \<Rightarrow> string res" where
  "feature_row cases f =
     bindE (bindE (item f ''cases'') iterE) (\<lambda>ids. bindE (gap_count cases ids) (\<lambda>n.
     bindE (bindE (item f ''pending'') (joinE ''; '')) (\<lambda>pending.
     bindE (bindE (item f ''title'') str_value) (\<lambda>title. bindE (bindE (item f ''scope'') str_value) (\<lambda>scope.
     bindE (bindE (item f ''syntax'') (joinE '', '')) (\<lambda>nodes.
     Inr (''| '' @ table_cell title @ '' | '' @ scope @ '' | '' @ show_nat n @ '' / '' @ show_nat (length ids) @
       '' | '' @ table_cell (if pending = [] then ''none registered'' else pending) @ '' | '' @ table_cell nodes @ '' |'')))))))"

definition table_head :: "string list" where
  "table_head = [''<!-- Generated from tools/native-language-cases.json; do not edit by hand. -->'', [],
     ''Each count describes registered probes, not language coverage percentages.'', [],
     ''| Family | Phase | Probes with differences | Uncovered contracts | Reference syntax nodes |'',
     ''| --- | --- | --- | --- | --- |'']"

definition feature_table :: "json \<Rightarrow> string res" where
  "feature_table d = bindE (case_index d) (\<lambda>cases. bindE (bindE (item d ''features'') iterE) (\<lambda>features.
     bindE (mapE (feature_row cases) features) (\<lambda>rows. Inr (join [NL] (table_head @ rows) @ [NL]))))"

definition page_case :: "json \<Rightarrow> json res" where
  "page_case c = bindE (item c ''id'') (\<lambda>i. bindE (item c ''title'') (\<lambda>t. bindE (coverage_states c) (\<lambda>states.
     bindE (parity_gaps c) (\<lambda>gaps. bindE (item c ''reference'') (\<lambda>r. bindE (item r ''repl'') (\<lambda>rr. bindE (isE truthy rr ''stderr'') (\<lambda>b.
     Inr (JDict [(''id'', i), (''title'', t), (''states'', states), (''gaps'', JList (map JStr gaps)), (''referenceReplRejects'', JBool b)]))))))))"

definition typerb_revision :: "fs \<Rightarrow> path \<Rightarrow> string res" where
  "typerb_revision f registry = bindE (read_bytes f (butlast (butlast registry) @ [''TYPE_RB_REVISION''])) (\<lambda>s. Inr (strip s))"

definition unicode_opts :: jopts where
  "unicode_opts = pretty_opts\<lparr>ensure_ascii := False\<rparr>"

definition pages_data :: "(string \<Rightarrow> string) \<Rightarrow> (rat \<Rightarrow> string) \<Rightarrow> fs \<Rightarrow> json \<Rightarrow> path \<Rightarrow> string res" where
  "pages_data sha256 fr f d registry =
     bindE (read_bytes f registry) (\<lambda>s. bindE (typerb_revision f registry) (\<lambda>revision. bindE (item d ''features'') (\<lambda>features.
     bindE (bindE (item d ''cases'') iterE) (\<lambda>cases. bindE (mapE page_case cases) (\<lambda>pages.
     bindE (dumps fr unicode_opts (JDict [(''schemaVersion'', JInt 1), (''registrySha256'', JStr (sha256 s)),
        (''referenceRevision'', JStr revision), (''features'', features), (''cases'', JList pages)])) (\<lambda>body.
     Inr (''// Generated by tools/native-language-coverage.py; do not edit by hand.'' @ [NL] @
       ''export const ordinaryLanguage = '' @ body @ '';'' @ [NL])))))))"

section \<open>Observing the compilers\<close>

text \<open>A child process gets a program, its arguments, a directory and the text of its input; it answers
  whether it was killed after the time limit, its exit code and bytes, and the files it leaves.\<close>

type_synonym child = "path \<Rightarrow> string list \<Rightarrow> path \<Rightarrow> string option \<Rightarrow> fs \<Rightarrow> ((bool \<times> completed) \<times> fs) res"

record runner =
  host_child :: child
  host_decode :: "string \<Rightarrow> string option"
  host_escape :: "string \<Rightarrow> string"

definition path_arg :: "path \<Rightarrow> string" where
  "path_arg p = CHR ''/'' # join ''/'' p"

definition observed_stream :: "runner \<Rightarrow> path \<Rightarrow> string \<Rightarrow> string \<times> string option" where
  "observed_stream runner dir data = (let d = replace_str (path_arg dir) ''<case>'' data in
     case host_decode runner d of Some t \<Rightarrow> (t, None)
     | None \<Rightarrow> (host_escape runner d, Some (concat (map (\<lambda>c. hex_pad 2 (of_char c)) d))))"

definition invalid_member :: "string \<Rightarrow> string option \<Rightarrow> (string \<times> json) list" where
  "invalid_member k h = (case h of None \<Rightarrow> [] | Some x \<Rightarrow> [(k, JStr x)])"

definition observation :: "runner \<Rightarrow> path \<Rightarrow> bool \<times> completed \<Rightarrow> json" where
  "observation runner dir r = (let (timed_out, c) = r; (out, oh) = observed_stream runner dir (proc_out c);
       (err, eh) = observed_stream runner dir (proc_err c);
       invalid = invalid_member ''stdout'' oh @ invalid_member ''stderr'' eh in
     JDict ([(''code'', JInt (if timed_out then 124 else returncode c)), (''stdout'', JStr out), (''stderr'', JStr err)] @
       (if invalid = [] then [] else [(''invalidUtf8'', JDict invalid)]) @
       (if timed_out then [(''timedOut'', JBool True)] else [])))"

definition observe :: "runner \<Rightarrow> path \<Rightarrow> string list \<Rightarrow> path \<Rightarrow> string option \<Rightarrow> fs \<Rightarrow> (json \<times> fs) res" where
  "observe runner binary arguments dir input f =
     bindE (host_child runner binary arguments dir input f) (\<lambda>(r, f'). Inr (observation runner dir r, f'))"

definition write_case_file :: "path \<Rightarrow> fs \<Rightarrow> string \<times> json \<Rightarrow> fs res" where
  "write_case_file dir f nt = bindE (mkdir_p f (butlast (joinp dir (fst nt)))) (\<lambda>f'.
     bindE (str_value (snd nt)) (\<lambda>t. write_bytes f' (joinp dir (fst nt)) t))"

definition main_source :: "json \<Rightarrow> string res" where
  "main_source c = bindE (bindE (item c ''declarations'') str_value) (\<lambda>d. bindE (bindE (item c ''body'') str_value) (\<lambda>b.
     Inr (d @ [NL] @ ''def main()'' @ [NL] @ b @ [NL] @ ''end'' @ [NL])))"

definition write_case :: "json \<Rightarrow> path \<Rightarrow> fs \<Rightarrow> fs res" where
  "write_case c dir f = bindE (bindE (item c ''files'') itemsE) (\<lambda>files.
     bindE (foldE (write_case_file dir) f files) (\<lambda>f'. bindE (main_source c) (\<lambda>s.
     write_bytes f' (dir @ [''main.trb'']) s)))"

definition repl_input :: "json \<Rightarrow> string res" where
  "repl_input c = bindE (bindE (item c ''declarations'') str_value) (\<lambda>d. bindE (bindE (item c ''body'') str_value) (\<lambda>b.
     Inr (d @ [NL] @ b @ [NL] @ '':quit'' @ [NL])))"

definition case_config :: "string \<Rightarrow> json" where
  "case_config role = JDict [(''name'', JStr ''language-case''), (''mode'', JStr (if role = ''reference'' then ''go'' else ''trb'')),
     (''sourceDir'', JStr ''.''), (''outDir'', JStr ''out''), (''go'', JDict [(''module'', JStr ''example.com/language-case'')])]"

definition project_check :: "json \<Rightarrow> bool res" where
  "project_check c = bindE (getd c ''projectCheck'' (JBool False)) (\<lambda>p. Inr (truthy p))"

definition is_project :: "json \<Rightarrow> bool res" where
  "is_project c = orE (isE truthy c ''files'') (project_check c)"

text \<open>The execution follows a build that succeeded and left a program; a build that failed must
  not leave one.\<close>

definition observe_execution :: "runner \<Rightarrow> json \<Rightarrow> string \<Rightarrow> path \<Rightarrow> path \<Rightarrow> json \<Rightarrow> fs \<Rightarrow> (json \<times> fs) res" where
  "observe_execution runner c role executable dir bld f =
     bindE (item bld ''code'') (\<lambda>code. bindE (item c ''id'') (\<lambda>i.
     if jeq code (JInt 0) then
       (if \<not> is_file f executable then Inl (ValueError (str_of (\<lambda>v. []) i @ '': '' @ role @ '' build published no executable''))
        else observe runner executable [] dir None f)
     else if path_exists f executable then Inl (ValueError (str_of (\<lambda>v. []) i @ '': failed '' @ role @ '' build published output''))
     else Inr (JNull, f)))"

definition observe_role :: "runner \<Rightarrow> json \<Rightarrow> path \<Rightarrow> string \<Rightarrow> path \<Rightarrow> fs \<Rightarrow> (json \<times> fs) res" where
  "observe_role runner c dir role binary f =
     bindE (is_project c) (\<lambda>project. bindE (project_check c) (\<lambda>checked. bindE (repl_input c) (\<lambda>repl.
     bindE (if project then write_bytes f (dir @ [''trbconfig.jsonc'']) (json_text (\<lambda>q. []) plain_opts 0 (case_config role)) else Inr f) (\<lambda>f1.
     (let executable = dir @ [role @ ''-program''] in
     bindE (observe runner binary (if checked then [''check'', ''--config'', ''trbconfig.jsonc''] else [''check'', ''main.trb'']) dir None f1) (\<lambda>(chk, f2).
     bindE (observe runner binary ([''build'', ''--compile'', ''--outfile'', path_arg executable] @ (if project then [] else [''main.trb''])) dir None f2) (\<lambda>(bld, f3).
     bindE (observe_execution runner c role executable dir bld f3) (\<lambda>(execution, f4).
     bindE (observe runner binary [''repl''] dir (Some repl) f4) (\<lambda>(answer, f5).
     Inr (JDict [(''check'', chk), (''build'', bld), (''execute'', execution), (''repl'', answer)], f5))))))))))"

definition collect_role :: "runner \<Rightarrow> json \<Rightarrow> path \<Rightarrow> (string \<times> json) list \<times> fs \<Rightarrow> string \<times> path option \<Rightarrow> ((string \<times> json) list \<times> fs) res" where
  "collect_role runner c dir st rb = (case snd rb of None \<Rightarrow> Inr st
     | Some binary \<Rightarrow> bindE (observe_role runner c dir (fst rb) binary (snd st)) (\<lambda>(o1, f'). Inr (fst st @ [(fst rb, o1)], f')))"

definition collect :: "runner \<Rightarrow> json \<Rightarrow> path option \<Rightarrow> path option \<Rightarrow> path \<Rightarrow> fs \<Rightarrow> json res" where
  "collect runner c native reference dir f =
     bindE (write_case c dir f) (\<lambda>f1. bindE (foldE (collect_role runner c dir) ([], f1) [(''reference'', reference), (''native'', native)])
       (\<lambda>(observations, f2). Inr (JDict observations)))"

section \<open>The run\<close>

record coverage_args =
  arg_native :: "path option"
  arg_reference :: "path option"
  arg_observe :: bool
  arg_case :: "string option"
  arg_feature_table :: bool
  arg_check_feature_table :: "path option"
  arg_pages_data :: bool
  arg_check_pages_data :: "path option"
  arg_reference_ast :: "path option"
  arg_require_parity :: bool

text \<open>A case whose observation raises \<open>ValueError\<close> is reported with the message; its directory and
  the files in it are temporary.\<close>

fun error_message :: "pyerr \<Rightarrow> string" where
  "error_message (ValueError m) = m"
| "error_message (InventoryError m) = m"
| "error_message e = []"

definition run_case :: "runner \<Rightarrow> (nat \<Rightarrow> path) \<Rightarrow> fs \<Rightarrow> path option \<Rightarrow> path option \<Rightarrow> nat \<times> json \<Rightarrow> (json \<times> json) res" where
  "run_case runner directory f native reference ic =
     bindE (mkdir_new f (directory (fst ic))) (\<lambda>f1. bindE (resolveE f1 (directory (fst ic))) (\<lambda>dir.
     bindE (catchE (collect runner (snd ic) native reference dir f1) is_ValueError
       (\<lambda>e. Inr (JDict [(''error'', JStr (error_message e))]))) (\<lambda>observations. Inr (snd ic, observations))))"

definition any_timeout :: "json \<Rightarrow> bool res" where
  "any_timeout o1 = bindE (valuesE o1) (anyE (\<lambda>v. if v = JNull then Inr False else timed_out_flag v))"

definition role_failed :: "bool \<Rightarrow> json \<Rightarrow> json \<Rightarrow> string \<Rightarrow> bool res" where
  "role_failed observe_only c observations role =
     bindE (hasE role observations) (\<lambda>b. if \<not> b then Inr False else
     bindE (item observations role) (\<lambda>o1. bindE (any_timeout o1) (\<lambda>t.
     if role = ''reference'' \<or> \<not> observe_only
     then bindE (item c role) (\<lambda>expected. bindE (outcomes_match o1 expected) (\<lambda>m. Inr (t \<or> \<not> m)))
     else Inr t)))"

record run_report =
  rep_cases :: "json list"
  rep_failures :: "json list"
  rep_gaps :: "json list"

definition report_case :: "coverage_args \<Rightarrow> run_report \<Rightarrow> json \<times> json \<Rightarrow> run_report res" where
  "report_case args rep co = (let (c, observations) = co in
     bindE (hasE ''error'' observations) (\<lambda>failed. bindE (item c ''id'') (\<lambda>i. bindE (itemsE observations) (\<lambda>kvs.
     bindE (role_failed (arg_observe args) c observations ''reference'') (\<lambda>fr.
     bindE (role_failed (arg_observe args) c observations ''native'') (\<lambda>fn.
     bindE (parity_gaps c) (\<lambda>gaps.
     Inr (rep\<lparr>rep_cases := rep_cases rep @ [JDict ((''id'', i) # kvs)],
       rep_gaps := rep_gaps rep @ (if gaps = [] then [] else [JDict [(''id'', i), (''paths'', JList (map JStr gaps))]]),
       rep_failures := rep_failures rep @ (if failed \<or> fr \<or> fn \<or> arg_require_parity args \<and> gaps \<noteq> [] then [i] else [])\<rparr>))))))))"

definition uncovered_contracts :: "json \<Rightarrow> json list res" where
  "uncovered_contracts d = bindE (bindE (item d ''features'') iterE) (\<lambda>features.
     bindE (filterE (\<lambda>x. andE (isE (\<lambda>s. jeq s (JStr ''basic'')) x ''scope'') (isE truthy x ''pending'')) features)
       (mapE (\<lambda>x. bindE (item x ''id'') (\<lambda>i. bindE (item x ''pending'') (\<lambda>p. Inr (JDict [(''feature'', i), (''contracts'', p)]))))))"

definition digest_or_null :: "(string \<Rightarrow> string) \<Rightarrow> fs \<Rightarrow> path option \<Rightarrow> json res" where
  "digest_or_null sha256 f p = (case p of None \<Rightarrow> Inr JNull
     | Some q \<Rightarrow> bindE (read_bytes f q) (\<lambda>s. Inr (JStr (sha256 s))))"

definition report_head :: "(string \<Rightarrow> string) \<Rightarrow> fs \<Rightarrow> path \<Rightarrow> coverage_args \<Rightarrow> (string \<times> json) list res" where
  "report_head sha256 f registry args =
     bindE (digest_or_null sha256 f (arg_native args)) (\<lambda>n. bindE (digest_or_null sha256 f (arg_reference args)) (\<lambda>r.
     bindE (digest_or_null sha256 f (Some registry)) (\<lambda>h. bindE (typerb_revision f registry) (\<lambda>revision.
     Inr [(''schemaVersion'', JInt 2), (''nativeSha256'', n), (''referenceSha256'', r), (''registrySha256'', h),
       (''observationOnly'', JBool (arg_observe args)), (''typeRBRevision'', JStr revision),
       (''referenceAstVerified'', JBool (arg_reference_ast args \<noteq> None))]))))"

definition report_json :: "(string \<times> json) list \<Rightarrow> run_report \<Rightarrow> json list \<Rightarrow> json" where
  "report_json head rep uncovered = JDict (head @ [(''cases'', JList (rep_cases rep)),
       (''failures'', JList (rep_failures rep)), (''parityGaps'', JList (rep_gaps rep)), (''uncoveredContracts'', JList uncovered)])"

definition select_cases :: "coverage_args \<Rightarrow> json list \<Rightarrow> json list res" where
  "select_cases args cases = (case arg_case args of None \<Rightarrow> Inr cases
     | Some name \<Rightarrow> if name = [] then Inr cases else bindE (filterE (\<lambda>c. isE (\<lambda>i. jeq i (JStr name)) c ''id'') cases) (\<lambda>cs.
         if cs = [] then Inl (ValueError ''unknown language case'') else Inr cs))"

definition run_report_of :: "runner \<Rightarrow> (nat \<Rightarrow> path) \<Rightarrow> fs \<Rightarrow> coverage_args \<Rightarrow> path option \<Rightarrow> path option \<Rightarrow> json list \<Rightarrow> run_report res" where
  "run_report_of runner directory f args native reference cases =
     bindE (mapE (run_case runner directory f native reference) (zip [0..<length cases] cases)) (\<lambda>results.
     foldE (report_case args) \<lparr>rep_cases = [], rep_failures = [], rep_gaps = []\<rparr> results)"

text \<open>What the command prints to both streams and its exit code.\<close>

record printed =
  printed_out :: string
  printed_err :: string
  exit_code :: int

definition failure_line :: "json list \<Rightarrow> string" where
  "failure_line failures = (if failures = [] then [] else
     ''Language case mismatches ('' @ show_nat (length failures) @ ''): '' @ join '', '' (map (str_of (\<lambda>v. [])) failures) @ [NL])"

definition coverage_exit :: "coverage_args \<Rightarrow> run_report \<Rightarrow> json list \<Rightarrow> int" where
  "coverage_exit args rep uncovered =
     (if rep_failures rep \<noteq> [] \<or> arg_require_parity args \<and> uncovered \<noteq> [] then 1 else 0)"

definition wants_table :: "coverage_args \<Rightarrow> bool" where
  "wants_table args = (arg_feature_table args \<or> arg_check_feature_table args \<noteq> None)"

definition wants_pages :: "coverage_args \<Rightarrow> bool" where
  "wants_pages args = (arg_pages_data args \<or> arg_check_pages_data args \<noteq> None)"

definition case_given :: "coverage_args \<Rightarrow> bool" where
  "case_given args = (arg_case args \<noteq> None \<and> arg_case args \<noteq> Some [])"

definition table_command :: "(string \<Rightarrow> string) \<Rightarrow> (rat \<Rightarrow> string) \<Rightarrow> fs \<Rightarrow> path \<Rightarrow> coverage_args \<Rightarrow> json \<Rightarrow> printed res" where
  "table_command sha256 fr f registry args d =
     (if case_given args \<or> arg_native args \<noteq> None \<or> arg_reference args \<noteq> None \<or> arg_observe args \<or> arg_require_parity args
      then Inl (SystemExit ''table commands do not execute compilers or select cases'')
      else if wants_table args \<and> wants_pages args then Inl (SystemExit ''select one generated view'')
      else bindE (if wants_table args then feature_table d else pages_data sha256 fr f d registry) (\<lambda>table.
        (case (if arg_check_feature_table args \<noteq> None then arg_check_feature_table args else arg_check_pages_data args) of
           Some p \<Rightarrow> bindE (read_bytes f p) (\<lambda>s. if s \<noteq> table then Inl (ValueError ''coverage table differs from reviewed expectations'')
             else Inr \<lparr>printed_out = [], printed_err = [], exit_code = 0\<rparr>)
         | None \<Rightarrow> Inr \<lparr>printed_out = table, printed_err = [], exit_code = 0\<rparr>)))"

definition resolve_option :: "fs \<Rightarrow> path option \<Rightarrow> path option res" where
  "resolve_option f p = (case p of None \<Rightarrow> Inr None | Some q \<Rightarrow> bindE (resolveE f q) (\<lambda>r. Inr (Some r)))"

definition run_command :: "runner \<Rightarrow> (string \<Rightarrow> string) \<Rightarrow> (rat \<Rightarrow> string) \<Rightarrow> (nat \<Rightarrow> path) \<Rightarrow> fs \<Rightarrow> path \<Rightarrow> coverage_args \<Rightarrow> json \<Rightarrow> json list \<Rightarrow> printed res" where
  "run_command runner sha256 fr directory f registry args d cases =
     (if arg_native args = None \<and> arg_reference args = None
      then Inl (SystemExit ''select --native, --reference, or both; no compiler is implicit'')
      else bindE (select_cases args cases) (\<lambda>chosen.
        if arg_require_parity args \<and> (arg_native args = None \<or> arg_reference args = None \<or> arg_observe args \<or> case_given args \<or>
             arg_reference_ast args = None)
        then Inl (SystemExit ''strict parity requires both compilers, the reference AST and the complete reviewed registry'')
        else bindE (report_head sha256 f registry args) (\<lambda>head. bindE (uncovered_contracts d) (\<lambda>uncovered.
          bindE (run_report_of runner directory f args (arg_native args) (arg_reference args) chosen) (\<lambda>rep.
          bindE (dumps fr unicode_opts (report_json head rep uncovered)) (\<lambda>out.
          Inr \<lparr>printed_out = out @ [NL], printed_err = failure_line (rep_failures rep), exit_code = coverage_exit args rep uncovered\<rparr>))))))"

definition coverage_main :: "runner \<Rightarrow> (string \<Rightarrow> string) \<Rightarrow> (rat \<Rightarrow> string) \<Rightarrow> (nat \<Rightarrow> path) \<Rightarrow> fs \<Rightarrow> path \<Rightarrow> coverage_args \<Rightarrow> printed res" where
  "coverage_main runner sha256 fr directory f registry args =
     bindE (resolve_option f (arg_native args)) (\<lambda>native. bindE (resolve_option f (arg_reference args)) (\<lambda>reference.
     bindE (read_bytes f registry) (\<lambda>s. bindE (loads s) (\<lambda>d. bindE (validate_registry d) (\<lambda>cases.
     bindE (case arg_reference_ast args of None \<Rightarrow> Inr () | Some p \<Rightarrow> verify_reference_ast sha256 f d p) (\<lambda>_.
     if wants_table args \<or> wants_pages args
     then table_command sha256 fr f registry (args\<lparr>arg_native := native, arg_reference := reference\<rparr>) d
     else run_command runner sha256 fr directory f registry (args\<lparr>arg_native := native, arg_reference := reference\<rparr>) d cases))))))"

section \<open>What a validated outcome has\<close>

definition has_outcome :: "string \<Rightarrow> json \<Rightarrow> bool" where
  "has_outcome tail v = (\<exists>kvs n out err. v = JDict kvs \<and> map_of kvs ''code'' = Some (JInt n) \<and>
     map_of kvs ''stdout'' = Some (JStr out) \<and> map_of kvs tail = Some (JStr err) \<and>
     (''stderrFirstLine'' \<in> fst ` set kvs \<longleftrightarrow> tail = ''stderrFirstLine''))"

lemma map_of_key: "k \<in> fst ` set kvs \<Longrightarrow> \<exists>v. map_of kvs k = Some v"
  by (metis map_of_eq_None_iff not_None_eq)

lemma outcome_text:
  assumes "texts_ok (JDict kvs)" "k \<in> fst ` set kvs" "k \<noteq> ''code''" "k \<noteq> ''invalidUtf8''"
  shows "\<exists>s. map_of kvs k = Some (JStr s)"
proof -
  obtain v where v: "map_of kvs k = Some v" using map_of_key [OF assms(2)] by blast
  then have "(k, v) \<in> set kvs" by (rule map_of_SomeD)
  with assms have "is_str v" by (auto simp: texts_ok_def list_all_iff)
  with v show ?thesis by (auto simp: is_str_iff)
qed

lemma outcome_keys: "set (outcome_fields (JDict kvs)) = fst ` set kvs - {''invalidUtf8''}"
  by (auto simp: outcome_fields_def)

lemma checked_outcome:
  assumes "check_path_outcome (action, v) = Inr ()"
  shows "action = ''execute'' \<and> v = JNull \<or> has_outcome ''stderr'' v \<or> action = ''execute'' \<and> has_outcome ''stderrFirstLine'' v"
proof (cases "action = ''execute'' \<and> v = JNull")
  case False
  with assms obtain kvs where v: "v = JDict kvs" and b: "bad_outcome action v = Inr False"
    by (auto simp: check_path_outcome_def raise_if_iff is_dict_iff split: if_splits)
  from b have f: "set (outcome_fields v) = {''code'', ''stdout'', ''stderr''} \<or> is_prefix_outcome v"
    and c: "exit_code_ok (case map_of kvs ''code'' of None \<Rightarrow> JNull | Some x \<Rightarrow> x)" and t: "texts_ok v"
    and p: "is_prefix_outcome v \<Longrightarrow> action = ''execute''"
    by (auto simp: bad_outcome_def bad_prefix_def orE_iff andE_iff v)
  from c obtain n where n: "map_of kvs ''code'' = Some (JInt n)"
    by (auto simp: exit_code_ok_def split: json.splits option.splits)
  show ?thesis
  proof (cases "is_prefix_outcome v")
    case True
    then have k: "''stdout'' \<in> fst ` set kvs" "''stderrFirstLine'' \<in> fst ` set kvs"
      by (auto simp: is_prefix_outcome_def v outcome_keys)
    from outcome_text [OF t [unfolded v] k(1)] outcome_text [OF t [unfolded v] k(2)] n k p [OF True] v
    show ?thesis by (auto simp: has_outcome_def)
  next
    case False
    with f have s: "fst ` set kvs - {''invalidUtf8''} = {''code'', ''stdout'', ''stderr''}"
      by (simp add: v outcome_keys)
    then have k: "''stdout'' \<in> fst ` set kvs" "''stderr'' \<in> fst ` set kvs" by blast+
    have "''stderrFirstLine'' \<notin> fst ` set kvs - {''invalidUtf8''}" unfolding s by simp
    with outcome_text [OF t [unfolded v] k(1)] outcome_text [OF t [unfolded v] k(2)] n v
    show ?thesis by (auto simp: has_outcome_def)
  qed
qed simp

definition reviewed :: "json \<Rightarrow> json \<Rightarrow> json \<Rightarrow> json \<Rightarrow> json \<Rightarrow> bool" where
  "reviewed v chk bld execution repl \<longleftrightarrow> item v ''check'' = Inr chk \<and> item v ''build'' = Inr bld \<and> item v ''execute'' = Inr execution \<and>
     item v ''repl'' = Inr repl \<and> has_outcome ''stderr'' chk \<and> has_outcome ''stderr'' bld \<and> has_outcome ''stderr'' repl \<and>
     (execution = JNull \<or> has_outcome ''stderr'' execution \<or> has_outcome ''stderrFirstLine'' execution) \<and>
     succeedsE v ''build'' = Inr (execution \<noteq> JNull)"

lemma validate_outcomes_reviewed:
  assumes "validate_outcomes v = Inr ()"
  obtains chk bld execution repl where "reviewed v chk bld execution repl"
proof -
  from assms obtain kvs where v: "v = JDict kvs" "fst ` set kvs = set PATHS"
      "\<forall>x \<in> set kvs. check_path_outcome x = Inr ()" and b: "succeedsE v ''build'' = Inr (map_of kvs ''execute'' \<noteq> Some JNull)"
    unfolding validate_outcomes_def
    by (auto simp: res_simps is_dict_iff split: if_splits)
  have "k \<in> set PATHS \<Longrightarrow> \<exists>x. map_of kvs k = Some x \<and> check_path_outcome (k, x) = Inr ()" for k
    using map_of_key [of k kvs] v(2,3) by (metis map_of_SomeD)
  from this [of "''check''"] this [of "''build''"] this [of "''execute''"] this [of "''repl''"]
  obtain a c d e where x: "map_of kvs ''check'' = Some a" "check_path_outcome (''check'', a) = Inr ()"
    "map_of kvs ''build'' = Some c" "check_path_outcome (''build'', c) = Inr ()"
    "map_of kvs ''execute'' = Some d" "check_path_outcome (''execute'', d) = Inr ()"
    "map_of kvs ''repl'' = Some e" "check_path_outcome (''repl'', e) = Inr ()"
    by (auto simp: PATHS_def)
  from checked_outcome [OF x(2)] checked_outcome [OF x(4)] checked_outcome [OF x(6)] checked_outcome [OF x(8)] x b
  show thesis by (intro that [of a c d e]) (auto simp: reviewed_def v(1))
qed

lemma outcome_ops:
  assumes "has_outcome tail v"
  shows "v \<noteq> JNull" "\<exists>b. timed_out_flag v = Inr b" "\<exists>n. item v ''code'' = Inr (JInt n)"
    "\<exists>t. item v ''stdout'' = Inr (JStr t)" "\<exists>t. item v tail = Inr (JStr t)"
    "hasE ''stderrFirstLine'' v = Inr (tail = ''stderrFirstLine'')" "\<exists>b. hasE ''invalidUtf8'' v = Inr b"
proof -
  from assms obtain kvs n out err where v: "v = JDict kvs" "map_of kvs ''code'' = Some (JInt n)"
    "map_of kvs ''stdout'' = Some (JStr out)" "map_of kvs tail = Some (JStr err)"
    "''stderrFirstLine'' \<in> fst ` set kvs \<longleftrightarrow> tail = ''stderrFirstLine''"
    unfolding has_outcome_def by blast
  from v show "v \<noteq> JNull" "\<exists>b. timed_out_flag v = Inr b" "\<exists>n. item v ''code'' = Inr (JInt n)"
    "\<exists>t. item v ''stdout'' = Inr (JStr t)" "\<exists>t. item v tail = Inr (JStr t)" "\<exists>b. hasE ''invalidUtf8'' v = Inr b"
    by (auto simp: timed_out_flag_def)
  have "(\<exists>(k, x) \<in> set kvs. ''stderrFirstLine'' = k) \<longleftrightarrow> ''stderrFirstLine'' \<in> fst ` set kvs" by force
  with v show "hasE ''stderrFirstLine'' v = Inr (tail = ''stderrFirstLine'')" by simp
qed

lemma andE_Inr [simp]: "andE (Inr a) (Inr b) = Inr (a \<and> b)"
  by (simp add: andE_def)

lemma andE_total: "\<exists>x. a = Inr x \<Longrightarrow> \<exists>x. b = Inr x \<Longrightarrow> \<exists>x. andE a b = Inr x"
  by (auto simp: andE_def)

lemma prefix_match_total:
  assumes "has_outcome ''stderr'' v" "has_outcome ''stderrFirstLine'' w"
  shows "\<exists>b. outcome_matches v w = Inr b"
proof -
  obtain t m n out out' err l z where o1: "timed_out_flag v = Inr t" "item v ''code'' = Inr (JInt m)" "item v ''stdout'' = Inr (JStr out)"
    "item v ''stderr'' = Inr (JStr err)" "hasE ''invalidUtf8'' v = Inr z" "item w ''code'' = Inr (JInt n)"
    "item w ''stdout'' = Inr (JStr out')" "item w ''stderrFirstLine'' = Inr (JStr l)"
    using outcome_ops [OF assms(1)] outcome_ops [OF assms(2)] by blast
  then show ?thesis using outcome_ops(1) [OF assms(1)] outcome_ops(1,6) [OF assms(2)]
    by (simp add: outcome_matches_def same_member_def first_line_is_def splitlinesE_def del: jeq.simps) blast
qed

definition executed :: "json \<Rightarrow> bool" where
  "executed v = (v = JNull \<or> has_outcome ''stderr'' v \<or> has_outcome ''stderrFirstLine'' v)"

lemma executed_cases:
  assumes "executed v" "v \<noteq> JNull"
  obtains b t where "timed_out_flag v = Inr b" "has_outcome t v" "t \<in> {''stderr'', ''stderrFirstLine''}"
    "hasE ''stderrFirstLine'' v = Inr (t = ''stderrFirstLine'')"
proof -
  obtain t where "t \<in> {''stderr'', ''stderrFirstLine''}" "has_outcome t v" using assms by (auto simp: executed_def)
  with outcome_ops(2,6) [of t v] that show thesis by blast
qed

lemma execution_match_total:
  assumes "executed v" "executed w"
  shows "\<exists>b. execution_expectations_match v w = Inr b"
proof (cases "v = JNull \<or> w = JNull")
  case False
  then have ne: "v \<noteq> JNull" "w \<noteq> JNull" by auto
  obtain b t where v: "timed_out_flag v = Inr b" "has_outcome t v" "t \<in> {''stderr'', ''stderrFirstLine''}"
    "hasE ''stderrFirstLine'' v = Inr (t = ''stderrFirstLine'')" by (rule executed_cases [OF assms(1) ne(1)])
  obtain c u where w: "timed_out_flag w = Inr c" "has_outcome u w" "u \<in> {''stderr'', ''stderrFirstLine''}"
    "hasE ''stderrFirstLine'' w = Inr (u = ''stderrFirstLine'')" by (rule executed_cases [OF assms(2) ne(2)])
  have "\<exists>b. outcome_matches w v = Inr b" if "t = ''stderrFirstLine''" "u = ''stderr''"
    using prefix_match_total that v(2) w(2) by blast
  moreover have "\<exists>b. outcome_matches v w = Inr b" if "u = ''stderrFirstLine''" "t = ''stderr''"
    using prefix_match_total that v(2) w(2) by blast
  ultimately show ?thesis using ne v w by (cases b; cases c) (auto simp: execution_expectations_match_def)
qed (simp add: execution_expectations_match_def)

lemma succeedsE_total: "item v p = Inr x \<Longrightarrow> has_outcome ''stderr'' x \<Longrightarrow> \<exists>b. succeedsE v p = Inr b"
  using outcome_ops(3) [of "''stderr''" x] by (auto simp: succeedsE_def codeE_def)

lemma rejected_total:
  assumes "has_outcome ''stderr'' v" "has_outcome ''stderr'' w"
  shows "\<exists>b. rejected_as_reference v w = Inr b"
  using outcome_ops [OF assms(1)] outcome_ops [OF assms(2)] unfolding rejected_as_reference_def
  by (intro andE_total) (auto simp: isE_def same_member_def)

text \<open>C25. For a case whose two reviewed outcomes validate, both views return, and they agree: the page says
  that a path differs from the reference exactly when the list of gaps names it. A native program
  that is not reached is a gap exactly when the reference reaches its program.\<close>

theorem states_agree_with_gaps:
  assumes "item c ''native'' = Inr n" "item c ''reference'' = Inr r" "validate_outcomes n = Inr ()" "validate_outcomes r = Inr ()"
  shows "\<exists>gaps chk bld execution repl. parity_gaps c = Inr gaps \<and>
     coverage_states c = Inr (JDict [(''check'', JStr chk), (''build'', JStr bld), (''execute'', JStr execution), (''repl'', JStr repl)]) \<and>
     (''check'' \<in> set gaps \<longleftrightarrow> chk \<in> {''accepts; reference rejects'', ''rejects valid input''}) \<and>
     (''build'' \<in> set gaps \<longleftrightarrow> bld \<in> {''accepts; reference rejects'', ''rejects valid input''}) \<and>
     (''execute'' \<in> set gaps \<longleftrightarrow> execution = ''differs'' \<or> execution = ''not reached'' \<and> item r ''execute'' \<noteq> Inr JNull) \<and>
     (''repl'' \<in> set gaps \<longleftrightarrow> repl \<notin> {''matches reference'', ''rejects as reference''})"
proof -
  obtain a1 b1 e1 p1 where n: "reviewed n a1 b1 e1 p1" by (rule validate_outcomes_reviewed [OF assms(3)])
  obtain a2 b2 e2 p2 where r: "reviewed r a2 b2 e2 p2" by (rule validate_outcomes_reviewed [OF assms(4)])
  note nr = n [unfolded reviewed_def] r [unfolded reviewed_def]
  have i: "item n ''execute'' = Inr e1" "item r ''execute'' = Inr e2" "item n ''repl'' = Inr p1" "item r ''repl'' = Inr p2"
    using nr by auto
  obtain x1 x2 y1 y2 where s: "succeedsE n ''check'' = Inr x1" "succeedsE r ''check'' = Inr x2"
    "succeedsE n ''build'' = Inr y1" "succeedsE r ''build'' = Inr y2"
    using nr succeedsE_total by metis
  obtain m where m: "execution_expectations_match e1 e2 = Inr m"
    using execution_match_total [of e1 e2] nr by (auto simp: executed_def)
  obtain q where q: "rejected_as_reference p1 p2 = Inr q" using rejected_total [of p1 p2] nr by auto
  obtain t1 t2 where t: "item p1 ''stderr'' = Inr (JStr t1)" "item p2 ''stderr'' = Inr (JStr t2)"
    using outcome_ops(5) [of "''stderr''" p1] outcome_ops(5) [of "''stderr''" p2] nr by auto
  have g: "parity_gaps c = Inr (gap (x1 \<noteq> x2) ''check'' @ gap (y1 \<noteq> y2) ''build'' @ gap (\<not> m) ''execute'' @
      gap (\<not> jeq p1 p2 \<and> \<not> q) ''repl'')"
    using assms(1,2) i s m q
    by (simp add: parity_gaps_def acceptance_differs_def execution_differs_def repl_differs_def)
  have mn: "e1 = JNull \<Longrightarrow> m = (e2 = JNull)" using m by (auto simp: execution_expectations_match_def)
  have st: "coverage_states c = bindE (execution_state n r) (\<lambda>execution. bindE (repl_state c n r) (\<lambda>repl.
     bindE (acceptance n r ''check'') (\<lambda>chk. bindE (acceptance n r ''build'') (\<lambda>bld.
     Inr (JDict [(''check'', JStr chk), (''build'', JStr bld), (''execute'', JStr execution), (''repl'', JStr repl)])))))"
    using assms(1,2) by (simp add: coverage_states_def)
  have ex: "execution_state n r = Inr (if e1 = JNull then ''not reached'' else if m then ''matches reference'' else ''differs'')"
    using i m by (simp add: execution_state_def)
  have rp: "repl_state c n r = Inr (if jeq p1 p2 then ''matches reference'' else if q then ''rejects as reference''
      else if t1 = [] then ''output differs'' else if t2 = [] then ''rejects valid input'' else ''diagnostic/output differs'')"
    using i t by (simp add: repl_state_def g isE_def gap_def)
  have ac: "acceptance n r p = Inr (if x then (if y then ''accepts'' else ''accepts; reference rejects'')
      else if y then ''rejects valid input'' else ''rejects as reference'')"
    if "succeedsE n p = Inr x" "succeedsE r p = Inr y" for p x y
    using that by (simp add: acceptance_def)
  show ?thesis
    unfolding st ex rp ac [OF s(1,2)] ac [OF s(3,4)] g using i mn
    by (simp add: gap_def)
qed

section \<open>What a validated registry has\<close>

lemma strs_of: "list_all is_str xs \<Longrightarrow> \<exists>ss. xs = map JStr ss"
  by (induction xs) (auto simp: is_str_iff Cons_eq_map_conv)

lemma mapE_snoc: "mapE f xs = Inr ys \<Longrightarrow> f x = Inr y \<Longrightarrow> mapE f (xs @ [x]) = Inr (ys @ [y])"
  by (simp add: mapE_iff list_all2_appendI)

definition case_checked :: "json \<Rightarrow> bool" where
  "case_checked c = (\<exists>files p n r t d b. item c ''files'' = Inr (JDict files) \<and> project_check c = Inr p \<and>
     list_all (\<lambda>(name, x). valid_case_file name p \<and> is_str x) files \<and> item c ''title'' = Inr (JStr t) \<and>
     item c ''declarations'' = Inr (JStr d) \<and> item c ''body'' = Inr (JStr b) \<and> b \<noteq> [] \<and>
     item c ''native'' = Inr n \<and> item c ''reference'' = Inr r \<and> validate_outcomes n = Inr () \<and> validate_outcomes r = Inr ())"

lemma isE_iff: "isE p v k = Inr b \<longleftrightarrow> (\<exists>x. item v k = Inr x \<and> b = p x)"
  by (auto simp: isE_def bindE_Inr_iff)

lemma check_case_Inr:
  assumes "check_case ids c = Inr ids'"
  shows "\<exists>i. item c ''id'' = Inr (JStr i) \<and> fullmatch identity_rx i \<and> ids' = ids @ [JStr i] \<and> \<not> jmem (JStr i) ids \<and> case_checked c"
proof -
  from assms have f: "bad_case_fields c = Inr False" unfolding check_case_def raise_if_iff by blast
  from assms obtain i fs p kvs r n where i: "item c ''id'' = Inr i" "\<not> jmem i ids" "item c ''files'' = Inr fs" "is_dict fs"
      "getd c ''projectCheck'' (JBool False) = Inr p" "itemsE fs = Inr kvs" "forE (check_case_file (truthy p)) kvs = Inr ()"
      "item c ''reference'' = Inr r" "validate_outcomes r = Inr ()" "item c ''native'' = Inr n" "validate_outcomes n = Inr ()" "ids' = ids @ [i]"
    unfolding check_case_def raise_if_iff bindE_Inr_iff if_Inr_iff by auto
  from f have b: "bindE (item c ''id'') (fullmatchE identity_rx) = Inr True"
      "allE (isE is_str c) [''id'', ''title'', ''declarations'', ''body''] = Inr True" "isE (\<lambda>b. \<not> truthy b) c ''body'' = Inr False"
    unfolding bad_case_fields_def orE_iff notE_iff by simp_all
  have "isE is_str c ''id'' = Inr True" "isE is_str c ''title'' = Inr True" "isE is_str c ''declarations'' = Inr True" "isE is_str c ''body'' = Inr True"
    using b(2) unfolding allE_iff by simp_all
  with b(3) obtain x t d b where x: "item c ''id'' = Inr (JStr x)" "item c ''title'' = Inr (JStr t)" "item c ''declarations'' = Inr (JStr d)"
      "item c ''body'' = Inr (JStr b)" "b \<noteq> []"
    by (auto simp: isE_iff is_str_iff simp del: item.simps)
  have k: "fs = JDict kvs" using i(6) by (simp add: itemsE_iff)
  have "list_all (\<lambda>(name, x). valid_case_file name (truthy p) \<and> is_str x) kvs"
    using i(7) by (auto simp: forE_iff list_all_iff check_case_file_def split: if_splits)
  moreover have "project_check c = Inr (truthy p)" using i(5) by (simp add: project_check_def)
  ultimately have "case_checked c" using i x k unfolding case_checked_def by blast
  moreover have "fullmatch identity_rx x" using b(1) x(1) by simp
  ultimately show ?thesis using i x by auto
qed

lemma check_cases:
  assumes "foldE check_case [] cases = Inr identities"
  shows "\<exists>ids. identities = map JStr ids \<and> distinct ids \<and> mapE (\<lambda>c. item c ''id'') cases = Inr (map JStr ids) \<and> list_all case_checked cases"
proof (rule foldE_prefix_invariant [OF assms, where P = "\<lambda>cs st. \<exists>ids. st = map JStr ids \<and> distinct ids \<and>
    mapE (\<lambda>c. item c ''id'') cs = Inr (map JStr ids) \<and> list_all case_checked cs"])
  fix ys c u v
  assume "\<exists>ids. u = map JStr ids \<and> distinct ids \<and> mapE (\<lambda>c. item c ''id'') ys = Inr (map JStr ids) \<and> list_all case_checked ys"
    and v: "check_case u c = Inr v"
  then obtain ids where ids: "u = map JStr ids" "distinct ids" "mapE (\<lambda>c. item c ''id'') ys = Inr (map JStr ids)" "list_all case_checked ys"
    by blast
  from check_case_Inr [OF v] obtain i where i: "item c ''id'' = Inr (JStr i)" "v = u @ [JStr i]" "\<not> jmem (JStr i) u" "case_checked c"
    by blast
  have "mapE (\<lambda>c. item c ''id'') (ys @ [c]) = Inr (map JStr (ids @ [i]))" using mapE_snoc [OF ids(3), of c "JStr i"] i(1) by simp
  then show "\<exists>ids. v = map JStr ids \<and> distinct ids \<and> mapE (\<lambda>c. item c ''id'') (ys @ [c]) = Inr (map JStr ids) \<and> list_all case_checked (ys @ [c])"
    using ids i by (intro exI [of _ "ids @ [i]"]) auto
qed simp

lemma check_feature_Inr:
  assumes "check_feature ids st f = Inr st'"
  shows "\<exists>i s cs scope. item f ''id'' = Inr i \<and> item f ''syntax'' = Inr (JList (map JStr s)) \<and> item f ''cases'' = Inr (JList (map JStr cs)) \<and>
     st' = \<lparr>reg_ids = reg_ids st @ [i], reg_nodes = reg_nodes st @ map JStr s, reg_covered = reg_covered st @ map JStr cs\<rparr> \<and>
     distinct s \<and> distinct cs \<and> list_all (\<lambda>x. \<not> jmem (JStr x) (reg_nodes st)) s \<and> jsub (map JStr cs) ids \<and> list_all (fullmatch node_rx) s \<and>
     item f ''scope'' = Inr scope \<and> (scope = JStr ''basic'' \<longrightarrow> cs \<noteq> [])"
proof -
  from assms have l: "feature_lists_ok ids (reg_nodes st) f = Inr True"
    unfolding check_feature_def raise_if_iff notE_iff by (simp add: andE_iff)
  from assms obtain i s cs where i: "item f ''id'' = Inr i" "item f ''syntax'' = Inr s" "item f ''cases'' = Inr cs"
    "st' = \<lparr>reg_ids = reg_ids st @ [i], reg_nodes = reg_nodes st @ list_of s, reg_covered = reg_covered st @ list_of cs\<rparr>"
    unfolding check_feature_def raise_if_iff bindE_Inr_iff by auto
  from l have p: "list_allE is_str f ''cases'' = Inr True" "list_allE syntax_node f ''syntax'' = Inr True"
    unfolding feature_lists_ok_def andE_iff by simp_all
  from l obtain scope where w: "item f ''scope'' = Inr scope" "jdistinct (list_of s)" "list_all (\<lambda>x. \<not> jmem x (reg_nodes st)) (list_of s)"
      "jdistinct (list_of cs)" "jsub (list_of cs) ids" "\<not> (scope = JStr ''basic'' \<and> \<not> truthy cs)"
    unfolding feature_lists_ok_def andE_iff bindE_Inr_iff by (auto simp: i(2,3) simp del: item.simps)
  from p(1) i(3) have c: "is_list cs" "list_all is_str (list_of cs)" by (simp_all add: list_allE_def isE_iff)
  from p(2) i(2) have n: "is_list s" "list_all syntax_node (list_of s)" by (simp_all add: list_allE_def isE_iff)
  have "list_all is_str (list_of s)" using n(2) by (rule list.pred_mono_strong) (auto simp: syntax_node_def split: json.splits)
  with n(1) obtain ss where ss: "s = JList (map JStr ss)" by (auto simp: is_list_iff dest: strs_of)
  from c obtain cc where cc: "cs = JList (map JStr cc)" by (auto simp: is_list_iff dest: strs_of)
  have "list_all (fullmatch node_rx) ss" using n(2) by (simp add: ss syntax_node_def list_all_iff)
  moreover have "list_all (\<lambda>x. \<not> jmem (JStr x) (reg_nodes st)) ss" using w(3) by (simp add: ss list_all_iff)
  ultimately show ?thesis using i w(1,2,4,5,6)
    by (intro exI [of _ i] exI [of _ ss] exI [of _ cc] exI [of _ scope]) (simp add: ss cc)
qed

definition basic_covered :: "json \<Rightarrow> bool" where
  "basic_covered f = (item f ''scope'' = Inr (JStr ''basic'') \<longrightarrow> item f ''cases'' \<noteq> Inr (JList []))"

lemma check_features_fold:
  assumes "foldE (check_feature ids) \<lparr>reg_ids = [], reg_nodes = [], reg_covered = []\<rparr> fs = Inr st"
  shows "\<exists>nss css. mapE (\<lambda>f. item f ''syntax'') fs = Inr (map (JList \<circ> map JStr) nss) \<and> reg_nodes st = map JStr (concat nss) \<and> distinct (concat nss) \<and>
     mapE (\<lambda>f. item f ''cases'') fs = Inr (map (JList \<circ> map JStr) css) \<and> reg_covered st = map JStr (concat css) \<and> list_all basic_covered fs"
proof (rule foldE_prefix_invariant [OF assms, where P = "\<lambda>fs st. \<exists>nss css. mapE (\<lambda>f. item f ''syntax'') fs = Inr (map (JList \<circ> map JStr) nss) \<and>
    reg_nodes st = map JStr (concat nss) \<and> distinct (concat nss) \<and> mapE (\<lambda>f. item f ''cases'') fs = Inr (map (JList \<circ> map JStr) css) \<and>
    reg_covered st = map JStr (concat css) \<and> list_all basic_covered fs"])
  fix ys f u v
  assume "\<exists>nss css. mapE (\<lambda>f. item f ''syntax'') ys = Inr (map (JList \<circ> map JStr) nss) \<and> reg_nodes u = map JStr (concat nss) \<and> distinct (concat nss) \<and>
     mapE (\<lambda>f. item f ''cases'') ys = Inr (map (JList \<circ> map JStr) css) \<and> reg_covered u = map JStr (concat css) \<and> list_all basic_covered ys"
    and v: "check_feature ids u f = Inr v"
  then obtain nss css where y: "mapE (\<lambda>f. item f ''syntax'') ys = Inr (map (JList \<circ> map JStr) nss)" "reg_nodes u = map JStr (concat nss)"
    "distinct (concat nss)" "mapE (\<lambda>f. item f ''cases'') ys = Inr (map (JList \<circ> map JStr) css)" "reg_covered u = map JStr (concat css)" "list_all basic_covered ys"
    by blast
  from check_feature_Inr [OF v] obtain s cs scope where s: "item f ''syntax'' = Inr (JList (map JStr s))" "item f ''cases'' = Inr (JList (map JStr cs))"
    "reg_nodes v = reg_nodes u @ map JStr s" "reg_covered v = reg_covered u @ map JStr cs" "distinct s"
    "list_all (\<lambda>x. \<not> jmem (JStr x) (reg_nodes u)) s" "item f ''scope'' = Inr scope" "scope = JStr ''basic'' \<longrightarrow> cs \<noteq> []"
    by auto
  have "distinct (concat (nss @ [s]))" using y(2,3) s(5,6) by (auto simp: list_all_iff)
  moreover have "mapE (\<lambda>f. item f ''syntax'') (ys @ [f]) = Inr (map (JList \<circ> map JStr) (nss @ [s]))"
    using mapE_snoc [OF y(1), of f] s(1) by simp
  moreover have "mapE (\<lambda>f. item f ''cases'') (ys @ [f]) = Inr (map (JList \<circ> map JStr) (css @ [cs]))"
    using mapE_snoc [OF y(4), of f] s(2) by simp
  moreover have "list_all basic_covered (ys @ [f])" using y(6) s(2,7,8) by (simp add: basic_covered_def)
  ultimately show "\<exists>nss css. mapE (\<lambda>f. item f ''syntax'') (ys @ [f]) = Inr (map (JList \<circ> map JStr) nss) \<and> reg_nodes v = map JStr (concat nss) \<and>
     distinct (concat nss) \<and> mapE (\<lambda>f. item f ''cases'') (ys @ [f]) = Inr (map (JList \<circ> map JStr) css) \<and> reg_covered v = map JStr (concat css) \<and>
     list_all basic_covered (ys @ [f])"
    using y(2,5) s(3,4) by (intro exI [of _ "nss @ [s]"] exI [of _ "css @ [cs]"]) simp
qed simp

text \<open>C24. A registry that validates has distinct case identities; every case has validated outcomes of both
  compilers and files with safe relative names; the features name exactly the cases of the
  registry, no syntax node belongs to two features, and every basic feature has a case.\<close>

theorem registry_covers:
  assumes "validate_registry d = Inr cases"
  shows "\<exists>ids features nss css. mapE (\<lambda>c. item c ''id'') cases = Inr (map JStr ids) \<and> distinct ids \<and> cases \<noteq> [] \<and> list_all case_checked cases \<and>
     item d ''features'' = Inr (JList features) \<and> mapE (\<lambda>f. item f ''syntax'') features = Inr (map (JList \<circ> map JStr) nss) \<and> distinct (concat nss) \<and>
     mapE (\<lambda>f. item f ''cases'') features = Inr (map (JList \<circ> map JStr) css) \<and> set (concat css) = set ids \<and> list_all basic_covered features"
proof -
  from assms obtain cs identities where c: "is_list cs" "truthy cs" "cases = list_of cs" "foldE check_case [] cases = Inr identities"
      "check_features d identities = Inr ()"
    unfolding validate_registry_def raise_if_iff bindE_Inr_iff if_Inr_iff by auto
  from check_cases [OF c(4)] obtain ids where ids: "identities = map JStr ids" "distinct ids"
    "mapE (\<lambda>c. item c ''id'') cases = Inr (map JStr ids)" "list_all case_checked cases" by blast
  from c(5) obtain features st where f: "item d ''features'' = Inr (JList features)"
      "foldE (check_feature identities) \<lparr>reg_ids = [], reg_nodes = [], reg_covered = []\<rparr> features = Inr st" "jset_eq (reg_covered st) identities"
    unfolding check_features_def bindE_Inr_iff if_Inr_iff is_list_iff by auto
  from check_features_fold [OF f(2)] obtain nss css where n: "mapE (\<lambda>f. item f ''syntax'') features = Inr (map (JList \<circ> map JStr) nss)"
    "distinct (concat nss)" "mapE (\<lambda>f. item f ''cases'') features = Inr (map (JList \<circ> map JStr) css)" "reg_covered st = map JStr (concat css)"
    "list_all basic_covered features" by blast
  have "set (concat css) = set ids" using f(3) ids(1) n(4) by (simp del: set_concat map_concat)
  moreover have "cases \<noteq> []" using c(1,2,3) by (auto simp: is_list_iff)
  ultimately show ?thesis using ids f(1) n by blast
qed

section \<open>Writing the files of a case\<close>

lemma valid_name_parts:
  assumes "valid_case_file name p"
  shows "pure_parts name = split_chr (CHR ''/'') name" "list_all plain_name (pure_parts name)" "\<not> is_absolute name" "name \<noteq> ''main.trb''"
proof -
  have a: "\<forall>part \<in> set (split_chr (CHR ''/'') name). part \<notin> {[], ''.'', ''..''}" "name \<noteq> ''main.trb''"
    using assms unfolding valid_case_file_def by (simp_all split: if_splits)
  then show "pure_parts name = split_chr (CHR ''/'') name" "list_all plain_name (pure_parts name)" "name \<noteq> ''main.trb''"
    by (auto simp: pure_parts_def list_all_iff plain_name_def)
  show "\<not> is_absolute name"
  proof
    assume "is_absolute name"
    then obtain t where "name = CHR ''/'' # t" by (auto simp: is_absolute_def startswith_iff)
    then have "[] \<in> set (split_chr (CHR ''/'') name)" by simp
    with a show False by blast
  qed
qed

lemma valid_path: "valid_case_file name p \<Longrightarrow> joinp dir name = dir @ split_chr (CHR ''/'') name"
  by (simp add: joinp_def valid_name_parts)

lemma valid_path_plain: "list_all plain_name dir \<Longrightarrow> valid_case_file name p \<Longrightarrow> list_all plain_name (joinp dir name)"
  by (simp add: joinp_def valid_name_parts(2,3))

lemma split_chr_inject: "split_chr c s = split_chr c t \<Longrightarrow> s = t"
  by (metis join_split_chr)

definition only_below :: "path \<Rightarrow> fs \<Rightarrow> fs \<Rightarrow> bool" where
  "only_below dir f g \<longleftrightarrow> no_links g \<and> (\<forall>q. \<not> strict_prefix dir q \<longrightarrow> look g q = look f q)"

lemma write_case_file_effect:
  assumes "valid_case_file name p" "no_links f" "list_all plain_name dir" "only_below dir f g"
    "\<And>q. prefix q dir \<Longrightarrow> look f q = Some NDir" "write_case_file dir g (name, JStr t) = Inr h"
  shows "only_below dir f h" "read_bytes h (joinp dir name) = Inr t"
    "\<And>q s m. q \<noteq> joinp dir name \<Longrightarrow> look g q = Some (NFile s m) \<Longrightarrow> look h q = Some (NFile s m)"
proof -
  let ?ps = "split_chr (CHR ''/'') name"
  have path: "joinp dir name = dir @ ?ps" using assms(1) by (rule valid_path)
  have pl: "list_all plain_name (dir @ ?ps)" using assms(1,3) valid_name_parts [of name p] by simp
  have ne: "dir @ ?ps \<noteq> []" "butlast (dir @ ?ps) = dir @ butlast ?ps" by (simp_all add: butlast_append)
  have nl: "no_links g" using assms(4) by (simp add: only_below_def)
  from assms(6) obtain g1 where g1: "mkdir_p g (dir @ butlast ?ps) = Inr g1" "write_bytes g1 (dir @ ?ps) t = Inr h"
    by (auto simp: write_case_file_def path ne str_value_def bindE_Inr_iff)
  have "list_all plain_name (dir @ butlast ?ps)" using list_all_butlast [OF pl] ne(2) by simp
  then have m: "mkdirs g [] (dir @ butlast ?ps) = Inr g1" using g1(1) nl by (simp add: mkdir_p_plain)
  have nl1: "no_links g1" by (rule no_links_mkdirs [OF m nl])
  obtain md where h: "h = fs_put g1 (dir @ ?ps) (NFile t md)" using write_bytes_plain [OF nl1 pl ne(1) g1(2)] by blast
  from write_then_read [OF nl1 pl ne(1) g1(2)] have r: "read_bytes h (dir @ ?ps) = Inr t" "no_links h" by auto
  have keep: "look h q = look f q" if q: "\<not> strict_prefix dir q" for q
  proof -
    have "strict_prefix dir (dir @ ?ps)" by (cases ?ps) (auto simp: strict_prefix_def dest: arg_cong [where f = length])
    then have "q \<noteq> dir @ ?ps" using q by auto
    moreover have "look g1 q = look g q"
    proof (cases "prefix q (dir @ butlast ?ps)")
      case True
      with q have "prefix q dir" by (auto simp: prefix_append strict_prefix_def)
      then have "look f q = Some NDir" by (rule assms(5))
      moreover have "look g q = look f q" using assms(4) q by (simp add: only_below_def)
      ultimately show ?thesis by (simp add: mkdirs_look [OF m])
    qed (simp add: mkdirs_look [OF m])
    ultimately show ?thesis using assms(4) q ne(1) by (simp add: h look_fs_put only_below_def)
  qed
  show "only_below dir f h" using keep r(2) by (simp add: only_below_def)
  show "read_bytes h (joinp dir name) = Inr t" using r(1) by (simp add: path)
  show "look h q = Some (NFile s m')" if "q \<noteq> joinp dir name" "look g q = Some (NFile s m')" for q s m'
    using that ne(1) by (simp add: h path look_fs_put mkdirs_look [OF m])
qed

definition holds_file :: "path \<Rightarrow> fs \<Rightarrow> string \<times> json \<Rightarrow> bool" where
  "holds_file dir g nt = (\<exists>s m. snd nt = JStr s \<and> look g (joinp dir (fst nt)) = Some (NFile s m))"

lemma write_case_files:
  assumes "foldE (write_case_file dir) f files = Inr g" "distinct (map fst files)" "list_all (\<lambda>(name, x). valid_case_file name p \<and> is_str x) files"
    "no_links f" "list_all plain_name dir" "\<And>q. prefix q dir \<Longrightarrow> look f q = Some NDir"
  shows "only_below dir f g \<and> list_all (holds_file dir g) files"
  using assms(1,2,3)
proof (induction files arbitrary: g rule: rev_induct)
  case Nil
  then show ?case using assms(4) by (simp add: only_below_def)
next
  case (snoc x xs)
  obtain name v where x: "x = (name, v)" by (cases x)
  with snoc.prems(3) obtain t where v: "v = JStr t" "valid_case_file name p" by (auto simp: is_str_iff)
  from snoc.prems(1) obtain g0 where g0: "foldE (write_case_file dir) f xs = Inr g0" "write_case_file dir g0 (name, JStr t) = Inr g"
    by (auto simp: foldE_append bindE_Inr_iff x v)
  have ih: "only_below dir f g0" "list_all (holds_file dir g0) xs" using snoc.IH [OF g0(1)] snoc.prems(2,3) by auto
  note eff = write_case_file_effect [OF v(2) assms(4,5) ih(1) assms(6) g0(2)]
  have "holds_file dir g y" if y: "y \<in> set xs" for y
  proof -
    have "valid_case_file (fst y) p" using snoc.prems(3) y by (auto simp: list_all_iff)
    moreover have "fst y \<noteq> name" using snoc.prems(2) y by (auto simp: x)
    ultimately have "joinp dir (fst y) \<noteq> joinp dir name" using v(2) by (auto simp: valid_path dest: split_chr_inject)
    moreover have "holds_file dir g0 y" using ih(2) y by (simp add: list_all_iff)
    ultimately show ?thesis using eff(3) unfolding holds_file_def by blast
  qed
  moreover have "list_all plain_name (joinp dir name)" using assms(5) v(2) by (rule valid_path_plain)
  then have "holds_file dir g x" using eff(1,2) by (auto simp: holds_file_def x v(1) read_bytes_plain only_below_def)
  ultimately show ?case using eff(1) by (simp add: list_all_iff)
qed

text \<open>C22. Writing a validated case changes nothing outside its directory, every file of the case has its
  recorded text, and the assembled program is the one source that no file of the case replaces.\<close>

theorem write_case_confined:
  assumes "case_checked c" "item c ''files'' = Inr (JDict files)" "distinct (map fst files)"
    "no_links f" "is_tree f" "look f dir = Some NDir" "list_all plain_name dir" "write_case c dir f = Inr g"
  shows "(\<forall>q. \<not> strict_prefix dir q \<longrightarrow> look g q = look f q) \<and>
     list_all (\<lambda>(name, v). \<exists>s. v = JStr s \<and> read_bytes g (joinp dir name) = Inr s) files \<and>
     (\<exists>s. main_source c = Inr s \<and> read_bytes g (dir @ [''main.trb'']) = Inr s)"
proof -
  from assms(1,2) obtain p where v: "list_all (\<lambda>(name, x). valid_case_file name p \<and> is_str x) files"
    by (auto simp: case_checked_def)
  from assms(8) obtain g1 s where g1: "foldE (write_case_file dir) f files = Inr g1" "main_source c = Inr s"
    "write_bytes g1 (dir @ [''main.trb'']) s = Inr g"
    by (auto simp: write_case_def bindE_Inr_iff assms(2))
  have pre: "prefix q dir \<Longrightarrow> look f q = Some NDir" for q by (rule is_tree_prefix [OF assms(5,6)])
  from write_case_files [OF g1(1) assms(3) v assms(4,7) pre]
  have w: "only_below dir f g1" "list_all (holds_file dir g1) files" by auto
  let ?m = "dir @ [''main.trb'']"
  have pl: "list_all plain_name ?m" "?m \<noteq> []" "no_links g1" using assms(7) w(1) by (simp_all add: plain_name_def only_below_def)
  obtain md where g: "g = fs_put g1 ?m (NFile s md)" using write_bytes_plain [OF pl(3,1,2) g1(3)] by blast
  from write_then_read [OF pl(3,1,2) g1(3)] have r: "read_bytes g ?m = Inr s" "no_links g" by auto
  have "read_bytes g (joinp dir name) = Inr t" if nt: "(name, v) \<in> set files" "v = JStr t" for name v t
  proof -
    have vn: "valid_case_file name p" using v nt(1) by (auto simp: list_all_iff)
    have "split_chr (CHR ''/'') name \<noteq> [''main.trb'']"
      using valid_name_parts(4) [OF vn] split_chr_inject [of "CHR ''/''" name "''main.trb''"] by auto
    then have "joinp dir name \<noteq> ?m" using vn by (simp add: valid_path)
    moreover have "holds_file dir g1 (name, v)" using w(2) nt(1) by (simp add: list_all_iff)
    moreover have "list_all plain_name (joinp dir name)" using assms(7) vn by (rule valid_path_plain)
    ultimately show ?thesis using nt(2) r(2) by (auto simp: holds_file_def g look_fs_put read_bytes_plain)
  qed
  moreover have "\<not> strict_prefix dir q \<Longrightarrow> look g q = look f q" for q
    using w(1) by (auto simp: g look_fs_put only_below_def strict_prefix_def)
  moreover have "v \<noteq> JStr t \<Longrightarrow> (name, v) \<in> set files \<Longrightarrow> \<exists>s. v = JStr s" for name v t
    using v by (auto simp: list_all_iff is_str_iff)
  ultimately show ?thesis using g1(2) r(1) v by (fastforce simp: list_all_iff is_str_iff)
qed

section \<open>What a strict run establishes\<close>

lemma observe_role_both:
  assumes "collect runner c (Some native) (Some reference) dir f = Inr observations"
  shows "\<exists>r n. observations = JDict [(''reference'', r), (''native'', n)]"
  using assms by (auto simp: collect_def bindE_Inr_iff) (auto simp: collect_role_def bindE_Inr_iff)

lemma run_case_both:
  assumes "run_case runner directory f (Some native) (Some reference) ic = Inr co"
  shows "fst co = snd ic \<and> ((\<exists>m. snd co = JDict [(''error'', m)]) \<or> (\<exists>r n. snd co = JDict [(''reference'', r), (''native'', n)]))"
proof -
  from assms obtain dir f1 where "catchE (collect runner (snd ic) (Some native) (Some reference) dir f1) is_ValueError
       (\<lambda>e. Inr (JDict [(''error'', JStr (error_message e))])) = Inr (snd co)" and c: "fst co = snd ic"
    by (auto simp: run_case_def bindE_Inr_iff)
  then show ?thesis
    by (cases "collect runner (snd ic) (Some native) (Some reference) dir f1")
      (auto split: if_splits dest: observe_role_both intro: sym)
qed

text \<open>A case passes when the reviewed outcomes have no gap and both compilers answered them.\<close>

definition case_passes :: "json \<times> json \<Rightarrow> bool" where
  "case_passes co = (parity_gaps (fst co) = Inr [] \<and> (\<exists>r n er en. snd co = JDict [(''reference'', r), (''native'', n)] \<and>
     item (fst co) ''reference'' = Inr er \<and> outcomes_match r er = Inr True \<and> any_timeout r = Inr False \<and>
     item (fst co) ''native'' = Inr en \<and> outcomes_match n en = Inr True \<and> any_timeout n = Inr False))"

definition answered :: "json \<times> json \<Rightarrow> bool" where
  "answered co = ((\<exists>m. snd co = JDict [(''error'', m)]) \<or> (\<exists>r n. snd co = JDict [(''reference'', r), (''native'', n)]))"

lemma role_not_failed:
  assumes "role_failed False c observations role = Inr False" "item observations role = Inr o1"
  shows "\<exists>e. item c role = Inr e \<and> outcomes_match o1 e = Inr True \<and> any_timeout o1 = Inr False"
proof -
  from assms(2) have h: "hasE role observations = Inr True" by (fastforce simp: item_iff dest: map_of_SomeD)
  from assms(1) [unfolded role_failed_def] show ?thesis by (auto simp: h assms(2) bindE_Inr_iff)
qed

lemma report_case_step:
  assumes "report_case args rep co = Inr rep'" "rep_failures rep' = []" "\<not> arg_observe args" "arg_require_parity args" "answered co"
  shows "rep_failures rep = [] \<and> case_passes co"
proof -
  obtain c observations where co: "co = (c, observations)" by (cases co)
  from assms(1) obtain failed i fr fn gaps where r: "hasE ''error'' observations = Inr failed" "parity_gaps c = Inr gaps"
      "role_failed (arg_observe args) c observations ''reference'' = Inr fr" "role_failed (arg_observe args) c observations ''native'' = Inr fn"
      "rep_failures rep' = rep_failures rep @ (if failed \<or> fr \<or> fn \<or> arg_require_parity args \<and> gaps \<noteq> [] then [i] else [])"
    by (auto simp: report_case_def co bindE_Inr_iff simp del: inE.simps)
  with assms(2-4) have z: "\<not> failed" "\<not> fr" "\<not> fn" "gaps = []" "rep_failures rep = []" by (auto split: if_splits)
  with assms(5) r(1) obtain a n where o1: "observations = JDict [(''reference'', a), (''native'', n)]"
    by (auto simp: answered_def co)
  have "item observations ''reference'' = Inr a" "item observations ''native'' = Inr n" by (simp_all add: o1)
  with r(3,4) z assms(3) have "\<exists>e. item c ''reference'' = Inr e \<and> outcomes_match a e = Inr True \<and> any_timeout a = Inr False"
      "\<exists>e. item c ''native'' = Inr e \<and> outcomes_match n e = Inr True \<and> any_timeout n = Inr False"
    by (auto intro!: role_not_failed [of c observations])
  with r(2) z o1 show ?thesis by (auto simp: case_passes_def co)
qed

text \<open>C23. A strict parity run that exits with zero has run every case of the registry: both compilers gave
  the reviewed outcomes of the case without a timeout, the reviewed outcomes have no parity gap,
  and no basic feature has a pending contract.\<close>

theorem strict_run_passes:
  assumes "run_command runner sha256 fr directory f registry args d cases = Inr result" "arg_require_parity args" "exit_code result = 0"
  shows "\<exists>native reference results. arg_native args = Some native \<and> arg_reference args = Some reference \<and>
     mapE (run_case runner directory f (Some native) (Some reference)) (zip [0..<length cases] cases) = Inr results \<and>
     map fst results = cases \<and> list_all case_passes results \<and> uncovered_contracts d = Inr []"
proof -
  from assms(1,2) obtain chosen uncovered rep where o1: "\<not> arg_observe args" "\<not> case_given args" "arg_native args \<noteq> None" "arg_reference args \<noteq> None"
    "select_cases args cases = Inr chosen" "uncovered_contracts d = Inr uncovered"
    "run_report_of runner directory f args (arg_native args) (arg_reference args) chosen = Inr rep" "exit_code result = coverage_exit args rep uncovered"
    unfolding run_command_def by (auto simp: bindE_Inr_iff split: if_splits)
  obtain native reference where nr: "arg_native args = Some native" "arg_reference args = Some reference" using o1(3,4) by blast
  have ch: "chosen = cases" using o1(2,5) by (auto simp: case_given_def select_cases_def split: option.splits if_splits)
  from o1(7) obtain results where res: "mapE (run_case runner directory f (Some native) (Some reference)) (zip [0..<length cases] cases) = Inr results"
    "foldE (report_case args) \<lparr>rep_cases = [], rep_failures = [], rep_gaps = []\<rparr> results = Inr rep"
    unfolding run_report_of_def bindE_Inr_iff ch nr by blast
  have each: "fst (results ! i) = cases ! i \<and> answered (results ! i)" and len: "length results = length cases" if "i < length cases" for i
  proof -
    have l: "list_all2 (\<lambda>x y. run_case runner directory f (Some native) (Some reference) x = Inr y) (zip [0..<length cases] cases) results"
      using res(1) by (simp add: mapE_iff)
    then show "length results = length cases" by (auto dest: list_all2_lengthD)
    from list_all2_nthD [OF l, of i] that
    have "run_case runner directory f (Some native) (Some reference) (i, cases ! i) = Inr (results ! i)" by simp
    from run_case_both [OF this] show "fst (results ! i) = cases ! i \<and> answered (results ! i)" by (simp add: answered_def)
  qed
  have len: "length results = length cases" using res(1) by (auto simp: mapE_iff dest: list_all2_lengthD)
  have fs: "map fst results = cases" using each len by (auto intro: nth_equalityI)
  have an: "co \<in> set results \<Longrightarrow> answered co" for co using each len by (auto simp: in_set_conv_nth)
  have z: "rep_failures rep = [] \<and> uncovered = []" using assms(2,3) o1(8) by (auto simp: coverage_exit_def split: if_splits)
  have "rep_failures rep = [] \<longrightarrow> list_all case_passes results"
  proof (rule foldE_prefix_invariant [OF res(2), where P = "\<lambda>cos rep. rep_failures rep = [] \<longrightarrow> list_all case_passes cos"])
    fix ys co u v
    assume "set (ys @ [co]) \<subseteq> set results" "rep_failures u = [] \<longrightarrow> list_all case_passes ys" "report_case args u co = Inr v"
    then show "rep_failures v = [] \<longrightarrow> list_all case_passes (ys @ [co])"
      using report_case_step [OF _ _ o1(1) assms(2) an] by auto
  qed simp
  then show ?thesis using z nr res(1) fs o1(6) by auto
qed

section \<open>Instances\<close>

definition demo_outcome :: "int \<Rightarrow> string \<Rightarrow> json" where
  "demo_outcome n out = JDict [(''code'', JInt n), (''stdout'', JStr out), (''stderr'', JStr [])]"

definition demo_paths :: "json" where
  "demo_paths = JDict [(''check'', demo_outcome 0 []), (''build'', demo_outcome 0 []), (''execute'', demo_outcome 0 ''1''), (''repl'', demo_outcome 0 ''1'')]"

definition demo_rejected :: "json" where
  "demo_rejected = JDict [(''check'', demo_outcome 1 []), (''build'', demo_outcome 1 []), (''execute'', JNull), (''repl'', demo_outcome 1 [])]"

definition demo_case :: "json" where
  "demo_case = JDict [(''id'', JStr ''demo''), (''title'', JStr ''Demo''), (''declarations'', JStr []), (''body'', JStr ''puts 1''),
     (''files'', JDict [(''lib/a.trb'', JStr ''x'')]), (''reference'', demo_paths), (''native'', demo_paths)]"

definition demo_registry :: "json" where
  "demo_registry = JDict [(''schemaVersion'', JInt 2), (''referenceAstSha256'', JStr (replicate 64 (CHR ''a''))),
     (''features'', JList [JDict [(''id'', JStr ''calls''), (''title'', JStr ''Calls''), (''scope'', JStr ''basic''), (''syntax'', JList [JStr ''CallNode'']),
        (''cases'', JList [JStr ''demo'']), (''pending'', JList []), (''note'', JStr [])]]), (''cases'', JList [demo_case])]"

lemma states_agree_with_gaps_witness:
  "\<exists>gaps chk bld execution repl.
     parity_gaps (JDict [(''native'', demo_rejected), (''reference'', demo_paths)]) = Inr gaps \<and>
     coverage_states (JDict [(''native'', demo_rejected), (''reference'', demo_paths)]) =
       Inr (JDict [(''check'', JStr chk), (''build'', JStr bld), (''execute'', JStr execution), (''repl'', JStr repl)]) \<and>
     (''check'' \<in> set gaps \<longleftrightarrow> chk \<in> {''accepts; reference rejects'', ''rejects valid input''})"
proof -
  have "validate_outcomes demo_rejected = Inr ()" "validate_outcomes demo_paths = Inr ()" by code_simp+
  then show ?thesis
    using states_agree_with_gaps [of "JDict [(''native'', demo_rejected), (''reference'', demo_paths)]" demo_rejected demo_paths]
    by auto
qed

lemma demo_registry_valid: "validate_registry demo_registry = Inr [demo_case]"
  by code_simp

lemma registry_covers_witness:
  "\<exists>ids features. mapE (\<lambda>c. item c ''id'') [demo_case] = Inr (map JStr ids) \<and> distinct ids \<and> item demo_registry ''features'' = Inr (JList features)"
  using registry_covers [OF demo_registry_valid] by blast

lemma demo_case_checked: "case_checked demo_case"
proof -
  have "foldE check_case [] [demo_case] = Inr [JStr ''demo'']" by code_simp
  from check_cases [OF this] show ?thesis by auto
qed

definition demo_dir :: "fs" where
  "demo_dir = [([''w''], NDir), ([''other''], NFile ''o'' 420)]"

lemma write_case_confined_witness:
  "\<exists>g s. write_case demo_case [''w''] demo_dir = Inr g \<and> look g [''other''] = look demo_dir [''other''] \<and>
     read_bytes g (joinp [''w''] ''lib/a.trb'') = Inr ''x'' \<and> main_source demo_case = Inr s \<and> read_bytes g ([''w''] @ [''main.trb'']) = Inr s"
proof -
  have "case write_case demo_case [''w''] demo_dir of Inl e \<Rightarrow> False | Inr g \<Rightarrow> True" by code_simp
  then obtain g where g: "write_case demo_case [''w''] demo_dir = Inr g" by (auto split: sum.splits)
  have "item demo_case ''files'' = Inr (JDict [(''lib/a.trb'', JStr ''x'')])" by code_simp
  moreover have "no_links demo_dir" by (rule no_links_list) (simp add: demo_dir_def not_link_def)
  moreover have "is_tree demo_dir" by (auto simp: is_tree_def look_def demo_dir_def)
  moreover have "look demo_dir [''w''] = Some NDir" "list_all plain_name [''w'']" by (simp_all add: demo_dir_def look_def plain_name_def)
  moreover have "\<not> strict_prefix [''w''] [''other'']" by simp
  ultimately show ?thesis
    using write_case_confined [OF demo_case_checked _ _ _ _ _ _ g, of "[(''lib/a.trb'', JStr ''x'')]"] g by auto
qed

text \<open>A child that answers every command and leaves a program where a build asks for it.\<close>

definition demo_child :: child where
  "demo_child binary arguments dir input f =
     (let answer = \<lparr>returncode = 0, proc_out = (if arguments = [] \<or> input \<noteq> None then ''1'' else []), proc_err = []\<rparr> in
      if arguments \<noteq> [] \<and> hd arguments = ''build''
      then Inr ((False, answer), fs_put f (joinp [] (arguments ! 3)) (NFile [] 493)) else Inr ((False, answer), f))"

definition demo_host :: runner where
  "demo_host = \<lparr>host_child = demo_child, host_decode = Some, host_escape = (\<lambda>s. s)\<rparr>"

definition demo_args :: coverage_args where
  "demo_args = \<lparr>arg_native = Some [''n''], arg_reference = Some [''r''], arg_observe = False, arg_case = None, arg_feature_table = False,
     arg_check_feature_table = None, arg_pages_data = False, arg_check_pages_data = None, arg_reference_ast = Some [''a''], arg_require_parity = True\<rparr>"

definition demo_files :: fs where
  "demo_files = [([''n''], NFile [] 493), ([''r''], NFile [] 493), ([''TYPE_RB_REVISION''], NFile ''v'' 420), ([''tools''], NDir),
     ([''tools'', ''c.json''], NFile [] 420), ([''tmp''], NDir)]"

lemma strict_run_passes_witness:
  "\<exists>results. mapE (run_case demo_host (\<lambda>i. [''tmp'', show_nat i]) demo_files (Some [''n'']) (Some [''r''])) (zip [0..<length [demo_case]] [demo_case]) = Inr results \<and>
     list_all case_passes results"
proof -
  let ?run = "run_command demo_host (\<lambda>s. []) (\<lambda>q. []) (\<lambda>i. [''tmp'', show_nat i]) demo_files [''tools'', ''c.json''] demo_args demo_registry [demo_case]"
  have "case ?run of Inl e \<Rightarrow> False | Inr r \<Rightarrow> exit_code r = 0" by code_simp
  then obtain r where "?run = Inr r" "exit_code r = 0" by (auto split: sum.splits)
  moreover have "arg_require_parity demo_args" "arg_native demo_args = Some [''n'']" "arg_reference demo_args = Some [''r'']" by (simp_all add: demo_args_def)
  ultimately show ?thesis using strict_run_passes [of demo_host] by fastforce
qed

end
