(* ===== verification/CompilerSources.thy ===== *)
theory CompilerSources
  imports PyProc
begin

text \<open>
  \<open>tools/compiler_sources.py\<close>: the production sources of a root, their content keys, and staging
  several roots into one directory. Every input and destination is validated before the
  first file is copied. SHA-256 is a parameter; roots and destinations are absolute paths.
\<close>

definition source_error :: "string \<Rightarrow> path \<Rightarrow> pyerr" where
  "source_error message p = ValueError (message @ '': '' @ posix p)"

definition production_source :: "fs \<Rightarrow> path \<Rightarrow> path \<Rightarrow> bool" where
  "production_source f base rel = (is_file f (base @ rel) \<and> name_suffix (path_name rel) = ''.trb'' \<and>
     \<not> endswith (path_name rel) ''_test.trb'' \<and> hd rel \<notin> {''testing'', ''tests''})"

definition source_files :: "fs \<Rightarrow> path \<Rightarrow> (path \<times> path) list res" where
  "source_files f base =
     (if \<not> is_dir f base \<or> is_symlink f base then Inl (source_error ''expected a compiler source directory'' base)
      else bindE (filterE (\<lambda>rel. if is_symlink f (base @ rel)
          then Inl (source_error ''compiler source symlink is not supported'' (base @ rel))
          else Inr (production_source f base rel)) (rglob f base)) (\<lambda>rels.
        Inr (map (\<lambda>rel. (rel, base @ rel)) rels)))"

definition source_hashes :: "(string \<Rightarrow> string) \<Rightarrow> fs \<Rightarrow> path \<Rightarrow> string list res" where
  "source_hashes sha256 f base = bindE (source_files f base) (mapE (\<lambda>(rel, source).
     bindE (read_bytes f source) (\<lambda>s. Inr (sha256 s @ ''  '' @ CHR ''/'' # posix source))))"

section \<open>Staging\<close>

text \<open>\<open>relative.parents\<close>, the nearest first and the empty path last.\<close>

definition rel_parents :: "path \<Rightarrow> path list" where
  "rel_parents p = map (\<lambda>k. take k p) (rev [0..<length p])"

record staging =
  staged :: "(path \<times> path) list"
  staged_dirs :: "path list"

definition collides :: "fs \<Rightarrow> path \<Rightarrow> staging \<Rightarrow> path \<Rightarrow> bool" where
  "collides f destination st rel =
     (rel \<in> fst ` set (staged st) \<or> rel \<in> set (staged_dirs st) \<or>
      (\<exists>q \<in> set (rel_parents rel). q \<in> fst ` set (staged st)) \<or>
      path_exists f (destination @ rel) \<or> is_symlink f (destination @ rel))"

definition bad_parent :: "fs \<Rightarrow> path \<Rightarrow> bool" where
  "bad_parent f p = (is_symlink f p \<or> path_exists f p \<and> \<not> is_dir f p)"

definition select_source :: "fs \<Rightarrow> path \<Rightarrow> staging \<Rightarrow> path \<times> path \<Rightarrow> staging res" where
  "select_source f destination st rs = (let (rel, source) = rs in
     if collides f destination st rel then Inl (source_error ''compiler source collision'' rel)
     else bindE (forE (\<lambda>q. if bad_parent f (destination @ q)
         then Inl (source_error ''invalid compiler source destination'' (destination @ q)) else Inr ()) (rel_parents rel)) (\<lambda>_.
       Inr \<lparr>staged = staged st @ [(rel, source)], staged_dirs = staged_dirs st @ rel_parents rel\<rparr>))"

definition select_root :: "fs \<Rightarrow> path \<Rightarrow> staging \<Rightarrow> path \<Rightarrow> staging res" where
  "select_root f destination st base = bindE (source_files f base) (foldE (select_source f destination) st)"

definition copy_source :: "path \<Rightarrow> fs \<Rightarrow> path \<times> path \<Rightarrow> fs res" where
  "copy_source destination f rs = bindE (mkdir_p f (butlast (destination @ fst rs))) (\<lambda>f1.
     bindE (read_bytes f1 (snd rs)) (\<lambda>s. write_bytes f1 (destination @ fst rs) s))"

definition stage_sources :: "fs \<Rightarrow> path list \<Rightarrow> path \<Rightarrow> (path list \<times> fs) res" where
  "stage_sources f roots destination =
     bindE (foldE (select_root f destination) \<lparr>staged = [], staged_dirs = []\<rparr> roots) (\<lambda>st.
     bindE (foldE (copy_source destination) f (staged st)) (\<lambda>g. Inr (map fst (staged st), g)))"

text \<open>The command line: the text printed and the files left, or the exit.\<close>

definition sources_main :: "(string \<Rightarrow> string) \<Rightarrow> fs \<Rightarrow> path option \<Rightarrow> path option \<Rightarrow> path list \<Rightarrow> (string \<times> fs) res" where
  "sources_main sha256 f hash_root destination sources = catchE (case hash_root of
       Some base \<Rightarrow> if destination \<noteq> None \<or> sources \<noteq> []
         then Inl (SystemExit ''--hash accepts one source root and no staging arguments'')
         else bindE (source_hashes sha256 f base) (\<lambda>ls. Inr (join [NL] ls @ [NL], f))
     | None \<Rightarrow> (case destination of
         None \<Rightarrow> Inl (SystemExit ''staging requires a destination and at least one source root'')
       | Some d \<Rightarrow> if sources = [] then Inl (SystemExit ''staging requires a destination and at least one source root'')
           else bindE (stage_sources f sources d) (\<lambda>(names, g). Inr ([], g))))
     (\<lambda>e. is_OSError e \<or> is_ValueError e) (\<lambda>e. Inl (SystemExit ''compiler source staging''))"

section \<open>What staging does\<close>

text \<open>Every name in the file system is an ordinary one.\<close>

definition plain_keys :: "fs \<Rightarrow> bool" where
  "plain_keys f = list_all (\<lambda>(p, n). list_all plain_name p) f"

lemma filterE_iff: "filterE p xs = Inr ys \<longleftrightarrow> (\<forall>x \<in> set xs. \<exists>b. p x = Inr b) \<and> ys = filter (\<lambda>x. p x = Inr True) xs"
proof (induction xs arbitrary: ys)
  case (Cons x xs)
  show ?case
  proof (cases "p x")
    case (Inr b)
    have "filterE p (x # xs) = Inr ys \<longleftrightarrow> (\<exists>zs. filterE p xs = Inr zs \<and> ys = (if b then x # zs else zs))"
      using Inr by (auto simp: bindE_Inr_iff)
    also have "\<dots> \<longleftrightarrow> (\<forall>x \<in> set xs. \<exists>b. p x = Inr b) \<and> ys = (if b then x # filter (\<lambda>x. p x = Inr True) xs else filter (\<lambda>x. p x = Inr True) xs)"
      using Cons.IH by auto
    finally show ?thesis using Inr by simp
  qed simp
qed auto

lemma rglob_plain:
  assumes "plain_keys f" "no_links f" "list_all plain_name d" "rel \<in> set (rglob f d)"
  shows "list_all plain_name rel" "rel \<noteq> []"
proof -
  from assms(2-4) obtain q n where "(q, n) \<in> set f" "rel = drop (length d) q"
    by (auto simp: rglob_def real_path_plain)
  then show "list_all plain_name rel" using assms(1) by (auto simp: plain_keys_def list_all_iff dest!: in_set_dropD bspec)
  show "rel \<noteq> []" using assms(4) by (rule rglob_nonempty)
qed

text \<open>The production sources of a root, as a set of relative names.\<close>

definition sources_of :: "fs \<Rightarrow> path \<Rightarrow> path set" where
  "sources_of f base = {rel \<in> set (rglob f base). production_source f base rel}"

lemma source_files_Inr:
  assumes "source_files f base = Inr rs" "plain_keys f" "no_links f" "list_all plain_name base" "(rel, source) \<in> set rs"
  shows "rel \<in> sources_of f base" "source = base @ rel" "list_all plain_name rel" "rel \<noteq> []" "\<exists>s m. look f source = Some (NFile s m)"
proof -
  from assms(1,5) show r: "rel \<in> sources_of f base" "source = base @ rel"
    by (auto simp: source_files_def bindE_Inr_iff filterE_iff sources_of_def split: if_splits)
  then have "rel \<in> set (rglob f base)" by (simp add: sources_of_def)
  from rglob_plain [OF assms(2,3,4) this] show p: "list_all plain_name rel" "rel \<noteq> []" .
  have "is_file f (base @ rel)" using r(1) by (simp add: sources_of_def production_source_def)
  then show "\<exists>s m. look f source = Some (NFile s m)"
    using p(1) assms(3,4) r(2) by (cases "look f source" rule: node_is_file.cases) (auto simp: is_file_def stat_plain)
qed

lemma source_files_set: "source_files f base = Inr rs \<Longrightarrow> fst ` set rs = sources_of f base"
  by (auto simp: source_files_def bindE_Inr_iff filterE_iff sources_of_def image_iff split: if_splits)

lemma rel_parents_iff: "q \<in> set (rel_parents p) \<longleftrightarrow> strict_prefix q p"
proof
  assume "q \<in> set (rel_parents p)"
  then show "strict_prefix q p"
    by (auto simp: rel_parents_def strict_prefix_def take_is_prefix dest: arg_cong [where f = length])
next
  assume q: "strict_prefix q p"
  then have "q = take (length q) p" by (auto simp: strict_prefix_def prefix_def)
  with prefix_length_less [OF q] show "q \<in> set (rel_parents p)" by (auto simp: rel_parents_def intro!: image_eqI)
qed

text \<open>The selection: distinct names of sources, none of them above another, their targets free.\<close>

definition selection_ok :: "fs \<Rightarrow> path \<Rightarrow> (path \<times> path) list \<Rightarrow> bool" where
  "selection_ok f destination sel \<longleftrightarrow> distinct (map fst sel) \<and>
     (\<forall>(rel, source) \<in> set sel. list_all plain_name rel \<and> rel \<noteq> [] \<and> look f (destination @ rel) = None \<and>
        list_all plain_name source \<and> (\<exists>s m. look f source = Some (NFile s m))) \<and>
     (\<forall>r \<in> fst ` set sel. \<forall>q \<in> fst ` set sel. \<not> strict_prefix q r)"

definition staging_ok :: "fs \<Rightarrow> path \<Rightarrow> staging \<Rightarrow> bool" where
  "staging_ok f destination st \<longleftrightarrow> selection_ok f destination (staged st) \<and>
     set (staged_dirs st) = {q. \<exists>r \<in> fst ` set (staged st). strict_prefix q r}"

lemma select_source_ok:
  assumes "select_source f destination st (rel, source) = Inr st'" "staging_ok f destination st"
    "no_links f" "list_all plain_name destination" "list_all plain_name rel" "rel \<noteq> []"
    "list_all plain_name source" "\<exists>s m. look f source = Some (NFile s m)"
  shows "staging_ok f destination st'" "staged st' = staged st @ [(rel, source)]"
proof -
  from assms(1) have c: "\<not> collides f destination st rel"
    and st': "st' = \<lparr>staged = staged st @ [(rel, source)], staged_dirs = staged_dirs st @ rel_parents rel\<rparr>"
    by (auto simp: select_source_def bindE_Inr_iff split: if_splits)
  then show "staged st' = staged st @ [(rel, source)]" by simp
  from c have n: "rel \<notin> fst ` set (staged st)" "\<not> (\<exists>r \<in> fst ` set (staged st). strict_prefix rel r)"
    "\<not> (\<exists>q \<in> fst ` set (staged st). strict_prefix q rel)"
    using assms(2) by (auto simp: collides_def staging_ok_def rel_parents_iff)
  have "look f (destination @ rel) = None"
    using c assms(3-5) by (auto simp: collides_def path_exists_def stat_plain)
  then have "selection_ok f destination (staged st')"
    using assms(2,5-8) n by (auto simp: st' staging_ok_def selection_ok_def)
  moreover have "set (staged_dirs st') = {q. \<exists>r \<in> fst ` set (staged st'). strict_prefix q r}"
    using assms(2) by (auto simp: st' staging_ok_def rel_parents_iff)
  ultimately show "staging_ok f destination st'" by (simp add: staging_ok_def)
qed

lemma select_root_ok:
  assumes "select_root f destination st base = Inr st'" "staging_ok f destination st"
    "no_links f" "plain_keys f" "list_all plain_name destination" "list_all plain_name base"
  shows "staging_ok f destination st' \<and> (\<exists>rs. source_files f base = Inr rs \<and> staged st' = staged st @ rs)"
proof -
  from assms(1) obtain rs where rs: "source_files f base = Inr rs" "foldE (select_source f destination) st rs = Inr st'"
    by (auto simp: select_root_def bindE_Inr_iff)
  have "staging_ok f destination st' \<and> staged st' = staged st @ rs"
  proof (rule foldE_prefix_invariant [OF rs(2), where P = "\<lambda>xs u. staging_ok f destination u \<and> staged u = staged st @ xs"])
    fix ys x u v
    assume x: "set (ys @ [x]) \<subseteq> set rs" "staging_ok f destination u \<and> staged u = staged st @ ys" "select_source f destination u x = Inr v"
    obtain rel source where rel: "x = (rel, source)" by (cases x)
    have "(rel, source) \<in> set rs" using x(1) by (simp add: rel)
    note sf = source_files_Inr [OF rs(1) assms(4,3,6) this]
    have "list_all plain_name source" using sf(2,3) assms(6) by simp
    from select_source_ok [OF x(3) [unfolded rel] _ assms(3,5) sf(3,4) this sf(5)] x(2)
    show "staging_ok f destination v \<and> staged v = staged st @ ys @ [x]" by (auto simp: rel)
  qed (use assms(2) in simp)
  with rs(1) show ?thesis by blast
qed

lemma select_roots_ok:
  assumes "foldE (select_root f destination) \<lparr>staged = [], staged_dirs = []\<rparr> roots = Inr st"
    "no_links f" "plain_keys f" "list_all plain_name destination" "\<forall>base \<in> set roots. list_all plain_name base"
  shows "staging_ok f destination st \<and> fst ` set (staged st) = (\<Union>base \<in> set roots. sources_of f base) \<and>
    (\<forall>(rel, source) \<in> set (staged st). \<exists>base \<in> set roots. source = base @ rel)"
proof (rule foldE_prefix_invariant [OF assms(1), where P = "\<lambda>bs u. staging_ok f destination u \<and>
    fst ` set (staged u) = (\<Union>base \<in> set bs. sources_of f base) \<and> (\<forall>(rel, source) \<in> set (staged u). \<exists>base \<in> set roots. source = base @ rel)"])
  fix ys base u v
  assume a: "set (ys @ [base]) \<subseteq> set roots" "staging_ok f destination u \<and> fst ` set (staged u) = (\<Union>base \<in> set ys. sources_of f base) \<and>
      (\<forall>(rel, source) \<in> set (staged u). \<exists>base \<in> set roots. source = base @ rel)" "select_root f destination u base = Inr v"
  then have b: "list_all plain_name base" "base \<in> set roots" using assms(5) by auto
  from select_root_ok [OF a(3) _ assms(2,3,4) b(1)] a(2)
  obtain rs where rs: "staging_ok f destination v" "source_files f base = Inr rs" "staged v = staged u @ rs" by blast
  moreover have "\<forall>(rel, source) \<in> set rs. source = base @ rel" using source_files_Inr(2) [OF rs(2) assms(3,2) b(1)] by blast
  ultimately show "staging_ok f destination v \<and> fst ` set (staged v) = (\<Union>base \<in> set (ys @ [base]). sources_of f base) \<and>
      (\<forall>(rel, source) \<in> set (staged v). \<exists>base \<in> set roots. source = base @ rel)"
    using a(2) b(2) source_files_set [OF rs(2)] by (auto simp: image_Un)
qed (simp add: staging_ok_def selection_ok_def)

lemma copy_source_put:
  assumes "copy_source destination g (rel, source) = Inr h" "no_links g" "list_all plain_name (destination @ rel)"
    "list_all plain_name source" "look g source = Some (NFile s m)"
  shows "put_file g (destination @ rel) s = Inr h"
proof -
  from assms(1) obtain g1 t where g1: "mkdir_p g (butlast (destination @ rel)) = Inr g1" "read_bytes g1 source = Inr t"
    "write_bytes g1 (destination @ rel) t = Inr h"
    by (auto simp: copy_source_def bindE_Inr_iff)
  have "mkdirs g [] (butlast (destination @ rel)) = Inr g1"
    using g1(1) assms(2) list_all_butlast [OF assms(3)] by (simp add: mkdir_p_plain)
  then have "look g1 source = Some (NFile s m)" using assms(5) by (simp add: mkdirs_look)
  then have "t = s" using g1(2) no_links_mkdir_p [OF assms(2) g1(1)] assms(4) by (simp add: read_bytes_plain)
  with g1 show ?thesis by (simp add: put_file_def)
qed

definition keeps :: "fs \<Rightarrow> fs \<Rightarrow> bool" where
  "keeps f g \<longleftrightarrow> no_links g \<and> (\<forall>q n. look f q = Some n \<longrightarrow> look g q = Some n)"

definition copied :: "fs \<Rightarrow> fs \<Rightarrow> path \<Rightarrow> path \<times> path \<Rightarrow> bool" where
  "copied f g destination rs = (\<exists>s m m'. look f (snd rs) = Some (NFile s m) \<and> look g (destination @ fst rs) = Some (NFile s m'))"

lemma copy_sources_ok:
  assumes "foldE (copy_source destination) f sel = Inr g" "selection_ok f destination sel" "no_links f" "list_all plain_name destination"
  shows "keeps f g \<and> list_all (copied f g destination) sel"
  using assms(1,2)
proof (induction sel arbitrary: g rule: rev_induct)
  case Nil
  then show ?case using assms(3) by (simp add: keeps_def)
next
  case (snoc x xs)
  obtain rel source where x: "x = (rel, source)" by (cases x)
  from snoc.prems(1) obtain h where h: "foldE (copy_source destination) f xs = Inr h" "copy_source destination h (rel, source) = Inr g"
    by (auto simp: foldE_append bindE_Inr_iff x)
  have "selection_ok f destination xs" using snoc.prems(2) by (auto simp: selection_ok_def)
  from snoc.IH [OF h(1) this] have ih: "keeps f h" "list_all (copied f h destination) xs" by auto
  from snoc.prems(2) obtain s m where r: "list_all plain_name rel" "rel \<noteq> []" "look f (destination @ rel) = None"
    "list_all plain_name source" "look f source = Some (NFile s m)" and d: "rel \<notin> fst ` set xs"
    by (auto simp: selection_ok_def x)
  have pl: "list_all plain_name (destination @ rel)" "destination @ rel \<noteq> []" using assms(4) r(1,2) by simp_all
  have nl: "no_links h" and ls: "look h source = Some (NFile s m)" using ih(1) r(5) by (auto simp: keeps_def)
  note put = put_file_plain [OF nl pl copy_source_put [OF h(2) nl pl(1) r(4) ls]]
  have keep: "look g q = Some n" if "look h q = Some n" "q \<noteq> destination @ rel" for q n
    using put(4) [OF that(2)] that(1) by simp
  have "keeps f g" using put(1) keep ih(1) r(3) unfolding keeps_def by (metis option.distinct(1))
  moreover have "copied f g destination y" if y: "y \<in> set xs" for y
  proof -
    have "copied f h destination y" using ih(2) y by (simp add: list_all_iff)
    moreover have "destination @ fst y \<noteq> destination @ rel" using d y by auto
    ultimately show ?thesis using keep unfolding copied_def by blast
  qed
  moreover have "copied f g destination x"
    using put(2) r(5) pl(1) put(1) by (auto simp: copied_def x read_bytes_plain)
  ultimately show ?case by (simp add: list_all_iff)
qed

text \<open>C26. Staging that succeeds copies exactly the production sources of the roots, each name once, to targets
  that did not exist, with the bytes the source had, and changes nothing that existed before: neither the
  sources nor anything already in the destination.\<close>

theorem staged_exactly:
  assumes "stage_sources f roots destination = Inr (names, g)" "no_links f" "plain_keys f"
    "list_all plain_name destination" "\<forall>base \<in> set roots. list_all plain_name base"
  shows "distinct names \<and> set names = (\<Union>base \<in> set roots. sources_of f base) \<and>
     (\<forall>q n. look f q = Some n \<longrightarrow> look g q = Some n) \<and>
     (\<forall>rel \<in> set names. look f (destination @ rel) = None \<and>
        (\<exists>base \<in> set roots. \<exists>s. read_bytes f (base @ rel) = Inr s \<and> read_bytes g (destination @ rel) = Inr s))"
proof -
  from assms(1) obtain st where st: "foldE (select_root f destination) \<lparr>staged = [], staged_dirs = []\<rparr> roots = Inr st"
    "foldE (copy_source destination) f (staged st) = Inr g" "names = map fst (staged st)"
    by (auto simp: stage_sources_def bindE_Inr_iff)
  from select_roots_ok [OF st(1) assms(2-5)] have sel: "selection_ok f destination (staged st)"
    "fst ` set (staged st) = (\<Union>base \<in> set roots. sources_of f base)"
    "\<forall>(rel, source) \<in> set (staged st). \<exists>base \<in> set roots. source = base @ rel"
    by (auto simp: staging_ok_def)
  from copy_sources_ok [OF st(2) sel(1) assms(2,4)] have c: "keeps f g" "list_all (copied f g destination) (staged st)" by auto
  have each: "look f (destination @ rel) = None \<and>
      (\<exists>base \<in> set roots. \<exists>s. read_bytes f (base @ rel) = Inr s \<and> read_bytes g (destination @ rel) = Inr s)" if rel: "rel \<in> set names" for rel
  proof -
    from rel obtain source where rs: "(rel, source) \<in> set (staged st)" by (auto simp: st(3))
    with sel(3) obtain base where base: "base \<in> set roots" "source = base @ rel" by blast
    from sel(1) rs have o1: "list_all plain_name rel" "look f (destination @ rel) = None" "list_all plain_name source"
      by (auto simp: selection_ok_def)
    from c(2) rs have "copied f g destination (rel, source)" by (auto simp: list_all_iff)
    then obtain s m m' where "look f source = Some (NFile s m)" "look g (destination @ rel) = Some (NFile s m')"
      by (auto simp: copied_def)
    then have "read_bytes f source = Inr s" "read_bytes g (destination @ rel) = Inr s"
      using o1 assms(2,4) c(1) by (auto simp: read_bytes_plain keeps_def)
    with base o1(2) show ?thesis by blast
  qed
  have "distinct names" "set names = (\<Union>base \<in> set roots. sources_of f base)"
    using sel(1,2) by (simp_all add: st(3) selection_ok_def)
  with each c(1) show ?thesis by (simp add: keeps_def)
qed

definition demo_roots :: fs where
  "demo_roots = [([''a''], NDir), ([''a'', ''x.trb''], NFile ''one'' 420), ([''a'', ''x_test.trb''], NFile ''t'' 420),
     ([''b''], NDir), ([''b'', ''lib''], NDir), ([''b'', ''lib'', ''y.trb''], NFile ''two'' 420)]"

lemma staged_exactly_witness:
  "\<exists>g. stage_sources demo_roots [[''a''], [''b'']] [''out''] = Inr ([[''x.trb''], [''lib'', ''y.trb'']], g) \<and>
     read_bytes g [''out'', ''x.trb''] = Inr ''one'' \<and> look g [''a'', ''x_test.trb''] = Some (NFile ''t'' 420)"
proof -
  have "case stage_sources demo_roots [[''a''], [''b'']] [''out''] of Inl e \<Rightarrow> False | Inr (names, g) \<Rightarrow>
      names = [[''x.trb''], [''lib'', ''y.trb'']] \<and> (\<forall>base \<in> set [[''b'']]. look demo_roots (base @ [''x.trb'']) = None)" by code_simp
  then obtain g where g: "stage_sources demo_roots [[''a''], [''b'']] [''out''] = Inr ([[''x.trb''], [''lib'', ''y.trb'']], g)"
    by (auto split: sum.splits)
  have "no_links demo_roots" by (rule no_links_list) (simp add: demo_roots_def not_link_def)
  moreover have "plain_keys demo_roots" by (simp add: plain_keys_def demo_roots_def plain_name_def)
  moreover have pl: "list_all plain_name [''out'']" "list_all plain_name [''a'']" "list_all plain_name [''b'']" by (simp_all add: plain_name_def)
  ultimately have s: "(\<forall>q n. look demo_roots q = Some n \<longrightarrow> look g q = Some n) \<and>
      (\<exists>base \<in> set [[''a''], [''b'']]. \<exists>s. read_bytes demo_roots (base @ [''x.trb'']) = Inr s \<and> read_bytes g [''out'', ''x.trb''] = Inr s)"
    using staged_exactly [OF g] by auto
  have "read_bytes demo_roots [''a'', ''x.trb''] = Inr ''one''" "read_bytes demo_roots [''b'', ''x.trb''] \<noteq> Inr s" for s
    by code_simp+
  moreover have "look demo_roots [''a'', ''x_test.trb''] = Some (NFile ''t'' 420)" by code_simp
  ultimately show ?thesis using s g by auto
qed

end
