(* ===== verification/NetworkArtifacts.thy ===== *)
theory NetworkArtifacts
  imports Codec PyProc
begin

text \<open>
  \<open>tools/network_artifacts.py\<close>: the dependency artifacts of a family, their embedded build identity,
  verification of an installed directory, packing, and installation through a staging
  directory. SHA-256, the gzip and tar formats, the decimal form of floats and the name of the
  temporary directory are parameters; \<open>tools\<close> is the directory of the script.
\<close>

record formats =
  art_sha256 :: "string \<Rightarrow> string"
  art_frepr :: "rat \<Rightarrow> string"
  art_tar_gz :: "(string \<times> string) list \<Rightarrow> string"
  art_gunzip :: "string \<Rightarrow> string res"
  art_members :: "string \<Rightarrow> (string \<times> bool \<times> string) list res"
  art_temporary :: path

section \<open>Families and targets\<close>

definition ARTIFACT_TARGETS :: "string list" where
  "ARTIFACT_TARGETS = [''darwin-arm64'', ''darwin-amd64'', ''linux-arm64'', ''linux-amd64'']"

definition MAX_BYTES :: nat where "MAX_BYTES = 128 * 1024 * 1024"

definition IDENTITY_LIMIT :: nat where "IDENTITY_LIMIT = 65536"

record art_spec =
  spec_pins :: string
  spec_files :: "string list"
  spec_marker :: string
  spec_libraries :: "string list"

definition artifact_spec :: "string \<Rightarrow> art_spec res" where
  "artifact_spec family =
     (if family = ''oidc'' then Inr \<lparr>spec_pins = ''oidc-dependencies.json'',
        spec_files = [''libcurl.a'', ''libssl.a'', ''libz.a'', ''oidc-identity.o'', ''curl-LICENSE'', ''zlib-LICENSE'', ''openssl-LICENSE''],
        spec_marker = ''TRBN-OIDC-V1'' @ [NUL], spec_libraries = [''libcurl'', ''libssl'', ''libz'']\<rparr>
      else if family = ''crypto'' then Inr \<lparr>spec_pins = ''crypto-dependencies.json'',
        spec_files = [''libcrypto.a'', ''crypto-identity.o'', ''openssl-LICENSE''],
        spec_marker = ''TRBN-CRYPTO-V1'' @ [NUL], spec_libraries = [''libcrypto'']\<rparr>
      else if family = ''network'' then Inr \<lparr>spec_pins = ''network-dependencies.json'',
        spec_files = [''libuv.a'', ''libllhttp.a'', ''network-identity.o'', ''libuv-LICENSE'', ''llhttp-LICENSE''],
        spec_marker = ''TRBN-NETWORK-V1'' @ [NUL], spec_libraries = [''libuv'', ''libllhttp'']\<rparr>
      else if family = ''compression'' then Inr \<lparr>spec_pins = ''compression-dependencies.json'',
        spec_files = [''libdeflate.a'', ''compression-identity.o'', ''libdeflate-LICENSE''],
        spec_marker = ''TRBN-COMPRESSION-V1'' @ [NUL], spec_libraries = [''libdeflate'']\<rparr>
      else Inl (ValueError ''unknown dependency family''))"

definition name_or_unknown :: "(string \<times> string) list \<Rightarrow> string \<Rightarrow> string" where
  "name_or_unknown table k = (case map_of table k of None \<Rightarrow> ''unknown'' | Some v \<Rightarrow> v)"

definition target_name :: "string \<Rightarrow> string \<Rightarrow> string res" where
  "target_name system machine =
     (let target = name_or_unknown [(''Darwin'', ''darwin''), (''Linux'', ''linux'')] system @ ''-'' @
            name_or_unknown [(''arm64'', ''arm64''), (''aarch64'', ''arm64''), (''x86_64'', ''amd64'')] machine in
      if target \<notin> set ARTIFACT_TARGETS then Inl (ValueError ''unsupported network artifact host'') else Inr target)"

section \<open>The embedded identity\<close>

definition IDENTITY_KEYS :: "string list" where
  "IDENTITY_KEYS = [''schema'', ''target'', ''linkage'', ''pins'', ''libraries'', ''configuration'', ''cc'', ''cmake'',
     ''builder_sha256'', ''artifact_tool_sha256'']"

definition art_identity :: "json \<Rightarrow> json res" where
  "art_identity receipt = bindE (mapE (\<lambda>k. bindE (item receipt k) (\<lambda>v. Inr (k, v))) IDENTITY_KEYS) (\<lambda>kvs. Inr (JDict kvs))"

fun chunks :: "nat \<Rightarrow> 'a list \<Rightarrow> 'a list list" where
  "chunks n xs = (if n = 0 \<or> xs = [] then [] else take n xs # chunks n (drop n xs))"

declare chunks.simps [simp del]

definition byte_line :: "string \<Rightarrow> string" where
  "byte_line bs = ''.byte '' @ join '','' (map (\<lambda>c. show_nat (of_char c)) bs)"

definition platform_lines :: "bool \<Rightarrow> string \<Rightarrow> string list" where
  "platform_lines darwin family = (if family = ''network'' \<or> family = ''oidc'' then
     (let platform_symbol = (if darwin then ''_'' else []) @ ''trbn_'' @ family @ ''_darwin'' in
      [''.p2align 3'', ''.globl '' @ platform_symbol, platform_symbol @ '':'', ''.quad '' @ (if darwin then ''1'' else ''0'')]) else [])"

definition assembly_lines :: "bool \<Rightarrow> string \<Rightarrow> string \<Rightarrow> string list" where
  "assembly_lines darwin family payload =
     (let symbol = (if darwin then ''_'' else []) @ ''trbn_'' @ family @ ''_build_identity'' in
      [if darwin then ''.section __TEXT,__const'' else ''.section .rodata'', ''.globl '' @ symbol, symbol @ '':''] @
      map byte_line (chunks 64 payload) @ platform_lines darwin family @
      (if darwin then [] else [''.section .note.GNU-stack,'' @ [DQ, DQ] @ '',@progbits'']))"

definition startswith_value :: "json \<Rightarrow> string \<Rightarrow> bool res" where
  "startswith_value v p = (case v of JStr s \<Rightarrow> Inr (startswith s p) | _ \<Rightarrow> Inl AttributeError)"

definition embed_identity :: "formats \<Rightarrow> fs \<Rightarrow> json \<Rightarrow> path \<Rightarrow> string \<Rightarrow> fs res" where
  "embed_identity fm f receipt assembly family =
     bindE (artifact_spec family) (\<lambda>spec. bindE (art_identity receipt) (\<lambda>i. bindE (dumps (art_frepr fm) canonical_opts i) (\<lambda>body.
     bindE (bindE (item receipt ''target'') (\<lambda>t. startswith_value t ''darwin-'')) (\<lambda>darwin.
     write_bytes f assembly (join [NL] (assembly_lines darwin family (spec_marker spec @ body @ [NUL])) @ [NL])))))"

text \<open>The identity found in a binary: one marker, the text up to the next zero byte.\<close>

definition embedded_text :: "string \<Rightarrow> string \<Rightarrow> string res" where
  "embedded_text marker data = (if count_str marker data \<noteq> 1 then Inl (ValueError ''expected one embedded dependency identity'')
     else (let raw = before_str [NUL] (after_str marker data) in
       if IDENTITY_LIMIT < length raw then Inl (ValueError ''oversized dependency identity'') else Inr raw))"

definition art_inspect :: "fs \<Rightarrow> path \<Rightarrow> path \<Rightarrow> string \<Rightarrow> json res" where
  "art_inspect f tools p family =
     bindE (artifact_spec family) (\<lambda>spec. bindE (file_size f p) (\<lambda>n.
     if MAX_BYTES < n then Inl (ValueError ''oversized executable'') else
     bindE (read_bytes f p) (\<lambda>data. bindE (embedded_text (spec_marker spec) data) (\<lambda>raw. bindE (loads raw) (\<lambda>v.
     bindE (bindE (read_bytes f (tools @ [spec_pins spec])) loads) (\<lambda>pins.
     raise_if (orE (bindE (get v ''pins'') (\<lambda>p. Inr (\<not> jeq p pins))) (bindE (get v ''target'') (\<lambda>t. notE (in_setE t ARTIFACT_TARGETS))))
       (ValueError ''embedded dependency pins or target differ'') (Inr v)))))))"

section \<open>Verifying an installed directory\<close>

definition receipt_name :: "string \<Rightarrow> string" where
  "receipt_name family = family @ ''-build.json''"

definition read_receipt :: "fs \<Rightarrow> path \<Rightarrow> string \<Rightarrow> json res" where
  "read_receipt f directory family = bindE (read_bytes f (directory @ [receipt_name family])) loads"

definition member_is :: "json \<Rightarrow> string \<Rightarrow> json \<Rightarrow> bool res" where
  "member_is v k x = bindE (get v k) (\<lambda>y. Inr (jeq y x))"

definition directory_names :: "fs \<Rightarrow> path \<Rightarrow> string list res" where
  "directory_names f d = (if is_dir f d then Inr (iterdir f d) else Inl (OSError (path_name d)))"

definition check_art_file :: "formats \<Rightarrow> fs \<Rightarrow> path \<Rightarrow> nat \<Rightarrow> string \<times> json \<Rightarrow> nat res" where
  "check_art_file fm f directory used ne = (let (name, entry) = ne; p = directory @ [name] in
     if is_symlink f p \<or> \<not> is_file f p then Inl (ValueError (''dependency must be an ordinary file: '' @ name)) else
     bindE (read_bytes f p) (\<lambda>s.
     raise_if (orE (Inr (MAX_BYTES < used + length s)) (bindE (item entry ''bytes'') (\<lambda>b. Inr (\<not> jeq (JInt (int (length s))) b))))
       (ValueError (''dependency size differs: '' @ name)) (
     raise_if (bindE (item entry ''sha256'') (\<lambda>h. Inr (\<not> jeq (JStr (art_sha256 fm s)) h))) (ValueError (''dependency checksum differs: '' @ name))
       (Inr (used + length s)))))"

definition check_library :: "json \<Rightarrow> string \<Rightarrow> unit res" where
  "check_library receipt library =
     raise_if (bindE (bindE (item receipt ''libraries'') (\<lambda>l. item l library)) (\<lambda>a.
         bindE (bindE (bindE (item receipt ''files'') (\<lambda>l. item l (library @ ''.a''))) (\<lambda>e. item e ''sha256'')) (\<lambda>b. Inr (\<not> jeq a b))))
       (ValueError ''archive identity differs'') (Inr ())"

definition check_receipt :: "fs \<Rightarrow> path \<Rightarrow> path \<Rightarrow> art_spec \<Rightarrow> json \<Rightarrow> string \<Rightarrow> json \<Rightarrow> unit res" where
  "check_receipt f tools directory spec target family receipt =
     raise_if (notE (andE (member_is receipt ''schema'' (JInt 2)) (andE (member_is receipt ''linkage'' (JStr ''static''))
         (member_is receipt ''target'' target)))) (ValueError ''dependency schema, linkage or target differs'') (
     bindE (get receipt ''pins'') (\<lambda>p. bindE (bindE (read_bytes f (tools @ [spec_pins spec])) loads) (\<lambda>pins.
     if \<not> jeq p pins then Inl (ValueError ''dependency source pins differ'') else
     bindE (getd receipt ''files'' (JDict [])) (\<lambda>files.
     raise_if (notE (keys_are files (spec_files spec))) (ValueError ''dependency file inventory differs'') (
     bindE (directory_names f directory) (\<lambda>names.
     if set names \<noteq> set (receipt_name family # spec_files spec) then Inl (ValueError ''unexpected dependency installation files'')
     else Inr ()))))))"

definition art_verify :: "formats \<Rightarrow> fs \<Rightarrow> path \<Rightarrow> path \<Rightarrow> json \<Rightarrow> string \<Rightarrow> json res" where
  "art_verify fm f tools directory target family =
     bindE (artifact_spec family) (\<lambda>spec. bindE (read_receipt f directory family) (\<lambda>receipt.
     bindE (check_receipt f tools directory spec target family receipt) (\<lambda>_.
     bindE (bindE (item receipt ''files'') itemsE) (\<lambda>entries.
     bindE (foldE (check_art_file fm f directory) 0 entries) (\<lambda>_.
     bindE (art_inspect f tools (directory @ [family @ ''-identity.o'']) family) (\<lambda>v. bindE (art_identity receipt) (\<lambda>i.
     if \<not> jeq v i then Inl (ValueError ''embedded dependency build differs'') else
     bindE (forE (check_library receipt) (spec_libraries spec)) (\<lambda>_. Inr receipt))))))))"

section \<open>Packing and installing\<close>

definition art_pack :: "formats \<Rightarrow> fs \<Rightarrow> path \<Rightarrow> path \<Rightarrow> path \<Rightarrow> string \<Rightarrow> (string \<times> fs) res" where
  "art_pack fm f tools directory output family =
     bindE (artifact_spec family) (\<lambda>spec. bindE (read_receipt f directory family) (\<lambda>receipt.
     bindE (item receipt ''target'') (\<lambda>t. bindE (art_verify fm f tools directory t family) (\<lambda>_.
     bindE (mapE (\<lambda>name. bindE (read_bytes f (directory @ [name])) (\<lambda>s. Inr (name, s))) (sort (receipt_name family # spec_files spec))) (\<lambda>members.
     bindE (write_bytes f output (art_tar_gz fm members)) (\<lambda>f1.
     (let digest = art_sha256 fm (art_tar_gz fm members) in
     bindE (write_bytes f1 (butlast output @ [path_name output @ ''.sha256'']) (digest @ ''  '' @ path_name output @ [NL])) (\<lambda>f2.
     Inr (digest, f2)))))))))"

text \<open>The expansion reads at most one byte past the limit; each round reads a chunk.\<close>

definition CHUNK :: nat where "CHUNK = 1024 * 1024"

function (sequential) expand :: "nat \<Rightarrow> string \<Rightarrow> string res" where
  "expand used s = (let chunk = take (min CHUNK (MAX_BYTES - used + 1)) s in
     if chunk = [] then Inr []
     else if MAX_BYTES < used + length chunk then Inl (ValueError ''oversized expanded artifact'')
     else bindE (expand (used + length chunk) (drop (length chunk) s)) (\<lambda>t. Inr (chunk @ t)))"
  by pat_completeness auto
termination
  by (relation "measure (\<lambda>(used, s). length s)") auto

declare expand.simps [simp del]

definition check_entry :: "art_spec \<Rightarrow> string \<Rightarrow> string list \<times> nat \<Rightarrow> string \<times> bool \<times> string \<Rightarrow> (string list \<times> nat) res" where
  "check_entry spec family st m = (let (names, used) = st; (name, regular, data) = m in
     if \<not> regular \<or> name \<notin> set (receipt_name family # spec_files spec) \<or> name \<in> set names
     then Inl (ValueError ''unsafe or duplicate artifact entry'')
     else if MAX_BYTES < used + length data then Inl (ValueError ''oversized artifact contents'')
     else Inr (names @ [name], used + length data))"

definition check_entries :: "art_spec \<Rightarrow> string \<Rightarrow> (string \<times> bool \<times> string) list \<Rightarrow> unit res" where
  "check_entries spec family members = bindE (foldE (check_entry spec family) ([], 0) members) (\<lambda>(names, used).
     if set names \<noteq> set (receipt_name family # spec_files spec) then Inl (ValueError ''incomplete artifact'') else Inr ())"

definition unpack_member :: "path \<Rightarrow> fs \<Rightarrow> string \<times> bool \<times> string \<Rightarrow> fs res" where
  "unpack_member staging f m = write_bytes f (staging @ [fst m]) (snd (snd m))"

text \<open>\<open>p.rename(q)\<close> of a directory to a name that is free.\<close>

definition rename_dir :: "fs \<Rightarrow> path \<Rightarrow> path \<Rightarrow> fs res" where
  "rename_dir f p q = (if \<not> is_dir f p \<or> path_exists f q \<or> is_symlink f q \<or> \<not> is_dir f (butlast q) then Inl (OSError (path_name p))
     else Inr (map (\<lambda>(r, n). if prefix p r then (q @ drop (length p) r, n) else (r, n)) f))"

text \<open>What happens inside the temporary directory, up to the renaming that publishes.\<close>

definition stage_artifact :: "formats \<Rightarrow> fs \<Rightarrow> path \<Rightarrow> string \<Rightarrow> string \<Rightarrow> string \<Rightarrow> art_spec \<Rightarrow> (fs \<times> json) res" where
  "stage_artifact fm f tools packed target family spec =
     (let staging = art_temporary fm @ [family] in
     bindE (mkdir_new f (art_temporary fm)) (\<lambda>f1. bindE (mkdir_new f1 staging) (\<lambda>f2.
     bindE (bindE (art_gunzip fm packed) (expand 0)) (\<lambda>unpacked.
     bindE (write_bytes f2 (art_temporary fm @ [''contents.tar'']) unpacked) (\<lambda>f3.
     bindE (art_members fm unpacked) (\<lambda>members. bindE (check_entries spec family members) (\<lambda>_.
     bindE (foldE (unpack_member staging) f3 members) (\<lambda>f4.
     bindE (art_verify fm f4 tools staging (JStr target) family) (\<lambda>receipt. Inr (f4, receipt))))))))))"

definition art_install :: "formats \<Rightarrow> fs \<Rightarrow> path \<Rightarrow> path \<Rightarrow> path \<Rightarrow> string \<Rightarrow> string \<Rightarrow> string \<Rightarrow> fs res" where
  "art_install fm f tools archive output digest target family =
     bindE (artifact_spec family) (\<lambda>spec.
     if path_exists f output then Inl (ValueError ''installation destination already exists'') else
     bindE (read_bytes f archive) (\<lambda>packed.
     if MAX_BYTES < length packed \<or> art_sha256 fm packed \<noteq> digest then Inl (ValueError ''artifact checksum or size differs'') else
     bindE (mkdir_p f (butlast output)) (\<lambda>f1.
     bindE (stage_artifact fm f1 tools packed target family spec) (\<lambda>(f2, receipt).
     bindE (rename_dir f2 (art_temporary fm @ [family]) output) (\<lambda>f3. Inr (remove_tree f3 (art_temporary fm)))))))"

datatype art_command =
    ArtVerify path string
  | ArtPack path path
  | ArtInstall path path string string
  | ArtInspect path

definition print_json :: "formats \<Rightarrow> json \<Rightarrow> string res" where
  "print_json fm v = bindE (dumps (art_frepr fm) pretty_opts v) (\<lambda>s. Inr (s @ [NL]))"

definition art_main :: "formats \<Rightarrow> fs \<Rightarrow> path \<Rightarrow> string \<Rightarrow> art_command \<Rightarrow> (string \<times> fs) res" where
  "art_main fm f tools family c = (case c of
      ArtVerify directory target \<Rightarrow> bindE (bindE (art_verify fm f tools directory (JStr target) family) (print_json fm)) (\<lambda>s. Inr (s, f))
    | ArtPack directory output \<Rightarrow> bindE (art_pack fm f tools directory output family) (\<lambda>(digest, g). Inr (digest @ [NL], g))
    | ArtInstall archive output digest target \<Rightarrow>
        bindE (art_install fm f tools archive output digest target family) (\<lambda>g. Inr (CHR ''/'' # posix output @ [NL], g))
    | ArtInspect executable \<Rightarrow> bindE (bindE (art_inspect f tools executable family) (print_json fm)) (\<lambda>s. Inr (s, f)))"

section \<open>What verification establishes\<close>

lemma expand_step:
  "expand used s = (let c = take (min CHUNK (MAX_BYTES - used + 1)) s in
     if c = [] then Inr [] else if MAX_BYTES < used + length c then Inl (ValueError ''oversized expanded artifact'')
     else bindE (expand (used + length c) (drop (length c) s)) (\<lambda>t. Inr (c @ t)))"
  by (rule expand.simps)

lemma expand_bound:
  "used \<le> MAX_BYTES \<Longrightarrow> expand used s = (if used + length s \<le> MAX_BYTES then Inr s else Inl (ValueError ''oversized expanded artifact''))"
proof (induction "length s" arbitrary: used s rule: less_induct)
  case less
  define k where "k = min CHUNK (MAX_BYTES - used + 1)"
  define c where "c = take k s"
  define t where "t = drop (length c) s"
  have k: "0 < k" by (simp add: k_def CHUNK_def)
  have s: "s = c @ t" by (cases "k \<le> length s") (simp_all add: c_def t_def min_def)
  have e: "expand used s = (if c = [] then Inr [] else if MAX_BYTES < used + length c then Inl (ValueError ''oversized expanded artifact'')
     else bindE (expand (used + length c) t) (\<lambda>t. Inr (c @ t)))"
    by (subst expand_step) (simp only: Let_def c_def t_def k_def)
  show ?case
  proof (cases "c = []")
    case True
    then have "s = []" using k by (auto simp: c_def)
    then show ?thesis using e True less.prems by simp
  next
    case False
    show ?thesis
    proof (cases "MAX_BYTES < used + length c")
      case True
      then show ?thesis using e False by (simp add: s)
    next
      case le: False
      have "length t < length s" using False by (simp add: s)
      from less.hyps [OF this, of "used + length c"] le show ?thesis using e False by (simp add: s)
    qed
  qed
qed

text \<open>Evaluation compares sizes as integers and expands at once.\<close>

lemma MAX_BYTES_less [code_unfold]: "MAX_BYTES < n \<longleftrightarrow> 134217728 < int n"
  by (simp add: MAX_BYTES_def)

lemma identity_limit [code_unfold]: "IDENTITY_LIMIT < n \<longleftrightarrow> 65536 < int n"
  by (simp add: IDENTITY_LIMIT_def)

lemma expand_eq [code]:
  "expand used s = (if s = [] then Inr [] else if MAX_BYTES < used + length s then Inl (ValueError ''oversized expanded artifact'') else Inr s)"
proof (cases "used \<le> MAX_BYTES")
  case True
  then show ?thesis by (auto simp: expand_bound)
next
  case False
  then show ?thesis by (subst expand_step) (auto simp: Let_def CHUNK_def take_Cons')
qed

text \<open>One verified file: its recorded size and digest.\<close>

definition file_verified :: "formats \<Rightarrow> fs \<Rightarrow> path \<Rightarrow> string \<times> json \<Rightarrow> bool" where
  "file_verified fm f directory ne = (\<exists>s b. \<not> is_symlink f (directory @ [fst ne]) \<and> is_file f (directory @ [fst ne]) \<and>
     read_bytes f (directory @ [fst ne]) = Inr s \<and>
     item (snd ne) ''bytes'' = Inr b \<and> jeq (JInt (int (length s))) b \<and> item (snd ne) ''sha256'' = Inr (JStr (art_sha256 fm s)))"

definition size_of :: "fs \<Rightarrow> path \<Rightarrow> string \<Rightarrow> nat" where
  "size_of f directory name = (case read_bytes f (directory @ [name]) of Inr s \<Rightarrow> length s | Inl e \<Rightarrow> 0)"

lemma check_art_file_iff:
  "check_art_file fm f directory used ne = Inr n \<longleftrightarrow> file_verified fm f directory ne \<and>
     n = used + size_of f directory (fst ne) \<and> n \<le> MAX_BYTES"
proof -
  obtain name entry where ne: "ne = (name, entry)" by (cases ne)
  have "jeq (JStr s) h \<longleftrightarrow> h = JStr s" for s h by (cases h) auto
  then show ?thesis
    by (cases "read_bytes f (directory @ [name])")
      (auto simp: check_art_file_def ne file_verified_def size_of_def res_simps Let_def not_less simp del: jeq.simps item.simps)
qed

lemma check_art_files_iff:
  "foldE (check_art_file fm f directory) used entries = Inr n \<longleftrightarrow> list_all (file_verified fm f directory) entries \<and>
     n = used + (\<Sum>ne\<leftarrow>entries. size_of f directory (fst ne)) \<and> (entries = [] \<or> n \<le> MAX_BYTES)"
proof (induction entries arbitrary: used)
  case (Cons ne entries)
  show ?case
    by (auto simp: bindE_Inr_iff check_art_file_iff Cons.IH)
qed auto

lemma check_library_iff:
  "check_library receipt library = Inr u \<longleftrightarrow> (\<exists>l a files e b. item receipt ''libraries'' = Inr l \<and> item l library = Inr a \<and>
     item receipt ''files'' = Inr files \<and> item files (library @ ''.a'') = Inr e \<and> item e ''sha256'' = Inr b \<and> jeq a b)"
  by (auto simp: check_library_def raise_if_iff bindE_Inr_iff simp del: item.simps jeq.simps)

text \<open>The facts of a receipt that do not depend on the directory, and the pins file.\<close>

definition receipt_valid :: "art_spec \<Rightarrow> json \<Rightarrow> json \<Rightarrow> json \<Rightarrow> bool" where
  "receipt_valid spec target pins receipt \<longleftrightarrow>
     (\<exists>p files. member_is receipt ''schema'' (JInt 2) = Inr True \<and> member_is receipt ''linkage'' (JStr ''static'') = Inr True \<and>
       member_is receipt ''target'' target = Inr True \<and> get receipt ''pins'' = Inr p \<and> jeq p pins \<and>
       getd receipt ''files'' (JDict []) = Inr files \<and> keys_are files (spec_files spec) = Inr True)"

lemma check_receipt_iff:
  "check_receipt f tools directory spec target family receipt = Inr u \<longleftrightarrow>
     (\<exists>pins names. bindE (read_bytes f (tools @ [spec_pins spec])) loads = Inr pins \<and> receipt_valid spec target pins receipt \<and>
       directory_names f directory = Inr names \<and> set names = set (receipt_name family # spec_files spec))"
  by (auto simp: check_receipt_def receipt_valid_def raise_if_iff notE_iff andE_iff bindE_Inr_iff simp del: jeq.simps)

lemma art_verify_iff:
  "art_verify fm f tools directory target family = Inr receipt \<longleftrightarrow>
     (\<exists>spec pins names files v i. artifact_spec family = Inr spec \<and> read_receipt f directory family = Inr receipt \<and>
       bindE (read_bytes f (tools @ [spec_pins spec])) loads = Inr pins \<and> receipt_valid spec target pins receipt \<and>
       directory_names f directory = Inr names \<and> set names = set (receipt_name family # spec_files spec) \<and>
       item receipt ''files'' = Inr (JDict files) \<and> list_all (file_verified fm f directory) files \<and>
       (\<Sum>ne\<leftarrow>files. size_of f directory (fst ne)) \<le> MAX_BYTES \<and>
       art_inspect f tools (directory @ [family @ ''-identity.o'']) family = Inr v \<and> art_identity receipt = Inr i \<and> jeq v i \<and>
       (\<forall>l \<in> set (spec_libraries spec). check_library receipt l = Inr ()))"
proof -
  have "(files = [] \<or> n \<le> MAX_BYTES) \<longleftrightarrow> n \<le> MAX_BYTES" if "n = (\<Sum>ne\<leftarrow>files. size_of f directory (fst ne))" for files n
    using that by auto
  then show ?thesis
    unfolding art_verify_def bindE_Inr_iff check_receipt_iff check_art_files_iff forE_iff if_Inr_iff itemsE_iff
    by auto
qed

lemma spec_names:
  assumes "artifact_spec family = Inr spec"
  shows "list_all plain_name (receipt_name family # spec_files spec)" "family @ ''-identity.o'' \<in> set (spec_files spec)"
    "plain_name (spec_pins spec)" "plain_name family" "\<forall>l \<in> set (spec_libraries spec). l @ ''.a'' \<in> set (spec_files spec)"
  using assms by (auto simp: artifact_spec_def plain_name_def receipt_name_def split: if_splits)

lemma receipt_files:
  assumes "receipt_valid spec target pins receipt" "item receipt ''files'' = Inr (JDict files)"
  shows "fst ` set files = set (spec_files spec)"
proof -
  from assms obtain kvs where "receipt = JDict kvs" "map_of kvs ''files'' = Some (JDict files)" by (auto simp: item_iff)
  with assms(1) have "keys_are (JDict files) (spec_files spec) = Inr True" by (auto simp: receipt_valid_def)
  then show ?thesis by simp
qed

text \<open>C28. A directory that verifies holds exactly the receipt and the files of the family; each of them is an
  ordinary file with the size and the SHA-256 the receipt records, together within the size
  limit, every archive is the one the receipt names as a library, and the identity embedded in
  the object file is the receipt's.\<close>

theorem verified_directory_exact:
  assumes "art_verify fm f tools directory target family = Inr receipt"
  shows "\<exists>spec names files v i. artifact_spec family = Inr spec \<and> read_receipt f directory family = Inr receipt \<and>
     directory_names f directory = Inr names \<and> set names = set (receipt_name family # spec_files spec) \<and>
     item receipt ''files'' = Inr (JDict files) \<and> fst ` set files = set (spec_files spec) \<and>
     list_all (file_verified fm f directory) files \<and> (\<Sum>ne\<leftarrow>files. size_of f directory (fst ne)) \<le> MAX_BYTES \<and>
     (\<forall>l \<in> set (spec_libraries spec). \<exists>ls s a. read_bytes f (directory @ [l @ ''.a'']) = Inr s \<and>
        item receipt ''libraries'' = Inr ls \<and> item ls l = Inr (JStr (art_sha256 fm s))) \<and>
     art_inspect f tools (directory @ [family @ ''-identity.o'']) family = Inr v \<and> art_identity receipt = Inr i \<and> jeq v i"
proof -
  from assms obtain spec pins names files v i where v: "artifact_spec family = Inr spec" "read_receipt f directory family = Inr receipt"
      "receipt_valid spec target pins receipt" "directory_names f directory = Inr names" "set names = set (receipt_name family # spec_files spec)"
      "item receipt ''files'' = Inr (JDict files)" "list_all (file_verified fm f directory) files"
      "(\<Sum>ne\<leftarrow>files. size_of f directory (fst ne)) \<le> MAX_BYTES"
      "art_inspect f tools (directory @ [family @ ''-identity.o'']) family = Inr v" "art_identity receipt = Inr i" "jeq v i"
      "\<forall>l \<in> set (spec_libraries spec). check_library receipt l = Inr ()"
    unfolding art_verify_iff by blast
  have "\<exists>ls s a. read_bytes f (directory @ [l @ ''.a'']) = Inr s \<and> item receipt ''libraries'' = Inr ls \<and> item ls l = Inr (JStr (art_sha256 fm s))"
    if l: "l \<in> set (spec_libraries spec)" for l
  proof -
    have "check_library receipt l = Inr ()" using v(12) l by blast
    then obtain ls a e b where c: "item receipt ''libraries'' = Inr ls" "item ls l = Inr a" "item (JDict files) (l @ ''.a'') = Inr e"
      "item e ''sha256'' = Inr b" "jeq a b"
      unfolding check_library_iff v(6) by auto
    have "(l @ ''.a'', e) \<in> set files" using c(3) unfolding item_iff by (auto dest: map_of_SomeD)
    with v(7) have "file_verified fm f directory (l @ ''.a'', e)" by (auto simp: list_all_iff)
    then obtain s where "read_bytes f (directory @ [l @ ''.a'']) = Inr s" "item e ''sha256'' = Inr (JStr (art_sha256 fm s))"
      by (auto simp: file_verified_def)
    moreover from this(2) c(4,5) have "a = JStr (art_sha256 fm s)" by simp
    ultimately show ?thesis using c(1,2) by blast
  qed
  with v receipt_files [OF v(3,6)] show ?thesis by blast
qed

section \<open>What installation publishes\<close>

lemma iterdir_plain:
  assumes "no_links f" "list_all plain_name d"
  shows "c \<in> set (iterdir f d) \<longleftrightarrow> look f (d @ [c]) \<noteq> None"
proof -
  have "c \<in> set (iterdir f d) \<longleftrightarrow> d @ [c] \<in> fst ` set f"
  proof
    assume "c \<in> set (iterdir f d)"
    then obtain q0 where q0: "q0 \<in> set (rglob f d)" "length q0 = 1" "c = path_name q0" by (auto simp: iterdir_def)
    then obtain q where q: "q \<in> fst ` set f" "strict_prefix d q" "q0 = drop (length d) q"
      unfolding set_rglob_plain [OF assms] by blast
    then obtain r where r: "q = d @ r" by (auto simp: strict_prefix_def prefix_def)
    with q(3) q0(2) obtain e where "r = [e]" by (auto simp: length_Suc_conv)
    with q q0(3) r show "d @ [c] \<in> fst ` set f" by (simp add: path_name_def)
  next
    assume k: "d @ [c] \<in> fst ` set f"
    have "[c] \<in> set (rglob f d)"
      unfolding set_rglob_plain [OF assms] using k by (intro image_eqI [where x = "d @ [c]"]) (simp_all add: strict_prefix_def)
    then have "[c] \<in> set (filter (\<lambda>q. length q = 1) (rglob f d))" by simp
    then show "c \<in> set (iterdir f d)" unfolding iterdir_def by (force simp: path_name_def)
  qed
  also have "\<dots> \<longleftrightarrow> look f (d @ [c]) \<noteq> None" by (simp add: look_def map_of_eq_None_iff)
  finally show ?thesis .
qed

text \<open>Verification reads the directory and the pins only, so it carries over to equal contents elsewhere.\<close>

lemma art_verify_transport:
  assumes "art_verify fm f tools d target family = Inr receipt" "no_links f" "no_links g" "list_all plain_name d" "list_all plain_name e"
    "\<And>t. look f (d @ t) = look g (e @ t)" "\<And>x. plain_name x \<Longrightarrow> read_bytes f (tools @ [x]) = read_bytes g (tools @ [x])"
  shows "art_verify fm g tools e target family = Inr receipt"
proof -
  from assms(1) obtain spec pins names files v i where v: "artifact_spec family = Inr spec" "read_receipt f d family = Inr receipt"
      "bindE (read_bytes f (tools @ [spec_pins spec])) loads = Inr pins"
      "receipt_valid spec target pins receipt" "directory_names f d = Inr names" "set names = set (receipt_name family # spec_files spec)"
      "item receipt ''files'' = Inr (JDict files)" "list_all (file_verified fm f d) files"
      "(\<Sum>ne\<leftarrow>files. size_of f d (fst ne)) \<le> MAX_BYTES"
      "art_inspect f tools (d @ [family @ ''-identity.o'']) family = Inr v" "art_identity receipt = Inr i" "jeq v i"
      "\<forall>l \<in> set (spec_libraries spec). check_library receipt l = Inr ()"
    unfolding art_verify_iff by blast
  note sp = spec_names [OF v(1)]
  have pl: "list_all plain_name (d @ [n])" "list_all plain_name (e @ [n])" if "n \<in> set (receipt_name family # spec_files spec)" for n
    using sp(1) that assms(4,5) by (auto simp: list_all_iff)
  have rd: "read_bytes f (d @ [n]) = read_bytes g (e @ [n])" if "n \<in> set (receipt_name family # spec_files spec)" for n
    using pl [OF that] assms(2,3) assms(6) [of "[n]"]
    by (auto simp: read_bytes_def stat_plain path_name_def split: option.splits node.splits)
  have "read_receipt g e family = Inr receipt" using v(2) rd by (simp add: read_receipt_def)
  moreover have "bindE (read_bytes g (tools @ [spec_pins spec])) loads = Inr pins" using v(3) assms(7) [OF sp(3)] by simp
  moreover have "directory_names g e = Inr (iterdir g e)" "set (iterdir g e) = set names"
  proof -
    have "names = iterdir f d" "is_dir f d" using v(5) by (auto simp: directory_names_def split: if_splits)
    then show "set (iterdir g e) = set names" "directory_names g e = Inr (iterdir g e)"
      using assms(2-5) assms(6) assms(6) [of "[]"] by (auto simp: iterdir_plain directory_names_def is_dir_def stat_plain)
  qed
  moreover have fv: "file_verified fm g e ne \<and> size_of g e (fst ne) = size_of f d (fst ne)" if ne: "ne \<in> set files" for ne
  proof -
    have n: "fst ne \<in> set (receipt_name family # spec_files spec)" using ne receipt_files [OF v(4,7)] by auto
    have "is_file f (d @ [fst ne]) = is_file g (e @ [fst ne])"
      using pl [OF n] assms(2,3) assms(6) [of "[fst ne]"] by (simp add: is_file_def stat_plain)
    moreover have "\<not> is_symlink g (e @ [fst ne])" using pl [OF n] assms(3) by (simp add: not_symlink_plain)
    moreover have "file_verified fm f d ne" using v(8) ne by (simp add: list_all_iff)
    ultimately show ?thesis using rd [OF n] by (simp add: file_verified_def size_of_def)
  qed
  moreover have "(\<Sum>ne\<leftarrow>files. size_of g e (fst ne)) = (\<Sum>ne\<leftarrow>files. size_of f d (fst ne))"
    using fv by (intro arg_cong [where f = sum_list] map_cong) auto
  moreover have "art_inspect g tools (e @ [family @ ''-identity.o'']) family = Inr v"
  proof -
    have "read_bytes g (e @ [family @ ''-identity.o'']) = read_bytes f (d @ [family @ ''-identity.o''])"
      "read_bytes g (tools @ [spec_pins spec]) = read_bytes f (tools @ [spec_pins spec])"
      using rd [of "family @ ''-identity.o''"] sp(2) assms(7) [OF sp(3)] by simp_all
    then show ?thesis using v(10) unfolding art_inspect_def file_size_def by (simp only: v(1) bindE_simps)
  qed
  ultimately show ?thesis unfolding art_verify_iff
    using v(1,4,6,7,9,11,12,13) by (auto simp: list_all_iff)
qed

lemma map_of_moved:
  assumes "\<forall>(k, n) \<in> set l. \<not> prefix q k"
  shows "map_of (map (\<lambda>(r, n). if prefix p r then (q @ drop (length p) r, n) else (r, n)) l) r =
     (if prefix q r then map_of l (p @ drop (length q) r) else if prefix p r then None else map_of l r)"
  using assms
proof (induction l)
  case (Cons kn l)
  obtain k n where kn: "kn = (k, n)" by (cases kn)
  have nq: "\<not> prefix q k" using Cons.prems by (simp add: kn)
  show ?case
  proof (cases "prefix p k")
    case True
    then obtain t where t: "k = p @ t" by (auto simp: prefix_def)
    have e: "q @ t = r \<longleftrightarrow> prefix q r \<and> p @ drop (length q) r = k" by (auto simp: t prefix_def)
    have r: "r = k \<Longrightarrow> prefix p r" by (simp add: t)
    have "map_of (map (\<lambda>(r, n). if prefix p r then (q @ drop (length p) r, n) else (r, n)) l) r =
        (if prefix q r then map_of l (p @ drop (length q) r) else if prefix p r then None else map_of l r)"
      using Cons by simp
    then show ?thesis using True e r nq by (cases "prefix q r"; cases "prefix p r") (auto simp: kn t)
  next
    case False
    then show ?thesis using Cons nq by (auto simp: kn)
  qed
qed simp

lemma look_rename_dir:
  assumes "rename_dir f p q = Inr g" "p \<noteq> []" "q \<noteq> []" "\<And>r. prefix q r \<Longrightarrow> look f r = None"
  shows "look g r = (if prefix q r then look f (p @ drop (length q) r) else if prefix p r then None else look f r)"
proof -
  have "\<forall>(k, n) \<in> set f. \<not> prefix q k"
  proof (intro ballI, clarify)
    fix k n
    assume kn: "(k, n) \<in> set f" "prefix q k"
    with assms(3) have "k \<noteq> []" by auto
    with assms(4) [OF kn(2)] have "map_of f k = None" by (simp add: look_def)
    with kn(1) show False by (force simp: map_of_eq_None_iff)
  qed
  from map_of_moved [OF this, of p r] assms(1-3) show ?thesis
    by (cases "r = []") (auto simp: rename_dir_def look_def split: if_splits)
qed

text \<open>Files that differ from others only below a directory.\<close>

definition changes_below :: "path \<Rightarrow> fs \<Rightarrow> fs \<Rightarrow> bool" where
  "changes_below d f g \<longleftrightarrow> no_links g \<and> (\<forall>r. \<not> prefix d r \<longrightarrow> look g r = look f r)"

lemma changes_below_put:
  assumes "changes_below d f g" "p \<noteq> []" "prefix d p" "\<And>t. n \<noteq> NLink t"
  shows "changes_below d f (fs_put g p n)"
  using assms by (auto simp: changes_below_def look_fs_put no_links_fs_put)

lemma changes_below_write:
  assumes "changes_below d f g" "list_all plain_name (d @ e)" "d @ e \<noteq> []" "write_bytes g (d @ e) s = Inr h"
  shows "changes_below d f h"
proof -
  have "no_links g" using assms(1) by (simp add: changes_below_def)
  from write_bytes_plain [OF this assms(2-4)] obtain m where "h = fs_put g (d @ e) (NFile s m)" by blast
  with assms show ?thesis by (auto intro!: changes_below_put)
qed

lemma changes_below_mkdir:
  assumes "changes_below d f g" "list_all plain_name (d @ e)" "d @ e \<noteq> []" "mkdir_new g (d @ e) = Inr h"
  shows "changes_below d f h"
proof -
  have "no_links g" using assms(1) by (simp add: changes_below_def)
  from mkdir_new_plain(1) [OF this assms(2-4)] assms(1,3) show ?thesis by (auto intro!: changes_below_put)
qed

lemma check_entries_names:
  assumes "check_entries spec family members = Inr u"
  shows "fst ` set members = set (receipt_name family # spec_files spec)"
proof -
  from assms obtain names n where f: "foldE (check_entry spec family) ([], 0) members = Inr (names, n)"
    "set names = set (receipt_name family # spec_files spec)"
    unfolding check_entries_def bindE_Inr_iff by (auto split: if_splits)
  have "fst (names, n) = map fst members"
    by (rule foldE_prefix_invariant [OF f(1), where P = "\<lambda>ms st. fst st = map fst ms"])
      (auto simp: check_entry_def Let_def split: if_splits)
  with f(2) show ?thesis by simp
qed

lemma stage_artifact_effect:
  assumes "stage_artifact fm f tools packed target family spec = Inr (g, receipt)" "artifact_spec family = Inr spec"
    "no_links f" "list_all plain_name (art_temporary fm)" "art_temporary fm \<noteq> []"
  shows "changes_below (art_temporary fm) f g"
    "art_verify fm g tools (art_temporary fm @ [family]) (JStr target) family = Inr receipt"
proof -
  let ?t = "art_temporary fm"
  from assms(1) obtain f1 f2 expanded f3 members where s: "mkdir_new f ?t = Inr f1" "mkdir_new f1 (?t @ [family]) = Inr f2"
      "write_bytes f2 (?t @ [''contents.tar'']) expanded = Inr f3" "check_entries spec family members = Inr ()"
      "foldE (unpack_member (?t @ [family])) f3 members = Inr g"
      "art_verify fm g tools (?t @ [family]) (JStr target) family = Inr receipt"
    unfolding stage_artifact_def Let_def bindE_Inr_iff by auto
  note sp = spec_names [OF assms(2)]
  have "changes_below ?t f f" using assms(3) by (simp add: changes_below_def)
  then have "changes_below ?t f f1" using changes_below_mkdir [of ?t f f "[]" f1] s(1) assms(4,5) by simp
  then have "changes_below ?t f f2" using changes_below_mkdir [of ?t f f1 "[family]" f2] s(2) assms(4) sp(4) by simp
  then have c3: "changes_below ?t f f3" using changes_below_write [OF _ _ _ s(3)] assms(4) by (simp add: plain_name_def)
  show "changes_below ?t f g"
  proof (rule foldE_invariant [where P = "changes_below ?t f", OF s(5) c3])
    fix u m v
    assume m: "m \<in> set members" "changes_below ?t f u" "unpack_member (?t @ [family]) u m = Inr v"
    have "fst m \<in> set (receipt_name family # spec_files spec)"
      unfolding check_entries_names [OF s(4), symmetric] using m(1) by simp
    then have "plain_name (fst m)" using sp(1) by (auto simp: list_all_iff)
    with m(2,3) assms(4) sp(4) show "changes_below ?t f v"
      using changes_below_write [of ?t f u "[family, fst m]"] by (simp add: unpack_member_def)
  qed
  show "art_verify fm g tools (?t @ [family]) (JStr target) family = Inr receipt" by (rule s(6))
qed

text \<open>C27. An installation that succeeds had an archive with the given digest and a free destination; the published
  directory verifies, the temporary directory is gone, and elsewhere only missing parent
  directories of the destination have been added.\<close>

theorem install_publishes_verified:
  assumes "art_install fm f tools archive output digest target family = Inr g" "no_links f" "is_tree f"
    "list_all plain_name output" "output \<noteq> []" "list_all plain_name (art_temporary fm)" "art_temporary fm \<noteq> []"
    "\<not> prefix (art_temporary fm) output" "\<not> prefix output (art_temporary fm)" "list_all plain_name tools"
    "\<forall>x. \<not> prefix (art_temporary fm) (tools @ [x]) \<and> \<not> prefix output (tools @ [x])"
  shows "(\<exists>receipt. art_verify fm g tools output (JStr target) family = Inr receipt) \<and>
     (\<exists>packed. read_bytes f archive = Inr packed \<and> art_sha256 fm packed = digest \<and> length packed \<le> MAX_BYTES) \<and>
     look f output = None \<and>
     (\<forall>r. \<not> prefix output r \<longrightarrow> look g r = (if prefix (art_temporary fm) r then None
        else if look f r = None \<and> r \<noteq> [] \<and> prefix r (butlast output) then Some NDir else look f r))"
proof -
  let ?t = "art_temporary fm"
  from assms(1) obtain spec packed f1 f2 receipt f3 where i: "artifact_spec family = Inr spec" "\<not> path_exists f output"
      "read_bytes f archive = Inr packed" "length packed \<le> MAX_BYTES" "art_sha256 fm packed = digest" "mkdir_p f (butlast output) = Inr f1"
      "stage_artifact fm f1 tools packed target family spec = Inr (f2, receipt)" "rename_dir f2 (?t @ [family]) output = Inr f3"
      "g = remove_tree f3 ?t"
    unfolding art_install_def by (auto simp: bindE_Inr_iff split: if_splits)
  note sp = spec_names [OF i(1)]
  have free: "look f output = None" using i(2) assms(2,4) by (simp add: path_exists_def stat_plain)
  have below: "look f r = None" if r: "prefix output r" for r
  proof (rule ccontr)
    assume "look f r \<noteq> None"
    moreover have "r \<noteq> []" using r assms(5) by auto
    ultimately have b: "look f (butlast r) = Some NDir" using assms(3) by (auto simp: is_tree_def)
    show False
    proof (cases "r = output")
      case False
      then have "prefix output (butlast r)" using r by (cases r rule: rev_cases) auto
      from is_tree_prefix [OF assms(3) b this] free show False by simp
    qed (use free \<open>look f r \<noteq> None\<close> in simp)
  qed
  have m: "mkdirs f [] (butlast output) = Inr f1"
    using i(6) assms(2) list_all_butlast [OF assms(4)] by (simp add: mkdir_p_plain)
  have nl1: "no_links f1" by (rule no_links_mkdirs [OF m assms(2)])
  note st = stage_artifact_effect [OF i(7,1) nl1 assms(6,7)]
  have nl2: "no_links f2" and out2: "\<not> prefix ?t r \<Longrightarrow> look f2 r = look f1 r" for r using st(1) by (auto simp: changes_below_def)
  have apart: "\<not> prefix ?t r" if "prefix output r" for r
    using that assms(8,9) by (meson prefix_same_cases)
  have "\<not> prefix r (butlast output)" if "prefix output r" for r
  proof
    assume "prefix r (butlast output)"
    with that have "length output \<le> length (butlast output)" by (meson prefix_length_le le_trans)
    with assms(5) show False by (metis diff_less length_butlast length_greater_0_conv not_le zero_less_one)
  qed
  then have empty: "look f2 r = None" if "prefix output r" for r
    using that apart [OF that] below [OF that] by (simp add: out2 mkdirs_look [OF m])
  have "?t @ [family] \<noteq> []" by simp
  note ren = look_rename_dir [OF i(8) this assms(5) empty]
  have g: "look g r = (if prefix ?t r then None else if prefix output r then look f2 ((?t @ [family]) @ drop (length output) r) else look f1 r)" for r
  proof -
    have "prefix (?t @ [family]) r \<Longrightarrow> prefix ?t r" by (rule append_prefixD)
    then show ?thesis using apart out2 assms(7) by (auto simp: i(9) look_remove_tree ren)
  qed
  have nlg: "no_links g"
    using nl1 nl2 unfolding no_links_def g by simp
  have "art_verify fm g tools output (JStr target) family = Inr receipt"
  proof (rule art_verify_transport [OF st(2) nl2 nlg _ assms(4)])
    show "list_all plain_name (?t @ [family])" using assms(6) sp(4) by simp
    show "look f2 ((?t @ [family]) @ t) = look g (output @ t)" for t using apart [of "output @ t"] by (simp add: g)
    show "read_bytes f2 (tools @ [x]) = read_bytes g (tools @ [x])" if "plain_name x" for x
    proof -
      have "look f2 (tools @ [x]) = look g (tools @ [x])" using assms(11) out2 by (simp add: g)
      then show ?thesis using that assms(10) nl2 nlg by (simp add: read_bytes_def stat_plain)
    qed
  qed
  moreover have "look g r = (if prefix ?t r then None else if look f r = None \<and> r \<noteq> [] \<and> prefix r (butlast output) then Some NDir else look f r)"
    if "\<not> prefix output r" for r
    using that by (simp add: g mkdirs_look [OF m] strict_prefix_def)
  ultimately show ?thesis using i(3,4,5) free by blast
qed

section \<open>The embedded identity reads back\<close>

lemma sort_json_wf: "wf_json fr v \<Longrightarrow> wf_json fr (sort_json v)"
proof (induction v)
  case (JDict kvs)
  have "map fst (map (\<lambda>(k, v). (k, sort_json v)) kvs) = map fst kvs" by (simp add: split_def)
  then have "distinct (map fst (map (\<lambda>(k, v). (k, sort_json v)) kvs))" using JDict.prems by (simp del: map_map)
  then have "distinct (map fst (sort_key fst (map (\<lambda>(k, v). (k, sort_json v)) kvs)))"
    unfolding distinct_map [of fst] distinct_sort set_sort .
  moreover have "wf_json fr (sort_json x)" if "(k, x) \<in> set kvs" for k x
    using JDict.IH [of "(k, x)" x] JDict.prems that by (auto simp: list_all_iff)
  ultimately show ?case by (auto simp: list_all_iff)
qed (auto simp: list_all_iff)

lemma sort_json_no_floats: "no_floats v \<Longrightarrow> no_floats (sort_json v)"
proof (induction v)
  case (JDict kvs)
  have "no_floats (sort_json x)" if "(k, x) \<in> set kvs" for k x
    using JDict.IH [of "(k, x)" x] JDict.prems that by (auto simp: list_all_iff)
  then show ?case by (auto simp: list_all_iff)
qed (auto simp: list_all_iff)

lemma jeq_sort_json: "wf_json fr v \<Longrightarrow> no_floats v \<Longrightarrow> jeq (sort_json v) v"
proof (induction v)
  case (JList xs)
  then show ?case by (auto simp: list_all_iff set_zip)
next
  case (JDict kvs)
  have "jeq (sort_json x) x" if "(k, x) \<in> set kvs" for k x
    using JDict.IH [of "(k, x)" x] JDict.prems that by (auto simp: list_all_iff)
  moreover have "map_of kvs k = Some x" if "(k, x) \<in> set kvs" for k x
    using JDict.prems(1) that by simp
  ultimately show ?case by (auto simp: list_all_iff)
qed auto

lemma find_str_least: "find_str p s = Some n \<Longrightarrow> startswith (drop k s) p \<Longrightarrow> k \<le> length s \<Longrightarrow> n \<le> k"
proof (induction p s arbitrary: n k rule: find_str.induct)
  case (2 p c s)
  then show ?case by (cases k) (auto split: if_splits)
qed (auto split: if_splits)

lemma append_split: "a @ b = c @ d \<Longrightarrow> length a \<le> length c \<Longrightarrow> \<exists>x. c = a @ x \<and> b = x @ d"
proof (induction a arbitrary: c)
  case (Cons h a)
  then show ?case by (cases c) auto
qed simp

text \<open>A text ending in a character it has nowhere else does not overlap itself, so its only occurrence is
  where a partition finds it.\<close>

lemma unique_occurrence:
  assumes "p = m @ [c]" "c \<notin> set m" "count_str p s = 1" "s = a @ p @ b"
  shows "partition_str p s = Some (a, b)"
proof -
  have p: "p \<noteq> []" using assms(1) by simp
  have "contains p s" using assms(4) by (auto simp: contains_iff)
  then obtain u v where uv: "partition_str p s = Some (u, v)" using partition_str_None [of p s] by (cases "partition_str p s") auto
  have s: "s = u @ p @ v" by (rule partition_str_Some [OF uv])
  have "split_str p s = u # split_str p v" using uv p by (simp add: split_str.simps [of p s])
  then have "length (split_str p v) = 1" using assms(3) by (simp add: count_str_def)
  then have "count_str p v = 0" by (simp add: count_str_def)
  then have nc: "\<not> contains p v" using count_str_0_iff [OF p] by simp
  from uv obtain n where n: "find_str p s = Some n" "u = take n s" by (auto simp: partition_str_def split: option.splits)
  have "n \<le> length a" by (rule find_str_least [OF n(1)]) (simp_all add: assms(4))
  then have "length u \<le> length a" using n(2) by simp
  moreover have "u @ p @ v = a @ p @ b" using s assms(4) by (rule trans [OF sym])
  ultimately obtain x where x: "a = u @ x" "p @ v = x @ p @ b" using append_split by blast
  have "x = []"
  proof (rule ccontr)
    assume ne: "x \<noteq> []"
    show False
    proof (cases "length p \<le> length x")
      case True
      from append_split [OF x(2) this] obtain y where "v = y @ p @ b" by blast
      with nc show False by (auto simp: contains_iff)
    next
      case False
      with append_split [OF x(2) [symmetric]] obtain z where z: "p = x @ z" "p @ b = z @ v" by auto
      then have zn: "z \<noteq> []" using False by auto
      have "length z < length p" using z(1) ne by simp
      with append_split [OF z(2) [symmetric]] obtain w where w: "p = z @ w" by auto
      then have wn: "w \<noteq> []" using \<open>length z < length p\<close> by auto
      have "last z = c" using arg_cong [OF z(1), of last] zn assms(1) by simp
      moreover have "z @ butlast w = m" using arg_cong [OF w, of butlast] wn assms(1) by (simp add: butlast_append)
      ultimately have "c \<in> set m" using zn by (metis Un_iff last_in_set set_append)
      with assms(2) show False by simp
    qed
  qed
  with x uv show ?thesis by simp
qed

lemma before_str_char: "NUL \<notin> set body \<Longrightarrow> before_str [NUL] (body @ NUL # post) = body"
proof -
  assume n: "NUL \<notin> set body"
  have "find_str [NUL] (body @ NUL # post) = Some (length body)"
    using n by (induction body) auto
  then show ?thesis by (simp add: before_str_def partition_str_def)
qed

text \<open>C29. An identity embedded once in a binary reads back: whatever surrounds the marker, the text after it
  up to the zero byte parses to a value equal to the embedded one.\<close>

theorem embedded_identity_roundtrip:
  assumes "artifact_spec family = Inr spec" "wf_json fr i" "no_floats i" "count_str (spec_marker spec) data = 1"
    "data = before @ spec_marker spec @ json_text fr canonical_opts 0 (sort_json i) @ NUL # post"
    "length (json_text fr canonical_opts 0 (sort_json i)) \<le> IDENTITY_LIMIT"
  shows "\<exists>raw v. embedded_text (spec_marker spec) data = Inr raw \<and> loads raw = Inr v \<and> jeq v i"
proof -
  let ?body = "json_text fr canonical_opts 0 (sort_json i)"
  obtain m where m: "spec_marker spec = m @ [NUL]" "NUL \<notin> set m"
    using assms(1) by (auto simp: artifact_spec_def split: if_splits)
  have "partition_str (spec_marker spec) data = Some (before, ?body @ NUL # post)"
    by (rule unique_occurrence [OF m assms(4,5)])
  moreover have "NUL \<notin> set ?body"
    by (rule json_text_no_control) (simp_all add: is_control_def sort_json_no_floats assms(3))
  ultimately have "embedded_text (spec_marker spec) data = Inr ?body"
    using assms(4,6) by (simp add: embedded_text_def after_str_def before_str_char Let_def)
  moreover have "loads ?body = Inr (sort_json i)"
    using loads_json_text [OF seps_ok_opts(3) sort_json_wf [OF assms(2)], of "[]"] by simp
  moreover have "jeq (sort_json i) i" by (rule jeq_sort_json [OF assms(2,3)])
  ultimately show ?thesis by blast
qed

section \<open>Instances\<close>

definition demo_receipt :: "(string \<times> string) list \<Rightarrow> json" where
  "demo_receipt files = JDict ([(''schema'', JInt 2), (''target'', JStr ''linux-arm64''), (''linkage'', JStr ''static''), (''pins'', JInt 1),
     (''libraries'', JDict [(''libdeflate'', JStr ''1'')]), (''configuration'', JNull), (''cc'', JNull), (''cmake'', JNull),
     (''builder_sha256'', JNull), (''artifact_tool_sha256'', JNull)] @
     [(''files'', JDict (map (\<lambda>(n, s). (n, JDict [(''bytes'', JInt (int (length s))), (''sha256'', JStr (show_nat (length s)))])) files))])"

definition demo_object :: string where
  "demo_object = ''TRBN-COMPRESSION-V1'' @ [NUL] @
     (case art_identity (demo_receipt []) of Inr i \<Rightarrow> json_text (\<lambda>q. []) canonical_opts 0 (sort_json i) | Inl e \<Rightarrow> []) @ [NUL]"

definition demo_contents :: "(string \<times> string) list" where
  "demo_contents = [(''libdeflate.a'', ''a''), (''compression-identity.o'', demo_object), (''libdeflate-LICENSE'', ''L'')]"

definition demo_members :: "(string \<times> bool \<times> string) list" where
  "demo_members = map (\<lambda>(n, s). (n, True, s)) (demo_contents @ [(''compression-build.json'', json_text (\<lambda>q. []) pretty_opts 0 (demo_receipt demo_contents))])"

definition demo_formats :: formats where
  "demo_formats = \<lparr>art_sha256 = (\<lambda>s. show_nat (length s)), art_frepr = (\<lambda>q. []), art_tar_gz = (\<lambda>ms. []), art_gunzip = Inr,
     art_members = (\<lambda>s. Inr demo_members), art_temporary = [''d'', ''tmp'']\<rparr>"

definition demo_host_files :: fs where
  "demo_host_files = [([''d''], NDir), ([''d'', ''a.tgz''], NFile ''zip'' 420), ([''tools''], NDir),
     ([''tools'', ''compression-dependencies.json''], NFile ''1'' 420)]"

lemma demo_installed:
  "\<exists>g. art_install demo_formats demo_host_files [''tools''] [''d'', ''a.tgz''] [''d'', ''out''] ''3'' ''linux-arm64'' ''compression'' = Inr g"
proof -
  have "case art_install demo_formats demo_host_files [''tools''] [''d'', ''a.tgz''] [''d'', ''out''] ''3'' ''linux-arm64'' ''compression'' of
      Inl e \<Rightarrow> False | Inr g \<Rightarrow> True" by code_simp
  then show ?thesis by (auto split: sum.splits)
qed

lemma demo_temporary: "art_temporary demo_formats = [''d'', ''tmp'']"
  by (simp add: demo_formats_def)

lemma demo_host_ok:
  shows "no_links demo_host_files" "is_tree demo_host_files" "list_all plain_name [''d'', ''out'']" "list_all plain_name (art_temporary demo_formats)"
proof -
  show "no_links demo_host_files" by (rule no_links_list) (simp add: demo_host_files_def not_link_def)
  show "is_tree demo_host_files" by (auto simp: is_tree_def look_def demo_host_files_def split: if_splits)
  show "list_all plain_name [''d'', ''out'']" "list_all plain_name (art_temporary demo_formats)"
    by (simp_all add: plain_name_def demo_formats_def)
qed

lemma verified_directory_exact_witness:
  "\<exists>f spec receipt names. art_verify demo_formats f [''tools''] [''d'', ''tmp'', ''compression''] (JStr ''linux-arm64'') ''compression'' = Inr receipt \<and>
     artifact_spec ''compression'' = Inr spec \<and> directory_names f [''d'', ''tmp'', ''compression''] = Inr names \<and>
     set names = set (receipt_name ''compression'' # spec_files spec)"
proof -
  from demo_installed obtain spec packed f1 f2 receipt where i: "artifact_spec ''compression'' = Inr spec"
      "mkdir_p demo_host_files (butlast [''d'', ''out'']) = Inr f1"
      "stage_artifact demo_formats f1 [''tools''] packed ''linux-arm64'' ''compression'' spec = Inr (f2, receipt)"
    unfolding art_install_def bindE_Inr_iff if_Inr_iff by auto
  have "no_links f1" by (rule no_links_mkdir_p [OF demo_host_ok(1) i(2)])
  from stage_artifact_effect(2) [OF i(3,1) this demo_host_ok(4)]
  have "art_verify demo_formats f2 [''tools''] [''d'', ''tmp'', ''compression''] (JStr ''linux-arm64'') ''compression'' = Inr receipt"
    by (simp add: demo_temporary)
  moreover from verified_directory_exact [OF this] obtain sp names where "artifact_spec ''compression'' = Inr sp"
    "directory_names f2 [''d'', ''tmp'', ''compression''] = Inr names" "set names = set (receipt_name ''compression'' # spec_files sp)"
    by (elim exE conjE) (rule that)
  ultimately show ?thesis by (intro exI [of _ f2] exI [of _ sp] exI [of _ receipt] exI [of _ names] conjI)
qed

lemma install_publishes_verified_witness:
  "\<exists>g receipt. art_install demo_formats demo_host_files [''tools''] [''d'', ''a.tgz''] [''d'', ''out''] ''3'' ''linux-arm64'' ''compression'' = Inr g \<and>
     art_verify demo_formats g [''tools''] [''d'', ''out''] (JStr ''linux-arm64'') ''compression'' = Inr receipt \<and>
     look g [''d'', ''a.tgz''] = Some (NFile ''zip'' 420) \<and> look g [''d'', ''tmp''] = None"
proof -
  from demo_installed obtain g where g: "art_install demo_formats demo_host_files [''tools''] [''d'', ''a.tgz''] [''d'', ''out''] ''3'' ''linux-arm64'' ''compression'' = Inr g"
    by blast
  note t = install_publishes_verified [OF g demo_host_ok(1,2,3) _ demo_host_ok(4)]
  from t have "(\<exists>receipt. art_verify demo_formats g [''tools''] [''d'', ''out''] (JStr ''linux-arm64'') ''compression'' = Inr receipt) \<and>
     (\<forall>r. \<not> prefix [''d'', ''out''] r \<longrightarrow> look g r = (if prefix [''d'', ''tmp''] r then None
        else if look demo_host_files r = None \<and> r \<noteq> [] \<and> prefix r (butlast [''d'', ''out'']) then Some NDir else look demo_host_files r))"
    by (simp add: plain_name_def demo_temporary)
  then obtain receipt where "art_verify demo_formats g [''tools''] [''d'', ''out''] (JStr ''linux-arm64'') ''compression'' = Inr receipt"
    and r: "\<not> prefix [''d'', ''out''] r \<Longrightarrow> look g r = (if prefix [''d'', ''tmp''] r then None
        else if look demo_host_files r = None \<and> r \<noteq> [] \<and> prefix r (butlast [''d'', ''out'']) then Some NDir else look demo_host_files r)" for r
    by blast
  moreover have "look g [''d'', ''a.tgz''] = Some (NFile ''zip'' 420)" by (subst r) (simp_all add: demo_host_files_def look_def)
  moreover have "look g [''d'', ''tmp''] = None" by (subst r) simp_all
  ultimately show ?thesis using g by blast
qed

lemma embedded_identity_roundtrip_witness:
  "\<exists>raw v. embedded_text (''TRBN-COMPRESSION-V1'' @ [NUL]) (''ELF'' @ ''TRBN-COMPRESSION-V1'' @ [NUL] @ ''{'' @ [DQ] @ ''a'' @ [DQ] @ '':1}'' @ [NUL] @ ''tail'') = Inr raw \<and>
     loads raw = Inr v \<and> jeq v (JDict [(''a'', JInt 1)])"
proof -
  obtain spec where s: "artifact_spec ''compression'' = Inr spec" "spec_marker spec = ''TRBN-COMPRESSION-V1'' @ [NUL]"
    by (simp add: artifact_spec_def)
  have j: "json_text (\<lambda>q. []) canonical_opts 0 (sort_json (JDict [(''a'', JInt 1)])) = ''{'' @ [DQ] @ ''a'' @ [DQ] @ '':1}''" by code_simp
  have "count_str (''TRBN-COMPRESSION-V1'' @ [NUL]) (''ELF'' @ (''TRBN-COMPRESSION-V1'' @ [NUL]) @ (''{'' @ [DQ] @ ''a'' @ [DQ] @ '':1}'') @ NUL # ''tail'') = 1"
    by code_simp
  from embedded_identity_roundtrip [OF s(1), of "\<lambda>q. []" "JDict [(''a'', JInt 1)]" "''ELF'' @ (''TRBN-COMPRESSION-V1'' @ [NUL]) @ (''{'' @ [DQ] @ ''a'' @ [DQ] @ '':1}'') @ NUL # ''tail''" "''ELF''" "''tail''", unfolded s(2) j] this
  show ?thesis by (simp add: IDENTITY_LIMIT_def)
qed

end
