(* ===== verification/CompilerMigration.thy ===== *)
theory CompilerMigration
  imports RecoverySync PyProc
begin

text \<open>
  \<open>tools/migrate_compiler_layout.py\<close>: the repeatable extraction of the checker's functions into their
  owners and the migration of flat compiler modules to nested paths. Sources are texts, every
  rewriting is a function on them; \<open>plan_migration\<close> computes all writes and removals before
  \<open>apply_migration\<close> changes a file.
\<close>

section \<open>Headers and imports\<close>

definition identifier_rx :: rx where
  "identifier_rx = Seq (Cls lower_cls) (Star (Cls (lower_cls @ digit_cls @ one_cls (CHR ''_''))))"

definition NAMED_IMPORT :: rx where
  "NAMED_IMPORT = seqs [lit ''import { '', Grp 1 (rplus (NCls (one_cls (CHR ''}'')))), lit '' } from '',
     Grp 2 (Seq (Cls lower_cls) (Star (Cls (lower_cls @ digit_cls @ chr_cls ''_/'')))), Grp 3 (Star Dot)]"

definition FUNCTION :: rx where
  "FUNCTION = seqs [Bol, lit ''def '', Grp 1 identifier_rx, lit ''('']"

definition split_header :: "string \<Rightarrow> string \<times> string" where
  "split_header source =
     (let lines = splitlines_keep source;
          leading = takeWhile is_import lines; rest = dropWhile is_import lines
      in case rest of
           [] \<Rightarrow> (concat leading, [])
         | l # ls \<Rightarrow> if l = [NL] then (concat leading @ l, concat ls) else (concat leading, concat rest))"

text \<open>The names a line imports: the local name, the member as written, and the module.\<close>

definition member_names :: "(nat \<times> string) list \<Rightarrow> string list" where
  "member_names gs = split_str '', '' (grp_text 1 gs)"

definition import_members :: "string \<Rightarrow> (string \<times> string \<times> string) list res" where
  "import_members line =
     (if line = [] then Inr []
      else (case fullmatch_groups NAMED_IMPORT line of
          None \<Rightarrow> Inl (ValueError (''extraction requires named imports: '' @ line))
        | Some gs \<Rightarrow> Inr (map (\<lambda>member. (last (split_str '' as '' member), member, grp_text 2 gs)) (member_names gs))))"

definition named_imports :: "string \<Rightarrow> (string \<times> string \<times> string) list res" where
  "named_imports header = bindE (mapE import_members (splitlines header)) (\<lambda>rows. Inr (concat rows))"

section \<open>Extraction of the checker's functions\<close>

definition checker :: string where "checker = ''checked_program''"

definition sources_get :: "texts \<Rightarrow> string \<Rightarrow> string" where
  "sources_get sources name = (case map_of sources name of None \<Rightarrow> [] | Some s \<Rightarrow> s)"

text \<open>The declared names of a text.\<close>

definition declared_names :: "string \<Rightarrow> string list" where
  "declared_names body = findall_group 1 FUNCTION body"

definition declarations_of :: "string \<Rightarrow> string \<Rightarrow> nat" where
  "declarations_of name source = length (findall (seqs [Bol, lit ''def '', lit name, lit ''('']) source)"

text \<open>Each function with its text: from its declaration to the next one, or to the end.\<close>

fun function_pieces :: "(string \<times> string \<times> (nat \<times> string) list) list \<Rightarrow> string \<Rightarrow> (string \<times> string) list" where
  "function_pieces [] tail = []"
| "function_pieces [(skipped, m, gs)] tail = [(grp_text 1 gs, m @ tail)]"
| "function_pieces ((skipped, m, gs) # (skipped', m', gs') # ms) tail =
     (grp_text 1 gs, m @ skipped') # function_pieces ((skipped', m', gs') # ms) tail"

text \<open>\<open>d.setdefault(k, []).append(v)\<close>.\<close>

definition append_to :: "'k \<Rightarrow> 'v \<Rightarrow> ('k \<times> 'v list) list \<Rightarrow> ('k \<times> 'v list) list" where
  "append_to k v d = AList.update k ((case map_of d k of None \<Rightarrow> [] | Some vs \<Rightarrow> vs) @ [v]) d"

definition mentions :: "string \<Rightarrow> string \<Rightarrow> bool" where
  "mentions body name = (search (seqs [WordB, lit name, WordB]) body \<noteq> None)"

text \<open>The imports a new body needs, by module, in the order of the pool: each local name once.\<close>

definition import_step :: "string \<Rightarrow> string \<Rightarrow> string list \<Rightarrow> (string \<times> string list) list \<times> string list \<Rightarrow>
    string \<times> string \<times> string \<Rightarrow> (string \<times> string list) list \<times> string list" where
  "import_step owner body declared st row =
     (let (imports, imported) = st; (local_name, member, modname) = row
      in if local_name \<in> set declared \<or> modname = owner \<or> local_name \<in> set imported then st
         else if mentions body local_name
         then (append_to modname member imports, imported @ [local_name])
         else st)"

definition import_line :: "string list \<Rightarrow> string \<Rightarrow> string \<Rightarrow> string" where
  "import_line members modname ending = ''import { '' @ join '', '' members @ '' } from '' @ modname @ ending @ [NL]"

definition needed_imports :: "string \<Rightarrow> string \<Rightarrow> (string \<times> string \<times> string) list \<Rightarrow> (string \<times> string list) list" where
  "needed_imports owner body pool =
     fst (fold (\<lambda>row st. import_step owner body (declared_names body) st row) pool ([], []))"

text \<open>The text of an owner after its fragments were appended to what it held.\<close>

definition owner_body :: "string \<Rightarrow> string list \<Rightarrow> string" where
  "owner_body old_body fragments =
     (if old_body \<noteq> [] \<and> \<not> endswith old_body [NL, NL] then old_body @ [NL] else old_body) @ concat fragments"

definition owner_text :: "string \<Rightarrow> string \<Rightarrow> (string \<times> string \<times> string) list \<Rightarrow> string" where
  "owner_text owner body pool =
     (let header = concat (map (\<lambda>(modname, members). import_line members modname []) (needed_imports owner body pool))
      in header @ (if header = [] then [] else [NL]) @ body)"

definition place_owner :: "(string \<times> string \<times> string) list \<Rightarrow> texts \<Rightarrow> string \<times> string list \<Rightarrow> texts res" where
  "place_owner pool sources row =
     (let (owner, fragments) = row;
          (old_header, old_body) = (if owner = checker then ([], []) else split_header (sources_get sources owner))
      in bindE (named_imports old_header) (\<lambda>old.
         Inr (AList.update owner (owner_text owner (owner_body old_body fragments) (old @ pool)) sources)))"

definition group_piece :: "texts \<Rightarrow> (string \<times> string list) list \<Rightarrow> string \<times> string \<Rightarrow> (string \<times> string list) list res" where
  "group_piece owners pieces piece = bindE (text_of owners (fst piece)) (\<lambda>owner. Inr (append_to owner (snd piece) pieces))"

text \<open>A tree in which the extraction was already applied: every function sits once in its owner.\<close>

definition check_extracted :: "texts \<Rightarrow> texts \<Rightarrow> texts res" where
  "check_extracted sources owners =
     bindE (forE (\<lambda>(name, owner). if declarations_of name (sources_get sources owner) \<noteq> 1
         then Inl (ValueError (''partially applied checker extraction: '' @ owner @ ''.'' @ name)) else Inr ()) owners)
       (\<lambda>_. Inr sources)"

definition new_owners :: "texts \<Rightarrow> string list" where
  "new_owners owners = filter (\<lambda>owner. owner \<notin> {checker, ''lambda_checking''}) (map snd owners)"

definition move_functions :: "texts \<Rightarrow> texts \<Rightarrow> string \<Rightarrow> (string \<times> string) list \<Rightarrow> texts res" where
  "move_functions sources owners header pieces =
     bindE (foldE (group_piece owners) [] pieces) (\<lambda>grouped.
     bindE (named_imports header) (\<lambda>pool.
     foldE (place_owner (pool @ map (\<lambda>(name, owner). (name, name, owner)) owners)) sources grouped))"

definition extract_checker :: "texts \<Rightarrow> texts \<Rightarrow> texts res" where
  "extract_checker sources owners =
     bindE (text_of sources checker) (\<lambda>source.
     (let (header, body) = split_header source;
          (ms, tail) = scan (length body) FUNCTION [] body;
          names = map (\<lambda>(skipped, m, gs). grp_text 1 gs) ms;
          remaining = map fst (filter (\<lambda>(name, owner). owner = checker) owners)
      in if set names = set remaining then check_extracted sources owners
         else if set names \<noteq> set (map fst owners) \<or> \<not> distinct names
         then Inl (ValueError ''checker declarations changed; review function ownership before migration'')
         else if list_ex (\<lambda>owner. owner \<in> set (map fst sources)) (new_owners owners)
         then Inl (ValueError ''extracted owner already exists'')
         else if ms = [] then Inl IndexError
         else if strip (fst (hd ms)) \<noteq> [] then Inl (ValueError ''checker has declarations before its first function'')
         else move_functions sources owners header (function_pieces ms tail)))"

section \<open>Import paths\<close>

definition path_of :: "texts \<Rightarrow> string \<Rightarrow> string" where
  "path_of modules name = (case map_of modules name of None \<Rightarrow> name | Some target \<Rightarrow> target)"

text \<open>The members of one line, by the module that owns each after the extraction.\<close>

definition member_owner :: "texts \<Rightarrow> string \<Rightarrow> string \<Rightarrow> string" where
  "member_owner owners modname member =
     (if modname = checker
      then (case map_of owners (hd (split_str '' as '' member)) of None \<Rightarrow> modname | Some owner \<Rightarrow> owner)
      else modname)"

definition regrouped :: "texts \<Rightarrow> texts \<Rightarrow> (nat \<times> string) list \<Rightarrow> (string \<times> string list) list" where
  "regrouped modules owners gs = fold (\<lambda>member.
     append_to (path_of modules (member_owner owners (grp_text 2 gs) member)) member) (member_names gs) []"

text \<open>A default import whose module moved becomes a named import.\<close>

definition default_line :: "texts \<Rightarrow> texts \<Rightarrow> string \<Rightarrow> string" where
  "default_line modules default_imports stripped =
     (let parts = split_chr (CHR '' '') stripped;
          old = parts ! 1; new = path_of modules old; tail = drop 2 parts
      in case map_of default_imports old of
           Some member \<Rightarrow>
             if new = old then join '' '' (hd parts # new # tail) @ [NL]
             else
               (let ending = join '' '' tail in
                if startswith ending ''as ''
                then (let alias = before_str '' '' (drop 3 ending); rest = after_str '' '' (drop 3 ending) in
                  ''import { '' @ member @ '' as '' @ alias @ '' } from '' @ new @
                    (if rest = [] then [] else '' '' @ rest) @ [NL])
                else ''import { '' @ member @ '' } from '' @ new @ (if ending = [] then [] else '' '' @ ending) @ [NL])
         | None \<Rightarrow> join '' '' (hd parts # new # tail) @ [NL])"

definition rewrite_line :: "texts \<Rightarrow> texts \<Rightarrow> texts \<Rightarrow> string \<Rightarrow> string" where
  "rewrite_line modules owners default_imports line =
     (let stripped = rstrip_chr NL line in
      case fullmatch_groups NAMED_IMPORT stripped of
        Some gs \<Rightarrow> concat (map (\<lambda>(modname, members). import_line members modname (grp_text 3 gs)) (regrouped modules owners gs))
      | None \<Rightarrow> if is_import line then default_line modules default_imports stripped else line)"

definition rewrite_imports :: "string \<Rightarrow> texts \<Rightarrow> texts \<Rightarrow> texts \<Rightarrow> string" where
  "rewrite_imports source modules owners default_imports =
     (let (header, body) = split_header source
      in concat (map (rewrite_line modules owners default_imports) (splitlines_keep header)) @ body)"

section \<open>The plan\<close>

record layout_manifest =
  man_modules :: texts
  man_owners :: texts
  man_previous :: texts
  man_defaults :: texts
  man_path_consumers :: "string list"
  man_module_consumers :: "string list"
  man_lookup_consumers :: "(string \<times> string list) list"
  man_sync :: bool

text \<open>The text of a file.\<close>

definition read_text :: "fs \<Rightarrow> path \<Rightarrow> string res" where
  "read_text f p = bindE (read_bytes f p) (\<lambda>s. Inr (universal_newlines s))"

text \<open>Previous names take the path, and the default import, of their current owner.\<close>

definition alias_step :: "texts \<Rightarrow> texts \<times> texts \<Rightarrow> string \<times> string \<Rightarrow> (texts \<times> texts) res" where
  "alias_step modules st row =
     (let (import_paths, defaults) = st; (old, owner) = row in
      case map_of modules owner of
        None \<Rightarrow> Inl (ValueError (''previous module has no current owner: '' @ old))
      | Some target \<Rightarrow> Inr (AList.update old target import_paths,
          (case map_of defaults owner of None \<Rightarrow> defaults | Some member \<Rightarrow> AList.update old member defaults)))"

definition assignments_ok :: "texts \<Rightarrow> bool" where
  "assignments_ok modules \<longleftrightarrow>
     list_all (\<lambda>(name, target). fullmatch MODULE name \<and> fullmatch MODULE target) modules \<and> distinct (map snd modules)"

definition src_dir :: "path \<Rightarrow> path" where
  "src_dir repo = repo @ [''compiler'', ''src'']"

definition original_name :: "layout_manifest \<Rightarrow> string \<Rightarrow> string option" where
  "original_name man name =
     (if name \<in> set (map fst (man_modules man)) then Some name
      else (case map_of (map (\<lambda>(n, t). (t, n)) (man_modules man)) name of
          Some n \<Rightarrow> Some n
        | None \<Rightarrow> map_of (man_previous man) name))"

type_synonym origins = "(string \<times> path) list"

text \<open>One source file of the compiler: the module it holds, its text and its path.\<close>

definition load_source :: "fs \<Rightarrow> path \<Rightarrow> layout_manifest \<Rightarrow> texts \<times> origins \<Rightarrow> path \<Rightarrow> (texts \<times> origins) res" where
  "load_source f repo man st rel =
     (let (sources, originals) = st; p = src_dir repo @ rel; name = module_of_path rel in
      case original_name man name of
        None \<Rightarrow> Inl (ValueError (''unassigned compiler module: '' @ name))
      | Some original \<Rightarrow>
          if original \<in> set (map fst sources) then Inl (ValueError (''flat/nested source collision: '' @ original))
          else bindE (if is_symlink f p then Inr True
                else bindE (resolveE f p) (\<lambda>q. bindE (resolveE f (src_dir repo)) (\<lambda>d. Inr (\<not> is_relative_to q d))))
            (\<lambda>outside. if outside then Inl (ValueError (''compiler source escapes its root: '' @ name))
              else bindE (read_text f p) (\<lambda>s. Inr (sources @ [(original, s)], originals @ [(original, p)]))))"

text \<open>The directories from that of the destination up to, and without, the source directory.\<close>

definition parents_below :: "path \<Rightarrow> string \<Rightarrow> path list" where
  "parents_below dir target =
     (let parts = butlast (pure_parts (target @ ''.trb''))
      in map (\<lambda>k. dir @ take k parts) (rev [1..<Suc (length parts)]))"

definition blocked_parent :: "fs \<Rightarrow> path \<Rightarrow> bool" where
  "blocked_parent f p \<longleftrightarrow> is_symlink f p \<or> path_exists f p \<and> \<not> is_dir f p"

definition destination_of :: "path \<Rightarrow> string \<Rightarrow> path" where
  "destination_of repo target = joinp (src_dir repo) (target @ ''.trb'')"

type_synonym edits = "(path \<times> string) list \<times> path list"

definition plan_source :: "fs \<Rightarrow> path \<Rightarrow> layout_manifest \<Rightarrow> texts \<Rightarrow> texts \<Rightarrow> origins \<Rightarrow> edits \<Rightarrow> string \<times> string \<Rightarrow> edits res" where
  "plan_source f repo man import_paths defaults originals st row =
     (let (writes, removals) = st; (name, source) = row in
      bindE (text_of (man_modules man) name) (\<lambda>target.
      (let destination = destination_of repo target;
           original = map_of originals name;
           content = rewrite_imports source import_paths (man_owners man) defaults
       in if path_exists f destination \<and> original \<noteq> Some destination
          then Inl (ValueError (''destination already exists: '' @ target))
          else if list_ex (blocked_parent f) (parents_below (src_dir repo) target)
          then Inl (ValueError (''invalid destination parent: '' @ target))
          else bindE (case original of None \<Rightarrow> Inr True
                | Some p \<Rightarrow> if destination \<noteq> p then Inr True else bindE (read_text f p) (\<lambda>s. Inr (content \<noteq> s)))
            (\<lambda>changed. Inr (if changed then AList.update destination content writes else writes,
               (case original of None \<Rightarrow> removals
                | Some p \<Rightarrow> if p \<noteq> destination then removals @ [p] else removals))))))"

definition plan_cli :: "fs \<Rightarrow> path \<Rightarrow> layout_manifest \<Rightarrow> texts \<Rightarrow> texts \<Rightarrow> (path \<times> string) list \<Rightarrow> path \<Rightarrow> (path \<times> string) list res" where
  "plan_cli f repo man import_paths defaults writes rel =
     (let p = repo @ [''compiler'', ''cli''] @ rel in
      if is_symlink f p then Inl (ValueError ''CLI source symlinks are not migration inputs'')
      else bindE (read_text f p) (\<lambda>s.
        (let content = rewrite_imports s import_paths (man_owners man) defaults
         in Inr (if content \<noteq> s then AList.update p content writes else writes))))"

text \<open>The three kinds of rewriting of the reviewed consumers.\<close>

definition rewrite_paths :: "texts \<Rightarrow> string \<Rightarrow> string" where
  "rewrite_paths import_paths content = fold (\<lambda>(old, new).
     replace_str (''compiler/src/'' @ old @ ''.trb'') (''compiler/src/'' @ new @ ''.trb'')) import_paths content"

definition from_rx :: "string \<Rightarrow> rx" where
  "from_rx old = seqs [Behind ''from '', lit old, Peek (Alt (Cls (chr_cls [NL, CHR 0x27, DQ])) (Seq (chr BSL) (lit ''n'')))]"

definition rewrite_modules :: "texts \<Rightarrow> string \<Rightarrow> string" where
  "rewrite_modules import_paths content = fold (\<lambda>(old, new). sub_with (from_rx old) (\<lambda>m gs. new)) import_paths content"

definition find_module_call :: "string \<Rightarrow> string" where
  "find_module_call name = ''find_module(state, '' @ [DQ] @ name @ [DQ] @ '')''"

definition rewrite_lookups :: "texts \<Rightarrow> string list \<Rightarrow> string \<Rightarrow> string res" where
  "rewrite_lookups modules names content = foldE (\<lambda>content name.
     bindE (text_of modules name) (\<lambda>target.
     Inr (replace_str (find_module_call name) (find_module_call target) content))) content names"

definition lookups_of :: "layout_manifest \<Rightarrow> string \<Rightarrow> string list" where
  "lookups_of man name = (case map_of (man_lookup_consumers man) name of None \<Rightarrow> [] | Some ns \<Rightarrow> ns)"

definition plan_consumer :: "fs \<Rightarrow> path \<Rightarrow> layout_manifest \<Rightarrow> texts \<Rightarrow> (path \<times> string) list \<Rightarrow> string \<Rightarrow> (path \<times> string) list res" where
  "plan_consumer f repo man import_paths writes name =
     (let p = joinp repo name in
      bindE (read_text f p) (\<lambda>original.
      (let c0 = (case map_of writes p of None \<Rightarrow> original | Some c \<Rightarrow> c);
           c1 = (if name \<in> set (man_path_consumers man) then rewrite_paths import_paths c0 else c0);
           c2 = (if name \<in> set (man_module_consumers man) then rewrite_modules import_paths c1 else c1)
       in bindE (rewrite_lookups (man_modules man) (lookups_of man name) c2) (\<lambda>content.
          Inr (if content \<noteq> original then AList.update p content writes else writes)))))"

definition consumers :: "layout_manifest \<Rightarrow> string list" where
  "consumers man = sort (remdups (man_path_consumers man @ man_module_consumers man @ map fst (man_lookup_consumers man)))"

definition trb_files :: "fs \<Rightarrow> path \<Rightarrow> path list" where
  "trb_files f d = filter (suffix_is ''.trb'') (rglob f d)"

definition plan_migration :: "fs \<Rightarrow> path \<Rightarrow> layout_manifest \<Rightarrow> edits res" where
  "plan_migration f repo man =
     bindE (foldE (alias_step (man_modules man)) (man_modules man, man_defaults man) (man_previous man))
       (\<lambda>(import_paths, defaults).
     if \<not> assignments_ok (man_modules man) then Inl (ValueError ''invalid or colliding module assignments'')
     else bindE (foldE (load_source f repo man) ([], []) (trb_files f (src_dir repo))) (\<lambda>(sources, originals).
       if list_ex (\<lambda>name. name \<notin> set (map fst sources) \<and> name \<notin> set (new_owners (man_owners man))) (map fst (man_modules man))
       then Inl (ValueError ''missing assigned compiler modules'')
       else bindE (extract_checker sources (man_owners man)) (\<lambda>sources'.
         bindE (foldE (plan_source f repo man import_paths defaults originals) ([], []) sources') (\<lambda>(w1, removals).
         bindE (foldE (plan_cli f repo man import_paths defaults) w1 (trb_files f (repo @ [''compiler'', ''cli'']))) (\<lambda>w2.
         bindE (foldE (plan_consumer f repo man import_paths) w2 (consumers man)) (\<lambda>w3.
         Inr (w3, removals)))))))"

section \<open>Applying the plan\<close>

text \<open>The file system after the run, and what the run returns or raises: a failure leaves the edits
  made before it.\<close>

fun run_edits :: "(fs \<Rightarrow> 'a \<Rightarrow> fs res) \<Rightarrow> fs \<Rightarrow> 'a list \<Rightarrow> fs \<times> unit res" where
  "run_edits op f [] = (f, Inr ())"
| "run_edits op f (x # xs) = (case op f x of Inl e \<Rightarrow> (f, Inl e) | Inr g \<Rightarrow> run_edits op g xs)"

definition apply_migration :: "fs \<Rightarrow> path \<Rightarrow> layout_manifest \<Rightarrow> fs \<times> (nat \<times> nat) res" where
  "apply_migration f repo man = (case plan_migration f repo man of
      Inl e \<Rightarrow> (f, Inl e)
    | Inr (writes, removals) \<Rightarrow>
        (case run_edits (\<lambda>f (p, s). put_file f p s) f writes of
           (g, Inl e) \<Rightarrow> (g, Inl e)
         | (g, Inr u) \<Rightarrow> (case run_edits unlink g removals of
              (h, Inl e) \<Rightarrow> (h, Inl e)
            | (h, Inr v) \<Rightarrow> (h, Inr (length writes, length removals)))))"

text \<open>The recovery inventories are synchronised by a child process; any of its failures is a failed
  process here.\<close>

definition sync_recovery :: "fs \<Rightarrow> path \<Rightarrow> layout_manifest \<Rightarrow> fs \<times> unit res" where
  "sync_recovery f repo man = (case recovery_main f repo True (Some (man_modules man, man_previous man)) of
      (g, Inr (code, out)) \<Rightarrow> (g, if code = 0 then Inr () else Inl (SubprocessError (int code)))
    | (g, Inl e) \<Rightarrow> (g, Inl (SubprocessError 1)))"

definition reported :: "pyerr \<Rightarrow> (nat \<times> string) res" where
  "reported e = (if is_ValueError e \<or> is_OSError e then Inr (1, ''Compiler layout: failed'') else Inl e)"

definition migrate_main :: "fs \<Rightarrow> path \<Rightarrow> layout_manifest \<Rightarrow> bool \<Rightarrow> fs \<times> (nat \<times> string) res" where
  "migrate_main f repo man do_write =
     (if do_write
      then (case apply_migration f repo man of
          (g, Inl e) \<Rightarrow> (g, reported e)
        | (g, Inr (written, removed)) \<Rightarrow>
            (case (if man_sync man then sync_recovery g repo man else (g, Inr ())) of
               (h, Inl e) \<Rightarrow> (h, reported e)
             | (h, Inr u) \<Rightarrow> (h, Inr (0, ''Compiler layout: wrote '' @ show_nat written @ '' files, removed '' @
                   show_nat removed @ '' old paths''))))
      else (f, case plan_migration f repo man of
          Inl e \<Rightarrow> reported e
        | Inr (writes, removals) \<Rightarrow>
            if writes \<noteq> [] \<or> removals \<noteq> []
            then Inr (1, ''Compiler layout needs migration: '' @ show_nat (length writes) @ '' writes, '' @
                   show_nat (length removals) @ '' old paths'')
            else Inr (0, ''Compiler layout migration is already applied'')))"

section \<open>What the extraction does\<close>

lemma match_at_Some:
  assumes "match_at r p = Some (m, q)"
  shows "pos_rest p = m @ pos_rest q"
proof -
  from assms obtain qs where "mt r (p\<lparr>pos_groups := []\<rparr>) = q # qs"
    and m: "m = rev (take (length (pos_before q) - length (pos_before p)) (pos_before q))"
    by (auto simp: match_at_def split: list.splits)
  with mt_later [of q r "p\<lparr>pos_groups := []\<rparr>"] have "later (p\<lparr>pos_groups := []\<rparr>) q" by simp
  then show ?thesis by (auto simp: later_def m)
qed

lemma search_from_Some: "search_from r b s = Some (m, q) \<Longrightarrow> \<exists>u. s = u @ m @ pos_rest q"
  by (induction r b s rule: search_from.induct)
    (force dest: match_at_Some simp: Cons_eq_append_conv split: option.splits)+

lemma scan_concat:
  "scan n r b s = (ms, tail) \<Longrightarrow> concat (map (\<lambda>(u, m, gs). u @ m) ms) @ tail = s"
proof (induction n r b s arbitrary: ms tail rule: scan.induct)
  case (2 n r b s)
  show ?case
  proof (cases "search_from r b s")
    case (Some mq)
    obtain m q where mq: "mq = (m, q)" by (cases mq)
    from search_from_Some [OF Some [unfolded mq]] obtain u where s: "s = u @ m @ pos_rest q" by blast
    show ?thesis
    proof (cases "length (pos_rest q) < length s")
      case True
      obtain ms' tail' where rec: "scan n r (pos_before q) (pos_rest q) = (ms', tail')" by fastforce
      from 2(2) Some mq True rec s have "ms = (u, m, pos_groups q) # ms'" "tail = tail'" by (auto simp: Let_def)
      with 2(1) [OF Some mq [symmetric] True refl rec] s show ?thesis by simp
    qed (use 2(2) Some mq in simp)
  qed (use 2(2) in simp)
qed simp

lemma pieces_concat:
  "ms \<noteq> [] \<Longrightarrow> fst (hd ms) @ concat (map snd (function_pieces ms tail)) = concat (map (\<lambda>(u, m, gs). u @ m) ms) @ tail"
  by (induction ms tail rule: function_pieces.induct) auto

lemma pieces_names: "map fst (function_pieces ms tail) = map (\<lambda>(u, m, gs). grp_text 1 gs) ms"
  by (induction ms tail rule: function_pieces.induct) auto

text \<open>The text of all functions an owner takes over.\<close>

definition owned :: "texts \<Rightarrow> (string \<times> string) list \<Rightarrow> string \<Rightarrow> string list" where
  "owned owners pieces owner = map snd (filter (\<lambda>(name, t). map_of owners name = Some owner) pieces)"

lemma owned_snoc: "owned owners (ps @ [x]) o1 = owned owners ps o1 @ (if map_of owners (fst x) = Some o1 then [snd x] else [])"
  by (cases x) (simp add: owned_def)

lemma map_of_append_to:
  "map_of (append_to k v d) j = (if j = k then Some ((case map_of d k of None \<Rightarrow> [] | Some vs \<Rightarrow> vs) @ [v]) else map_of d j)"
  by (simp add: append_to_def update_conv')

lemma text_of_iff: "text_of d k = Inr s \<longleftrightarrow> map_of d k = Some s"
  by (auto simp: text_of_def split: option.splits)

lemma grouped_owned:
  assumes "foldE (group_piece owners) [] pieces = Inr grouped"
  shows "distinct (map fst grouped) \<and>
    (\<forall>owner. map_of grouped owner = (if owned owners pieces owner = [] then None else Some (owned owners pieces owner)))"
  using assms
proof (rule foldE_prefix_invariant)
  fix ys x u v
  assume u: "distinct (map fst u) \<and> (\<forall>owner. map_of u owner = (if owned owners ys owner = [] then None else Some (owned owners ys owner)))"
    and "group_piece owners u x = Inr v"
  then obtain o1 where o1: "map_of owners (fst x) = Some o1" "v = append_to o1 (snd x) u"
    by (auto simp: group_piece_def bindE_Inr_iff text_of_iff)
  have "distinct (map fst v)" using u by (simp add: o1(2) append_to_def distinct_update)
  moreover have "map_of v owner = (if owned owners (ys @ [x]) owner = [] then None else Some (owned owners (ys @ [x]) owner))" for owner
    using u o1 by (simp add: map_of_append_to owned_snoc)
  ultimately show "distinct (map fst v) \<and> (\<forall>owner. map_of v owner =
      (if owned owners (ys @ [x]) owner = [] then None else Some (owned owners (ys @ [x]) owner)))" by blast
qed (simp add: owned_def)

definition kept_body :: "texts \<Rightarrow> string \<Rightarrow> string" where
  "kept_body sources owner = (if owner = checker then [] else snd (split_header (sources_get sources owner)))"

lemma placed:
  "foldE (place_owner pool) sources grouped = Inr sources' \<Longrightarrow> distinct (map fst grouped) \<Longrightarrow>
    (case map_of grouped owner of
       None \<Rightarrow> map_of sources' owner = map_of sources owner
     | Some fragments \<Rightarrow> \<exists>header. map_of sources' owner = Some (header @ owner_body (kept_body sources owner) fragments))"
proof (induction grouped arbitrary: sources)
  case (Cons row grouped)
  obtain o1 fr where row: "row = (o1, fr)" by (cases row)
  obtain h b where hb: "(if o1 = checker then ([], []) else split_header (sources_get sources o1)) = (h, b)" by fastforce
  then have b: "b = kept_body sources o1" by (auto simp: kept_body_def split: if_splits)
  from Cons.prems(1) obtain s1 where step: "place_owner pool sources row = Inr s1"
    and rest: "foldE (place_owner pool) s1 grouped = Inr sources'"
    by (auto simp: bindE_Inr_iff)
  from step hb row obtain pool' where s1: "s1 = AList.update o1 (owner_text o1 (owner_body b fr) pool') sources"
    by (auto simp: place_owner_def bindE_Inr_iff)
  from Cons.prems(2) row have d: "distinct (map fst grouped)" "o1 \<notin> fst ` set grouped" by auto
  note ih = Cons.IH [OF rest d(1)]
  show ?case
  proof (cases "owner = o1")
    case True
    then have "map_of grouped owner = None" using d(2) by (simp add: map_of_eq_None_iff)
    with ih have "map_of sources' owner = Some (owner_text o1 (owner_body b fr) pool')" by (simp add: s1 True update_conv')
    then show ?thesis using row True b by (force simp: owner_text_def Let_def)
  next
    case False
    then have "map_of s1 owner = map_of sources owner" by (simp add: s1 update_conv')
    then have "kept_body s1 owner = kept_body sources owner" by (simp add: kept_body_def sources_get_def)
    with ih \<open>map_of s1 owner = _\<close> row False show ?thesis by (simp split: option.splits)
  qed
qed simp


definition demo_checker_owners :: texts where
  "demo_checker_owners = [(''keep'', checker), (''call'', ''callable''), (''lam'', ''lambda_checking'')]"

definition demo_checker_sources :: texts where
  "demo_checker_sources = [(checker, ''import { run } from driver'' @ [NL, NL] @ ''def call()'' @ [NL] @ '' run'' @ [NL] @
     ''end'' @ [NL, NL] @ ''def keep()'' @ [NL] @ ''end'' @ [NL] @ ''def lam(a)'' @ [NL] @ '' call'' @ [NL]),
    (''lambda_checking'', ''def old()'' @ [NL])]"

definition demo_checker_body :: string where
  "demo_checker_body = snd (split_header (the (map_of demo_checker_sources checker)))"

definition demo_checker_pieces :: "(string \<times> string) list" where
  "demo_checker_pieces = (let (ms, tail) = scan (length demo_checker_body) FUNCTION [] demo_checker_body in function_pieces ms tail)"

lemma demo_extraction_runs:
  "case extract_checker demo_checker_sources demo_checker_owners of Inl e \<Rightarrow> False | Inr s \<Rightarrow> True"
  "map fst demo_checker_pieces = [''call'', ''keep'', ''lam'']"
  "owned demo_checker_owners demo_checker_pieces ''callable'' = [''def call()'' @ [NL] @ '' run'' @ [NL] @ ''end'' @ [NL, NL]]"
  by code_simp+


section \<open>What a planned edit touches\<close>

lemma plan_source_keys:
  assumes "plan_source f repo man ip df originals (w, r) x = Inr (w', r')"
  shows "distinct (map fst w) \<Longrightarrow> distinct (map fst w')"
    "p \<in> fst ` set w' \<Longrightarrow> p \<in> fst ` set w \<or> \<not> path_exists f p \<or> p \<in> snd ` set originals"
    "p \<in> set r' \<Longrightarrow> p \<in> set r \<or> p \<in> snd ` set originals"
proof -
  obtain name source where x: "x = (name, source)" by (cases x)
  from assms obtain target changed where
    ok: "\<not> (path_exists f (destination_of repo target) \<and> map_of originals name \<noteq> Some (destination_of repo target))"
    and w': "w' = (if changed then AList.update (destination_of repo target)
        (rewrite_imports source ip (man_owners man) df) w else w)"
    and r': "r' = (case map_of originals name of None \<Rightarrow> r
      | Some p \<Rightarrow> if p \<noteq> destination_of repo target then r @ [p] else r)"
    unfolding plan_source_def x Let_def prod.case bindE_Inr_iff if_Inr_iff by (auto simp: bindE_Inr_iff)
  show "distinct (map fst w) \<Longrightarrow> distinct (map fst w')" by (simp add: w' distinct_update)
  show "p \<in> fst ` set w' \<Longrightarrow> p \<in> fst ` set w \<or> \<not> path_exists f p \<or> p \<in> snd ` set originals"
    using ok by (auto simp: w' keys_update dest!: map_of_SomeD intro: rev_image_eqI split: if_splits)
  show "p \<in> set r' \<Longrightarrow> p \<in> set r \<or> p \<in> snd ` set originals"
    by (force simp: r' dest: map_of_SomeD split: option.splits if_splits)
qed

lemma load_source_paths:
  assumes "load_source f repo man st rel = Inr st'"
  shows "snd ` set (snd st') \<subseteq> snd ` set (snd st) \<union> {src_dir repo @ rel}"
  using assms unfolding load_source_def
  by (cases st) (auto simp: Let_def bindE_Inr_iff if_Inr_iff split: option.splits)

definition planned_over :: "fs \<Rightarrow> path set \<Rightarrow> (path \<times> string) list \<Rightarrow> bool" where
  "planned_over f inputs w \<longleftrightarrow> distinct (map fst w) \<and> (\<forall>p \<in> fst ` set w. path_exists f p \<longrightarrow> p \<in> inputs)"

lemma planned_over_update:
  "planned_over f inputs w \<Longrightarrow> p \<in> inputs \<Longrightarrow> planned_over f inputs (AList.update p s w)"
  by (auto simp: planned_over_def distinct_update keys_update)

text \<open>The files the migration may change: compiler sources, CLI sources and the reviewed consumers.\<close>

definition migration_inputs :: "fs \<Rightarrow> path \<Rightarrow> layout_manifest \<Rightarrow> path set" where
  "migration_inputs f repo man =
     (\<lambda>rel. src_dir repo @ rel) ` set (trb_files f (src_dir repo)) \<union>
     (\<lambda>rel. repo @ [''compiler'', ''cli''] @ rel) ` set (trb_files f (repo @ [''compiler'', ''cli''])) \<union>
     joinp repo ` set (consumers man)"

lemma planned_edits:
  assumes "plan_migration f repo man = Inr (writes, removals)"
  shows "planned_over f (migration_inputs f repo man) writes \<and>
    set removals \<subseteq> (\<lambda>rel. src_dir repo @ rel) ` set (trb_files f (src_dir repo))"
proof -
  let ?src = "(\<lambda>rel. src_dir repo @ rel) ` set (trb_files f (src_dir repo))"
  let ?inputs = "migration_inputs f repo man"
  from assms obtain ip df sources originals sources' w1 r1 w2 where
    load: "foldE (load_source f repo man) ([], []) (trb_files f (src_dir repo)) = Inr (sources, originals)"
    and src: "foldE (plan_source f repo man ip df originals) ([], []) sources' = Inr (w1, r1)"
    and cli: "foldE (plan_cli f repo man ip df) w1 (trb_files f (repo @ [''compiler'', ''cli''])) = Inr w2"
    and con: "foldE (plan_consumer f repo man ip) w2 (consumers man) = Inr writes"
    and r1: "removals = r1"
    by (auto simp: plan_migration_def bindE_Inr_iff if_Inr_iff)
  have origins: "snd ` set originals \<subseteq> ?src"
  proof -
    have "snd ` set (snd (sources, originals)) \<subseteq> ?src"
      using load
    proof (rule foldE_invariant [where P = "\<lambda>st. snd ` set (snd st) \<subseteq> ?src"])
      fix x u v assume "x \<in> set (trb_files f (src_dir repo))" "snd ` set (snd u) \<subseteq> ?src"
        "load_source f repo man u x = Inr v"
      with load_source_paths [of f repo man u x v] show "snd ` set (snd v) \<subseteq> ?src" by auto
    qed simp
    then show ?thesis by simp
  qed
  have step1: "planned_over f ?inputs (fst (w1, r1)) \<and> set (snd (w1, r1)) \<subseteq> ?src"
    using src
  proof (rule foldE_invariant [where P = "\<lambda>st. planned_over f ?inputs (fst st) \<and> set (snd st) \<subseteq> ?src"])
    fix x u v assume u: "planned_over f ?inputs (fst u) \<and> set (snd u) \<subseteq> ?src"
      and step: "plan_source f repo man ip df originals u x = Inr v"
    obtain w r w' r' where uv: "u = (w, r)" "v = (w', r')" by (cases u, cases v)
    note k = plan_source_keys [OF step [unfolded uv]]
    have "?src \<subseteq> ?inputs" by (auto simp: migration_inputs_def)
    have "planned_over f ?inputs w'"
      unfolding planned_over_def
    proof (intro conjI ballI impI)
      show "distinct (map fst w')" using k(1) u by (simp add: planned_over_def uv)
      fix p assume p: "p \<in> fst ` set w'" "path_exists f p"
      from k(2) [OF p(1)] p(2) have "p \<in> fst ` set w \<or> p \<in> snd ` set originals" by blast
      then show "p \<in> ?inputs"
      proof
        assume "p \<in> fst ` set w"
        with u p(2) show ?thesis unfolding planned_over_def uv fst_conv by blast
      next
        assume "p \<in> snd ` set originals"
        with origins \<open>?src \<subseteq> ?inputs\<close> show ?thesis by blast
      qed
    qed
    moreover have "set r' \<subseteq> ?src"
    proof
      fix p assume "p \<in> set r'"
      from k(3) [OF this] u origins show "p \<in> ?src" unfolding uv snd_conv by blast
    qed
    ultimately show "planned_over f ?inputs (fst v) \<and> set (snd v) \<subseteq> ?src" by (simp add: uv)
  qed (simp add: planned_over_def)
  have step2: "planned_over f ?inputs w2"
    using cli
  proof (rule foldE_invariant [where P = "planned_over f ?inputs"])
    fix x u v assume x: "x \<in> set (trb_files f (repo @ [''compiler'', ''cli'']))" and u: "planned_over f ?inputs u"
      and step: "plan_cli f repo man ip df u x = Inr v"
    from x have "repo @ [''compiler'', ''cli''] @ x \<in> ?inputs" by (auto simp: migration_inputs_def)
    from planned_over_update [OF u this] u step show "planned_over f ?inputs v"
      by (auto simp: plan_cli_def Let_def bindE_Inr_iff split: if_splits)
  qed (use step1 in simp)
  have step3: "planned_over f ?inputs writes"
    using con
  proof (rule foldE_invariant [where P = "planned_over f ?inputs"])
    fix x u v assume x: "x \<in> set (consumers man)" and u: "planned_over f ?inputs u"
      and step: "plan_consumer f repo man ip u x = Inr v"
    from x have "joinp repo x \<in> ?inputs" by (auto simp: migration_inputs_def)
    from planned_over_update [OF u this] u step show "planned_over f ?inputs v"
      unfolding plan_consumer_def Let_def bindE_Inr_iff by auto
  qed (rule step2)
  show ?thesis using step1 step3 by (simp add: r1)
qed


section \<open>The loop over the parents\<close>

text \<open>\<open>while parent != directory\<close>, as it is written: it would not end at a path outside the directory.\<close>

partial_function (option) parent_loop :: "fs \<Rightarrow> path \<Rightarrow> path \<Rightarrow> bool option" where
  "parent_loop f dir parent =
     (if parent = dir then Some False
      else if blocked_parent f parent then Some True
      else parent_loop f dir (butlast parent))"

lemma parent_loop_below:
  "parent_loop f dir (dir @ parts) = Some (list_ex (blocked_parent f) (map (\<lambda>k. dir @ take k parts) (rev [1..<Suc (length parts)])))"
proof (induction parts rule: rev_induct)
  case (snoc c parts)
  have eq: "map (\<lambda>k. dir @ take k (parts @ [c])) (rev [1..<Suc (length (parts @ [c]))]) =
      (dir @ parts @ [c]) # map (\<lambda>k. dir @ take k parts) (rev [1..<Suc (length parts)])"
    by (auto intro!: map_cong)
  show ?case
    unfolding eq using snoc by (subst parent_loop.simps) (simp add: butlast_append del: upt_Suc)
qed (simp add: parent_loop.simps)

lemma set_join: "set (join sep ws) \<subseteq> set sep \<union> (\<Union>w \<in> set ws. set w)"
  by (induction sep ws rule: join.induct) auto

lemma trb_parts: "pure_parts (target @ ''.trb'') \<noteq> []"
proof
  assume "pure_parts (target @ ''.trb'') = []"
  then have "\<forall>w \<in> set (split_chr (CHR ''/'') (target @ ''.trb'')). w = [] \<or> w = ''.''"
    by (auto simp: pure_parts_def filter_empty_conv)
  then have "set w \<subseteq> {CHR ''.''}" if "w \<in> set (split_chr (CHR ''/'') (target @ ''.trb''))" for w using that by fastforce
  then have "(\<Union>w \<in> set (split_chr (CHR ''/'') (target @ ''.trb'')). set w) \<subseteq> {CHR ''.''}" by blast
  with set_join [of "''/''" "split_chr (CHR ''/'') (target @ ''.trb'')"]
  have "set (target @ ''.trb'') \<subseteq> {CHR ''/'', CHR ''.''}" unfolding join_split_chr by (simp only: list.set) blast
  then show False by simp
qed

lemma module_relative:
  assumes "fullmatch MODULE target"
  shows "\<not> is_absolute (target @ e)"
proof -
  from assms obtain q where "q \<in> set (mt MODULE (start_pos target))" by (auto simp: fullmatch_def)
  then have "\<exists>c s. target = c # s \<and> in_cls lower_cls c"
    by (auto simp: MODULE_def Let_def advance_def start_pos_def split: list.splits if_splits)
  then show ?thesis by (auto simp: is_absolute_def in_cls_def lower_cls_def)
qed

text \<open>C33. The walk over the parents of a destination always ends: for every valid module path it returns, and
  what it returns is whether one of the directories strictly between the source directory and the
  file is a link or no directory.\<close>

theorem parent_loop_terminates:
  assumes "fullmatch MODULE target"
  shows "parent_loop f (src_dir repo) (butlast (destination_of repo target)) =
    Some (list_ex (blocked_parent f) (parents_below (src_dir repo) target))"
proof -
  have "butlast (destination_of repo target) = src_dir repo @ butlast (pure_parts (target @ ''.trb''))"
    using trb_parts [of target] module_relative [OF assms, of "''.trb''"] by (simp add: destination_of_def joinp_def butlast_append)
  then show ?thesis by (simp only: parent_loop_below parents_below_def Let_def)
qed

lemma parent_loop_terminates_witness:
  "parent_loop [] (src_dir []) (butlast (destination_of [] ''mir/model/types'')) = Some False"
proof -
  have m: "fullmatch MODULE ''mir/model/types''" by code_simp
  have "list_ex (blocked_parent []) (parents_below (src_dir []) ''mir/model/types'') = False" by code_simp
  with parent_loop_terminates [OF m, of "[]" "[]"] show ?thesis by simp
qed

definition demo_manifest :: layout_manifest where
  "demo_manifest = \<lparr>man_modules = [(checker, ''frontend/check''), (''util'', ''support/util'')], man_owners = [],
     man_previous = [], man_defaults = [], man_path_consumers = [''build.sh''], man_module_consumers = [],
     man_lookup_consumers = [], man_sync = False\<rparr>"

definition demo_tree :: fs where
  "demo_tree = [
    ([''compiler''], NDir), ([''compiler'', ''src''], NDir), ([''compiler'', ''cli''], NDir),
    ([''compiler'', ''src'', ''util.trb''], NFile (''def run()'' @ [NL]) 420),
    ([''compiler'', ''src'', ''checked_program.trb''], NFile (''import { run } from util'' @ [NL, NL] @ ''run'' @ [NL]) 420),
    ([''compiler'', ''cli'', ''main.trb''], NFile (''import { run } from util'' @ [NL]) 420),
    ([''build.sh''], NFile ''cp compiler/src/util.trb out'' 420)]"

definition demo_edits :: edits where
  "demo_edits = (
    [([''compiler'', ''src'', ''frontend'', ''check.trb''], ''import { run } from support/util'' @ [NL, NL] @ ''run'' @ [NL]),
     ([''compiler'', ''src'', ''support'', ''util.trb''], ''def run()'' @ [NL]),
     ([''compiler'', ''cli'', ''main.trb''], ''import { run } from support/util'' @ [NL]),
     ([''build.sh''], ''cp compiler/src/support/util.trb out'')],
    [[''compiler'', ''src'', ''checked_program.trb''], [''compiler'', ''src'', ''util.trb'']])"

lemma demo_plan: "plan_migration demo_tree [] demo_manifest = Inr demo_edits"
  by code_simp


section \<open>What an applied migration leaves\<close>

definition real_target :: "path \<Rightarrow> bool" where
  "real_target p \<longleftrightarrow> p \<noteq> [] \<and> list_all plain_name p"

lemma run_writes:
  "run_edits (\<lambda>f (p, s). put_file f p s) f ws = (g, Inr u) \<Longrightarrow> no_links f \<Longrightarrow> list_all (real_target \<circ> fst) ws \<Longrightarrow>
   distinct (map fst ws) \<Longrightarrow>
   no_links g \<and> (\<forall>q s. map_of ws q = Some s \<longrightarrow> read_bytes g q = Inr s) \<and>
   (\<forall>q. q \<notin> fst ` set ws \<longrightarrow> look g q = look f q \<or> look f q = None \<and> look g q = Some NDir)"
proof (induction ws arbitrary: f)
  case (Cons w ws)
  obtain p s where w: "w = (p, s)" by (cases w)
  from Cons.prems w obtain f1 where f1: "put_file f p s = Inr f1"
    and rest: "run_edits (\<lambda>f (p, s). put_file f p s) f1 ws = (g, Inr u)"
    by (auto split: sum.splits)
  have pl: "list_all plain_name p" "p \<noteq> []" using Cons.prems(3) w by (auto simp: real_target_def)
  note put = put_file_plain [OF Cons.prems(2) pl f1]
  have ih: "no_links g" "\<forall>q s. map_of ws q = Some s \<longrightarrow> read_bytes g q = Inr s"
    "\<forall>q. q \<notin> fst ` set ws \<longrightarrow> look g q = look f1 q \<or> look f1 q = None \<and> look g q = Some NDir"
    using Cons.IH [OF rest put(1)] Cons.prems(3,4) by auto
  have np: "p \<notin> fst ` set ws" using Cons.prems(4) w by auto
  from put(2) obtain m where "look f1 p = Some (NFile s m)" by (auto simp: read_bytes_plain [OF put(1) pl(1)])
  with ih(3) np have "look g p = Some (NFile s m)" by auto
  then have p: "read_bytes g p = Inr s" by (simp add: read_bytes_plain [OF ih(1) pl(1)])
  have "look g q = look f q \<or> look f q = None \<and> look g q = Some NDir" if "q \<notin> fst ` set (w # ws)" for q
    using ih(3) put(4) [of q] that w by (auto split: if_splits)
  with ih(1,2) p w np show ?case by (auto simp: map_of_eq_None_iff)
qed simp

lemma unlink_plain:
  assumes "no_links f" "real_target p" "unlink f p = Inr g"
  shows "no_links g" "look f p \<noteq> Some NDir" "look g q = (if q = p then None else look f q)"
proof -
  from assms(2) have b: "list_all plain_name (butlast p)" "butlast p @ [path_name p] = p" "p \<noteq> []"
    by (auto simp: real_target_def path_name_def intro: list_all_butlast)
  with assms(3) have g: "g = AList.delete p f" "look f p \<noteq> Some NDir"
    by (auto simp: unlink_def real_path_plain [OF assms(1)] split: option.splits node.splits)
  then show "look f p \<noteq> Some NDir" "look g q = (if q = p then None else look f q)" using b(3) by (simp_all add: look_delete)
  show "no_links g" using assms(1) b(3) by (simp add: no_links_def g(1) look_delete)
qed

lemma run_unlinks:
  "run_edits unlink f ps = (g, Inr u) \<Longrightarrow> no_links f \<Longrightarrow> list_all real_target ps \<Longrightarrow>
   no_links g \<and> (\<forall>q. look g q = (if q \<in> set ps then None else look f q))"
proof (induction ps arbitrary: f)
  case (Cons p ps)
  from Cons.prems obtain f1 where f1: "unlink f p = Inr f1" and rest: "run_edits unlink f1 ps = (g, Inr u)"
    by (auto split: sum.splits)
  have "real_target p" using Cons.prems(3) by simp
  note un = unlink_plain [OF Cons.prems(2) this f1]
  show ?case using Cons.IH [OF rest un(1)] Cons.prems(3) un(3) by auto
qed simp

text \<open>C32. An applied migration leaves exactly the plan: the counts it reports are those of the plan, every removed
  path is gone, every other planned path holds its planned text, and every path the plan does not
  name is as it was, except for new directories.\<close>

theorem applied_exactly:
  assumes "no_links f" "plan_migration f repo man = Inr (writes, removals)"
    and "list_all real_target (map fst writes @ removals)"
    and "apply_migration f repo man = (g, Inr counts)"
  shows "counts = (length writes, length removals) \<and>
    (if q \<in> set removals then look g q = None
     else case map_of writes q of Some s \<Rightarrow> read_bytes g q = Inr s
       | None \<Rightarrow> look g q = look f q \<or> look f q = None \<and> look g q = Some NDir)"
proof -
  from assms(4) obtain h u v where h: "run_edits (\<lambda>f (p, s). put_file f p s) f writes = (h, Inr u)"
    and g: "run_edits unlink h removals = (g, Inr v)" and c: "counts = (length writes, length removals)"
    by (auto simp: apply_migration_def assms(2) split: prod.splits sum.splits)
  have t: "list_all (real_target \<circ> fst) writes" "list_all real_target removals"
    using assms(3) by (auto simp: list_all_iff)
  have w: "no_links h" "\<forall>q s. map_of writes q = Some s \<longrightarrow> read_bytes h q = Inr s"
    "\<forall>q. q \<notin> fst ` set writes \<longrightarrow> look h q = look f q \<or> look f q = None \<and> look h q = Some NDir"
    using run_writes [OF h assms(1) t(1) conjunct1 [OF planned_edits [OF assms(2), unfolded planned_over_def], THEN conjunct1]] by auto
  note r = run_unlinks [OF g w(1) t(2)]
  show ?thesis
  proof (cases "map_of writes q")
    case None
    then have "q \<notin> fst ` set writes" by (simp add: map_of_eq_None_iff)
    with r w(3) None c show ?thesis by auto
  next
    case (Some s)
    then have "real_target q" using t(1) by (force simp: list_all_iff dest: map_of_SomeD)
    then have pl: "list_all plain_name q" by (simp add: real_target_def)
    have "read_bytes h q = Inr s" using w(2) Some by blast
    then obtain m where "look h q = Some (NFile s m)" by (auto simp: read_bytes_plain [OF w(1) pl])
    with r have "q \<notin> set removals \<Longrightarrow> read_bytes g q = Inr s" by (auto simp: read_bytes_plain [OF _ pl])
    with r Some c show ?thesis by auto
  qed
qed

lemma demo_applied: "case apply_migration demo_tree [] demo_manifest of (g, Inr n) \<Rightarrow> True | (g, Inl e) \<Rightarrow> False"
  by code_simp

lemma applied_exactly_witness:
  "\<exists>g. apply_migration demo_tree [] demo_manifest = (g, Inr (4, 2)) \<and>
     look g [''compiler'', ''src'', ''util.trb''] = None \<and>
     read_bytes g [''build.sh''] = Inr ''cp compiler/src/support/util.trb out''"
proof -
  from demo_applied obtain g n where g: "apply_migration demo_tree [] demo_manifest = (g, Inr n)"
    by (cases "apply_migration demo_tree [] demo_manifest") (auto split: sum.splits)
  have l: "no_links demo_tree" by (rule no_links_list) code_simp
  have p: "plan_migration demo_tree [] demo_manifest = Inr (fst demo_edits, snd demo_edits)" by (simp add: demo_plan)
  have t: "list_all real_target (map fst (fst demo_edits) @ snd demo_edits)" by code_simp
  note x = applied_exactly [OF l p t g]
  have "n = (4, 2)" using x by (simp add: demo_edits_def)
  moreover have "look g [''compiler'', ''src'', ''util.trb''] = None"
    using x [of "[''compiler'', ''src'', ''util.trb'']"] by (simp add: demo_edits_def)
  moreover have "read_bytes g [''build.sh''] = Inr ''cp compiler/src/support/util.trb out''"
    using x [of "[''build.sh'']"] by (simp add: demo_edits_def)
  ultimately show ?thesis using g by simp
qed

end
