(* ===== verification/RepresentativeMeasure.thy ===== *)
theory RepresentativeMeasure
  imports PyNum PyJsonText PyPath
begin

text \<open>
  \<open>tools/representative-performance/measure.py\<close>, apart from running the programs: the cases of a
  profile, nearest-rank percentiles, the classification of an observation and the summary of the
  observations of one program.
\<close>

section \<open>Cases of a profile\<close>

text \<open>\<open>d[v]\<close> and \<open>d.get(v, e)\<close> of a dictionary for a key that need not be a string.\<close>

definition item_by :: "json \<Rightarrow> json \<Rightarrow> json res" where
  "item_by d v = (case v of JStr k \<Rightarrow> item d k
     | _ \<Rightarrow> if is_dict d \<and> hashable v then Inl (KeyError []) else Inl TypeError)"

definition get_by :: "json \<Rightarrow> json \<Rightarrow> json \<Rightarrow> json res" where
  "get_by d v e = (case v of JStr k \<Rightarrow> getd d k e
     | _ \<Rightarrow> if \<not> is_dict d then Inl AttributeError else if hashable v then Inr e else Inl TypeError)"

definition case_batches :: "json \<Rightarrow> json \<Rightarrow> json res" where
  "case_batches policy c =
     bindE (item c ''batches'') (\<lambda>batches.
     bindE (getd policy ''caseMultipliers'' (JDict [])) (\<lambda>multipliers.
     bindE (item c ''id'') (\<lambda>name.
     bindE (item policy ''batchMultipliers'') (\<lambda>sizes. bindE (item c ''size'') (\<lambda>size.
     bindE (item_by sizes size) (\<lambda>default.
     bindE (get_by multipliers name default) (\<lambda>factor.
     num_mulE batches factor)))))))"

definition scaled_case :: "json \<Rightarrow> json \<Rightarrow> json res" where
  "scaled_case policy c = bindE (case_batches policy c) (\<lambda>batches. dict_set ''batches'' batches c)"

definition case_id :: "json \<Rightarrow> json res" where
  "case_id c = item c ''id''"

definition chosen_cases :: "json list \<Rightarrow> string list \<Rightarrow> json list res" where
  "chosen_cases cases selected =
     bindE (bindE (mapE case_id cases) hashE) (\<lambda>known.
     if \<not> (\<forall>name \<in> set selected. jmem (JStr name) known) then Inl (ValueError ''Unknown case IDs'')
     else filterE (\<lambda>c. bindE (case_id c) (\<lambda>name. Inr (jmem name (map JStr selected)))) cases)"

text \<open>The first small case of each workload and variant.\<close>

definition smoke_step :: "(json \<times> json \<times> json) list \<Rightarrow> json \<Rightarrow> (json \<times> json \<times> json) list res" where
  "smoke_step unique c =
     bindE (item c ''workload'') (\<lambda>workload. bindE (item c ''variant'') (\<lambda>variant.
     bindE (bindE (dict_set ''count'' (JInt 23) c) (dict_set ''batches'' (JInt 2))) (\<lambda>small.
     if \<not> hashable workload \<or> \<not> hashable variant then Inl TypeError
     else if list_ex (\<lambda>(w, v, d). jeq_item w workload \<and> jeq_item v variant) unique then Inr unique
     else Inr (unique @ [(workload, variant, small)]))))"

definition load_cases :: "fs \<Rightarrow> path \<Rightarrow> bool \<Rightarrow> string list \<Rightarrow> json \<Rightarrow> (json \<times> json list) res" where
  "load_cases f repo smoke selected profile =
     bindE (bindE (read_bytes f (joinp repo ''tools/representative-performance/suite.json'')) loads) (\<lambda>suite.
     bindE (item suite ''inputProfiles'') (\<lambda>profiles.
     raise_if (notE (inE profile profiles)) (if is_str profile then ValueError ''Unknown input profile'' else TypeError) (
     if smoke \<and> profile \<noteq> JStr ''registered''
     then Inl (ValueError ''Correctness smoke uses only the registered profile'')
     else bindE (item_by profiles profile) (\<lambda>policy.
     bindE (bindE (item suite ''cases'') iterE) (\<lambda>cs. bindE (mapE (scaled_case policy) cs) (\<lambda>cases.
     bindE (if selected = [] then Inr cases else chosen_cases cases selected) (\<lambda>chosen.
     if smoke then bindE (foldE smoke_step [] chosen) (\<lambda>unique. Inr (suite, map (\<lambda>(w, v, d). d) unique))
     else Inr (suite, chosen))))))))"

section \<open>Percentiles\<close>

fun insertE :: "json \<Rightarrow> json list \<Rightarrow> json list res" where
  "insertE x [] = Inr [x]"
| "insertE x (y # ys) = bindE (ltE y x) (\<lambda>b.
     if b then bindE (insertE x ys) (\<lambda>zs. Inr (y # zs)) else Inr (x # y # ys))"

fun sortE :: "json list \<Rightarrow> json list res" where
  "sortE [] = Inr []"
| "sortE (x # xs) = bindE (sortE xs) (insertE x)"

text \<open>\<open>max(xs)\<close> and \<open>min(xs)\<close> of a list that is not empty: the first of the greatest or least.\<close>

definition maxE :: "json list \<Rightarrow> json res" where
  "maxE xs = foldE (\<lambda>m x. bindE (ltE m x) (\<lambda>b. Inr (if b then x else m))) (hd xs) (tl xs)"

definition minE :: "json list \<Rightarrow> json res" where
  "minE xs = foldE (\<lambda>m x. bindE (ltE x m) (\<lambda>b. Inr (if b then x else m))) (hd xs) (tl xs)"

text \<open>The fraction is written as a decimal and is the nearest float, and so is its product with the
  number of values; its ceiling is the rank.\<close>

definition rank_of :: "nat \<Rightarrow> rat \<Rightarrow> int" where
  "rank_of n fraction = (case fmul (Fin (of_nat n)) (round64 fraction) of Fin q \<Rightarrow> \<lceil>q\<rceil> | _ \<Rightarrow> 0)"

definition tail_minimum :: "rat \<Rightarrow> nat option" where
  "tail_minimum fraction = map_of [(1 / 2, 1), (19 / 20, 20), (99 / 100, 100)] fraction"

definition percentile :: "json list \<Rightarrow> rat \<Rightarrow> json res" where
  "percentile values fraction = (case tail_minimum fraction of
      None \<Rightarrow> Inl (KeyError [])
    | Some least \<Rightarrow>
        if length values < least then Inr JNull
        else bindE (sortE values) (\<lambda>sorted_values. Inr (sorted_values ! nat (rank_of (length values) fraction - 1))))"

definition distribution :: "json list \<Rightarrow> json res" where
  "distribution values =
     bindE (percentile values (1 / 2)) (\<lambda>p50. bindE (percentile values (19 / 20)) (\<lambda>p95.
     bindE (percentile values (99 / 100)) (\<lambda>p99. bindE (if values = [] then Inr JNull else maxE values) (\<lambda>greatest.
     Inr (JDict [(''count'', JInt (int (length values))), (''p50'', p50), (''p95'', p95), (''p99'', p99),
       (''maximum'', greatest)])))))"

text \<open>\<open>statistics.median\<close>: the mean of the two middle values of an even number of values.\<close>

definition median :: "json list \<Rightarrow> json res" where
  "median values =
     bindE (sortE values) (\<lambda>xs.
     if xs = [] then Inl (ValueError ''no median for empty data'')
     else if odd (length xs) then Inr (xs ! (length xs div 2))
     else bindE (num_addE (xs ! (length xs div 2 - 1)) (xs ! (length xs div 2))) (\<lambda>s. num_divE s (JInt 2)))"

section \<open>Observations\<close>

definition write_record :: "(rat \<Rightarrow> string) \<Rightarrow> fs \<Rightarrow> path \<Rightarrow> json \<Rightarrow> fs res" where
  "write_record fr f p v = bindE (dumps fr (pretty_opts\<lparr>allow_nan := False\<rparr>) v) (\<lambda>text. write_bytes f p (text @ [NL]))"

text \<open>A passing process must have written exactly the expected output and nothing on its error stream.\<close>

definition classify :: "fs \<Rightarrow> path \<Rightarrow> string \<Rightarrow> json \<Rightarrow> json res" where
  "classify f directory oracle record =
     bindE (item record ''status'') (\<lambda>status.
     if \<not> jeq status (JStr ''pass'') then Inr record
     else bindE (read_bytes f (directory @ [''stdout''])) (\<lambda>out.
       if out \<noteq> oracle then dict_set ''status'' (JStr ''output-mismatch'') record
       else bindE (file_size f (directory @ [''stderr''])) (\<lambda>n.
         if n \<noteq> 0 then dict_set ''status'' (JStr ''unexpected-stderr'') record else Inr record)))"

definition validate_record :: "(rat \<Rightarrow> string) \<Rightarrow> fs \<Rightarrow> json \<Rightarrow> path \<Rightarrow> string \<Rightarrow> (fs \<times> json) res" where
  "validate_record fr f record directory oracle =
     bindE (classify f directory oracle record) (\<lambda>r.
     bindE (write_record fr f (directory @ [''observation.json'']) r) (\<lambda>f'. Inr (f', r)))"

definition isdigit :: "string \<Rightarrow> bool" where
  "isdigit s \<longleftrightarrow> s \<noteq> [] \<and> list_all (\<lambda>c. is_digit c \<or> c = CHR 0xB2 \<or> c = CHR 0xB3 \<or> c = CHR 0xB9) s"

definition is_batch_line :: "json \<Rightarrow> bool res" where
  "is_batch_line line = (case line of JStr s \<Rightarrow> Inr (isdigit (hd (split_chr (CHR '','') s))) | _ \<Rightarrow> Inl AttributeError)"

text \<open>\<open>a |= b\<close>.\<close>

definition bit_orE :: "json \<Rightarrow> json \<Rightarrow> json res" where
  "bit_orE x y = (case (x, y) of (JBool a, JBool b) \<Rightarrow> Inr (JBool (a \<or> b))
     | _ \<Rightarrow> (case (as_int x, as_int y) of (Some i, Some j) \<Rightarrow> Inr (JInt (or i j)) | _ \<Rightarrow> Inl TypeError))"

definition arrival_step :: "json list \<times> json \<times> json \<Rightarrow> json \<Rightarrow> (json list \<times> json \<times> json) res" where
  "arrival_step st arrival =
     (let (intervals, coalesced, previous) = st in
      ifE (bindE (item arrival ''line'') is_batch_line)
        (bindE (item arrival ''coalesced'') (\<lambda>c. bindE (bit_orE coalesced c) (\<lambda>coalesced'.
         bindE (item arrival ''seconds'') (\<lambda>seconds. bindE (num_subE seconds previous) (\<lambda>interval.
         Inr (intervals @ [interval], coalesced', seconds))))))
        (Inr st))"

fun first_ready :: "json list \<Rightarrow> json res" where
  "first_ready [] = Inl StopIteration"
| "first_ready (a # as) = ifE (bindE (item a ''line'') (\<lambda>l. Inr (jeq l (JStr ''ready'')))) (Inr a) (first_ready as)"

definition observation_step :: "json list \<times> json \<Rightarrow> json \<Rightarrow> (json list \<times> json) res" where
  "observation_step st record =
     bindE (bindE (item record ''arrivals'') iterE) (\<lambda>arrivals. bindE (first_ready arrivals) (\<lambda>ready.
     bindE (item ready ''seconds'') (\<lambda>seconds.
     bindE (foldE arrival_step (fst st, snd st, seconds) arrivals) (\<lambda>(intervals, coalesced, previous).
     Inr (intervals, coalesced)))))"

definition ranged_metrics :: "string list" where
  "ranged_metrics = [''wallSeconds'', ''cpuSeconds'', ''peakRssBytes'', ''unitsPerSecond'']"

definition metric_value :: "json \<Rightarrow> string \<Rightarrow> json \<Rightarrow> json res" where
  "metric_value units metric r =
     (if metric = ''unitsPerSecond'' then bindE (item r ''wallSeconds'') (num_divE units) else item r metric)"

definition sample_range :: "json \<Rightarrow> json list \<Rightarrow> string \<times> json \<Rightarrow> (string \<times> json) res" where
  "sample_range units retained row =
     (let (metric, middle) = row in
      bindE (mapE (metric_value units metric) retained) (\<lambda>values.
      bindE (minE values) (\<lambda>least. bindE (maxE values) (\<lambda>greatest.
      Inr (metric, JDict [(''count'', JInt (int (length values))), (''minimum'', least), (''p50'', middle),
        (''maximum'', greatest)])))))"

definition medians_of :: "json \<Rightarrow> json list \<Rightarrow> json list \<Rightarrow> (string \<times> json) list res" where
  "medians_of units retained walls =
     bindE (percentile walls (1 / 2)) (\<lambda>wall.
     bindE (bindE (mapE (\<lambda>r. item r ''cpuSeconds'') retained) median) (\<lambda>cpu.
     bindE (bindE (mapE (\<lambda>r. item r ''peakRssBytes'') retained) median) (\<lambda>rss.
     bindE (num_divE units wall) (\<lambda>rate.
     Inr (zip ranged_metrics [wall, cpu, rss, rate])))))"

definition summary_of :: "json list \<Rightarrow> json list \<Rightarrow> json \<Rightarrow> json res" where
  "summary_of records retained units =
     bindE (mapE (\<lambda>r. item r ''wallSeconds'') retained) (\<lambda>walls.
     bindE (foldE observation_step ([], JBool False) retained) (\<lambda>(intervals, coalesced).
     bindE (medians_of units retained walls) (\<lambda>medians.
     bindE (mapE (sample_range units retained) medians) (\<lambda>ranges.
     bindE (distribution walls) (\<lambda>wall.
     bindE (bindE (mapE (\<lambda>r. item r ''cpuSeconds'') retained) median) (\<lambda>cpu.
     bindE (bindE (mapE (\<lambda>r. item r ''peakRssBytes'') retained) median) (\<lambda>rss.
     bindE (bindE (median walls) (num_divE units)) (\<lambda>rate.
     bindE (if truthy coalesced then Inr JNull else distribution intervals) (\<lambda>interval.
     bindE (item (hd records) ''wallSeconds'') (\<lambda>first.
     Inr (JDict [(''processWallSeconds'', wall), (''sampleRanges'', JDict ranges), (''cpuSeconds'', cpu),
       (''peakRssBytes'', rss), (''unitsPerSecond'', rate), (''batchArrivalIntervalSeconds'', interval),
       (''batchIntervalUnavailableReason'', if truthy coalesced then JStr ''coalesced stdout markers'' else JNull),
       (''firstProcessWallSeconds'', first)])))))))))))"

definition retained_of :: "json list \<Rightarrow> json list res" where
  "retained_of records = filterE (\<lambda>r. bindE (item r ''phase'') (\<lambda>phase. Inr (jeq phase (JStr ''retained'')))) records"

definition summarize :: "json list \<Rightarrow> json \<Rightarrow> json res" where
  "summarize records units =
     bindE (retained_of records) (\<lambda>retained.
     ifE (orE (Inr (retained = [])) (anyE (\<lambda>r. bindE (item r ''status'') (\<lambda>s. Inr (\<not> jeq s (JStr ''pass'')))) records))
       (Inr JNull) (summary_of records retained units))"

section \<open>Rounding small numbers\<close>

lemma bit_length_le: "n < 2 ^ k \<Longrightarrow> bit_length n \<le> k"
proof (induction k arbitrary: n)
  case (Suc k)
  show ?case
  proof (cases "n = 0")
    case False
    have "n div 2 < 2 ^ k" using Suc.prems by auto
    from Suc.IH [OF this] False show ?thesis by (subst bit_length.simps) simp
  qed (simp add: bit_length.simps)
qed (simp add: bit_length.simps)

lemma binary_exponent_le:
  assumes "quotient_of a = (int n, d)" "n < 2 ^ k"
  shows "binary_exponent a \<le> int k"
  using bit_length_le [OF assms(2)] by (simp add: binary_exponent_def assms(1) Let_def)

lemma round_half_even_int [simp]: "round_half_even (of_int z) = z"
  by (simp add: round_half_even_def)

text \<open>A number below \<open>2 ^ 50\<close> that is a multiple of one half is its own rounding.\<close>

lemma round64_exact:
  assumes "0 < q" "q = of_nat m / 2" "q < 2 ^ 50" "binary_exponent q \<le> 50"
  shows "round64 q = Fin q"
proof -
  define k where "k = nat (52 - max (binary_exponent q) (- 1022))"
  have k: "max (binary_exponent q) (- 1022) - 52 = - int k" "1 \<le> k" using assms(4) by (simp_all add: k_def)
  then have u: "pow2 (max (binary_exponent q) (- 1022) - 52) = 1 / 2 ^ k" by (simp add: pow2_def)
  have "q / (1 / 2 ^ k) = of_int (int m * 2 ^ (k - 1))"
    using k(2) by (cases k) (simp_all add: assms(2))
  then have "round_half_even (\<bar>q\<bar> / (1 / 2 ^ k)) = int m * 2 ^ (k - 1)"
    using assms(1) by (simp only: abs_of_pos round_half_even_int)
  moreover have "of_int (int m * 2 ^ (k - 1)) * (1 / 2 ^ k) = q"
    using k(2) by (cases k) (simp_all add: assms(2))
  moreover have "\<not> pow2 1024 \<le> q"
  proof -
    have "(2 :: rat) ^ 50 \<le> 2 ^ 1024" by (rule power_increasing) simp_all
    with assms(3) show ?thesis by (simp add: pow2_def)
  qed
  ultimately show ?thesis using assms(1) by (simp add: round64_def Let_def u abs_of_pos)
qed

lemma round64_nat:
  assumes "0 < m" "m < 2 ^ 50"
  shows "round64 (of_nat m) = Fin (of_nat m)"
proof (rule round64_exact)
  have "quotient_of (of_nat m) = (int m, 1)" using quotient_of_int [of "int m"] by simp
  from binary_exponent_le [OF this assms(2)] show "binary_exponent (of_nat m) \<le> 50" by simp
  show "of_nat m = of_nat (2 * m) / (2 :: rat)" by simp
  show "(of_nat m :: rat) < 2 ^ 50" using assms(2) by (metis of_nat_less_iff of_nat_numeral of_nat_power)
qed (use assms in simp)

lemma round64_half:
  assumes "odd m" "m < 2 ^ 50"
  shows "round64 (of_nat m / 2) = Fin (of_nat m / 2)"
proof (rule round64_exact)
  have "coprime (int m) 2" using assms(1) by simp
  then have "quotient_of (Fract (int m) 2) = (int m, 2)" by (simp add: quotient_of_Fract normalize_def)
  then have "quotient_of (of_nat m / 2) = (int m, 2)" by (simp add: Fract_of_int_quotient)
  from binary_exponent_le [OF this assms(2)] show "binary_exponent (of_nat m / 2) \<le> 50" by simp
  have "(of_nat m :: rat) < 2 ^ 50" using assms(2) by (metis of_nat_less_iff of_nat_numeral of_nat_power)
  then show "of_nat m / 2 < (2 :: rat) ^ 50" by simp
  show "0 < of_nat m / (2 :: rat)" using assms(1) by (cases m) auto
qed simp

lemma rank_odd:
  assumes "odd n" "n < 2 ^ 50"
  shows "nat (rank_of n (1 / 2) - 1) = n div 2"
proof -
  have one: "round64 (1 / 2) = Fin (1 / 2)" using round64_half [of 1] by simp
  obtain j where j: "n = 2 * j + 1" using assms(1) by (elim oddE)
  have "\<lceil>of_nat n / (2 :: rat)\<rceil> = int j + 1" by (simp add: j ceiling_eq_iff add_divide_distrib)
  then show ?thesis using round64_half [OF assms] by (simp add: rank_of_def one j)
qed

section \<open>Summaries and their ranges\<close>

lemma percentile_odd:
  assumes "odd (length xs)" "length xs < 2 ^ 50" "percentile xs (1 / 2) = Inr v"
  shows "median xs = Inr v"
proof -
  have "length xs \<noteq> 0" using assms(1) by (cases xs) auto
  then obtain ys where ys: "sortE xs = Inr ys" "v = ys ! nat (rank_of (length xs) (1 / 2) - 1)"
    using assms(3) by (auto simp: percentile_def tail_minimum_def bindE_Inr_iff split: if_splits)
  have len: "sortE zs = Inr ws \<Longrightarrow> length ws = length zs" for zs ws
  proof (induction zs arbitrary: ws)
    case (Cons z zs)
    have "insertE x us = Inr vs \<Longrightarrow> length vs = Suc (length us)" for x us vs
      by (induction us arbitrary: vs) (auto simp: bindE_Inr_iff split: if_splits)
    with Cons show ?case by (auto simp: bindE_Inr_iff)
  qed simp
  from len [OF ys(1)] have "length ys = length xs" .
  with ys assms(1) rank_odd [OF assms(1,2)] show ?thesis by (auto simp: median_def)
qed

lemma ranges_middle:
  assumes "mapE (sample_range units retained) (zip ranged_metrics ms) = Inr ranges" "length ms = 4"
  shows "map fst ranges = ranged_metrics \<and>
    (\<forall>i < 4. \<exists>kvs. snd (ranges ! i) = JDict kvs \<and> map_of kvs ''p50'' = Some (ms ! i))"
proof -
  from assms(1) have l: "list_all2 (\<lambda>row r. sample_range units retained row = Inr r) (zip ranged_metrics ms) ranges"
    by (simp add: mapE_iff)
  have n: "length (zip ranged_metrics ms) = 4" using assms(2) by (simp add: ranged_metrics_def)
  have step: "fst (ranges ! i) = ranged_metrics ! i \<and> (\<exists>kvs. snd (ranges ! i) = JDict kvs \<and> map_of kvs ''p50'' = Some (ms ! i))"
    if "i < 4" for i
  proof -
    from l that n have "sample_range units retained (ranged_metrics ! i, ms ! i) = Inr (ranges ! i)"
      using assms(2) by (auto simp: list_all2_conv_all_nth)
    then show ?thesis by (cases "ranges ! i") (auto simp: sample_range_def bindE_Inr_iff)
  qed
  have len: "length ranges = 4" using list_all2_lengthD [OF l] n by simp
  have "map fst ranges = ranged_metrics"
    by (rule nth_equalityI) (use len step in \<open>auto simp: ranged_metrics_def\<close>)
  with step show ?thesis by blast
qed

lemma summary_fields:
  assumes "summary_of records retained units = Inr summary" "odd (length retained)" "length retained < 2 ^ 50"
  shows "\<exists>kvs wall cpu rss rate count. summary = JDict kvs \<and>
    map_of kvs ''processWallSeconds'' = Some (JDict wall) \<and> map_of wall ''count'' = Some count \<and>
    map_of kvs ''cpuSeconds'' = Some cpu \<and> map_of kvs ''peakRssBytes'' = Some rss \<and> map_of kvs ''unitsPerSecond'' = Some rate \<and>
    (\<exists>ranges. map_of kvs ''sampleRanges'' = Some (JDict ranges) \<and>
      (\<forall>(key, v) \<in> set (zip ranged_metrics [the (map_of wall ''p50''), cpu, rss, rate]).
         \<exists>r. map_of ranges key = Some (JDict r) \<and> map_of r ''p50'' = Some v))"
proof -
  from assms(1) obtain walls intervals coalesced medians ranges wall cpu rss rate interval first mw where
    w: "mapE (\<lambda>r. item r ''wallSeconds'') retained = Inr walls"
    and md: "medians_of units retained walls = Inr medians"
    and rg: "mapE (sample_range units retained) medians = Inr ranges"
    and wl: "distribution walls = Inr wall"
    and cpu: "bindE (mapE (\<lambda>r. item r ''cpuSeconds'') retained) median = Inr cpu"
    and rss: "bindE (mapE (\<lambda>r. item r ''peakRssBytes'') retained) median = Inr rss"
    and mw: "median walls = Inr mw" and rate: "num_divE units mw = Inr rate"
    and s: "summary = JDict [(''processWallSeconds'', wall), (''sampleRanges'', JDict ranges), (''cpuSeconds'', cpu),
       (''peakRssBytes'', rss), (''unitsPerSecond'', rate), (''batchArrivalIntervalSeconds'', interval),
       (''batchIntervalUnavailableReason'', if truthy coalesced then JStr ''coalesced stdout markers'' else JNull),
       (''firstProcessWallSeconds'', first)]"
    by (auto simp: summary_of_def bindE_Inr_iff)
  from md cpu rss obtain pw pr where pw: "percentile walls (1 / 2) = Inr pw" "num_divE units pw = Inr pr"
    "medians = zip ranged_metrics [pw, cpu, rss, pr]"
    by (auto simp: medians_of_def bindE_Inr_iff)
  have "length walls = length retained" using w by (simp add: mapE_iff list_all2_lengthD)
  with percentile_odd [OF _ _ pw(1)] assms(2,3) mw have "pw = mw" by simp
  with pw(2) rate have pr: "pr = rate" by simp
  from wl pw(1) obtain kvs where kvs: "wall = JDict kvs" "map_of kvs ''p50'' = Some pw" "\<exists>c. map_of kvs ''count'' = Some c"
    by (auto simp: distribution_def bindE_Inr_iff)
  from ranges_middle [OF rg [unfolded pw(3)]] have rm: "map fst ranges = ranged_metrics"
    "\<And>i. i < 4 \<Longrightarrow> \<exists>r. snd (ranges ! i) = JDict r \<and> map_of r ''p50'' = Some ([pw, cpu, rss, pr] ! i)" by auto
  obtain v0 v1 v2 v3 where r: "ranges = zip ranged_metrics [v0, v1, v2, v3]"
    using rm(1) by (auto simp: ranged_metrics_def map_eq_Cons_conv)
  have "\<forall>(key, v) \<in> set (zip ranged_metrics [pw, cpu, rss, rate]). \<exists>r. map_of ranges key = Some (JDict r) \<and> map_of r ''p50'' = Some v"
    using rm(2) [of 0] rm(2) [of 1] rm(2) [of 2] rm(2) [of 3] by (simp add: r ranged_metrics_def pr)
  with kvs show ?thesis by (auto simp: s)
qed

definition demo_observation :: "int \<Rightarrow> json" where
  "demo_observation wall = JDict [(''phase'', JStr ''retained''), (''status'', JStr ''pass''), (''wallSeconds'', JInt wall),
     (''cpuSeconds'', JInt 1), (''peakRssBytes'', JInt 1),
     (''arrivals'', JList [JDict [(''line'', JStr ''ready''), (''seconds'', JInt 0)]])]"

lemma round64_numeral: "(numeral k :: nat) < 2 ^ 50 \<Longrightarrow> round64 (numeral k) = Fin (numeral k)"
  using round64_nat [of "numeral k"] by simp

lemma round64_one: "round64 1 = Fin 1" using round64_nat [of 1] by simp
lemma round64_one_half: "round64 (1 / 2) = Fin (1 / 2)" using round64_half [of 1] by simp

lemmas small_numbers = round64_numeral round64_one round64_one_half

lemma demo_even_parts:
  "percentile [JInt 1, JInt 3] (1 / 2) = Inr (JInt 1)"
  "median [JInt 1, JInt 3] = Inr (JFloat (Fin 2))" "median [JInt 1, JInt 1] = Inr (JFloat (Fin 1))"
  "num_divE (JInt 6) (JInt 1) = Inr (JFloat (Fin 6))" "num_divE (JInt 6) (JInt 3) = Inr (JFloat (Fin 2))"
  "num_divE (JInt 6) (JFloat (Fin 2)) = Inr (JFloat (Fin 3))"
  "maxE [JInt 1, JInt 3] = Inr (JInt 3)" "minE [JInt 1, JInt 3] = Inr (JInt 1)"
  "maxE [JInt 1, JInt 1] = Inr (JInt 1)" "minE [JInt 1, JInt 1] = Inr (JInt 1)"
  "maxE [JFloat (Fin 6), JFloat (Fin 2)] = Inr (JFloat (Fin 6))" "minE [JFloat (Fin 6), JFloat (Fin 2)] = Inr (JFloat (Fin 2))"
  by (simp_all add: percentile_def tail_minimum_def ltE_def rank_of_def small_numbers median_def num_addE_def num_divE_def
      arithE_def int_quotient_def maxE_def minE_def)

lemma demo_even_rest:
  "distribution [JInt 1, JInt 3] = Inr (JDict [(''count'', JInt 2), (''p50'', JInt 1), (''p95'', JNull), (''p99'', JNull), (''maximum'', JInt 3)])"
  "distribution [] = Inr (JDict [(''count'', JInt 0), (''p50'', JNull), (''p95'', JNull), (''p99'', JNull), (''maximum'', JNull)])"
  by (simp_all add: distribution_def demo_even_parts) (simp_all add: percentile_def tail_minimum_def)

lemma demo_observation_step: "observation_step ([], JBool False) (demo_observation w) = Inr ([], JBool False)"
proof -
  have "isdigit (hd (split_chr (CHR '','') ''ready'')) = False" by code_simp
  then show ?thesis by (simp add: observation_step_def demo_observation_def arrival_step_def is_batch_line_def)
qed

text \<open>With an even number of samples the two rates differ: the summary divides by the mean of the two
  middle times, the range by the lower of them.\<close>

lemma even_samples_disagree:
  "\<exists>kvs ranges r. summarize [demo_observation 1, demo_observation 3] (JInt 6) = Inr (JDict kvs) \<and>
     map_of kvs ''unitsPerSecond'' = Some (JFloat (Fin 3)) \<and> map_of kvs ''sampleRanges'' = Some (JDict ranges) \<and>
     map_of ranges ''unitsPerSecond'' = Some (JDict r) \<and> map_of r ''p50'' = Some (JFloat (Fin 6))"
proof -
  have i: "item (demo_observation w) ''wallSeconds'' = Inr (JInt w)" "item (demo_observation w) ''cpuSeconds'' = Inr (JInt 1)"
    "item (demo_observation w) ''peakRssBytes'' = Inr (JInt 1)" "item (demo_observation w) ''phase'' = Inr (JStr ''retained'')"
    "item (demo_observation w) ''status'' = Inr (JStr ''pass'')" for w
    by (simp_all add: demo_observation_def)
  show ?thesis
    by (simp add: summarize_def retained_of_def i summary_of_def demo_observation_step medians_of_def demo_even_parts demo_even_rest
        sample_range_def metric_value_def ranged_metrics_def)
qed

end
