(* ===== verification/RepresentativeState.thy ===== *)
theory RepresentativeState
  imports RepresentativeMeasure DailyState
begin

text \<open>
  \<open>tools/representative-performance/publication.py\<close>: the bounded public series of the representative
  measurement. The validator accepts a snapshot or a state, \<open>start\<close> records an attempt, \<open>finish\<close> turns
  the manifest of a run into a snapshot through an explicit list of public fields, \<open>site\<close> prepares the
  published copy and \<open>restore\<close> takes the last state from an artifact or from the public site. The
  state files and services are those of the daily state; the time-zone test of a time stamp and the
  body of the public document are further services.
\<close>

record series_services =
  base :: host
  zoned :: "string \<Rightarrow> bool res"
  public_document :: "string res"

section \<open>Constants\<close>

definition SERIES_ROLES :: "string list" where
  "SERIES_ROLES = [''native'', ''typerb-go'', ''pure-go'']"

definition HISTORY_LIMIT :: nat where "HISTORY_LIMIT = 12"

definition repository_url :: string where
  "repository_url = ''https://github.com/type-rb/type-rb-native''"

definition RUN :: rx where
  "RUN = Seq (lit (repository_url @ ''/actions/runs/'')) (rplus (Cls digit_cls))"

definition SOURCES :: "(string \<times> string) list" where
  "SOURCES = [(''sourceSha256'', ''benchmarks/representative/src/main.trb''),
    (''goSourceSha256'', ''benchmarks/representative/go/main.go''),
    (''suiteSha256'', ''tools/representative-performance/suite.json''),
    (''controllerSha256'', ''tools/representative-performance/measure.py'')]"

definition METRICS :: "string list" where
  "METRICS = [''wallSeconds'', ''cpuSeconds'', ''peakRssBytes'', ''unitsPerSecond'', ''firstProcessWallSeconds'']"

definition slug_rx :: rx where
  "slug_rx = rplus (Cls (lower_cls @ digit_cls @ one_cls (CHR ''-'')))"

definition empty_series :: json where
  "empty_series = JDict [(''schemaVersion'', JInt 1), (''latest'', JNull), (''attempt'', JNull),
     (''history'', JList []), (''profile'', JStr ''representative'')]"

definition catalog :: "fs \<Rightarrow> path \<Rightarrow> json \<Rightarrow> json list res" where
  "catalog f repo profile = bindE (load_cases f repo False [] profile) (\<lambda>(suite, cases). Inr cases)"

section \<open>What makes a measurement stale\<close>

definition series_relevant :: "string \<Rightarrow> bool" where
  "series_relevant p = (if endswith p ''.md'' \<or> endswith p ''_test.trb'' \<or> endswith p ''_test.py'' then False else
     list_ex (startswith p) [''compiler/'', ''src/'', ''benchmarks/representative/'', ''tools/qbe/''] \<or>
     p \<in> set [''TYPE_RB_REVISION'', ''trbn'', ''tools/build-native.sh'', ''tools/build-reference.py'', ''tools/compiler_sources.py'',
        ''tools/qbe_toolchain.py'', ''tools/bootstrap-seed.sh'', ''tools/bootstrap-seed-download.sh'',
        ''tools/representative-performance/measure.py'', ''tools/representative-performance/suite.json'',
        ''.github/workflows/representative-performance.yml''])"

definition series_entry :: "string \<Rightarrow> bool res" where
  "series_entry entry = (if entry = [] then Inr False else
     (case partition_str [TAB] entry of None \<Rightarrow> Inl IndexError | Some (meta, p) \<Rightarrow> Inr (series_relevant p)))"

definition series_fingerprint :: "series_services \<Rightarrow> string res" where
  "series_fingerprint h = bindE (filterE series_entry (split_chr NUL (ls_tree (base h)))) (\<lambda>selected.
     Inr (sha256 (base h) (join [NUL] selected)))"

section \<open>Validation of a snapshot\<close>

text \<open>\<open>require(condition, message)\<close> and the rest of the body.\<close>

definition requireE :: "bool res \<Rightarrow> string \<Rightarrow> 'a res \<Rightarrow> 'a res" where
  "requireE c message k = bindE c (\<lambda>b. if b then k else Inl (ValueError message))"

definition is_numeric :: "json \<Rightarrow> bool" where
  "is_numeric v \<longleftrightarrow> type_is_int v \<or> type_is_float v"

definition measured :: "json \<Rightarrow> bool res" where
  "measured v = andE (Inr (is_numeric v)) (andE (isfiniteE v) (leE (JInt 0) v))"

definition hash_field :: "json \<Rightarrow> string \<Rightarrow> bool res" where
  "hash_field v k = bindE (getd v k (JStr [])) (fullmatchE HASH64)"

text \<open>A tool: its digest and its version, nothing else.\<close>

definition tool_ok :: "json \<Rightarrow> bool res" where
  "tool_ok tool = andE (keys_are tool [''sha256'', ''version''])
     (andE (bindE (item tool ''sha256'') (fullmatchE HASH64)) (bindE (item tool ''version'') (\<lambda>v. Inr (is_str v))))"

definition binary_ok :: "json \<Rightarrow> bool res" where
  "binary_ok binary = andE (keys_are binary [''sha256'', ''bytes''])
     (andE (bindE (item binary ''sha256'') (fullmatchE HASH64))
       (bindE (item binary ''bytes'') (\<lambda>n. andE (Inr (type_is_int n)) (ltE (JInt 0) n))))"

definition check_identity :: "series_services \<Rightarrow> json \<Rightarrow> unit res" where
  "check_identity h s =
     requireE (Inr (is_dict s)) ''Invalid snapshot'' (
     requireE (bindE (getd s ''inputProfile'' (JStr ''registered'')) (fullmatchE slug_rx)) ''Invalid input profile'' (
     requireE (andE (bindE (getd s ''revision'' (JStr [])) (fullmatchE SHA))
         (bindE (getd s ''referenceRevision'' (JStr [])) (fullmatchE SHA))) ''Invalid compiler revisions'' (
     requireE (bindE (getd s ''runUrl'' (JStr [])) (fullmatchE RUN)) ''Invalid public evidence URL'' (
     requireE (allE (hash_field s) [''fingerprint'', ''series'']) ''Missing series identity'' (
     requireE (allE (\<lambda>k. bindE (getd s ''sources'' (JDict [])) (\<lambda>d. hash_field d k)) (map fst SOURCES)) ''Missing source hashes'' (
     requireE (bindE (get s ''at'') (\<lambda>moment. case moment of JStr text \<Rightarrow> zoned h text | _ \<Rightarrow> Inr False)) ''Missing measurement time zone'' (
     requireE (allE (\<lambda>k. bindE (get s k) (\<lambda>v. Inr (case v of JStr text \<Rightarrow> text \<noteq> [] \<and> int (length text) < 512 | _ \<Rightarrow> False)))
         [''platform'', ''machine'']) ''Invalid environment identity'' (Inr ()))))))))"

definition check_environment :: "json \<Rightarrow> unit res" where
  "check_environment s =
     requireE (bindE (get s ''environment'') (\<lambda>e. andE (Inr (is_dict e))
         (bindE (get e ''GOMAXPROCS'') (\<lambda>v. Inr (jeq v (JStr ''1'')))))) ''Invalid execution environment'' (
     bindE (item s ''environment'') (\<lambda>environment.
     ifE (hasE ''peakRssMethod'' environment)
       (bindE (item environment ''peakRssMethod'') (\<lambda>rss.
        requireE (Inr (jmem rss [JStr ''gnu-time-child-v1'', JStr ''wait4-bytes-v1''])) ''Unknown RSS method'' (
        if jeq rss (JStr ''gnu-time-child-v1'')
        then bindE (getd environment ''rssTool'' (JDict [])) (\<lambda>tool.
          requireE (tool_ok tool) ''Missing RSS tool identity'' (Inr ()))
        else Inr ())))
       (Inr ())))"

definition check_binaries :: "json \<Rightarrow> unit res" where
  "check_binaries s =
     requireE (bindE (getd s ''tools'' (JDict [])) (\<lambda>t. keys_are t [''native'', ''reference'', ''go''])) ''Missing tool identities'' (
     requireE (bindE (getd s ''binaries'' (JDict [])) (\<lambda>t. keys_are t SERIES_ROLES)) ''Missing application identities'' (
     bindE (bindE (item s ''binaries'') valuesE)
       (forE (\<lambda>binary. requireE (binary_ok binary) ''Invalid application identity'' (Inr ())))))"

text \<open>The input cases: distinct slugs with positive dimensions.\<close>

definition check_input :: "string list \<Rightarrow> json \<Rightarrow> string list res" where
  "check_input known c =
     requireE (andE (Inr (is_dict c)) (bindE (getd c ''id'' (JStr [])) (fullmatchE slug_rx))) ''Invalid case ID'' (
     bindE (item c ''id'') (\<lambda>name.
     requireE (andE (Inr (\<not> jmem name (map JStr known)))
         (andE (bindE (get c ''count'') (\<lambda>n. andE (Inr (isinstance_int n)) (ltE (JInt 0) n)))
           (bindE (get c ''batches'') (\<lambda>n. andE (Inr (isinstance_int n)) (ltE (JInt 0) n))))) ''Invalid input dimensions''
       (Inr (known @ [str_val name]))))"

definition check_summary :: "json \<Rightarrow> unit res" where
  "check_summary metrics =
     requireE (keys_are metrics METRICS) ''Invalid metric fields'' (
     bindE (itemsE metrics) (forE (\<lambda>(key, v).
       requireE (measured v) ''Invalid metric'' (
       requireE (orE (Inr (key = ''cpuSeconds'')) (ltE (JInt 0) v)) ''Invalid zero observation'' (Inr ())))))"

definition range_keys :: "string list" where
  "range_keys = filter (\<lambda>k. k \<noteq> ''firstProcessWallSeconds'') METRICS"

definition check_bounds :: "json \<Rightarrow> json \<Rightarrow> string \<Rightarrow> string \<times> json \<Rightarrow> unit res" where
  "check_bounds s row role kb =
     (let (key, b) = kb in
     requireE (keys_are b [''count'', ''minimum'', ''p50'', ''maximum'']) ''Invalid sample range fields'' (
     requireE (bindE (item b ''count'') (\<lambda>n. andE (Inr (type_is_int n))
         (bindE (item s ''samples'') (\<lambda>m. Inr (jeq n m))))) ''Invalid sample count'' (
     requireE (allE (\<lambda>k. bindE (item b k) measured) [''minimum'', ''p50'', ''maximum'']) ''Invalid sample range'' (
     bindE (item b ''minimum'') (\<lambda>least. bindE (item b ''p50'') (\<lambda>middle.
     requireE (andE (leE least middle) (bindE (item b ''maximum'') (\<lambda>greatest. andE (leE middle greatest)
         (bindE (bindE (item row ''summaries'') (\<lambda>d. item d role)) (\<lambda>d.
            bindE (item d key) (\<lambda>v. Inr (jeq middle v))))))) ''Sample range disagrees with median'' (
     requireE (orE (Inr (key = ''cpuSeconds'')) (ltE (JInt 0) least)) ''Invalid zero sample'' (Inr ()))))))))"

definition check_ranges :: "json \<Rightarrow> json \<Rightarrow> unit res" where
  "check_ranges s row =
     ifE (hasE ''sampleRanges'' row)
       (bindE (item row ''sampleRanges'') (\<lambda>ranges.
        requireE (keys_are ranges SERIES_ROLES) ''Missing sample range role'' (
        bindE (itemsE ranges) (forE (\<lambda>(role, rs).
          requireE (keys_are rs range_keys) ''Invalid sample range metrics'' (
          bindE (itemsE rs) (forE (check_bounds s row role))))))))
       (Inr ())"

definition check_result :: "json \<Rightarrow> string list \<Rightarrow> string list \<Rightarrow> json \<Rightarrow> string list res" where
  "check_result s known seen row =
     requireE (andE (bindE (get row ''case'') (\<lambda>c. in_setE c known))
         (bindE (item row ''case'') (\<lambda>c. notE (in_setE c seen)))) ''Unknown or duplicate result'' (
     bindE (item row ''case'') (\<lambda>name.
     requireE (bindE (getd row ''summaries'' (JDict [])) (\<lambda>d. keys_are d SERIES_ROLES)) ''Missing comparison role'' (
     bindE (bindE (bindE (item row ''summaries'') valuesE) (forE check_summary)) (\<lambda>u.
     bindE (check_ranges s row) (\<lambda>v. Inr (seen @ [str_val name]))))))"

definition check_sampling :: "json \<Rightarrow> unit res" where
  "check_sampling s =
     requireE (bindE (get s ''samples'') (\<lambda>n. andE (Inr (isinstance_int n)) (andE (leE (JInt 1) n) (andE (leE n (JInt 100))
         (bindE (get s ''warmups'') (\<lambda>w. Inr (jeq w (JInt 1)))))))) ''Invalid sampling policy'' (Inr ())"

definition check_cases :: "json \<Rightarrow> unit res" where
  "check_cases s =
     bindE (get s ''inputs'') (\<lambda>inputs. bindE (get s ''rows'') (\<lambda>rows.
     requireE (Inr (case inputs of JList xs \<Rightarrow> 1 \<le> length xs \<and> length xs \<le> 100 \<and> is_list rows | _ \<Rightarrow> False))
       ''Invalid case inventory'' (
     bindE (iterE inputs) (\<lambda>cs. bindE (iterE rows) (\<lambda>rs.
     bindE (foldE check_input [] cs) (\<lambda>known.
     bindE (foldE (check_result s known) [] rs) (\<lambda>seen.
     requireE (Inr (length rs \<le> length cs)) ''Too many results'' (Inr ()))))))))"

definition check_series_snapshot :: "series_services \<Rightarrow> json \<Rightarrow> unit res" where
  "check_series_snapshot h s =
     bindE (check_identity h s) (\<lambda>u1. bindE (check_binaries s) (\<lambda>u2. bindE (check_environment s) (\<lambda>u3.
     bindE (check_sampling s) (\<lambda>u4. bindE (check_cases s) (\<lambda>u5.
     bindE (bindE (getd s ''tools'' (JDict [])) valuesE)
       (forE (\<lambda>tool. requireE (tool_ok tool) ''Invalid public tool identity'' (Inr ()))))))))"

section \<open>Validation of a state\<close>

definition attempt_statuses :: "string list" where
  "attempt_statuses = [''running'', ''measured'', ''measurement-failure'', ''infrastructure-failure'']"

definition check_attempt :: "series_services \<Rightarrow> json \<Rightarrow> unit res" where
  "check_attempt h attempt = (if attempt = JNull then Inr () else
     requireE (bindE (get attempt ''status'') (\<lambda>v. Inr (jmem v (map JStr attempt_statuses)))) ''Invalid attempt status'' (
     requireE (andE (bindE (getd attempt ''runUrl'' (JStr [])) (fullmatchE RUN))
         (bindE (getd attempt ''revision'' (JStr [])) (fullmatchE SHA))) ''Invalid attempt identity'' (
     bindE (get attempt ''partial'') (\<lambda>p. if p = JNull then Inr () else check_series_snapshot h p))))"

definition check_complete_snapshot :: "series_services \<Rightarrow> json \<Rightarrow> unit res" where
  "check_complete_snapshot h s = (if s = JNull then Inr () else
     bindE (check_series_snapshot h s) (\<lambda>u.
     requireE (bindE (bindE (item s ''rows'') lenE) (\<lambda>a. bindE (bindE (item s ''inputs'') lenE) (\<lambda>b. Inr (a = b))))
       ''Complete snapshot is missing cases'' (Inr ())))"

definition validate_series :: "series_services \<Rightarrow> json \<Rightarrow> json res" where
  "validate_series h state =
     requireE (Inr (is_dict state)) ''Invalid representative state'' (
     requireE (bindE (get state ''schemaVersion'') (\<lambda>v. andE (Inr (jeq v (JInt 1)))
         (bindE (get state ''profile'') (\<lambda>p. Inr (jeq p (JStr ''representative'')))))) ''Unsupported representative state'' (
     requireE (bindE (get state ''history'') (\<lambda>v. Inr (case v of JList xs \<Rightarrow> length xs \<le> HISTORY_LIMIT | _ \<Rightarrow> False)))
       ''Unbounded history'' (
     bindE (get state ''latest'') (\<lambda>latest. bindE (bindE (item state ''history'') iterE) (\<lambda>history.
     bindE (forE (check_complete_snapshot h) (latest # history)) (\<lambda>u.
     bindE (bindE (get state ''attempt'') (check_attempt h)) (\<lambda>v. Inr state)))))))"


section \<open>Restoring\<close>

text \<open>The exceptions after which the public document is consulted.\<close>

definition retrieval_error :: "pyerr \<Rightarrow> bool" where
  "retrieval_error e \<longleftrightarrow> is_OSError e \<or> is_ValueError e \<or> is_KeyError e \<or> e = TypeError \<or>
     (case e of SubprocessError n \<Rightarrow> True | _ \<Rightarrow> False)"

definition document_error :: "pyerr \<Rightarrow> bool" where
  "document_error e \<longleftrightarrow> is_OSError e \<or> is_ValueError e \<or> is_KeyError e \<or> e = TypeError"

definition document_limit :: int where "document_limit = 8000000"

text \<open>A newer attempt is kept over the one of the public state. The state is replaced before the two
  times are compared, so it is part of the result even when the comparison fails.\<close>

definition adopt_public :: "json \<Rightarrow> json \<Rightarrow> json \<times> unit res" where
  "adopt_public state previous =
     (case bindE (get previous ''latest'') (\<lambda>latest. bindE (get state ''attempt'') (\<lambda>newer. Inr (latest, newer))) of
        Inl e \<Rightarrow> (state, Inl e)
      | Inr (latest, newer) \<Rightarrow>
          if truthy latest then
            (case bindE (andE (Inr (truthy newer)) (bindE (get previous ''attempt'') (\<lambda>old.
                 orE (Inr (\<not> truthy old)) (bindE (item newer ''at'') (\<lambda>a. bindE (item old ''at'') (\<lambda>b. leE b a))))))
               (\<lambda>keep. if keep then dict_set ''attempt'' newer previous else Inr previous) of
               Inl e \<Rightarrow> (previous, Inl e)
             | Inr s \<Rightarrow> (s, Inr ()))
          else if \<not> truthy newer then (previous, Inr ())
          else (state, Inr ()))"

definition read_public :: "series_services \<Rightarrow> json res" where
  "read_public h =
     bindE (public_document h) (\<lambda>data.
     requireE (Inr (int (length data) \<le> document_limit)) ''Public state exceeds its limit'' (
     bindE (loads data) (validate_series h)))"

definition no_measurement :: string where
  "no_measurement = ''No retained measurement is available yet. All registered cases remain listed.''"

definition retrieval_failed :: string where
  "retrieval_failed = ''Artifact retrieval failed. Showing the last available public measurement.''"

text \<open>The state after the public document was consulted, and the warning.\<close>

definition public_state :: "series_services \<Rightarrow> json \<Rightarrow> string option \<Rightarrow> (json \<times> string option) res" where
  "public_state h state warning =
     (let (s, r) = (case read_public h of Inl e \<Rightarrow> (state, Inl e) | Inr previous \<Rightarrow> adopt_public state previous)
      in case r of
           Inr u \<Rightarrow> Inr (s, warning)
         | Inl e \<Rightarrow>
             if \<not> document_error e then Inl e
             else bindE (get s ''profile'') (\<lambda>p.
               Inr (if jeq p (JStr ''representative'') then s else empty_series,
                 Some (case warning of None \<Rightarrow> no_measurement | Some w \<Rightarrow> w))))"

definition save_series :: "series_services \<Rightarrow> fs \<Rightarrow> path \<Rightarrow> json \<Rightarrow> fs res" where
  "save_series h f p state = bindE (validate_series h state) (write_state (base h) f p)"

definition restore_public :: "series_services \<Rightarrow> fs \<Rightarrow> path \<Rightarrow> json \<Rightarrow> string option \<Rightarrow> fs res" where
  "restore_public h f p state warning =
     bindE (public_state h state warning) (\<lambda>(s, w).
     bindE (case w of None \<Rightarrow> Inr s | Some text \<Rightarrow> dict_set ''publicationWarning'' (JStr text) s)
       (save_series h f p))"

text \<open>The state of the last artifact; it stays when it holds a measurement.\<close>

definition restored_state :: "series_services \<Rightarrow> fs \<Rightarrow> path \<Rightarrow> (fs \<times> json \<times> bool) res" where
  "restored_state h f p =
     bindE (restore (base h) f p ''representative-performance.yml'' ''representative-performance-state'' (validate_series h)) (\<lambda>f'.
     bindE (read_state f' p) (\<lambda>state.
     bindE (bindE (get state ''profile'') (\<lambda>v. andE (Inr (jeq v (JStr ''representative'')))
         (bindE (get state ''latest'') (\<lambda>l. Inr (truthy l))))) (\<lambda>done. Inr (f', state, done))))"

definition restore_series :: "series_services \<Rightarrow> fs \<Rightarrow> path \<Rightarrow> fs res" where
  "restore_series h f p =
     (case restored_state h f p of
        Inr (f', state, done) \<Rightarrow> if done then Inr f' else restore_public h f' p state None
      | Inl e \<Rightarrow> if retrieval_error e then restore_public h f p empty_series (Some retrieval_failed) else Inl e)"

section \<open>Starting\<close>

definition start_state :: "series_services \<Rightarrow> json \<Rightarrow> json res" where
  "start_state h state =
     requireE (Inr (map_of (environ (base h)) ''GITHUB_REPOSITORY'' = Some ''type-rb/type-rb-native''))
       ''Unexpected publication repository'' (
     bindE (environE (base h) ''GITHUB_RUN_ID'') (\<lambda>run.
     bindE (series_fingerprint h) (\<lambda>print.
     bindE (dict_set ''attempt'' (JDict [(''at'', JStr (clock (base h) 0)), (''revision'', JStr (git_head (base h))),
         (''runUrl'', JStr (repository_url @ ''/actions/runs/'' @ run)), (''status'', JStr ''running''),
         (''fingerprint'', JStr print)]) state) (\<lambda>state1.
     bindE (dict_pop ''publicationWarning'' state1) (validate_series h)))))"

definition start_series :: "series_services \<Rightarrow> fs \<Rightarrow> path \<Rightarrow> fs res" where
  "start_series h f p = bindE (bindE (read_state f p) (validate_series h)) (\<lambda>state.
     bindE (start_state h state) (write_state (base h) f p))"

section \<open>The snapshot of a run\<close>

text \<open>\<open>{key: d[key] for key in keys}\<close>.\<close>

definition pick :: "string list \<Rightarrow> json \<Rightarrow> json res" where
  "pick keys d = bindE (mapE (\<lambda>k. bindE (item d k) (\<lambda>v. Inr (k, v))) keys) (\<lambda>kvs. Inr (JDict kvs))"

text \<open>\<open>{name: {key: d[name][key] for key in keys} for name in names}\<close>.\<close>

definition pick_each :: "string list \<Rightarrow> string list \<Rightarrow> json \<Rightarrow> json res" where
  "pick_each names keys d =
     bindE (mapE (\<lambda>n. bindE (item d n) (\<lambda>v. bindE (pick keys v) (\<lambda>w. Inr (n, w)))) names) (\<lambda>kvs. Inr (JDict kvs))"

definition role_summary :: "json \<Rightarrow> json \<Rightarrow> string \<Rightarrow> (string \<times> json) res" where
  "role_summary manifest c role =
     bindE (bindE (item c ''summaries'') (\<lambda>d. item d role)) (\<lambda>data.
     requireE (bindE (bindE (item data ''processWallSeconds'') (\<lambda>d. item d ''count'')) (\<lambda>n.
         bindE (item manifest ''samples'') (\<lambda>m. Inr (jeq n m)))) ''Missing retained samples'' (
     bindE (bindE (item data ''processWallSeconds'') (\<lambda>d. item d ''p50'')) (\<lambda>wall.
     bindE (mapE (\<lambda>k. bindE (item data k) (\<lambda>v. Inr (k, v))) (filter (\<lambda>k. k \<noteq> ''wallSeconds'') METRICS)) (\<lambda>rest.
     Inr (role, JDict ((''wallSeconds'', wall) # rest))))))"

definition has_ranges :: "json \<Rightarrow> string \<Rightarrow> bool res" where
  "has_ranges c role = bindE (bindE (item c ''summaries'') (\<lambda>d. item d role)) (hasE ''sampleRanges'')"

definition result_row :: "json \<Rightarrow> json \<Rightarrow> json res" where
  "result_row manifest c =
     requireE (bindE (item c ''input'') (\<lambda>i. bindE (item manifest ''plannedCases'') (inE i))) ''Unregistered result input'' (
     bindE (mapE (role_summary manifest c) SERIES_ROLES) (\<lambda>summaries.
     bindE (bindE (item c ''input'') (\<lambda>i. item i ''id'')) (\<lambda>name.
     ifE (anyE (has_ranges c) SERIES_ROLES)
       (requireE (allE (has_ranges c) SERIES_ROLES) ''Missing sample ranges'' (
        bindE (mapE (\<lambda>role. bindE (bindE (item c ''summaries'') (\<lambda>d. item d role)) (\<lambda>d.
            bindE (item d ''sampleRanges'') (\<lambda>r. Inr (role, r)))) SERIES_ROLES) (\<lambda>ranges.
        Inr (JDict [(''case'', name), (''summaries'', JDict summaries), (''sampleRanges'', JDict ranges)]))))
       (Inr (JDict [(''case'', name), (''summaries'', JDict summaries)])))))"

definition series_sources :: "series_services \<Rightarrow> fs \<Rightarrow> path \<Rightarrow> json \<Rightarrow> (string \<times> json) list res" where
  "series_sources h f repo manifest =
     bindE (mapE (\<lambda>(k, n). bindE (get manifest k) (\<lambda>v. Inr (k, v))) SOURCES) (\<lambda>sources.
     bindE (forE (\<lambda>((k, v), (k', n)). requireE (bindE (read_bytes f (joinp repo n)) (\<lambda>s.
         Inr (jeq v (JStr (sha256 (base h) s))))) ''Measurement source changed'' (Inr ())) (zip sources SOURCES)) (\<lambda>u.
     Inr sources))"

definition public_environment :: "json \<Rightarrow> json res" where
  "public_environment manifest =
     bindE (item manifest ''environment'') (\<lambda>e.
     bindE (pick [''GOMAXPROCS'', ''affinity'', ''cpuPinning'', ''filesystemCache''] e) (\<lambda>d0.
     bindE (foldE (\<lambda>d k. ifE (hasE k e) (bindE (item e k) (\<lambda>v. dict_set k v d)) (Inr d)) d0
         [''peakRssMethod'', ''timingMethod'']) (\<lambda>d1.
     ifE (hasE ''rssTool'' e)
       (bindE (bindE (item e ''rssTool'') (pick [''sha256'', ''version''])) (\<lambda>t. dict_set ''rssTool'' t d1))
       (Inr d1))))"

definition series_opts :: jopts where "series_opts = plain_opts\<lparr>sort_keys := True\<rparr>"

definition series_hash :: "series_services \<Rightarrow> json list \<Rightarrow> string res" where
  "series_hash h parts = bindE (dumps (frepr (base h)) series_opts (JList parts)) (\<lambda>t. Inr (sha256 (base h) t))"

definition manifest_of_source :: "series_services \<Rightarrow> fs \<Rightarrow> path \<Rightarrow> json \<Rightarrow> json \<Rightarrow> json \<Rightarrow> unit res" where
  "manifest_of_source h f repo manifest attempt profile =
     requireE (bindE (get manifest ''smoke'') (\<lambda>smoke. andE (Inr (\<not> truthy smoke))
         (bindE (get manifest ''repositoryRevision'') (\<lambda>a. bindE (item attempt ''revision'') (\<lambda>b. Inr (jeq a b))))))
       ''Wrong measurement source or smoke data'' (
     requireE (bindE (getd manifest ''outputMode'' (JStr ''stream'')) (\<lambda>m. Inr (jeq m (JStr ''stream''))))
       ''Summary diagnostics cannot enter the streaming publication series'' (
     requireE (bindE (get manifest ''plannedCases'') (\<lambda>planned. bindE (catalog f repo profile) (\<lambda>cs.
         Inr (jeq planned (JList cs))))) ''Publication needs the complete registered matrix'' (Inr ())))"

definition public_snapshot :: "series_services \<Rightarrow> fs \<Rightarrow> path \<Rightarrow> json \<Rightarrow> json \<Rightarrow> json res" where
  "public_snapshot h f repo manifest attempt =
     bindE (getd manifest ''inputProfile'' (JStr ''registered'')) (\<lambda>profile.
     bindE (manifest_of_source h f repo manifest attempt profile) (\<lambda>u.
     bindE (series_sources h f repo manifest) (\<lambda>sources.
     bindE (read_bytes f (joinp repo ''TYPE_RB_REVISION'')) (\<lambda>reference.
     bindE (bindE (item manifest ''cases'') iterE) (\<lambda>cs. bindE (mapE (result_row manifest) cs) (\<lambda>rows.
     bindE (item manifest ''startedAt'') (\<lambda>moment. bindE (item attempt ''revision'') (\<lambda>revision.
     bindE (item attempt ''fingerprint'') (\<lambda>print. bindE (item attempt ''runUrl'') (\<lambda>url.
     bindE (item manifest ''platform'') (\<lambda>platform. bindE (item manifest ''machine'') (\<lambda>machine.
     bindE (item manifest ''samples'') (\<lambda>samples. bindE (item manifest ''warmups'') (\<lambda>warmups.
     bindE (item manifest ''plannedCases'') (\<lambda>inputs.
     bindE (bindE (item manifest ''tools'') (pick_each [''native'', ''reference'', ''go''] [''sha256'', ''version''])) (\<lambda>tools.
     bindE (bindE (item manifest ''binaries'') (pick_each SERIES_ROLES [''sha256'', ''bytes''])) (\<lambda>binaries.
     bindE (public_environment manifest) (\<lambda>environment.
     bindE (series_hash h [JDict sources, JStr (strip reference), samples, warmups, platform, machine, environment,
         profile, inputs]) (\<lambda>ser.
     (let snap = JDict [(''at'', moment), (''revision'', revision), (''referenceRevision'', JStr (strip reference)),
         (''fingerprint'', print), (''runUrl'', url), (''sources'', JDict sources), (''platform'', platform),
         (''machine'', machine), (''samples'', samples), (''warmups'', warmups), (''inputs'', inputs),
         (''rows'', JList rows), (''inputProfile'', profile), (''tools'', tools), (''binaries'', binaries),
         (''environment'', environment), (''series'', JStr ser)]
      in bindE (check_series_snapshot h snap) (\<lambda>v. Inr snap)))))))))))))))))))))"

section \<open>Finishing\<close>

text \<open>A failed observation is named only when its case and role are registered.\<close>

definition failed_observation :: "fs \<Rightarrow> path \<Rightarrow> json \<Rightarrow> json \<Rightarrow> json res" where
  "failed_observation f repo manifest attempt =
     bindE (get manifest ''failedObservation'') (\<lambda>failure.
     ifE (andE (Inr (truthy failure))
         (andE (bindE (get failure ''case'') (\<lambda>c. bindE (catalog f repo (JStr ''registered'')) (\<lambda>cs.
              bindE (bindE (mapE case_id cs) hashE) (\<lambda>ids. if hashable c then Inr (jmem c ids) else Inl TypeError))))
           (bindE (get failure ''role'') (\<lambda>r. Inr (jmem r (map JStr SERIES_ROLES))))))
       (bindE (pick [''case'', ''role'', ''status''] failure) (\<lambda>d. dict_set ''failedObservation'' d attempt))
       (Inr attempt))"

text \<open>The snapshot of a passing run becomes the latest one and joins the bounded history; that of a
  failing run is kept with the attempt.\<close>

definition record_result :: "series_services \<Rightarrow> fs \<Rightarrow> path \<Rightarrow> json \<Rightarrow> json \<Rightarrow> json \<Rightarrow> (json \<times> json) res" where
  "record_result h f repo manifest state attempt =
     bindE (public_snapshot h f repo manifest attempt) (\<lambda>snap.
     ifE (bindE (get manifest ''status'') (\<lambda>st. Inr (jeq st (JStr ''pass''))))
       (requireE (bindE (bindE (item snap ''rows'') lenE) (\<lambda>n. bindE (catalog f repo (JStr ''registered'')) (\<lambda>cs.
           Inr (n = length cs)))) ''Successful run omitted cases'' (
        bindE (dict_set ''latest'' snap state) (\<lambda>state1.
        bindE (bindE (item state1 ''history'') iterE) (\<lambda>history.
        bindE (dict_set ''history'' (JList (last_n HISTORY_LIMIT (history @ [snap]))) state1) (\<lambda>state2.
        bindE (dict_set ''status'' (JStr ''measured'') attempt) (\<lambda>attempt1. Inr (state2, attempt1)))))))
       (bindE (dict_set ''partial'' snap attempt) (\<lambda>attempt1. Inr (state, attempt1))))"

definition settle :: "series_services \<Rightarrow> fs \<Rightarrow> path \<Rightarrow> json \<Rightarrow> json option \<Rightarrow> (json \<times> json) res" where
  "settle h f repo state evidence =
     bindE (bindE (item state ''attempt'') (dict_set ''status'' (JStr ''infrastructure-failure''))) (\<lambda>attempt.
     (case evidence of None \<Rightarrow> Inr (state, attempt)
      | Some manifest \<Rightarrow>
          bindE (dict_set ''status'' (JStr ''measurement-failure'') attempt) (\<lambda>attempt1.
          bindE (bindE (getd manifest ''cases'' (JList [])) lenE) (\<lambda>completed_cases.
          bindE (dict_set ''completedCases'' (JInt (int completed_cases)) attempt1) (\<lambda>attempt2.
          bindE (failed_observation f repo manifest attempt2) (\<lambda>attempt3.
          ifE (hasE ''repositoryRevision'' manifest)
            (record_result h f repo manifest state attempt3) (Inr (state, attempt3))))))))"

definition settled_state :: "series_services \<Rightarrow> fs \<Rightarrow> path \<Rightarrow> json \<Rightarrow> json option \<Rightarrow> json res" where
  "settled_state h f repo state evidence =
     bindE (settle h f repo state evidence) (\<lambda>(state', attempt).
     bindE (dict_set ''attempt'' attempt state') (validate_series h))"

definition finish_series :: "series_services \<Rightarrow> fs \<Rightarrow> path \<Rightarrow> path \<Rightarrow> path \<Rightarrow> string \<Rightarrow> fs res" where
  "finish_series h f repo p manifest_path evidence_status =
     bindE (bindE (read_state f p) (validate_series h)) (\<lambda>state.
     bindE (if evidence_status = ''success'' \<and> is_file f manifest_path
        then bindE (read_state f manifest_path) (\<lambda>m. Inr (Some m)) else Inr None) (\<lambda>evidence.
     bindE (settled_state h f repo state evidence) (write_state (base h) f p)))"

section \<open>Publishing\<close>

definition current_attempt :: "json \<Rightarrow> string \<Rightarrow> bool res" where
  "current_attempt state url =
     orE (bindE (get state ''attempt'') (\<lambda>a. bindE (get (if truthy a then a else JDict []) ''runUrl'') (\<lambda>u. Inr (\<not> jeq u (JStr url)))))
       (bindE (bindE (item state ''attempt'') (\<lambda>a. item a ''status'')) (\<lambda>st. Inr (jeq st (JStr ''running''))))"

definition site_series_state :: "series_services \<Rightarrow> json \<Rightarrow> json res" where
  "site_series_state h state =
     bindE (case map_of (environ (base h)) ''TRIGGER_RUN_ID'' of
         None \<Rightarrow> Inr state
       | Some trigger \<Rightarrow>
           if trigger \<noteq> [] \<and> map_of (environ (base h)) ''TRIGGER_CONCLUSION'' \<in> {Some ''failure'', Some ''cancelled'', Some ''timed_out''}
           then (let url = repository_url @ ''/actions/runs/'' @ trigger in
             ifE (current_attempt state url)
               (bindE (environE (base h) ''TRIGGER_HEAD_SHA'') (\<lambda>revision.
                dict_set ''attempt'' (JDict [(''at'', JStr (clock (base h) 0)), (''revision'', JStr revision),
                  (''status'', JStr ''infrastructure-failure''), (''runUrl'', JStr url)]) state))
               (Inr state))
           else Inr state) (\<lambda>state1.
     bindE (dict_set ''siteRevision'' (JStr (git_head (base h))) state1) (\<lambda>state2.
     bindE (item state2 ''latest'') (\<lambda>latest.
     bindE (orE (Inr (\<not> truthy latest)) (bindE (item latest ''fingerprint'') (\<lambda>x.
       bindE (series_fingerprint h) (\<lambda>y. Inr (\<not> jeq x (JStr y)))))) (\<lambda>pending.
     bindE (dict_set ''pendingChanges'' (JBool pending) state2) (validate_series h)))))"

definition site_series :: "series_services \<Rightarrow> fs \<Rightarrow> path \<Rightarrow> path \<Rightarrow> fs res" where
  "site_series h f p output =
     bindE (bindE (read_state f p) (validate_series h)) (\<lambda>state.
     bindE (site_series_state h state) (write_state (base h) f output))"

datatype series_command = RestoreSeries | StartSeries | FinishSeries string | SiteSeries

definition series_main :: "series_services \<Rightarrow> fs \<Rightarrow> path \<Rightarrow> path \<Rightarrow> path \<Rightarrow> path \<Rightarrow> series_command \<Rightarrow> fs res" where
  "series_main h f repo state manifest output cmd = (case cmd of
      RestoreSeries \<Rightarrow> restore_series h f state
    | StartSeries \<Rightarrow> start_series h f state
    | FinishSeries evidence_status \<Rightarrow> finish_series h f repo state manifest evidence_status
    | SiteSeries \<Rightarrow> site_series h f state output)"

section \<open>What acceptance means for a series\<close>

lemma requireE_iff [res_simps]: "requireE c m k = Inr y \<longleftrightarrow> c = Inr True \<and> k = Inr y"
  by (auto simp: requireE_def bindE_Inr_iff)

lemma requireE_simps [simp]: "requireE (Inr True) m k = k" "requireE (Inr False) m k = Inl (ValueError m)"
  by (simp_all add: requireE_def)

text \<open>A numeric observation: a number, finite, not negative.\<close>

definition finite_measure :: "json \<Rightarrow> bool" where
  "finite_measure v \<longleftrightarrow> is_numeric v \<and> isfiniteE v = Inr True \<and> leE (JInt 0) v = Inr True"

lemma measured_iff: "measured v = Inr True \<longleftrightarrow> finite_measure v"
  by (auto simp: measured_def finite_measure_def andE_iff)

definition summary_typed :: "json \<Rightarrow> bool" where
  "summary_typed metrics \<longleftrightarrow> (\<exists>kvs. metrics = JDict kvs \<and> fst ` set kvs = set METRICS \<and>
     (\<forall>(key, v) \<in> set kvs. finite_measure v \<and> (key = ''cpuSeconds'' \<or> ltE (JInt 0) v = Inr True)))"

lemma keys_are_iff: "keys_are v ks = Inr True \<Longrightarrow> is_dict v \<Longrightarrow> fst ` set (case v of JDict kvs \<Rightarrow> kvs) = set ks"
  by (cases v) auto

lemma check_summary_iff: "check_summary m = Inr () \<longleftrightarrow> summary_typed m"
proof (cases "itemsE m")
  case (Inl e)
  then have "\<not> is_dict m" by (cases m) auto
  then show ?thesis using Inl by (auto simp: check_summary_def summary_typed_def requireE_iff)
next
  case (Inr kvs)
  then have m: "m = JDict kvs" by (simp add: itemsE_iff)
  show ?thesis unfolding m check_summary_def summary_typed_def
    by (auto simp: requireE_iff forE_iff measured_iff orE_iff case_prod_beta)
qed

definition row_typed :: "json \<Rightarrow> bool" where
  "row_typed row \<longleftrightarrow> (\<exists>kvs. field row ''summaries'' = JDict kvs \<and> fst ` set kvs = set SERIES_ROLES \<and>
     (\<forall>m \<in> snd ` set kvs. summary_typed m))"

lemma check_input_elims:
  assumes "check_input known c = Inr known'"
  obtains w where "field c ''id'' = JStr w" "w \<notin> set known" "known' = known @ [w]"
proof -
  from assms obtain name where n: "is_dict c" "item c ''id'' = Inr name" "getd c ''id'' (JStr []) = Inr v \<Longrightarrow> is_str v"
    "\<not> jmem name (map JStr known)" "known' = known @ [str_val name]" for v
    unfolding check_input_def by (auto simp: requireE_iff bindE_Inr_iff andE_iff fullmatchE_iff)
  from n(1,2) have f: "field c ''id'' = name" by (cases c) (auto simp: field_def split: option.splits)
  from n(1,2) have "getd c ''id'' (JStr []) = Inr name" by (cases c) (auto split: option.splits)
  with n(3) obtain w where "name = JStr w" by (auto simp: is_str_iff)
  with n f that show thesis by auto
qed

lemma check_result_elims:
  assumes "check_result s known seen row = Inr seen'"
  obtains w where "field row ''case'' = JStr w" "w \<in> set known" "w \<notin> set seen" "seen' = seen @ [w]" "row_typed row"
    "check_ranges s row = Inr ()"
proof -
  from assms obtain c name vs where d: "get row ''case'' = Inr c" and c: "in_setE c known = Inr True"
    and name: "item row ''case'' = Inr name" and notin: "notE (in_setE name seen) = Inr True" and seen': "seen' = seen @ [str_val name]"
    and sm: "getd row ''summaries'' (JDict []) = Inr vs" "keys_are vs SERIES_ROLES = Inr True"
    and vals: "bindE (bindE (item row ''summaries'') valuesE) (forE check_summary) = Inr ()"
    and rg: "check_ranges s row = Inr ()"
    unfolding check_result_def by (auto simp: requireE_iff bindE_Inr_iff andE_iff)
  obtain w where w: "c = JStr w" "w \<in> set known" using c by (auto simp: in_setE_iff)
  have fr: "field row ''case'' = c" using d by (simp add: get_field)
  have "name = c" using name d by (cases row) (auto split: option.splits)
  moreover have "w \<notin> set seen" using notin \<open>name = c\<close> w by (auto simp: notE_iff in_setE_iff)
  moreover have "row_typed row"
  proof -
    from vals obtain v kvs where v: "item row ''summaries'' = Inr v" "v = JDict kvs" "\<forall>m \<in> snd ` set kvs. check_summary m = Inr ()"
      by (auto simp: bindE_Inr_iff valuesE_def itemsE_iff forE_iff)
    have "vs = v" using v(1) sm(1) by (cases row) (auto split: option.splits)
    then have "fst ` set kvs = set SERIES_ROLES" using sm(2) v(2) by simp
    moreover have "field row ''summaries'' = JDict kvs" using v by (cases row) (auto simp: field_def split: option.splits)
    ultimately show ?thesis using v(3) by (auto simp: row_typed_def check_summary_iff)
  qed
  ultimately show thesis using that [of w] w fr seen' rg by auto
qed

lemma input_ids:
  "foldE check_input [] cs = Inr known \<Longrightarrow> map (\<lambda>c. field c ''id'') cs = map JStr known \<and> distinct known"
proof (rule foldE_prefix_invariant [where P = "\<lambda>cs known. map (\<lambda>c. field c ''id'') cs = map JStr known \<and> distinct known"])
  fix ys x u v assume u: "map (\<lambda>c. field c ''id'') ys = map JStr u \<and> distinct u" and step: "check_input u x = Inr v"
  from check_input_elims [OF step] obtain w where "field x ''id'' = JStr w" "w \<notin> set u" "v = u @ [w]" by metis
  with u show "map (\<lambda>c. field c ''id'') (ys @ [x]) = map JStr v \<and> distinct v" by auto
qed auto

lemma result_ids:
  "foldE (check_result s known) [] rs = Inr seen \<Longrightarrow>
     map (\<lambda>r. field r ''case'') rs = map JStr seen \<and> distinct seen \<and> set seen \<subseteq> set known \<and>
     list_all (\<lambda>r. row_typed r \<and> check_ranges s r = Inr ()) rs"
proof (rule foldE_prefix_invariant [where P = "\<lambda>rs seen. map (\<lambda>r. field r ''case'') rs = map JStr seen \<and>
    distinct seen \<and> set seen \<subseteq> set known \<and> list_all (\<lambda>r. row_typed r \<and> check_ranges s r = Inr ()) rs"])
  fix ys x u v
  assume u: "map (\<lambda>r. field r ''case'') ys = map JStr u \<and> distinct u \<and> set u \<subseteq> set known \<and>
      list_all (\<lambda>r. row_typed r \<and> check_ranges s r = Inr ()) ys"
    and step: "check_result s known u x = Inr v"
  from check_result_elims [OF step] obtain w where "field x ''case'' = JStr w" "w \<in> set known" "w \<notin> set u"
    "v = u @ [w]" "row_typed x" "check_ranges s x = Inr ()" by metis
  with u show "map (\<lambda>r. field r ''case'') (ys @ [x]) = map JStr v \<and> distinct v \<and> set v \<subseteq> set known \<and>
      list_all (\<lambda>r. row_typed r \<and> check_ranges s r = Inr ()) (ys @ [x])" by auto
qed auto

text \<open>C36. An accepted snapshot is typed all the way down: it names between one and a hundred distinct input
  cases, every result row is for one of them and no case has two rows, and every row has exactly the
  three programs, each with exactly the five metrics, each metric a finite number that is not
  negative, and positive but for the processor time.\<close>

theorem accepted_series_typed:
  assumes "check_series_snapshot h s = Inr ()"
  shows "\<exists>inputs rows ids. field s ''inputs'' = JList inputs \<and> field s ''rows'' = JList rows \<and>
    1 \<le> length inputs \<and> length inputs \<le> 100 \<and> map (\<lambda>c. field c ''id'') inputs = map JStr ids \<and> distinct ids \<and>
    (\<forall>r \<in> set rows. row_typed r \<and> field r ''case'' \<in> JStr ` set ids) \<and> distinct (map (\<lambda>r. field r ''case'') rows)"
proof -
  from assms have "check_cases s = Inr ()" by (auto simp: check_series_snapshot_def bindE_Inr_iff)
  then obtain inputs rows cs rs known seen where g: "get s ''inputs'' = Inr inputs" "get s ''rows'' = Inr rows"
    and inv: "case inputs of JList xs \<Rightarrow> 1 \<le> length xs \<and> length xs \<le> 100 \<and> is_list rows | _ \<Rightarrow> False"
    and it: "iterE inputs = Inr cs" "iterE rows = Inr rs"
    and k: "foldE check_input [] cs = Inr known" "foldE (check_result s known) [] rs = Inr seen"
    unfolding check_cases_def by (auto simp: bindE_Inr_iff requireE_iff)
  have f: "field s ''inputs'' = JList cs" "field s ''rows'' = JList rs" "1 \<le> length cs" "length cs \<le> 100"
    using g inv it by (auto simp: get_field is_list_iff split: json.splits)
  note a = input_ids [OF k(1)] and b = result_ids [OF k(2)]
  have "field r ''case'' \<in> JStr ` set known" if "r \<in> set rs" for r
  proof -
    have "field r ''case'' \<in> set (map (\<lambda>r. field r ''case'') rs)" using that by simp
    with b show ?thesis by auto
  qed
  moreover have "distinct (map (\<lambda>r. field r ''case'') rs)" using b by (simp add: distinct_map inj_on_def)
  ultimately show ?thesis using f a b by (auto simp: list_all_iff)
qed

section \<open>A state for the witnesses\<close>

lemma fullmatchE_digests [code_unfold]:
  "fullmatchE HASH64 = (\<lambda>v. case v of JStr s \<Rightarrow> Inr (is_hex 64 s) | _ \<Rightarrow> Inl TypeError)"
  "fullmatchE SHA = (\<lambda>v. case v of JStr s \<Rightarrow> Inr (is_hex 40 s) | _ \<Rightarrow> Inl TypeError)"
  by (auto simp: HASH64_def SHA_def fun_eq_iff split: json.split)

definition demo_sha :: string where "demo_sha = replicate 40 (CHR ''a'')"
definition demo_digest :: string where "demo_digest = replicate 64 (CHR ''b'')"

definition demo_services :: series_services where
  "demo_services = \<lparr>base = \<lparr>environ = [(''GITHUB_REPOSITORY'', ''type-rb/type-rb-native''), (''GITHUB_RUN_ID'', ''7'')],
       clock = (\<lambda>n. ''2026-01-01T00:00:00+00:00''), git_head = demo_sha, ls_tree = ''x'' @ [TAB] @ ''trbn'' @ [NUL],
       sha256 = (\<lambda>s. demo_digest), gh_json = (\<lambda>u. Inl (OSError u)), gh_bytes = (\<lambda>u. Inl (OSError u)),
       zip_member = (\<lambda>a n. Inl (KeyError n)), frepr = (\<lambda>q. ''0.5''), pystr = (\<lambda>v. [])\<rparr>,
     zoned = (\<lambda>t. Inr True), public_document = Inl (OSError ''offline'')\<rparr>"

definition demo_metrics :: json where
  "demo_metrics = JDict (map (\<lambda>k. (k, JFloat (Fin 2))) METRICS)"

definition demo_tools :: json where
  "demo_tools = JDict (map (\<lambda>k. (k, JDict [(''sha256'', JStr demo_digest), (''version'', JStr ''1'')])) [''native'', ''reference'', ''go''])"

definition demo_binaries :: json where
  "demo_binaries = JDict (map (\<lambda>k. (k, JDict [(''sha256'', JStr demo_digest), (''bytes'', JInt 9)])) SERIES_ROLES)"

definition demo_input :: json where
  "demo_input = JDict [(''id'', JStr ''hash-small''), (''size'', JStr ''small''), (''count'', JInt 4), (''batches'', JInt 10)]"

definition demo_snapshot :: json where
  "demo_snapshot = JDict [(''at'', JStr ''2026-01-01T00:00:00+00:00''), (''revision'', JStr demo_sha),
     (''referenceRevision'', JStr demo_sha), (''fingerprint'', JStr demo_digest),
     (''runUrl'', JStr (repository_url @ ''/actions/runs/7'')),
     (''sources'', JDict (map (\<lambda>(k, n). (k, JStr demo_digest)) SOURCES)), (''platform'', JStr ''linux''), (''machine'', JStr ''x''),
     (''samples'', JInt 3), (''warmups'', JInt 1), (''inputs'', JList [demo_input]),
     (''rows'', JList [JDict [(''case'', JStr ''hash-small''), (''summaries'', JDict (map (\<lambda>r. (r, demo_metrics)) SERIES_ROLES))]]),
     (''inputProfile'', JStr ''registered''), (''tools'', demo_tools), (''binaries'', demo_binaries),
     (''environment'', JDict [(''GOMAXPROCS'', JStr ''1'')]), (''series'', JStr demo_digest)]"

lemma demo_header: "check_identity demo_services demo_snapshot = Inr ()"
  unfolding check_identity_def by code_simp

lemma demo_identities: "check_binaries demo_snapshot = Inr ()" by code_simp

lemma demo_environment: "check_environment demo_snapshot = Inr ()" by code_simp

lemma demo_sampling: "check_sampling demo_snapshot = Inr ()" by code_simp

lemma demo_cases: "check_cases demo_snapshot = Inr ()" by code_simp

lemma demo_tool_identities: "bindE (bindE (getd demo_snapshot ''tools'' (JDict [])) valuesE)
     (forE (\<lambda>tool. requireE (tool_ok tool) ''Invalid public tool identity'' (Inr ()))) = Inr ()"
  by code_simp

lemmas demo_checks = demo_header demo_identities demo_environment demo_sampling demo_cases demo_tool_identities

lemma accepted_series_typed_witness:
  "\<exists>inputs rows ids. field demo_snapshot ''inputs'' = JList inputs \<and> field demo_snapshot ''rows'' = JList rows \<and>
    length inputs \<le> 100 \<and> distinct (map (\<lambda>r. field r ''case'') rows)"
proof -
  have "check_series_snapshot demo_services demo_snapshot = Inr ()" by (simp add: check_series_snapshot_def demo_checks)
  from accepted_series_typed [OF this] show ?thesis by blast
qed

section \<open>Attempts\<close>

lemma getd_dict_set: "dict_set k x d = Inr d' \<Longrightarrow> getd d' j e = (if j = k then Inr x else getd d j e)"
  by (cases d) (auto simp: update_conv')

definition series_ok :: "series_services \<Rightarrow> json \<Rightarrow> bool" where
  "series_ok h state \<longleftrightarrow> is_dict state \<and> jeq (field state ''schemaVersion'') (JInt 1) \<and>
     field state ''profile'' = JStr ''representative'' \<and>
     (\<exists>hs. field state ''history'' = JList hs \<and> length hs \<le> HISTORY_LIMIT \<and>
        (\<forall>s \<in> set (field state ''latest'' # hs). check_complete_snapshot h s = Inr ())) \<and>
     check_attempt h (field state ''attempt'') = Inr ()"

lemma validate_series_iff: "validate_series h s = Inr t \<longleftrightarrow> t = s \<and> series_ok h s"
proof (cases "is_dict s")
  case True
  then have g: "get s k = Inr (field s k)" for k by (simp add: get_field)
  show ?thesis
  proof (cases "field s ''history''")
    case (JList hs)
    then have "item s ''history'' = Inr (JList hs)" using True
      by (cases s) (auto simp: field_def split: option.splits)
    then show ?thesis unfolding validate_series_def g bindE_simps JList
      using True by (auto simp: res_simps series_ok_def JList)
  qed (auto simp: validate_series_def g series_ok_def requireE_iff bindE_Inr_iff True)
next
  case False
  then show ?thesis by (auto simp: validate_series_def series_ok_def requireE_iff)
qed

lemma series_ok_attempt:
  assumes "series_ok h s" "dict_set ''attempt'' a s = Inr t" "check_attempt h a = Inr ()"
  shows "series_ok h t"
  using assms(1,3) field_dict_set [OF assms(2)] is_dict_set [OF assms(2)] by (simp add: series_ok_def)

lemma attempt_status:
  assumes "check_attempt h a = Inr ()" "dict_set ''status'' (JStr st) a = Inr b" "st \<in> set attempt_statuses"
  shows "check_attempt h b = Inr ()" "field b ''status'' = JStr st"
proof -
  have "a \<noteq> JNull" "b \<noteq> JNull" using assms(2) by (cases a; auto)+
  with assms(1,3) show "check_attempt h b = Inr ()"
    unfolding check_attempt_def getd_dict_set [OF assms(2)] by (simp add: requireE_iff bindE_Inr_iff)
  show "field b ''status'' = JStr st" using field_dict_set [OF assms(2)] by simp
qed

text \<open>C37. A started run can always be settled: from the state that starting leaves, with the attempt marked as
  running, finishing without evidence succeeds whatever the files hold, the attempt is then an
  infrastructure failure, and the published measurement and the history are untouched.\<close>

theorem started_run_settles:
  assumes "start_state h state = Inr s"
  shows "field (field s ''attempt'') ''status'' = JStr ''running'' \<and>
    (\<exists>t. settled_state h f repo s None = Inr t \<and> field (field t ''attempt'') ''status'' = JStr ''infrastructure-failure'' \<and>
       field t ''latest'' = field s ''latest'' \<and> field t ''history'' = field s ''history'')"
proof -
  from assms obtain a s1 s2 where s1: "dict_set ''attempt'' (JDict a) state = Inr s1" "map_of a ''status'' = Some (JStr ''running'')"
    and s2: "dict_pop ''publicationWarning'' s1 = Inr s2" and v: "validate_series h s2 = Inr s"
    unfolding start_state_def by (force simp: requireE_iff bindE_Inr_iff)
  have ok: "s = s2" "series_ok h s" using v by (auto simp: validate_series_iff)
  have att: "field s ''attempt'' = JDict a"
    using field_dict_set [OF s1(1), of "''attempt''"] s2 ok(1) by (cases s1) (auto simp: field_def delete_conv')
  have run: "field (field s ''attempt'') ''status'' = JStr ''running''" unfolding att by (simp add: field_def s1(2))
  have it: "item s ''attempt'' = Inr (JDict a)" using att ok(2)
    by (cases s) (auto simp: field_def series_ok_def split: option.splits)
  obtain b where b: "dict_set ''status'' (JStr ''infrastructure-failure'') (JDict a) = Inr b" by simp
  obtain t where t: "dict_set ''attempt'' b s = Inr t" using ok(2) by (cases s) (auto simp: series_ok_def)
  have ca: "check_attempt h (JDict a) = Inr ()" using ok(2) att by (simp add: series_ok_def)
  note st = attempt_status [OF ca b]
  have "series_ok h t" by (rule series_ok_attempt [OF ok(2) t st(1)]) (simp add: attempt_statuses_def)
  then have "settled_state h f repo s None = Inr t"
    using it b t by (simp add: settled_state_def settle_def validate_series_iff)
  moreover have "field (field t ''attempt'') ''status'' = JStr ''infrastructure-failure''"
    using field_dict_set [OF t] st(2) by (simp add: attempt_statuses_def)
  ultimately show ?thesis using run field_dict_set [OF t] by auto
qed

lemma started_run_settles_witness:
  "\<exists>s t. start_state demo_services empty_series = Inr s \<and> settled_state demo_services [] [] s None = Inr t \<and>
     field (field t ''attempt'') ''status'' = JStr ''infrastructure-failure''"
proof -
  have "case start_state demo_services empty_series of Inl e \<Rightarrow> False | Inr s \<Rightarrow> True" by code_simp
  then obtain s where s: "start_state demo_services empty_series = Inr s" by (auto split: sum.splits)
  from started_run_settles [OF this] s show ?thesis by blast
qed

section \<open>What finishing publishes\<close>

lemma iter_history:
  assumes "field s ''history'' = JList old" "bindE (item s ''history'') iterE = Inr hs"
  shows "hs = old"
  using assms by (cases s) (auto simp: field_def bindE_Inr_iff split: option.splits)

lemma record_result_elims:
  assumes "record_result h f repo manifest state attempt = Inr (state', attempt')" "field state ''history'' = JList old"
  obtains (published) snap where "dict_set ''status'' (JStr ''measured'') attempt = Inr attempt'"
      "check_series_snapshot h snap = Inr ()" "field state' ''latest'' = snap"
      "field state' ''history'' = JList (last_n HISTORY_LIMIT (old @ [snap]))"
  | (kept) snap where "state' = state" "dict_set ''partial'' snap attempt = Inr attempt'"
proof -
  from assms(1) obtain snap where snap: "public_snapshot h f repo manifest attempt = Inr snap"
    and cases: "(\<exists>s1 history. dict_set ''latest'' snap state = Inr s1 \<and> bindE (item s1 ''history'') iterE = Inr history \<and>
        dict_set ''history'' (JList (last_n HISTORY_LIMIT (history @ [snap]))) s1 = Inr state' \<and>
        dict_set ''status'' (JStr ''measured'') attempt = Inr attempt') \<or>
      (state' = state \<and> dict_set ''partial'' snap attempt = Inr attempt')"
    unfolding record_result_def by (auto simp: bindE_Inr_iff ifE_iff requireE_iff)
  have ok: "check_series_snapshot h snap = Inr ()"
    using snap unfolding public_snapshot_def Let_def bindE_Inr_iff by (elim exE conjE) simp
  from cases show thesis
  proof (elim disjE exE conjE)
    fix s1 history
    assume s1: "dict_set ''latest'' snap state = Inr s1" and hs: "bindE (item s1 ''history'') iterE = Inr history"
      and s2: "dict_set ''history'' (JList (last_n HISTORY_LIMIT (history @ [snap]))) s1 = Inr state'"
      and a: "dict_set ''status'' (JStr ''measured'') attempt = Inr attempt'"
    have "field s1 ''history'' = JList old" using field_dict_set [OF s1] assms(2) by simp
    from iter_history [OF this hs] have "history = old" .
    then show thesis
      using published [OF a ok] field_dict_set [OF s2] field_dict_set [OF s1] by simp
  next
    assume "state' = state" "dict_set ''partial'' snap attempt = Inr attempt'"
    then show thesis by (rule kept)
  qed
qed

definition attempt_state :: "json \<Rightarrow> json" where
  "attempt_state state = field (field state ''attempt'') ''status''"


section \<open>What a snapshot discloses\<close>

lemma mapE_keyed:
  "mapE f ks = Inr kvs \<Longrightarrow> (\<And>k kv. f k = Inr kv \<Longrightarrow> fst kv = k \<and> P (snd kv)) \<Longrightarrow>
     map fst kvs = ks \<and> (\<forall>w \<in> snd ` set kvs. P w)"
  by (induction ks arbitrary: kvs) (fastforce simp: bindE_Inr_iff)+

lemma pick_keys: "pick keys d = Inr v \<Longrightarrow> \<exists>kvs. v = JDict kvs \<and> map fst kvs = keys"
  unfolding pick_def bindE_Inr_iff
  by (elim exE conjE, drule mapE_keyed [where P = "\<lambda>w. True"]) (auto simp: bindE_Inr_iff)

definition exact_fields :: "string list \<Rightarrow> json \<Rightarrow> bool" where
  "exact_fields ks v \<longleftrightarrow> (\<exists>kvs. v = JDict kvs \<and> map fst kvs = ks)"

lemma pick_each_keys:
  assumes "pick_each names keys d = Inr v"
  shows "\<exists>kvs. v = JDict kvs \<and> map fst kvs = names \<and> (\<forall>w \<in> snd ` set kvs. exact_fields keys w)"
proof -
  from assms obtain kvs where v: "v = JDict kvs"
    and m: "mapE (\<lambda>n. bindE (item d n) (\<lambda>v. bindE (pick keys v) (\<lambda>w. Inr (n, w)))) names = Inr kvs"
    by (auto simp: pick_each_def bindE_Inr_iff)
  have "fst kv = n \<and> exact_fields keys (snd kv)"
    if "bindE (item d n) (\<lambda>v. bindE (pick keys v) (\<lambda>w. Inr (n, w))) = Inr kv" for n kv
    using that by (auto simp: bindE_Inr_iff exact_fields_def dest: pick_keys)
  from mapE_keyed [OF m this] v show ?thesis by blast
qed

definition public_fields :: "string list" where
  "public_fields = [''at'', ''revision'', ''referenceRevision'', ''fingerprint'', ''runUrl'', ''sources'', ''platform'', ''machine'',
     ''samples'', ''warmups'', ''inputs'', ''rows'', ''inputProfile'', ''tools'', ''binaries'', ''environment'', ''series'']"

definition only_fields :: "string list \<Rightarrow> json \<Rightarrow> bool" where
  "only_fields ks v \<longleftrightarrow> (case v of JDict kvs \<Rightarrow> fst ` set kvs \<subseteq> set ks | _ \<Rightarrow> False)"

definition environment_fields :: "string list" where
  "environment_fields = [''GOMAXPROCS'', ''affinity'', ''cpuPinning'', ''filesystemCache'', ''peakRssMethod'', ''timingMethod'', ''rssTool'']"

lemma only_fields_set:
  "dict_set k x d = Inr e \<Longrightarrow> only_fields ks d \<Longrightarrow> k \<in> set ks \<Longrightarrow> only_fields ks e"
  by (cases d) (auto simp: only_fields_def keys_update)

lemma public_environment_fields:
  assumes "public_environment manifest = Inr v"
  shows "only_fields environment_fields v \<and> (field v ''rssTool'' = JNull \<or> exact_fields [''sha256'', ''version''] (field v ''rssTool''))"
proof -
  let ?P = "\<lambda>d. only_fields environment_fields d \<and> field d ''rssTool'' = JNull"
  from assms obtain e d0 d1 where d0: "pick [''GOMAXPROCS'', ''affinity'', ''cpuPinning'', ''filesystemCache''] e = Inr d0"
    and d1: "foldE (\<lambda>d k. ifE (hasE k e) (bindE (item e k) (\<lambda>v. dict_set k v d)) (Inr d)) d0
        [''peakRssMethod'', ''timingMethod''] = Inr d1"
    and rest: "ifE (hasE ''rssTool'' e)
       (bindE (bindE (item e ''rssTool'') (pick [''sha256'', ''version''])) (\<lambda>t. dict_set ''rssTool'' t d1)) (Inr d1) = Inr v"
    by (auto simp: public_environment_def bindE_Inr_iff simp del: foldE.simps)
  from rest have v: "v = d1 \<or> (\<exists>t x. pick [''sha256'', ''version''] x = Inr t \<and> dict_set ''rssTool'' t d1 = Inr v)"
    by (auto simp: ifE_iff bindE_Inr_iff)
  have "?P d1"
    using d1
  proof (rule foldE_invariant [where P = ?P])
    show "?P d0" using pick_keys [OF d0]
      by (auto simp: only_fields_def environment_fields_def field_def map_eq_Cons_conv split: option.splits dest: map_of_SomeD)
    fix k u w assume k: "k \<in> set [''peakRssMethod'', ''timingMethod'']" and u: "?P u"
      and w: "ifE (hasE k e) (bindE (item e k) (\<lambda>v. dict_set k v u)) (Inr u) = Inr w"
    show "?P w" using w u k by (auto simp: ifE_iff bindE_Inr_iff field_dict_set environment_fields_def intro: only_fields_set)
  qed
  with v show ?thesis
    by (auto simp: field_dict_set environment_fields_def exact_fields_def intro: only_fields_set dest!: pick_keys)
qed


section \<open>A complete run\<close>

definition demo_suite :: string where
  "demo_suite = map (\<lambda>c. if c = CHR ''^'' then DQ else c) (
     ''{^inputProfiles^: {^registered^: {^batchMultipliers^: {^small^: 2}}}, '' @
     ''^cases^: [{^id^: ^hash-small^, ^size^: ^small^, ^count^: 4, ^batches^: 5}]}'')"

definition demo_repo :: fs where
  "demo_repo = [
    ([''TYPE_RB_REVISION''], NFile (demo_sha @ [NL]) 420),
    ([''benchmarks'', ''representative'', ''src'', ''main.trb''], NFile ''a'' 420),
    ([''benchmarks'', ''representative'', ''go'', ''main.go''], NFile ''b'' 420),
    ([''tools'', ''representative-performance'', ''suite.json''], NFile demo_suite 420),
    ([''tools'', ''representative-performance'', ''measure.py''], NFile ''c'' 420)]"

definition demo_role_data :: json where
  "demo_role_data = JDict [(''processWallSeconds'', JDict [(''count'', JInt 3), (''p50'', JFloat (Fin 2))]),
     (''cpuSeconds'', JFloat (Fin 1)), (''peakRssBytes'', JFloat (Fin 8)), (''unitsPerSecond'', JFloat (Fin 4)),
     (''firstProcessWallSeconds'', JFloat (Fin 2))]"

definition demo_run :: json where
  "demo_run = JDict [(''repositoryRevision'', JStr demo_sha), (''status'', JStr ''pass''), (''startedAt'', JStr ''now''),
     (''platform'', JStr ''linux''), (''machine'', JStr ''x''), (''samples'', JInt 3), (''warmups'', JInt 1),
     (''sourceSha256'', JStr demo_digest), (''goSourceSha256'', JStr demo_digest), (''suiteSha256'', JStr demo_digest),
     (''controllerSha256'', JStr demo_digest), (''plannedCases'', JList [demo_input]),
     (''cases'', JList [JDict [(''input'', demo_input), (''summaries'', JDict (map (\<lambda>r. (r, demo_role_data)) SERIES_ROLES))]]),
     (''tools'', JDict (map (\<lambda>n. (n, JDict [(''path'', JStr ''/home/me''), (''sha256'', JStr demo_digest), (''version'', JStr ''1'')]))
        [''native'', ''reference'', ''go''])),
     (''binaries'', demo_binaries),
     (''environment'', JDict [(''GOMAXPROCS'', JStr ''1''), (''affinity'', JNull), (''cpuPinning'', JStr ''none''),
        (''filesystemCache'', JStr ''warm''), (''cpuCount'', JInt 8)])]"

definition demo_attempt :: json where
  "demo_attempt = JDict [(''at'', JStr ''now''), (''revision'', JStr demo_sha), (''runUrl'', JStr (repository_url @ ''/actions/runs/7'')),
     (''status'', JStr ''running''), (''fingerprint'', JStr demo_digest)]"

definition demo_started :: json where
  "demo_started = JDict [(''schemaVersion'', JInt 1), (''latest'', JNull), (''attempt'', demo_attempt),
     (''history'', JList []), (''profile'', JStr ''representative'')]"

lemma demo_published: "case public_snapshot demo_services demo_repo [] demo_run demo_attempt of Inl e \<Rightarrow> False | Inr s \<Rightarrow> True"
  by code_simp


lemma demo_started_valid: "validate_series demo_services demo_started = Inr demo_started"
proof -
  have "check_attempt demo_services demo_attempt = Inr ()" by code_simp
  then show ?thesis
    by (auto simp: validate_series_iff series_ok_def demo_started_def field_def HISTORY_LIMIT_def check_complete_snapshot_def)
qed

lemma demo_settled: "case settled_state demo_services demo_repo [] demo_started (Some demo_run) of
    Inl e \<Rightarrow> False | Inr t \<Rightarrow> attempt_state t = JStr ''measured''"
  by code_simp


section \<open>Published medians and published ranges\<close>

lemma item_field: "item v k = Inr x \<Longrightarrow> field v k = x"
  by (cases v) (auto simp: field_def split: option.splits)

lemma mapE_items:
  "mapE (\<lambda>k. bindE (item d k) (\<lambda>v. Inr (k, v))) ks = Inr kvs \<Longrightarrow> k \<in> set ks \<Longrightarrow> map_of kvs k = Some (field d k)"
  by (induction ks arbitrary: kvs) (auto simp: bindE_Inr_iff dest: item_field)

text \<open>With an odd number of retained samples a summary passes the publication's comparison of medians and
  ranges: the median published for each of the four ranged metrics of a program is the middle of the
  range published for it.\<close>

theorem odd_samples_agree:
  assumes "summarize records units = Inr summary" "summary \<noteq> JNull"
    and "retained_of records = Inr retained" "odd (length retained)" "length retained < 2 ^ 50"
    and "role_summary manifest c role = Inr (role, m)" "field (field c ''summaries'') role = summary"
    and "key \<in> set ranged_metrics"
  shows "field m key = field (field (field summary ''sampleRanges'') key) ''p50''"
proof -
  from assms(1-3) have so: "summary_of records retained units = Inr summary"
    by (auto simp: summarize_def ifE_iff)
  from summary_fields [OF this assms(4,5)] obtain kvs wall cpu rss rate ranges where
    s: "summary = JDict kvs" "map_of kvs ''processWallSeconds'' = Some (JDict wall)"
      "map_of kvs ''cpuSeconds'' = Some cpu" "map_of kvs ''peakRssBytes'' = Some rss" "map_of kvs ''unitsPerSecond'' = Some rate"
      "map_of kvs ''sampleRanges'' = Some (JDict ranges)"
    and rg: "\<forall>(key, v) \<in> set (zip ranged_metrics [the (map_of wall ''p50''), cpu, rss, rate]).
         \<exists>r. map_of ranges key = Some (JDict r) \<and> map_of r ''p50'' = Some v"
    by blast
  from assms(6) obtain data w rest where d: "bindE (item c ''summaries'') (\<lambda>d. item d role) = Inr data"
    and w: "bindE (item data ''processWallSeconds'') (\<lambda>d. item d ''p50'') = Inr w"
    and rest: "mapE (\<lambda>k. bindE (item data k) (\<lambda>v. Inr (k, v))) (filter (\<lambda>k. k \<noteq> ''wallSeconds'') METRICS) = Inr rest"
    and m: "m = JDict ((''wallSeconds'', w) # rest)"
    unfolding role_summary_def by (auto simp: requireE_iff bindE_Inr_iff [where f = "\<lambda>x. Inr (f x)" for f] bindE_Inr_iff simp del: mapE.simps)
  have data: "data = summary" using d assms(7) by (auto simp: bindE_Inr_iff dest!: item_field)
  have wv: "w = the (map_of wall ''p50'')" using w s(1,2) by (auto simp: data bindE_Inr_iff item_iff split: option.splits)
  have same: "field m k = field summary k" if "k \<in> {''cpuSeconds'', ''peakRssBytes'', ''unitsPerSecond''}" for k
    using mapE_items [OF rest, of k] that by (auto simp: m field_def METRICS_def data s(1))
  have fs: "field summary ''cpuSeconds'' = cpu" "field summary ''peakRssBytes'' = rss" "field summary ''unitsPerSecond'' = rate"
    by (simp_all add: field_def s)
  have v: "field m ''wallSeconds'' = the (map_of wall ''p50'')" "field m ''cpuSeconds'' = cpu"
    "field m ''peakRssBytes'' = rss" "field m ''unitsPerSecond'' = rate"
    using same [of "''cpuSeconds''"] same [of "''peakRssBytes''"] same [of "''unitsPerSecond''"] fs
    by (simp_all add: wv m field_def [of "JDict ((''wallSeconds'', _) # _)" "''wallSeconds''"])
  have zip: "zip ranged_metrics [a, b, c, d] = [(''wallSeconds'', a), (''cpuSeconds'', b), (''peakRssBytes'', c), (''unitsPerSecond'', d)]"
    for a b c d :: json by (simp add: ranged_metrics_def)
  have "key = ''wallSeconds'' \<or> key = ''cpuSeconds'' \<or> key = ''peakRssBytes'' \<or> key = ''unitsPerSecond''"
    using assms(8) by (simp add: ranged_metrics_def)
  then have "(key, field m key) \<in> set (zip ranged_metrics [the (map_of wall ''p50''), cpu, rss, rate])"
    unfolding zip list.set by (elim disjE) (simp_all only: v insert_iff prod.inject simp_thms)
  from bspec [OF rg this] show ?thesis by (auto simp: s field_def)
qed

definition demo_odd_data :: json where
  "demo_odd_data = (case summarize [demo_observation 1] (JInt 6) of Inr v \<Rightarrow> v | Inl e \<Rightarrow> JNull)"

definition demo_odd_case :: json where
  "demo_odd_case = JDict [(''summaries'', JDict [(''native'', demo_odd_data)])]"

lemma demo_odd_summary:
  "summarize [demo_observation 1] (JInt 6) = Inr demo_odd_data \<and> demo_odd_data \<noteq> JNull \<and>
   (\<exists>m. role_summary (JDict [(''samples'', JInt 1)]) demo_odd_case ''native'' = Inr (''native'', m))"
proof -
  have i: "item (demo_observation w) ''wallSeconds'' = Inr (JInt w)" "item (demo_observation w) ''cpuSeconds'' = Inr (JInt 1)"
    "item (demo_observation w) ''peakRssBytes'' = Inr (JInt 1)" "item (demo_observation w) ''phase'' = Inr (JStr ''retained'')"
    "item (demo_observation w) ''status'' = Inr (JStr ''pass'')" for w
    by (simp_all add: demo_observation_def)
  have one: "percentile [JInt 1] (1 / 2) = Inr (JInt 1)" "median [JInt 1] = Inr (JInt 1)"
    "maxE [x] = Inr x" "minE [x] = Inr x"
    "distribution [JInt 1] = Inr (JDict [(''count'', JInt 1), (''p50'', JInt 1), (''p95'', JNull), (''p99'', JNull), (''maximum'', JInt 1)])" for x
    by (simp_all add: distribution_def) (simp_all add: percentile_def tail_minimum_def rank_of_def small_numbers median_def maxE_def minE_def)
  have "\<exists>kvs. summarize [demo_observation 1] (JInt 6) = Inr (JDict kvs) \<and>
      (\<exists>wall. map_of kvs ''processWallSeconds'' = Some (JDict wall) \<and> map_of wall ''count'' = Some (JInt 1) \<and> map_of wall ''p50'' \<noteq> None) \<and>
      map_of kvs ''cpuSeconds'' \<noteq> None \<and> map_of kvs ''peakRssBytes'' \<noteq> None \<and> map_of kvs ''unitsPerSecond'' \<noteq> None \<and>
      map_of kvs ''firstProcessWallSeconds'' \<noteq> None"
    by (simp add: summarize_def retained_of_def i summary_of_def demo_observation_step medians_of_def one demo_even_parts demo_even_rest
        sample_range_def metric_value_def ranged_metrics_def)
  then obtain kvs wall where s: "summarize [demo_observation 1] (JInt 6) = Inr (JDict kvs)"
    "map_of kvs ''processWallSeconds'' = Some (JDict wall)" "map_of wall ''count'' = Some (JInt 1)" "map_of wall ''p50'' \<noteq> None"
    "map_of kvs ''cpuSeconds'' \<noteq> None" "map_of kvs ''peakRssBytes'' \<noteq> None" "map_of kvs ''unitsPerSecond'' \<noteq> None"
    "map_of kvs ''firstProcessWallSeconds'' \<noteq> None" by blast
  then have d: "demo_odd_data = JDict kvs" by (simp add: demo_odd_data_def)
  from s(4-8) obtain p c r u w where v: "map_of wall ''p50'' = Some p" "map_of kvs ''cpuSeconds'' = Some c"
    "map_of kvs ''peakRssBytes'' = Some r" "map_of kvs ''unitsPerSecond'' = Some u" "map_of kvs ''firstProcessWallSeconds'' = Some w"
    by auto
  show ?thesis unfolding d using s(1) by (simp add: role_summary_def demo_odd_case_def METRICS_def requireE_def s(2,3) v d)
qed

lemma odd_samples_agree_witness:
  "\<exists>m. role_summary (JDict [(''samples'', JInt 1)]) demo_odd_case ''native'' = Inr (''native'', m) \<and>
     field m ''unitsPerSecond'' = field (field (field demo_odd_data ''sampleRanges'') ''unitsPerSecond'') ''p50''"
proof -
  from demo_odd_summary obtain m where m: "role_summary (JDict [(''samples'', JInt 1)]) demo_odd_case ''native'' = Inr (''native'', m)"
    and s: "summarize [demo_observation 1] (JInt 6) = Inr demo_odd_data" "demo_odd_data \<noteq> JNull" by blast
  have r: "retained_of [demo_observation 1] = Inr [demo_observation 1]" by (simp add: retained_of_def demo_observation_def)
  have f: "field (field demo_odd_case ''summaries'') ''native'' = demo_odd_data" by (simp add: demo_odd_case_def field_def)
  have k: "''unitsPerSecond'' \<in> set ranged_metrics" by (simp add: ranged_metrics_def)
  from odd_samples_agree [OF s r _ _ m f k] m show ?thesis by simp
qed

end
