(* ===== verification/OfficialSources.thy ===== *)
theory OfficialSources
  imports DailyState PyRegexText PyProc NetworkArtifacts
begin

text \<open>
  \<open>tools/official-sources.py\<close>: the bundled official sources against the pinned reference. The files of
  the reference come from Git objects, the bundle is a directory, the catalogue is a generated source
  text; \<open>check_sources\<close> compares all three and \<open>sync_sources\<close> writes bundle and catalogue. The Git
  process, SHA-256 and the UTF-8 codec are parameters, and so are the names of the temporary files.
\<close>

record pinned =
  git_process :: "string list \<Rightarrow> completed"
  pin_sha :: "string \<Rightarrow> string"
  utf8_decode :: "string \<Rightarrow> string res"
  utf8_encode :: "string \<Rightarrow> string"
  bundle_temporary :: string
  catalog_temporary :: string

section \<open>Constants\<close>

definition SOURCE_ROOT :: string where "SOURCE_ROOT = ''internal/official/packages''"

definition BUNDLE :: path where "BUNDLE = [''vendor'', ''type-rb'', ''official'']"

definition CATALOG :: path where "CATALOG = [''compiler'', ''src'', ''project'', ''official_catalog.trb'']"

definition adapter_path :: "string \<Rightarrow> path" where
  "adapter_path name = [''compiler'', ''packages'', ''internal'', name @ ''.trb'']"

definition STDLIB_SOURCES :: "(string \<times> string) list" where
  "STDLIB_SOURCES = map (\<lambda>n. (n, ''internal/stdlib/'' @ n @ ''.go''))
     [''url'', ''json'', ''jsonc'', ''time'', ''hex'', ''base64'', ''path'', ''hash'', ''hmac'', ''file'', ''dir'', ''errors''] @
     [(''test'', ''internal/stdlib/registry.go'')]"

definition NATIVE_ADAPTERS :: "string list" where
  "NATIVE_ADAPTERS = [''time'', ''time_calendar'', ''time_parse'', ''time_zones'', ''time_host'', ''web_context'', ''hex'', ''base64'',
     ''encoding_bytes'', ''secure_random'', ''entropy'', ''web_dispatch'', ''network_host'', ''web_server'', ''oidc'', ''oidc_json'',
     ''oidc_host'', ''oidc_http'']"

section \<open>The reference files\<close>

definition git :: "pinned \<Rightarrow> string list \<Rightarrow> string res" where
  "git g args = (let r = git_process g args in
     if returncode r \<noteq> 0 then Inl (ValidationError (''cannot read pinned reference Git objects: '' @ strip (proc_err r)))
     else Inr (proc_out r))"

text \<open>\<open>bytes.split()\<close> and \<open>bytes.strip()\<close>: only the blanks of ASCII count.\<close>

definition is_ascii_space :: "char \<Rightarrow> bool" where
  "is_ascii_space c \<longleftrightarrow> c \<in> {CHR '' '', TAB, NL, CHR 0x0B, CHR 0x0C, CHR 0x0D}"

definition bytes_split :: "string \<Rightarrow> string list" where
  "bytes_split s = filter (\<lambda>w. w \<noteq> []) (split_chr (CHR '' '') (map (\<lambda>c. if is_ascii_space c then CHR '' '' else c) s))"

definition bytes_strip :: "string \<Rightarrow> string" where
  "bytes_strip s = rev (dropWhile is_ascii_space (rev (dropWhile is_ascii_space s)))"

definition relative_ok :: "string \<Rightarrow> string \<Rightarrow> bool" where
  "relative_ok source_path relative \<longleftrightarrow> source_path \<noteq> relative \<and> \<not> is_absolute relative \<and> ''..'' \<notin> set (posix_parts relative) \<and>
     posix_text relative = relative \<and> BSL \<notin> set relative"

type_synonym contents = "(string \<times> string) list"

definition reference_entry :: "pinned \<Rightarrow> contents \<Rightarrow> string \<Rightarrow> contents res" where
  "reference_entry g acc entry =
     (if entry = [] then Inr acc
      else (case partition_str [TAB] entry of
          None \<Rightarrow> Inl (ValueError ''not enough values to unpack'')
        | Some (metadata, raw_path) \<Rightarrow>
            (case bytes_split metadata of
               [mode, kind, oid] \<Rightarrow>
                 bindE (utf8_decode g raw_path) (\<lambda>source_path.
                 (let relative = removeprefix source_path (SOURCE_ROOT @ ''/'') in
                  if \<not> relative_ok source_path relative
                  then Inl (ValidationError (''invalid reference package path: '' @ source_path))
                  else if mode \<noteq> ''100644'' \<or> kind \<noteq> ''blob''
                  then Inl (ValidationError (''reference package must be a regular file: '' @ source_path))
                  else bindE (git g [''cat-file'', ''blob'', oid]) (\<lambda>data.
                    Inr (AList.update (''packages/'' @ relative) data acc))))
             | _ \<Rightarrow> Inl (ValueError ''values to unpack''))))"

text \<open>The TypeRB source inside a Go file of the standard library.\<close>

definition quote_chr :: char where "quote_chr = CHR 0x60"

definition raw_rx :: rx where "raw_rx = Grp 1 (Star (NCls (one_cls quote_chr)))"

definition ending_rx :: rx where "ending_rx = seqs [chr quote_chr, chr NL, chr (CHR ''}''), chr NL]"

definition function_text :: "string \<Rightarrow> string" where
  "function_text name = ''func '' @ name @ ''Source() string {'' @ [NL, TAB] @ ''return '' @ [quote_chr]"

definition boundary :: "string \<Rightarrow> rx" where
  "boundary name = seqs [lit (''package stdlib'' @ [NL, NL]), lit (function_text name), raw_rx, ending_rx]"

definition registry_boundary :: "string \<Rightarrow> rx" where
  "registry_boundary name = seqs [Star (NCls []), lit (function_text name), raw_rx, ending_rx]"

definition package_line :: rx where "package_line = seqs [Bol, lit (''package stdlib'' @ [NL])]"

definition test_entry :: "string \<Rightarrow> string" where
  "test_entry name = TAB # DQ # name @ [DQ] @ '': {'' @ [NL]"

definition test_rx :: rx where
  "test_rx = seqs [chr TAB, chr TAB, lit ''Source: '', chr quote_chr, raw_rx, chr quote_chr, lit '','', chr NL,
     chr TAB, chr TAB, lit ''Kind: Portable,'']"

definition unrecognized :: "string \<Rightarrow> 'a res" where
  "unrecognized name = Inl (ValidationError (''unrecognized pinned '' @ name @ '' source boundary''))"

definition pinned_test_source :: "pinned \<Rightarrow> string \<Rightarrow> string res" where
  "pinned_test_source g data =
     (let start = test_entry ''trb/std/test''; finish = test_entry ''trb/internal/test'' in
      if length (findall package_line data) \<noteq> 1 \<or> count_str start data \<noteq> 1 \<or> count_str finish data \<noteq> 1
      then unrecognized ''TEST''
      else (case partition_str finish (after_str start data) of
          None \<Rightarrow> unrecognized ''TEST''
        | Some (entry, rest) \<Rightarrow>
            (case findall_group 1 test_rx entry of [source] \<Rightarrow> utf8_decode g source | _ \<Rightarrow> unrecognized ''TEST'')))"

definition pinned_standard_source :: "pinned \<Rightarrow> string \<Rightarrow> string \<Rightarrow> string res" where
  "pinned_standard_source g data name =
     (if name = ''test'' then pinned_test_source g data
      else if name \<in> {''time'', ''path'', ''dir'', ''errors''} \<and>
          (count_str (function_text name) data \<noteq> 1 \<or> \<not> startswith data (''package stdlib'' @ [NL]))
      then unrecognized name
      else (case fullmatch_groups (if name \<in> {''time'', ''path'', ''dir'', ''errors''} then registry_boundary name else boundary name) data of
          None \<Rightarrow> unrecognized name
        | Some gs \<Rightarrow> utf8_decode g (case grp 1 gs of None \<Rightarrow> [] | Some s \<Rightarrow> s)))"

definition tree_blob :: "pinned \<Rightarrow> string \<Rightarrow> string \<Rightarrow> string \<Rightarrow> string res" where
  "tree_blob g revision source_path message =
     bindE (git g [''ls-tree'', revision, ''--'', source_path]) (\<lambda>out.
     (case bytes_split out of
        [mode, kind, oid, name] \<Rightarrow> if mode = ''100644'' \<and> kind = ''blob'' then git g [''cat-file'', ''blob'', oid]
          else Inl (ValidationError message)
      | _ \<Rightarrow> Inl (ValidationError message)))"

definition stdlib_entry :: "pinned \<Rightarrow> string \<Rightarrow> contents \<Rightarrow> string \<times> string \<Rightarrow> contents res" where
  "stdlib_entry g revision acc row =
     (let (name, source_path) = row in
      bindE (tree_blob g revision source_path (''pinned '' @ name @ '' source must be a regular file'')) (\<lambda>data.
      bindE (pinned_standard_source g data name) (\<lambda>source.
      Inr (AList.update (''stdlib/'' @ name @ ''.go'') data acc))))"

definition source_of :: "string \<Rightarrow> string res" where
  "source_of name =
     (if name = ''LICENSE'' then Inr ''LICENSE''
      else if startswith name ''stdlib/''
      then (let stem = name_stem (path_name (pure_parts name)) in
        case map_of STDLIB_SOURCES stem of None \<Rightarrow> Inl (KeyError stem) | Some p \<Rightarrow> Inr p)
      else Inr (SOURCE_ROOT @ ''/'' @ drop (length ''packages/'') name))"

definition provenance_row :: "pinned \<Rightarrow> string \<times> string \<Rightarrow> json res" where
  "provenance_row g row = bindE (source_of (fst row)) (\<lambda>source.
     Inr (JDict [(''path'', JStr (fst row)), (''source'', JStr source), (''bytes'', JInt (int (length (snd row)))),
       (''sha256'', JStr (pin_sha g (snd row)))]))"

definition provenance :: "pinned \<Rightarrow> string \<Rightarrow> contents \<Rightarrow> string res" where
  "provenance g revision files =
     bindE (mapE (provenance_row g) (sort_key fst files)) (\<lambda>rows.
     bindE (dumps (\<lambda>q. []) pretty_opts (JDict [(''schemaVersion'', JInt 1), (''repository'', JStr ''https://github.com/type-rb/type-rb''),
       (''revision'', JStr revision), (''sourceRoot'', JStr SOURCE_ROOT), (''files'', JList rows)])) (\<lambda>text.
     Inr (utf8_encode g (text @ [NL]))))"

definition has_manifest :: "contents \<Rightarrow> bool" where
  "has_manifest files \<longleftrightarrow> files \<noteq> [] \<and> list_ex (\<lambda>(name, data). endswith name ''/trbpackage.json'') files"

definition reference_files :: "pinned \<Rightarrow> fs \<Rightarrow> path \<Rightarrow> contents res" where
  "reference_files g f repo =
     bindE (read_bytes f (repo @ [''TYPE_RB_REVISION''])) (\<lambda>text.
     (let revision = strip text in
      if \<not> is_hex 40 revision then Inl (ValidationError ''TYPE_RB_REVISION must be an exact commit id'')
      else bindE (git g [''cat-file'', ''-t'', revision]) (\<lambda>kind.
        if bytes_strip kind \<noteq> ''commit'' then Inl (ValidationError ''TYPE_RB_REVISION must identify a commit'')
        else bindE (git g [''ls-tree'', ''-rz'', ''--full-tree'', revision, ''--'', SOURCE_ROOT]) (\<lambda>listing.
          bindE (foldE (reference_entry g) [] (split_chr NUL listing)) (\<lambda>packages.
          if \<not> has_manifest packages then Inl (ValidationError ''pinned reference has no official package manifests'')
          else bindE (foldE (stdlib_entry g revision) packages STDLIB_SOURCES) (\<lambda>files.
            bindE (tree_blob g revision ''LICENSE'' ''pinned reference license must be a regular file'') (\<lambda>license.
            (let files' = AList.update ''LICENSE'' license files in
             bindE (provenance g revision files') (\<lambda>p. Inr (AList.update ''provenance.json'' p files'))))))))))"

section \<open>The bundle\<close>

definition vendor_links :: "fs \<Rightarrow> path \<Rightarrow> bool" where
  "vendor_links f repo \<longleftrightarrow> list_ex (\<lambda>k. is_symlink f (repo @ take k BUNDLE)) [1, 2, 3]"

definition bundle_entry :: "fs \<Rightarrow> path \<Rightarrow> contents \<Rightarrow> path \<Rightarrow> contents res" where
  "bundle_entry f bundle acc rel =
     (if is_symlink f (bundle @ rel) then Inl (ValidationError (''bundle contains a symlink: '' @ posix rel))
      else if is_dir f (bundle @ rel) then Inr acc
      else if \<not> is_file f (bundle @ rel) then Inl (ValidationError ''bundle entry must be a regular file'')
      else bindE (read_bytes f (bundle @ rel)) (\<lambda>data. Inr (AList.update (posix rel) data acc)))"

definition bundle_files :: "fs \<Rightarrow> path \<Rightarrow> contents res" where
  "bundle_files f repo =
     (if vendor_links f repo then Inl (ValidationError ''bundle contains a symlink'')
      else if \<not> is_dir f (repo @ BUNDLE) then Inl (ValidationError ''official source bundle is missing'')
      else foldE (bundle_entry f (repo @ BUNDLE)) [] (rglob f (repo @ BUNDLE)))"

section \<open>The catalogue\<close>

definition typerb_string :: "string \<Rightarrow> string" where
  "typerb_string s = replace_str ''#{'' (BSL # ''#{'') (dumps_str False s)"

definition below_links :: "fs \<Rightarrow> path \<Rightarrow> path \<Rightarrow> bool" where
  "below_links f repo rel \<longleftrightarrow> list_ex (\<lambda>k. is_symlink f (repo @ take k rel)) [1..<Suc (length rel)]"

definition adapter_source :: "pinned \<Rightarrow> fs \<Rightarrow> path \<Rightarrow> path \<Rightarrow> string res" where
  "adapter_source g f repo rel =
     (if below_links f repo rel then Inl (ValidationError ''standard adapter contains a symlink'')
      else bindE (bindE (read_bytes f (repo @ rel)) (utf8_decode g)) (\<lambda>s. Inr (universal_newlines s)))"

record package =
  pkg_names :: "string list"
  pkg_module :: string
  pkg_text :: string
  pkg_supported :: bool

definition non_empty_str :: "json \<Rightarrow> bool" where
  "non_empty_str v \<longleftrightarrow> (case v of JStr s \<Rightarrow> s \<noteq> [] | _ \<Rightarrow> False)"

definition provider_is :: "json \<Rightarrow> string \<Rightarrow> string \<Rightarrow> bool res" where
  "provider_is manifest key s = bindE (get manifest key) (\<lambda>v. Inr (jeq v (JStr s)))"

definition provider_set :: "json \<Rightarrow> string \<Rightarrow> bool res" where
  "provider_set manifest key = bindE (get manifest key) (\<lambda>v. Inr (truthy v))"

definition supported_package :: "string \<Rightarrow> json \<Rightarrow> bool res" where
  "supported_package name manifest =
     bindE (andE (Inr (name = ''trb/web'')) (andE (provider_is manifest ''semanticProvider'' ''trb.web'')
       (andE (provider_is manifest ''typeProvider'' ''trb.web'') (provider_is manifest ''projectProvider'' ''trb.web.routes'')))) (\<lambda>portable_value_source.
     bindE (andE (Inr (name = ''trb/web/testing'')) (andE (provider_is manifest ''semanticProvider'' ''trb.web.testing'')
       (andE (notE (provider_set manifest ''typeProvider'')) (notE (provider_set manifest ''projectProvider''))))) (\<lambda>testing_source.
     andE (bindE (getd manifest ''kind'' (JStr ''portable'')) (\<lambda>k. Inr (jeq k (JStr ''portable''))))
       (andE (notE (provider_set manifest ''targets''))
         (orE (Inr portable_value_source) (orE (Inr testing_source)
           (notE (anyE (provider_set manifest) [''semanticProvider'', ''typeProvider'', ''projectProvider''])))))))"

definition catalog_package :: "pinned \<Rightarrow> contents \<Rightarrow> string list \<times> package list \<Rightarrow> string \<times> string \<Rightarrow> (string list \<times> package list) res" where
  "catalog_package g files st row =
     (let (names, packages) = st; (p, data) = row in
      if \<not> endswith p ''/trbpackage.json'' then Inr st
      else bindE (bindE (utf8_decode g data) loads) (\<lambda>manifest.
        bindE (item manifest ''name'') (\<lambda>name. bindE (item manifest ''module'') (\<lambda>modname. bindE (item manifest ''source'') (\<lambda>source.
        if \<not> (non_empty_str name \<and> non_empty_str modname \<and> non_empty_str source)
        then Inl (ValidationError (''official catalog requires name, module and source: '' @ p))
        else
          (let source_path = join ''/'' (butlast (pure_parts p) @ pure_parts (str_val source)) in
           if is_absolute (str_val source) \<or> ''..'' \<in> set (butlast (pure_parts p) @ pure_parts (str_val source)) \<or>
              source_path \<notin> set (map fst files)
           then Inl (ValidationError (''invalid official catalog source: '' @ p))
           else bindE (getd manifest ''aliases'' (JList [])) (\<lambda>aliases.
             (case aliases of
                JList as \<Rightarrow>
                  if \<not> list_all non_empty_str as then Inl (ValidationError (''invalid official catalog aliases: '' @ p))
                  else
                    (let keys = str_val name # map str_val as in
                     if \<not> distinct keys \<or> list_ex (\<lambda>k. k \<in> set names) keys
                     then Inl (ValidationError ''duplicate official catalog name'')
                     else bindE (supported_package (str_val name) manifest) (\<lambda>supported.
                       bindE (utf8_decode g (case map_of files source_path of None \<Rightarrow> [] | Some s \<Rightarrow> s)) (\<lambda>text.
                       Inr (names @ keys, packages @ [\<lparr>pkg_names = keys, pkg_module = str_val modname, pkg_text = text,
                         pkg_supported = supported\<rparr>]))))
              | _ \<Rightarrow> Inl (ValidationError (''invalid official catalog aliases: '' @ p))))))))))"

definition kind_lines :: "nat \<times> package \<Rightarrow> string list" where
  "kind_lines ip = [TAB # ''if '' @ join '' || '' (map (\<lambda>k. ''path == '' @ typerb_string k) (pkg_names (snd ip))),
     [TAB, TAB] @ ''return '' @ show_nat (fst ip), TAB # ''end'']"

definition lookup_lines :: "string \<Rightarrow> string \<Rightarrow> (package \<Rightarrow> string) \<Rightarrow> string \<Rightarrow> (nat \<times> package) list \<Rightarrow> string list" where
  "lookup_lines function type_name literal fallback packages =
     (''def '' @ function @ ''(kind: Integer): '' @ type_name) #
     concat (map (\<lambda>(i, p). [TAB # ''if kind == '' @ show_nat i, [TAB, TAB] @ ''return '' @ literal p, TAB # ''end'']) packages) @
     [TAB # ''return '' @ fallback, ''end'', []]"

definition source_lines :: "string \<times> string \<Rightarrow> string list" where
  "source_lines row = [''def '' @ fst row @ ''(): String'', TAB # ''return '' @ typerb_string (snd row), ''end'', []]"

definition catalog_lines :: "package list \<Rightarrow> (string \<times> string) list \<Rightarrow> string list" where
  "catalog_lines packages sources =
     (let numbered = zip [100..<100 + length packages] packages in
     [''# Generated by tools/official-sources.py from the pinned reference bundle.'',
      ''# Source String values preserve the upstream bytes; do not edit this catalog.'', [],
      ''def official_source_kind(path: String): Integer''] @
     concat (map kind_lines numbered) @ [TAB # ''return 0'', ''end'', []] @
     lookup_lines ''official_source_name'' ''String'' (\<lambda>p. typerb_string (pkg_module p)) [DQ, DQ] numbered @
     lookup_lines ''official_source_text'' ''String'' (\<lambda>p. typerb_string (pkg_text p)) [DQ, DQ] numbered @
     lookup_lines ''official_source_supported'' ''Boolean'' (\<lambda>p. if pkg_supported p then ''true'' else ''false'') ''false'' numbered @
     concat (map source_lines sources))"

definition pinned_source_row :: "pinned \<Rightarrow> contents \<Rightarrow> string \<Rightarrow> (string \<times> string) res" where
  "pinned_source_row g files name =
     bindE (case map_of files (''stdlib/'' @ name @ ''.go'') of None \<Rightarrow> Inl (KeyError name) | Some s \<Rightarrow> Inr s) (\<lambda>data.
     bindE (pinned_standard_source g data name) (\<lambda>source. Inr (''pinned_'' @ name @ ''_source'', source)))"

definition catalog_source :: "pinned \<Rightarrow> contents \<Rightarrow> string \<Rightarrow> string \<Rightarrow> (string \<times> string) list \<Rightarrow> string res" where
  "catalog_source g files adapter json_adapter extra_adapters =
     bindE (foldE (catalog_package g files) ([], []) (sort_key fst files)) (\<lambda>(names, packages).
     bindE (mapE (pinned_source_row g files) (map fst STDLIB_SOURCES)) (\<lambda>sources.
     Inr (utf8_encode g (join [NL] (catalog_lines packages (sources @
       [(''native_url_source'', adapter), (''native_json_source'', json_adapter)] @
       map (\<lambda>(name, source). (''native_'' @ name @ ''_source'', source)) extra_adapters))))))"

definition expected_catalog :: "pinned \<Rightarrow> fs \<Rightarrow> path \<Rightarrow> contents \<Rightarrow> string res" where
  "expected_catalog g f repo expected =
     bindE (adapter_source g f repo (adapter_path ''url'')) (\<lambda>url.
     bindE (adapter_source g f repo (adapter_path ''json'')) (\<lambda>json.
     bindE (mapE (\<lambda>name. bindE (adapter_source g f repo (adapter_path name)) (\<lambda>s. Inr (name, s))) NATIVE_ADAPTERS) (\<lambda>extra.
     catalog_source g expected url json extra)))"

definition catalog_path :: "fs \<Rightarrow> path \<Rightarrow> path res" where
  "catalog_path f repo =
     (if below_links f repo CATALOG then Inl (ValidationError ''official catalog contains a symlink'') else Inr (repo @ CATALOG))"

section \<open>Checking and synchronising\<close>

definition check_sources :: "pinned \<Rightarrow> fs \<Rightarrow> path \<Rightarrow> nat res" where
  "check_sources g f repo =
     bindE (reference_files g f repo) (\<lambda>expected.
     bindE (bundle_files f repo) (\<lambda>actual.
     if list_ex (\<lambda>n. n \<notin> set (map fst actual)) (map fst expected) then Inl (ValidationError ''official source bundle is missing a file'')
     else if list_ex (\<lambda>n. n \<notin> set (map fst expected)) (map fst actual)
     then Inl (ValidationError ''official source bundle has an unexpected file'')
     else if list_ex (\<lambda>n. map_of actual n \<noteq> map_of expected n) (map fst expected)
     then Inl (ValidationError ''official source bundle differs from TYPE_RB_REVISION'')
     else bindE (catalog_path f repo) (\<lambda>p.
       if \<not> is_file f p then Inl (ValidationError ''official source catalog differs from TYPE_RB_REVISION'')
       else bindE (read_bytes f p) (\<lambda>current. bindE (expected_catalog g f repo expected) (\<lambda>catalog.
         if current \<noteq> catalog then Inl (ValidationError ''official source catalog differs from TYPE_RB_REVISION'')
         else Inr (length expected - 1))))))"

text \<open>The staged bundle replaces the old one by renaming; the temporary directory takes the old bundle
  with it.\<close>

definition publish_bundle :: "pinned \<Rightarrow> fs \<Rightarrow> path \<Rightarrow> contents \<Rightarrow> fs res" where
  "publish_bundle g f repo expected =
     (let bundle = repo @ BUNDLE; tmp = butlast bundle @ [bundle_temporary g]; staging = tmp @ [''bundle''] in
      bindE (mkdir_p f (butlast bundle)) (\<lambda>f1. bindE (mkdir_new f1 tmp) (\<lambda>f2.
      bindE (foldE (\<lambda>f (name, data). put_file f (staging @ pure_parts name) data) f2 expected) (\<lambda>f3.
      bindE (if path_exists f3 bundle then rename_dir f3 bundle (tmp @ [''previous'']) else Inr f3) (\<lambda>f4.
      bindE (rename_dir f4 staging bundle) (\<lambda>f5. Inr (remove_tree f5 tmp)))))))"

definition publish_catalog :: "pinned \<Rightarrow> fs \<Rightarrow> path \<Rightarrow> string \<Rightarrow> fs res" where
  "publish_catalog g f catalog text =
     (let staged = butlast catalog @ [catalog_temporary g] in
      bindE (mkdir_p f (butlast catalog)) (\<lambda>f1. bindE (create_bytes f1 staged text) (\<lambda>f2.
      bindE (chmod f2 staged 384) (\<lambda>f3. replace_path f3 staged catalog))))"

definition sync_sources :: "pinned \<Rightarrow> fs \<Rightarrow> path \<Rightarrow> (fs \<times> nat) res" where
  "sync_sources g f repo =
     bindE (reference_files g f repo) (\<lambda>expected. bindE (expected_catalog g f repo expected) (\<lambda>text.
     bindE (catalog_path f repo) (\<lambda>catalog.
     if vendor_links f repo then Inl (ValidationError ''bundle contains a symlink'')
     else bindE (if path_exists f (repo @ BUNDLE) then bindE (bundle_files f repo) (\<lambda>_. Inr ()) else Inr ()) (\<lambda>_.
       bindE (publish_bundle g f repo expected) (\<lambda>f1.
       bindE (publish_catalog g f1 catalog text) (\<lambda>f2. Inr (f2, length expected - 1)))))))"

definition official_main :: "pinned \<Rightarrow> fs \<Rightarrow> path \<Rightarrow> bool \<Rightarrow> (fs \<times> nat \<times> string) res" where
  "official_main g f repo do_write =
     (case (if do_write then sync_sources g f repo else bindE (check_sources g f repo) (\<lambda>n. Inr (f, n))) of
        Inr (f', n) \<Rightarrow> Inr (f', 0, ''official sources: '' @ (if do_write then ''synced'' else ''verified'') @ '' '' @ show_nat n @ '' pinned files'')
      | Inl e \<Rightarrow>
          (case e of
             ValidationError m \<Rightarrow> Inr (f, 1, ''official sources: '' @ m)
           | _ \<Rightarrow> if is_OSError e \<or> is_ValueError e then Inr (f, 1, ''official sources: failed'') else Inl e))"

section \<open>What a passing check shows\<close>

lemma map_of_eqI:
  assumes "\<not> list_ex (\<lambda>n. n \<notin> set (map fst a)) (map fst b)" and "\<not> list_ex (\<lambda>n. n \<notin> set (map fst b)) (map fst a)"
    and "\<not> list_ex (\<lambda>n. map_of a n \<noteq> map_of b n) (map fst b)"
  shows "map_of a = map_of b"
proof
  fix n
  show "map_of a n = map_of b n"
  proof (cases "n \<in> set (map fst b)")
    case True then show ?thesis using assms(3) by (auto simp: list_ex_iff)
  next
    case False
    then have "n \<notin> set (map fst a)" using assms(2) by (auto simp: list_ex_iff)
    with False show ?thesis by (metis map_of_eq_None_iff set_map)
  qed
qed

lemma map_of_eqD:
  assumes "map_of a = map_of b"
  shows "\<not> list_ex (\<lambda>n. n \<notin> set (map fst a)) (map fst b)" "\<not> list_ex (\<lambda>n. n \<notin> set (map fst b)) (map fst a)"
    "\<not> list_ex (\<lambda>n. map_of a n \<noteq> map_of b n) (map fst b)"
proof -
  have "set (map fst a) = set (map fst b)" using assms by (metis dom_map_of_conv_image_fst set_map)
  then show "\<not> list_ex (\<lambda>n. n \<notin> set (map fst a)) (map fst b)" "\<not> list_ex (\<lambda>n. n \<notin> set (map fst b)) (map fst a)"
    by (auto simp: list_ex_iff)
  show "\<not> list_ex (\<lambda>n. map_of a n \<noteq> map_of b n) (map fst b)" using assms by (auto simp: list_ex_iff)
qed

lemma check_exact:
  "check_sources g f repo = Inr n \<longleftrightarrow> (\<exists>expected actual text. reference_files g f repo = Inr expected \<and>
     bundle_files f repo = Inr actual \<and> map_of actual = map_of expected \<and> \<not> below_links f repo CATALOG \<and>
     is_file f (repo @ CATALOG) \<and> expected_catalog g f repo expected = Inr text \<and>
     read_bytes f (repo @ CATALOG) = Inr text \<and> n = length expected - 1)"
  (is "?l \<longleftrightarrow> ?r")
proof
  assume ?l
  then obtain expected actual where e: "reference_files g f repo = Inr expected" and a: "bundle_files f repo = Inr actual"
    by (auto simp: check_sources_def bindE_Inr_iff)
  let ?missing = "list_ex (\<lambda>n. n \<notin> set (map fst actual)) (map fst expected)"
  let ?extra = "list_ex (\<lambda>n. n \<notin> set (map fst expected)) (map fst actual)"
  let ?differs = "list_ex (\<lambda>n. map_of actual n \<noteq> map_of expected n) (map fst expected)"
  from \<open>?l\<close> e a have same: "\<not> ?missing" "\<not> ?extra" "\<not> ?differs"
    unfolding check_sources_def by (simp_all split: if_splits)
  from \<open>?l\<close> e a same map_of_eqI [OF same] show ?r
    by (simp add: check_sources_def catalog_path_def bindE_Inr_iff split: if_splits)
next
  assume ?r
  then obtain expected actual source where "reference_files g f repo = Inr expected" "bundle_files f repo = Inr actual"
    "map_of actual = map_of expected" "\<not> below_links f repo CATALOG" "is_file f (repo @ CATALOG)"
    "expected_catalog g f repo expected = Inr source" "read_bytes f (repo @ CATALOG) = Inr source" "n = length expected - 1" by blast
  then show ?l using map_of_eqD [of actual expected] by (simp add: check_sources_def catalog_path_def)
qed

end
