(* ===== verification/OfficialSync.thy ===== *)
theory OfficialSync
  imports OfficialSources
begin

text \<open>
  The two commands of \<open>tools/official-sources.py\<close> together: what \<open>sync_sources\<close> leaves on disk
  is what \<open>check_sources\<close> accepts.
\<close>

section \<open>The names of the reference files\<close>

definition canonical :: "string \<Rightarrow> bool" where
  "canonical n \<longleftrightarrow> join ''/'' (pure_parts n) = n \<and> pure_parts n \<noteq> [] \<and> list_all plain_name (pure_parts n)"

lemma canonical_inject: "canonical a \<Longrightarrow> canonical b \<Longrightarrow> pure_parts a = pure_parts b \<longleftrightarrow> a = b"
  unfolding canonical_def by metis

lemma canonical_package:
  assumes "relative_ok source_path relative" "relative \<noteq> ''.''"
  shows "canonical (''packages/'' @ relative)"
proof -
  have "split_chr (CHR ''/'') (''packages'' @ CHR ''/'' # relative) = ''packages'' # split_chr (CHR ''/'') relative"
    by (subst split_chr_append) simp_all
  then have p: "pure_parts (''packages/'' @ relative) = ''packages'' # pure_parts relative" by (simp add: pure_parts_def)
  have rel: "\<not> is_absolute relative" "''..'' \<notin> set (posix_parts relative)" "posix_text relative = relative"
    using assms(1) by (simp_all add: relative_ok_def)
  then have "\<not> startswith relative ''//''" by (cases relative) (auto simp: is_absolute_def)
  with rel have n: "pure_parts relative \<noteq> []" "join ''/'' (pure_parts relative) = relative" "''..'' \<notin> set (pure_parts relative)"
    using assms(2) by (auto simp: posix_text_def posix_parts_def Let_def split: if_splits)
  have "list_all plain_name (''packages'' # pure_parts relative)"
    using n(3) by (auto simp: plain_name_def list_all_iff dest: pure_parts_plain)
  then show ?thesis unfolding canonical_def p using n(1,2) by (simp add: join_Cons)
qed

definition good_names :: "contents \<Rightarrow> bool" where
  "good_names files \<longleftrightarrow> distinct (map fst files) \<and> (\<forall>n \<in> fst ` set files. n = ''packages/.'' \<or> canonical n)"

lemma good_names_update:
  "good_names files \<Longrightarrow> n = ''packages/.'' \<or> canonical n \<Longrightarrow> good_names (AList.update n s files)"
  unfolding good_names_def by (simp add: distinct_update dom_update)

lemma canonical_stdlib: "row \<in> set STDLIB_SOURCES \<Longrightarrow> canonical (''stdlib/'' @ fst row @ ''.go'')"
proof -
  have "list_all (\<lambda>row. canonical (''stdlib/'' @ fst row @ ''.go'')) STDLIB_SOURCES" by code_simp
  then show "row \<in> set STDLIB_SOURCES \<Longrightarrow> canonical (''stdlib/'' @ fst row @ ''.go'')" by (simp add: list_all_iff)
qed

lemma reference_entry_names:
  assumes "reference_entry g acc entry = Inr acc'" "good_names acc"
  shows "good_names acc'"
proof -
  have ok: "''packages/'' @ rel = ''packages/.'' \<or> canonical (''packages/'' @ rel)" if "relative_ok p rel" for p rel
    using canonical_package [OF that] by (cases "rel = ''.''") simp_all
  have "acc' = acc \<or> (\<exists>p rel s. relative_ok p rel \<and> acc' = AList.update (''packages/'' @ rel) s acc)"
    using assms(1) unfolding reference_entry_def Let_def bindE_Inr_iff
    by (simp split: if_splits option.splits list.splits prod.splits add: bindE_Inr_iff) blast
  then show ?thesis using good_names_update [OF assms(2)] ok assms(2) by metis
qed

lemma reference_names:
  assumes "reference_files g f repo = Inr expected"
  shows "good_names expected" "''provenance.json'' \<in> fst ` set expected"
proof -
  from assms obtain entries packages revision files license p where a:
      "foldE (reference_entry g) [] entries = Inr packages" "foldE (stdlib_entry g revision) packages STDLIB_SOURCES = Inr files"
      "expected = AList.update ''provenance.json'' p (AList.update ''LICENSE'' license files)"
    unfolding reference_files_def Let_def bindE_Inr_iff if_Inr_iff by (elim exE conjE) (rule that, assumption, assumption, drule Inr_inject, erule sym)
  have "good_names packages"
    by (rule foldE_invariant [where P = good_names, OF a(1)]) (simp add: good_names_def, rule reference_entry_names)
  then have "good_names files"
    by (rule foldE_invariant [where P = good_names, OF a(2)])
      (auto simp: stdlib_entry_def bindE_Inr_iff intro!: good_names_update dest: canonical_stdlib)
  moreover have "canonical ''LICENSE''" "canonical ''provenance.json''" by code_simp+
  ultimately show "good_names expected" unfolding a(3) by (intro good_names_update) simp_all
  show "''provenance.json'' \<in> fst ` set expected" unfolding a(3) by (simp add: dom_update)
qed

section \<open>A directory that holds exactly some files\<close>

definition holds_files :: "contents \<Rightarrow> string set \<Rightarrow> fs \<Rightarrow> path \<Rightarrow> bool" where
  "holds_files files names f d \<longleftrightarrow> (\<forall>r.
     (\<forall>n \<in> names. pure_parts n = r \<longrightarrow> (\<exists>m. look f (d @ r) = Some (NFile (the (map_of files n)) m))) \<and>
     (r \<notin> pure_parts ` names \<longrightarrow>
       look f (d @ r) = (if \<exists>n \<in> names. strict_prefix r (pure_parts n) then Some NDir else None)))"

lemma holds_files_put:
  assumes "holds_files files names f d" "no_links f" "list_all plain_name d" "canonical n" "\<forall>n \<in> names. canonical n"
    "map_of files n = Some s" "put_file f (d @ pure_parts n) s = Inr g"
  shows "holds_files files (insert n names) g d"
proof -
  let ?p = "d @ pure_parts n"
  have p: "list_all plain_name ?p" "?p \<noteq> []" "pure_parts n \<noteq> []" using assms(3,4) by (auto simp: canonical_def)
  note put = put_file_plain [OF assms(2) p(1,2) assms(7)]
  obtain m where m: "look g ?p = Some (NFile s m)" using put(2) read_bytes_plain [OF put(1) p(1)] by blast
  have pre: "d @ r \<noteq> [] \<and> prefix (d @ r) (butlast ?p) \<longleftrightarrow> d @ r \<noteq> [] \<and> strict_prefix r (pure_parts n)" for r
    using p(3) by (cases "pure_parts n" rule: rev_cases) (auto simp: butlast_append strict_prefix_def)
  show ?thesis
    unfolding holds_files_def
  proof (intro allI conjI ballI impI)
    fix r n'
    assume n': "n' \<in> insert n names" "pure_parts n' = r"
    show "\<exists>m. look g (d @ r) = Some (NFile (the (map_of files n')) m)"
    proof (cases "r = pure_parts n")
      case True
      with n' assms(4,5) have "n' = n" by (auto simp: canonical_inject)
      with m True assms(6) show ?thesis by simp
    next
      case False
      with n' have "n' \<in> names" by auto
      with assms(1) n'(2) obtain k where "look f (d @ r) = Some (NFile (the (map_of files n')) k)"
        unfolding holds_files_def by blast
      with False put(4) [of "d @ r"] show ?thesis by auto
    qed
  next
    fix r
    assume r: "r \<notin> pure_parts ` insert n names"
    then have f: "look f (d @ r) = (if \<exists>n \<in> names. strict_prefix r (pure_parts n) then Some NDir else None)"
      using assms(1) unfolding holds_files_def by auto
    have "d @ r = [] \<Longrightarrow> look f (d @ r) \<noteq> None" by (simp add: look_def)
    with r f put(4) [of "d @ r"] pre [of r]
    show "look g (d @ r) = (if \<exists>n \<in> insert n names. strict_prefix r (pure_parts n) then Some NDir else None)"
      by (auto split: if_splits)
  qed
qed

lemma bundle_entries:
  assumes "no_links f" "list_all plain_name b" "holds_files files (fst ` set files) f b" "\<forall>n \<in> fst ` set files. canonical n"
    "\<forall>r \<in> set rels. look f (b @ r) \<noteq> None"
  shows "\<exists>actual. foldE (bundle_entry f b) acc rels = Inr actual \<and>
     (\<forall>n. map_of actual n = (if n \<in> fst ` set files \<and> pure_parts n \<in> set rels then map_of files n else map_of acc n))"
  using assms(5)
proof (induction rels arbitrary: acc)
  case (Cons r rels)
  have held: "(\<forall>n \<in> fst ` set files. pure_parts n = r \<longrightarrow> (\<exists>m. look f (b @ r) = Some (NFile (the (map_of files n)) m)))"
    "r \<notin> pure_parts ` fst ` set files \<Longrightarrow> look f (b @ r) = Some NDir \<and> (\<exists>n \<in> fst ` set files. strict_prefix r (pure_parts n))"
    using assms(3) Cons.prems unfolding holds_files_def by (auto split: if_splits)
  have plain: "list_all plain_name r"
  proof -
    obtain n where n: "n \<in> fst ` set files" "prefix r (pure_parts n)"
      using held(2) by (cases "r \<in> pure_parts ` fst ` set files") (auto simp: strict_prefix_def)
    then have "list_all plain_name (pure_parts n)" using assms(4) by (auto simp: canonical_def)
    with n(2) show ?thesis by (auto simp: prefix_def)
  qed
  then have pl: "list_all plain_name (b @ r)" using assms(2) by simp
  note base = not_symlink_plain [OF assms(1) pl] stat_plain [OF assms(1) pl]
  show ?case
  proof (cases "r \<in> pure_parts ` fst ` set files")
    case False
    then have "bundle_entry f b acc r = Inr acc" using held(2) base by (simp add: bundle_entry_def is_dir_def)
    moreover have "pure_parts k \<in> set (r # rels) \<longleftrightarrow> pure_parts k \<in> set rels" if "k \<in> fst ` set files" for k
      using False that by auto
    moreover have "\<forall>r \<in> set rels. look f (b @ r) \<noteq> None" using Cons.prems by simp
    ultimately show ?thesis using Cons.IH [of acc] by (simp cong: conj_cong)
  next
    case True
    then obtain n where n: "n \<in> fst ` set files" "pure_parts n = r" by blast
    with held(1) obtain m where m: "look f (b @ r) = Some (NFile (the (map_of files n)) m)" by blast
    have c: "canonical n" using assms(4) n(1) by blast
    with n(2) have "posix r = n" by (auto simp: canonical_def posix_def)
    with m base have "bundle_entry f b acc r = Inr (AList.update n (the (map_of files n)) acc)"
      by (simp add: bundle_entry_def is_dir_def is_file_def read_bytes_def)
    moreover obtain actual where "foldE (bundle_entry f b) (AList.update n (the (map_of files n)) acc) rels = Inr actual"
        "\<forall>k. map_of actual k = (if k \<in> fst ` set files \<and> pure_parts k \<in> set rels then map_of files k
          else map_of (AList.update n (the (map_of files n)) acc) k)"
      using Cons.IH [of "AList.update n (the (map_of files n)) acc"] Cons.prems by auto
    moreover have "map_of files n = Some (the (map_of files n))"
      using n(1) by (cases "map_of files n") (auto simp: map_of_eq_None_iff)
    moreover have "k \<in> fst ` set files \<Longrightarrow> pure_parts k = r \<longleftrightarrow> k = n" for k
      using assms(4) c n(2) canonical_inject by blast
    ultimately show ?thesis using n by (auto simp: update_conv')
  qed
qed simp

lemma bundle_files_of_held:
  assumes "no_links f" "list_all plain_name repo" "holds_files files (fst ` set files) f (repo @ BUNDLE)"
    "\<forall>n \<in> fst ` set files. canonical n" "files \<noteq> []"
  shows "\<exists>actual. bundle_files f repo = Inr actual \<and> map_of actual = map_of files"
proof -
  let ?b = "repo @ BUNDLE"
  have b: "list_all plain_name ?b" "list_all plain_name (repo @ take k BUNDLE)" for k
  proof -
    have "list_all plain_name BUNDLE" by code_simp
    then show "list_all plain_name ?b" "list_all plain_name (repo @ take k BUNDLE)" for k
      using assms(2) by (auto simp: list_all_iff dest: in_set_takeD)
  qed
  have links: "\<not> vendor_links f repo" using not_symlink_plain [OF assms(1) b(2)] by (auto simp: vendor_links_def list_ex_iff)
  have no_file: "[] \<notin> pure_parts ` fst ` set files" using assms(4) by (auto simp: canonical_def)
  moreover obtain n where "n \<in> fst ` set files" using assms(5) by (cases files) auto
  moreover have "strict_prefix [] (pure_parts n)"
    using \<open>n \<in> fst ` set files\<close> no_file by (cases "pure_parts n") force+
  ultimately have "look f (?b @ []) = Some NDir"
    using assms(3) unfolding holds_files_def by metis
  then have dir: "is_dir f ?b" using stat_plain [OF assms(1) b(1)] by (simp add: is_dir_def)
  have found: "r \<in> set (rglob f ?b) \<longleftrightarrow> r \<noteq> [] \<and> look f (?b @ r) \<noteq> None" for r
    by (rule rglob_plain_iff [OF assms(1) b(1)])
  then have "\<forall>r \<in> set (rglob f ?b). look f (?b @ r) \<noteq> None" by blast
  from bundle_entries [OF assms(1) b(1) assms(3,4) this, of "[]"] obtain actual where
    a: "foldE (bundle_entry f ?b) [] (rglob f ?b) = Inr actual"
      "map_of actual n = (if n \<in> fst ` set files \<and> pure_parts n \<in> set (rglob f ?b) then map_of files n else None)" for n
    by auto
  have "map_of actual n = map_of files n" for n
  proof (cases "n \<in> fst ` set files")
    case True
    then obtain m where "look f (?b @ pure_parts n) = Some (NFile (the (map_of files n)) m)"
      using assms(3) unfolding holds_files_def by blast
    with True no_file have "pure_parts n \<in> set (rglob f ?b)" unfolding found by force
    with True a(2) show ?thesis by simp
  qed (metis a(2) map_of_eq_None_iff set_map)
  with a(1) links dir show ?thesis by (auto simp: bundle_files_def)
qed

section \<open>Operations that succeed\<close>

definition prefix_free :: "contents \<Rightarrow> bool" where
  "prefix_free files = (let ps = map (\<lambda>(n, s). pure_parts n) files in list_all (\<lambda>a. list_all (\<lambda>b. \<not> strict_prefix a b) ps) ps)"

lemma prefix_freeD:
  "prefix_free files \<Longrightarrow> a \<in> fst ` set files \<Longrightarrow> b \<in> fst ` set files \<Longrightarrow> \<not> strict_prefix (pure_parts a) (pure_parts b)"
  by (fastforce simp: prefix_free_def list_all_iff Let_def)

definition staged :: "contents \<Rightarrow> path \<Rightarrow> fs \<Rightarrow> string set \<Rightarrow> fs \<Rightarrow> bool" where
  "staged files d f0 names f \<longleftrightarrow> no_links f \<and> (\<forall>q. \<not> prefix d q \<longrightarrow> look f q = look f0 q) \<and> holds_files files names f d"

lemma staged_step:
  assumes "staged files d f0 names u" "list_all plain_name d" "(n, s) \<in> set files" "names \<subseteq> fst ` set files"
    "distinct (map fst files)" "\<forall>n \<in> fst ` set files. canonical n" "prefix_free files" "\<And>r. strict_prefix r d \<Longrightarrow> look f0 r = Some NDir"
  shows "\<exists>v. put_file u (d @ pure_parts n) s = Inr v \<and> staged files d f0 (insert n names) v"
proof -
  have n: "canonical n" "map_of files n = Some s" "\<forall>k \<in> names. canonical k" "n \<in> fst ` set files"
    using assms(3-6) by force+
  then have p: "list_all plain_name (d @ pure_parts n)" "d @ pure_parts n \<noteq> []" "pure_parts n \<noteq> []"
    using assms(2) by (auto simp: canonical_def)
  have nl: "no_links u" and out: "\<And>q. \<not> prefix d q \<Longrightarrow> look u q = look f0 q" and held: "holds_files files names u d"
    using assms(1) by (auto simp: staged_def)
  have inside: "look u (d @ r) = (if \<exists>k \<in> names. strict_prefix r (pure_parts k) then Some NDir else None)"
    if "r \<notin> pure_parts ` names" for r using held that by (simp add: holds_files_def)
  have above: "look u q = Some NDir" if "prefix q (d @ pure_parts n)" "\<not> prefix d q" for q
  proof -
    have "strict_prefix q d" using that by (metis prefix_def prefix_same_cases strict_prefix_def)
    then show ?thesis using assms(8) out that(2) by simp
  qed
  have "look u q \<in> {None, Some NDir}" if q: "prefix q (butlast (d @ pure_parts n))" for q
  proof (cases "prefix d q")
    case True
    then obtain r where r: "q = d @ r" by (auto simp: prefix_def)
    then have "strict_prefix r (pure_parts n)"
      using q p(3) by (cases "pure_parts n" rule: rev_cases) (auto simp: butlast_append strict_prefix_def)
    then have "r \<notin> pure_parts ` names" using prefix_freeD [OF assms(7) _ n(4)] assms(4) by blast
    then show ?thesis by (simp add: r inside)
  next
    case False
    have "prefix q (d @ pure_parts n)" using q prefixeq_butlast prefix_order.trans by blast
    with False show ?thesis by (simp add: above)
  qed
  then have m: "makeable u (butlast (d @ pure_parts n))" by (simp only: makeable_prefix) blast
  have "look u (d @ pure_parts n) \<noteq> Some NDir"
  proof (cases "n \<in> names")
    case True
    then show ?thesis using held unfolding holds_files_def by (metis node.distinct(1) option.inject)
  next
    case False
    then have "pure_parts n \<notin> pure_parts ` names" using n(1,3) canonical_inject by blast
    moreover have "\<not> (\<exists>k \<in> names. strict_prefix (pure_parts n) (pure_parts k))"
      using prefix_freeD [OF assms(7) n(4)] assms(4) by blast
    ultimately show ?thesis by (simp add: inside)
  qed
  from put_file_total [OF nl p(1,2) m this] obtain v where put: "put_file u (d @ pure_parts n) s = Inr v" by blast
  note eff = put_file_plain [OF nl p(1,2) put]
  have "look v q = look f0 q" if q: "\<not> prefix d q" for q
  proof -
    have "look u q \<noteq> None" if "prefix q (butlast (d @ pure_parts n))"
      using above [OF _ q] that prefixeq_butlast prefix_order.trans by fastforce
    moreover have "q \<noteq> d @ pure_parts n" using q by auto
    ultimately show ?thesis using eff(4) [of q] out [OF q] by auto
  qed
  moreover have "holds_files files (insert n names) v d"
    by (rule holds_files_put [OF held nl assms(2) n(1,3,2) put])
  ultimately show ?thesis using eff(1) put by (auto simp: staged_def)
qed

lemma staging_total:
  assumes "no_links f0" "list_all plain_name d" "distinct (map fst files)" "\<forall>n \<in> fst ` set files. canonical n" "prefix_free files"
    "\<And>r. prefix d r \<Longrightarrow> look f0 r = None" "\<And>r. strict_prefix r d \<Longrightarrow> look f0 r = Some NDir"
  shows "\<exists>f1. foldE (\<lambda>f (name, data). put_file f (d @ pure_parts name) data) f0 files = Inr f1 \<and> staged files d f0 (fst ` set files) f1"
proof (rule foldE_total [where P = "\<lambda>rows f. staged files d f0 (fst ` set rows) f"])
  show "staged files d f0 (fst ` set []) f0" using assms(1,6) by (simp add: staged_def holds_files_def)
next
  fix ys x zs u
  assume x: "files = ys @ x # zs" "staged files d f0 (fst ` set ys) u"
  have "(fst x, snd x) \<in> set files" "fst ` set ys \<subseteq> fst ` set files" using x(1) by auto
  from staged_step [OF x(2) assms(2) this assms(3-5,7)]
  show "\<exists>v. (case x of (name, data) \<Rightarrow> put_file u (d @ pure_parts name) data) = Inr v \<and> staged files d f0 (fst ` set (ys @ [x])) v"
    by (simp add: case_prod_beta)
qed

lemma rename_dir_total:
  assumes "no_links f" "list_all plain_name p" "list_all plain_name q" "look f p = Some NDir" "look f q = None"
    "look f (butlast q) = Some NDir"
  shows "\<exists>g. rename_dir f p q = Inr g"
  using assms list_all_butlast [OF assms(3)]
  by (simp add: rename_dir_def path_exists_def is_dir_def stat_plain not_symlink_plain)

lemma no_links_rename_dir:
  assumes "no_links f" "\<And>r. look g r = (if prefix q r then look f (h r) else if prefix p r then None else look f r)"
  shows "no_links g"
  using assms(1) by (simp add: no_links_def assms(2))

lemma publish_bundle_total:
  assumes "no_links f" "is_tree f" "list_all plain_name repo" "plain_name (bundle_temporary g)"
    "bundle_temporary g \<noteq> ''official''" "distinct (map fst files)" "\<forall>n \<in> fst ` set files. canonical n" "prefix_free files" "files \<noteq> []"
    and p: "p = repo @ [''vendor'', ''type-rb'']"
    and disk: "makeable f p" "look f (repo @ BUNDLE) \<in> {None, Some NDir}" "look f (p @ [bundle_temporary g]) = None"
  shows "\<exists>f'. publish_bundle g f repo files = Inr f' \<and> no_links f' \<and> holds_files files (fst ` set files) f' (repo @ BUNDLE) \<and>
     (\<forall>r. \<not> prefix (repo @ BUNDLE) r \<longrightarrow> look f' r = (if prefix (p @ [bundle_temporary g]) r then None
       else if look f r = None \<and> r \<noteq> [] \<and> prefix r p then Some NDir else look f r))"
proof -
  let ?b = "repo @ BUNDLE" and ?t = "p @ [bundle_temporary g]"
  let ?s = "?t @ [''bundle'']" and ?q = "?t @ [''previous'']"
  have bp: "butlast ?b = p" "?b = p @ [''official'']" by (simp_all add: BUNDLE_def p butlast_append)
  have plain: "list_all plain_name p" "list_all plain_name ?t" "list_all plain_name ?s" "list_all plain_name ?b" "list_all plain_name ?q"
    using assms(3,4) by (simp_all add: p bp(2) plain_name_def)
  have up: "\<not> prefix ?t r" if "prefix r p" for r using that by (auto dest!: prefix_length_le)
  obtain f1 where f1: "mkdir_p f p = Inr f1" "no_links f1" "look f1 p = Some NDir"
      and l1: "\<And>r. look f1 r = (if look f r = None \<and> r \<noteq> [] \<and> prefix r p then Some NDir else look f r)"
    using mkdir_p_total [OF assms(1) plain(1) disk(1)] by blast
  have t1: "look f1 ?t = None" using disk(3) by (simp add: l1)
  define f2 where "f2 = fs_put f1 ?t NDir"
  have f2: "mkdir_new f1 ?t = Inr f2"
    unfolding f2_def by (rule mkdir_new_total [OF f1(2) plain(2) t1]) (simp add: f1(3))
  have nl2: "no_links f2" using f1(2) by (simp add: f2_def no_links_fs_put)
  have look2: "look f2 r = (if r = ?t then Some NDir else if look f r = None \<and> r \<noteq> [] \<and> prefix r p then Some NDir else look f r)" for r
    by (simp add: f2_def look_fs_put l1)
  have below: "look f2 r = None" if "prefix ?t r" "r \<noteq> ?t" for r
    using is_tree_free [OF assms(2) disk(3) that(1)] up [of r] that by (auto simp: look2)
  have above: "look f2 r = Some NDir" if "strict_prefix r ?s" for r
  proof (cases "r = ?t")
    case False
    have "prefix r p" using that False by (auto simp: strict_prefix_def prefix_append prefix_Cons)
    then have "look f r \<in> {None, Some NDir}" using disk(1) by (simp add: makeable_prefix)
    then show ?thesis using \<open>prefix r p\<close> False by (cases "r = []") (simp add: look_def, auto simp: look2)
  qed (simp add: look2)
  have "look f2 r = None" if "prefix ?s r" for r using that by (intro below) (auto simp: prefix_def)
  from staging_total [OF nl2 plain(3) assms(6-8) this above] obtain f3 where
    f3: "foldE (\<lambda>f (name, data). put_file f (?s @ pure_parts name) data) f2 files = Inr f3" "staged files ?s f2 (fst ` set files) f3" by blast
  have nl3: "no_links f3" and look3: "\<And>r. \<not> prefix ?s r \<Longrightarrow> look f3 r = look f2 r" and held: "holds_files files (fst ` set files) f3 ?s"
    using f3(2) by (auto simp: staged_def)
  have apart: "\<not> prefix ?t r" if "prefix ?b r" for r using that assms(5) by (auto simp: bp(2) prefix_def)
  have apart': "\<not> prefix ?s r" if "\<not> prefix ?t r" for r using that by (auto simp: prefix_def)
  have none3: "look f3 r = None" if "prefix ?q r" for r
    using that below [of r] by (subst look3) (auto simp: prefix_def)
  have b3: "look f3 r = look f r" if "prefix ?b r" for r
    using that apart [OF that] apart' by (auto simp: look3 look2 bp(2) prefix_def)
  have "\<exists>f4. (if path_exists f3 ?b then rename_dir f3 ?b ?q else Inr f3) = Inr f4 \<and> no_links f4 \<and>
      (\<forall>r. \<not> prefix ?q r \<longrightarrow> look f4 r = (if prefix ?b r then None else look f3 r))"
  proof (cases "look f ?b")
    case None
    then have "look f3 r = None" if "prefix ?b r" for r using is_tree_free [OF assms(2) None that] b3 [OF that] by simp
    then show ?thesis using nl3 stat_plain [OF nl3 plain(4)] by (simp add: path_exists_def)
  next
    case (Some n)
    then have b: "look f3 ?b = Some NDir" using disk(2) b3 [of ?b] by simp
    have "look f3 ?q = None" "look f3 (butlast ?q) = Some NDir" using none3 [of ?q] by (simp_all add: look3 look2 butlast_append)
    from rename_dir_total [OF nl3 plain(4,5) b this] obtain f4 where f4: "rename_dir f3 ?b ?q = Inr f4" by blast
    have l4: "look f4 r = (if prefix ?q r then look f3 (?b @ drop (length ?q) r) else if prefix ?b r then None else look f3 r)" for r
      by (rule look_rename_dir [OF f4 _ _ none3]) (simp_all add: bp(2))
    have "no_links f4" by (rule no_links_rename_dir [OF nl3 l4])
    then show ?thesis using f4 b stat_plain [OF nl3 plain(4)] by (simp add: path_exists_def l4)
  qed
  then obtain f4 where f4: "(if path_exists f3 ?b then rename_dir f3 ?b ?q else Inr f3) = Inr f4" "no_links f4"
      and look4: "\<And>r. \<not> prefix ?q r \<Longrightarrow> look f4 r = (if prefix ?b r then None else look f3 r)" by blast
  have b4: "look f4 r = None" if "prefix ?b r" for r using apart [OF that] that by (subst look4) (auto simp: prefix_def)
  have nbs: "\<not> prefix ?b (?s @ x)" for x using apart [of "?s @ x"] by auto
  have s4: "look f4 (?s @ x) = look f3 (?s @ x)" for x
    using nbs [of x] look4 [of "?s @ x"] by (simp add: prefix_def)
  obtain n where n: "n \<in> fst ` set files" using assms(9) by (cases files) auto
  have "[] \<notin> pure_parts ` fst ` set files" using assms(7) by (force simp: canonical_def)
  moreover have "strict_prefix [] (pure_parts n)" using assms(7) n by (cases "pure_parts n") (auto simp: canonical_def)
  ultimately have "look f3 (?s @ []) = Some NDir" using held n unfolding holds_files_def by metis
  with s4 [of "[]"] have s4': "look f4 ?s = Some NDir" by simp
  have "look f4 p = Some NDir"
    using f1(3) up [of p] by (subst look4) (auto simp: prefix_def look3 look2 bp(2) l1)
  then have "look f4 (butlast ?b) = Some NDir" by (simp add: bp(1))
  from rename_dir_total [OF f4(2) plain(3,4) s4' b4 [OF prefix_order.refl] this] obtain f5 where f5: "rename_dir f4 ?s ?b = Inr f5" by blast
  have l5: "look f5 r = (if prefix ?b r then look f4 (?s @ drop (length ?b) r) else if prefix ?s r then None else look f4 r)" for r
    by (rule look_rename_dir [OF f5 _ _ b4]) (simp_all add: bp(2))
  have nl5: "no_links f5" by (rule no_links_rename_dir [OF f4(2) l5])
  have final: "look (remove_tree f5 ?t) r = (if prefix ?t r then None else if prefix ?b r then look f3 (?s @ drop (length ?b) r) else look f2 r)" for r
  proof -
    have "\<not> prefix ?t r \<Longrightarrow> \<not> prefix ?q r" by (auto simp: prefix_def)
    then show ?thesis using apart' s4 by (auto simp: look_remove_tree l5 look4 look3)
  qed
  have "holds_files files (fst ` set files) (remove_tree f5 ?t) ?b"
    using held apart [of "?b @ _"] unfolding holds_files_def final by simp
  moreover have "\<forall>r. \<not> prefix ?b r \<longrightarrow> look (remove_tree f5 ?t) r = (if prefix ?t r then None
       else if look f r = None \<and> r \<noteq> [] \<and> prefix r p then Some NDir else look f r)"
    by (auto simp: final look2)
  moreover have "publish_bundle g f repo files = Inr (remove_tree f5 ?t)"
    unfolding publish_bundle_def Let_def bp(1) using f1(1) f2 f3(1) f4(1) f5 by simp
  ultimately show ?thesis using no_links_remove_tree [OF nl5] by blast
qed

lemma publish_catalog_total:
  assumes "no_links f" "list_all plain_name p" "p \<noteq> []" "plain_name (catalog_temporary g)" "catalog_temporary g \<noteq> last p"
    "makeable f (butlast p)" "look f p \<noteq> Some NDir" "look f (butlast p @ [catalog_temporary g]) = None"
  shows "\<exists>f'. publish_catalog g f p s = Inr f' \<and> no_links f' \<and> (\<exists>m. look f' p = Some (NFile s m)) \<and>
     (\<forall>r. r \<noteq> p \<longrightarrow> look f' r = (if look f r = None \<and> r \<noteq> [] \<and> prefix r (butlast p) then Some NDir else look f r))"
proof -
  let ?s = "butlast p @ [catalog_temporary g]"
  have plain: "list_all plain_name (butlast p)" "list_all plain_name ?s" "?s \<noteq> []" "?s \<noteq> p"
    using assms(2-5) list_all_butlast [OF assms(2)] by (auto simp: snoc_eq_iff_butlast)
  obtain f1 where f1: "mkdir_p f (butlast p) = Inr f1" "no_links f1" "look f1 (butlast p) = Some NDir"
      and l1: "\<And>r. look f1 r = (if look f r = None \<and> r \<noteq> [] \<and> prefix r (butlast p) then Some NDir else look f r)"
    using mkdir_p_total [OF assms(1) plain(1) assms(6)] by blast
  have up: "\<not> prefix ?s (butlast p)" "\<not> prefix p (butlast p)"
    using assms(3) by (cases p rule: rev_cases; auto dest!: prefix_length_le)+
  define f3 where "f3 = fs_put (fs_put f1 ?s (NFile s 420)) ?s (NFile s 384)"
  have s1: "look f1 ?s = None" "look f1 p \<noteq> Some NDir" using assms(7,8) up by (auto simp: l1)
  have "create_bytes f1 ?s s = Inr (fs_put f1 ?s (NFile s 420))"
    using s1(1) f1(3) plain(2) f1(2)
    by (simp add: create_bytes_def path_exists_def stat_plain not_symlink_plain write_bytes_def real_path_plain)
  moreover have nl2: "no_links (fs_put f1 ?s (NFile s 420))" by (rule no_links_fs_put [OF f1(2)]) simp_all
  then have "chmod (fs_put f1 ?s (NFile s 420)) ?s 384 = Inr f3"
    unfolding f3_def by (simp add: chmod_def real_path_plain [OF nl2 plain(2)] look_fs_put)
  moreover have nl3: "no_links f3" unfolding f3_def by (rule no_links_fs_put [OF nl2]) simp_all
  have l3: "look f3 r = (if r = ?s then Some (NFile s 384) else look f1 r)" for r by (simp add: f3_def look_fs_put)
  have "\<exists>f'. replace_path f3 ?s p = Inr f'"
    using s1(2) f1(3) plain(4) assms(3)
    by (simp add: replace_path_def real_path_plain [OF nl3 plain(1)] path_name_def l3)
  then obtain f' where f': "replace_path f3 ?s p = Inr f'" by blast
  from replace_path_plain [OF nl3 plain(2) assms(2) plain(3) assms(3) f']
  have l: "look f' r = (if r = p then Some (NFile s 384) else if r = ?s then None else look f3 r)" for r
    by (auto simp: l3)
  have "look f' r = (if look f r = None \<and> r \<noteq> [] \<and> prefix r (butlast p) then Some NDir else look f r)" if "r \<noteq> p" for r
    using that up assms(8) by (auto simp: l l3 l1)
  ultimately show ?thesis
    using f1(1) f' no_links_replace [OF nl3 f'] l [of p] by (auto simp: publish_catalog_def Let_def)
qed

text \<open>The reads of a check that stay the same.\<close>

definition keeps_files :: "fs \<Rightarrow> fs \<Rightarrow> path \<Rightarrow> bool" where
  "keeps_files f f' p \<longleftrightarrow> (\<forall>s m. look f p = Some (NFile s m) \<longrightarrow> look f' p = Some (NFile s m))"

lemma read_bytes_kept:
  "no_links f \<Longrightarrow> no_links f' \<Longrightarrow> list_all plain_name p \<Longrightarrow> keeps_files f f' p \<Longrightarrow> read_bytes f p = Inr s \<Longrightarrow> read_bytes f' p = Inr s"
  by (auto simp: read_bytes_plain keeps_files_def)

lemma below_links_plain: "no_links f \<Longrightarrow> list_all plain_name repo \<Longrightarrow> list_all plain_name rel \<Longrightarrow> \<not> below_links f repo rel"
proof -
  assume a: "no_links f" "list_all plain_name repo" "list_all plain_name rel"
  then have "list_all plain_name (repo @ take k rel)" for k by (auto simp: list_all_iff dest: in_set_takeD)
  with a(1) show ?thesis by (simp add: below_links_def list_ex_iff not_symlink_plain)
qed

lemma adapter_source_kept:
  assumes "no_links f" "no_links f'" "list_all plain_name repo" "list_all plain_name rel" "keeps_files f f' (repo @ rel)"
    "adapter_source g f repo rel = Inr s"
  shows "adapter_source g f' repo rel = Inr s"
proof -
  from assms(6) obtain b u where "read_bytes f (repo @ rel) = Inr b" "utf8_decode g b = Inr u" "s = universal_newlines u"
    by (auto simp: adapter_source_def bindE_Inr_iff split: if_splits)
  with read_bytes_kept [OF assms(1,2) _ assms(5)] below_links_plain [OF assms(2-4)] assms(3,4)
  show ?thesis by (simp add: adapter_source_def)
qed

lemma expected_catalog_kept:
  assumes "no_links f" "no_links f'" "list_all plain_name repo"
    "\<And>name. name \<in> set ([''url'', ''json''] @ NATIVE_ADAPTERS) \<Longrightarrow> keeps_files f f' (repo @ adapter_path name)"
    "expected_catalog g f repo files = Inr s"
  shows "expected_catalog g f' repo files = Inr s"
proof -
  have names: "\<forall>name \<in> set ([''url'', ''json''] @ NATIVE_ADAPTERS). list_all plain_name (adapter_path name)"
  proof -
    have "list_all (\<lambda>name. list_all plain_name (adapter_path name)) ([''url'', ''json''] @ NATIVE_ADAPTERS)" by code_simp
    then show ?thesis by (simp only: list_all_iff)
  qed
  have kept: "adapter_source g f repo (adapter_path name) = Inr t \<Longrightarrow> adapter_source g f' repo (adapter_path name) = Inr t"
    if "name \<in> set ([''url'', ''json''] @ NATIVE_ADAPTERS)" for name t
    using adapter_source_kept [OF assms(1-3) _ assms(4) [OF that]] names that by blast
  from assms(5) obtain u j extra where c: "adapter_source g f repo (adapter_path ''url'') = Inr u"
      "adapter_source g f repo (adapter_path ''json'') = Inr j"
      "mapE (\<lambda>name. bindE (adapter_source g f repo (adapter_path name)) (\<lambda>s. Inr (name, s))) NATIVE_ADAPTERS = Inr extra"
      "catalog_source g files u j extra = Inr s"
    by (auto simp: expected_catalog_def bindE_Inr_iff)
  have "mapE (\<lambda>name. bindE (adapter_source g f' repo (adapter_path name)) (\<lambda>s. Inr (name, s))) NATIVE_ADAPTERS = Inr extra"
    using c(3) unfolding mapE_iff
  proof (rule list.rel_mono_strong)
    fix name row
    assume name: "name \<in> set NATIVE_ADAPTERS" and "bindE (adapter_source g f repo (adapter_path name)) (\<lambda>s. Inr (name, s)) = Inr row"
    then obtain t where t: "adapter_source g f repo (adapter_path name) = Inr t" "row = (name, t)" by (auto simp: bindE_Inr_iff)
    have "adapter_source g f' repo (adapter_path name) = Inr t" by (rule kept [OF _ t(1)]) (use name in simp)
    with t(2) show "bindE (adapter_source g f' repo (adapter_path name)) (\<lambda>s. Inr (name, s)) = Inr row" by simp
  qed
  with c(1,2,4) kept show ?thesis by (simp add: expected_catalog_def)
qed

lemma reference_files_kept:
  assumes "no_links f" "no_links f'" "list_all plain_name repo" "keeps_files f f' (repo @ [''TYPE_RB_REVISION''])"
    "reference_files g f repo = Inr files"
  shows "reference_files g f' repo = Inr files"
proof -
  from assms(5) obtain s where s: "read_bytes f (repo @ [''TYPE_RB_REVISION'']) = Inr s" by (auto simp: reference_files_def bindE_Inr_iff)
  have "list_all plain_name (repo @ [''TYPE_RB_REVISION''])" using assms(3) by (simp add: plain_name_def)
  from read_bytes_kept [OF assms(1,2) this assms(4) s] s assms(5) show ?thesis by (simp add: reference_files_def)
qed

section \<open>Synchronising, then checking\<close>

text \<open>A checkout in which the tool can write: no links, the temporary names are free, and nothing but directories is
  where the tool needs directories.\<close>

definition writable_checkout :: "pinned \<Rightarrow> fs \<Rightarrow> path \<Rightarrow> bool" where
  "writable_checkout g f repo \<longleftrightarrow> no_links f \<and> is_tree f \<and> list_all plain_name repo \<and>
     plain_name (bundle_temporary g) \<and> bundle_temporary g \<noteq> ''official'' \<and>
     plain_name (catalog_temporary g) \<and> catalog_temporary g \<noteq> ''official_catalog.trb'' \<and>
     makeable f (repo @ [''vendor'', ''type-rb'']) \<and> makeable f (repo @ [''compiler'', ''src'', ''project'']) \<and>
     look f (repo @ CATALOG) \<noteq> Some NDir \<and> look f (repo @ [''vendor'', ''type-rb'', bundle_temporary g]) = None \<and>
     look f (repo @ [''compiler'', ''src'', ''project'', catalog_temporary g]) = None"

text \<open>C4. In a writable checkout without links, when the pinned reference and the adapters can be read, synchronisation succeeds, and
  after it the check succeeds with the same number of files, although it reads everything again: the bundle
  holds the pinned files and nothing else, the catalogue is the generated one, and the writes have not
  disturbed what both are computed from. What existed outside the bundle and the catalogue is unchanged.
  Git lists no file with the name of a directory of the same listing, and no file named by a single dot.\<close>

theorem synced_sources_verify:
  assumes "reference_files g f repo = Inr files" "expected_catalog g f repo files = Inr s"
    "bundle_files f repo = Inr old \<or> look f (repo @ BUNDLE) = None" "writable_checkout g f repo"
    "''packages/.'' \<notin> fst ` set files" "prefix_free files"
  shows "\<exists>f'. sync_sources g f repo = Inr (f', length files - 1) \<and> check_sources g f' repo = Inr (length files - 1) \<and>
     (\<forall>r. \<not> prefix (repo @ BUNDLE) r \<longrightarrow> r \<noteq> repo @ CATALOG \<longrightarrow> look f r \<noteq> None \<longrightarrow> look f' r = look f r)"
proof -
  let ?p = "repo @ [''vendor'', ''type-rb'']" and ?c = "repo @ CATALOG"
  have w: "no_links f" "is_tree f" "list_all plain_name repo" "plain_name (bundle_temporary g)" "bundle_temporary g \<noteq> ''official''"
      "plain_name (catalog_temporary g)" "catalog_temporary g \<noteq> ''official_catalog.trb''" "makeable f ?p"
      "makeable f (butlast ?c)" "look f ?c \<noteq> Some NDir" "look f (?p @ [bundle_temporary g]) = None"
      "look f (butlast ?c @ [catalog_temporary g]) = None"
    using assms(4) by (simp_all add: writable_checkout_def CATALOG_def butlast_append)
  note names = reference_names [OF assms(1)]
  have distinct: "distinct (map fst files)" using names(1) by (simp only: good_names_def)
  have good: "\<forall>k \<in> fst ` set files. canonical k" using names(1) assms(5) unfolding good_names_def by metis
  have nonempty: "files \<noteq> []" using names(2) by auto
  have plain: "list_all plain_name ?c" "?c \<noteq> []" "catalog_temporary g \<noteq> last ?c" "list_all plain_name CATALOG" "list_all plain_name (repo @ BUNDLE)"
    using w(3,7) by (simp_all add: CATALOG_def BUNDLE_def plain_name_def)
  have dir: "is_dir f (repo @ BUNDLE) \<longleftrightarrow> look f (repo @ BUNDLE) = Some NDir" "path_exists f (repo @ BUNDLE) \<longleftrightarrow> look f (repo @ BUNDLE) \<noteq> None"
    using stat_plain [OF w(1) plain(5)] by (simp_all add: is_dir_def path_exists_def)
  have "look f (repo @ BUNDLE) \<in> {None, Some NDir}"
    using assms(3) dir(1) by (auto simp: bundle_files_def split: if_splits)
  from publish_bundle_total [OF w(1-5) distinct good assms(6) nonempty refl w(8) this w(11)] obtain f1 where
    pub: "publish_bundle g f repo files = Inr f1" "no_links f1" "holds_files files (fst ` set files) f1 (repo @ BUNDLE)"
      "\<And>r. \<not> prefix (repo @ BUNDLE) r \<Longrightarrow> look f1 r = (if prefix (?p @ [bundle_temporary g]) r then None
         else if look f r = None \<and> r \<noteq> [] \<and> prefix r ?p then Some NDir else look f r)" by blast
  have out: "\<not> prefix (repo @ BUNDLE) r \<and> \<not> prefix (?p @ [bundle_temporary g]) r \<and> \<not> prefix r ?p" if "prefix (repo @ [''compiler'']) r" for r
    using that by (auto simp: prefix_def BUNDLE_def)
  have l1: "look f1 (repo @ ''compiler'' # x) = look f (repo @ ''compiler'' # x)" for x
    using pub(4) [of "repo @ ''compiler'' # x"] out [of "repo @ ''compiler'' # x"] by (simp add: prefix_def)
  have m1: "makeable f1 (butlast ?c)" unfolding makeable_prefix
  proof (intro allI impI)
    fix q
    assume q: "prefix q (butlast ?c)"
    then have "\<not> prefix (repo @ BUNDLE) q" by (auto simp: CATALOG_def BUNDLE_def butlast_append prefix_def append_eq_append_conv2)
    from pub(4) [OF this] q w(9) show "look f1 q \<in> {None, Some NDir}" unfolding makeable_prefix by auto
  qed
  have "look f1 ?c \<noteq> Some NDir" "look f1 (butlast ?c @ [catalog_temporary g]) = None"
    using w(10,12) by (simp_all add: CATALOG_def butlast_append l1)
  from publish_catalog_total [OF pub(2) plain(1,2) w(6) plain(3) m1 this] obtain f' where
    cat: "publish_catalog g f1 ?c s = Inr f'" "no_links f'" "\<exists>m. look f' ?c = Some (NFile s m)"
      "\<And>r. r \<noteq> ?c \<Longrightarrow> look f' r = (if look f1 r = None \<and> r \<noteq> [] \<and> prefix r (butlast ?c) then Some NDir else look f1 r)" by blast
  have links: "\<not> vendor_links f repo"
  proof -
    have "list_all plain_name BUNDLE" by code_simp
    then have "list_all plain_name (repo @ take k BUNDLE)" for k using w(3) by (auto simp: list_all_iff dest: in_set_takeD)
    with w(1) show ?thesis by (simp add: vendor_links_def list_ex_iff not_symlink_plain)
  qed
  have sync: "sync_sources g f repo = Inr (f', length files - 1)"
    using assms(1-3) below_links_plain [OF w(1,3) plain(4)] links dir(2) pub(1) cat(1)
    by (auto simp: sync_sources_def catalog_path_def)
  have frame: "look f' r = look f r" if "\<not> prefix (repo @ BUNDLE) r" "r \<noteq> ?c" "look f r \<noteq> None" for r
    using pub(4) [OF that(1)] is_tree_free [OF w(2,11), of r] cat(4) [OF that(2)] that(3) by auto
  have kept: "keeps_files f f' (repo @ c # x)" if "c # x \<noteq> CATALOG" "c \<noteq> ''vendor''" for c x
    using frame [of "repo @ c # x"] that by (auto simp: keeps_files_def BUNDLE_def)
  have "\<not> prefix (repo @ BUNDLE @ x) (butlast ?c)" "repo @ BUNDLE @ x \<noteq> ?c" for x
    by (simp_all add: BUNDLE_def CATALOG_def butlast_append)
  then have "look f' ((repo @ BUNDLE) @ x) = look f1 ((repo @ BUNDLE) @ x)" for x
    using cat(4) [of "(repo @ BUNDLE) @ x"] by auto
  then have held: "holds_files files (fst ` set files) f' (repo @ BUNDLE)" using pub(3) by (simp add: holds_files_def)
  from bundle_files_of_held [OF cat(2) w(3) held good nonempty] obtain actual where
    actual: "bundle_files f' repo = Inr actual" "map_of actual = map_of files" by blast
  have ref: "reference_files g f' repo = Inr files"
    by (rule reference_files_kept [OF w(1) cat(2) w(3) _ assms(1)]) (rule kept, simp_all add: CATALOG_def)
  have exp: "expected_catalog g f' repo files = Inr s"
    by (rule expected_catalog_kept [OF w(1) cat(2) w(3) _ assms(2)]) (simp add: adapter_path_def kept CATALOG_def)
  have "read_bytes f' ?c = Inr s" using cat(3) by (simp add: read_bytes_plain [OF cat(2) plain(1)])
  moreover have "is_file f' ?c" using cat(3) by (auto simp: is_file_def stat_plain [OF cat(2) plain(1)])
  moreover have "\<not> below_links f' repo CATALOG" by (rule below_links_plain [OF cat(2) w(3) plain(4)])
  ultimately have "check_sources g f' repo = Inr (length files - 1)"
    unfolding check_exact using ref exp actual by blast
  with sync frame show ?thesis by blast
qed

section \<open>A checkout\<close>

definition demo_revision :: string where "demo_revision = replicate 40 (CHR ''0'')"

definition demo_go :: "string \<Rightarrow> string" where
  "demo_go stem =
     (if stem = ''registry''
      then ''package stdlib'' @ [NL] @ test_entry ''trb/std/test'' @ [TAB, TAB] @ ''Source: '' @ [quote_chr, CHR ''t'', quote_chr] @ '','' @ [NL, TAB, TAB] @
        ''Kind: Portable,'' @ [NL] @ test_entry ''trb/internal/test''
      else ''package stdlib'' @ [NL, NL] @ function_text stem @ stem @ [quote_chr, NL] @ ''}'' @ [NL])"

definition demo_blob :: "string \<Rightarrow> string" where
  "demo_blob oid =
     (if oid = ''a'' then ''{'' @ dumps_str True ''name'' @ '':'' @ dumps_str True ''n'' @ '','' @ dumps_str True ''module'' @ '':'' @ dumps_str True ''m'' @
        '','' @ dumps_str True ''source'' @ '':'' @ dumps_str True ''s.trb'' @ ''}''
      else if oid = ''b'' then ''1''
      else if oid = ''LICENSE'' then ''MIT''
      else demo_go (name_stem (path_name (pure_parts oid))))"

definition demo_git :: "string list \<Rightarrow> completed" where
  "demo_git args = \<lparr>returncode = 0, proc_out =
     (if args ! 0 = ''cat-file'' then (if args ! 1 = ''-t'' then ''commit'' @ [NL] else demo_blob (args ! 2))
      else if args ! 1 = ''-rz''
      then ''100644 blob a'' @ [TAB] @ SOURCE_ROOT @ ''/x/trbpackage.json'' @ [NUL] @ ''100644 blob b'' @ [TAB] @ SOURCE_ROOT @ ''/x/s.trb'' @ [NUL]
      else ''100644 blob '' @ args ! 3 @ '' '' @ args ! 3), proc_err = []\<rparr>"

definition demo_pinned :: pinned where
  "demo_pinned = \<lparr>git_process = demo_git, pin_sha = (\<lambda>s. ''00''), utf8_decode = Inr, utf8_encode = (\<lambda>s. s),
     bundle_temporary = ''official-sources-1'', catalog_temporary = ''official-catalog-1''\<rparr>"

definition demo_checkout :: fs where
  "demo_checkout =
     [([''r''], NDir), ([''r'', ''TYPE_RB_REVISION''], NFile (demo_revision @ [NL]) 420), ([''r'', ''compiler''], NDir),
      ([''r'', ''compiler'', ''packages''], NDir), ([''r'', ''compiler'', ''packages'', ''internal''], NDir)] @
     map (\<lambda>n. ([''r''] @ adapter_path n, NFile n 420)) ([''url'', ''json''] @ NATIVE_ADAPTERS) @
     [([''r'', ''vendor''], NDir), ([''r'', ''vendor'', ''type-rb''], NDir), ([''r'', ''vendor'', ''type-rb'', ''official''], NDir),
      ([''r'', ''vendor'', ''type-rb'', ''official'', ''old.trb''], NFile ''old'' 420)]"


text \<open>The parts a catalogue is made of; the text itself is not computed here.\<close>

definition catalog_parts_read :: "pinned \<Rightarrow> contents \<Rightarrow> bool" where
  "catalog_parts_read g files =
     (case foldE (catalog_package g files) ([], []) (sort_key fst files) of Inl e \<Rightarrow> False | Inr st \<Rightarrow>
        (case mapE (pinned_source_row g files) (map fst STDLIB_SOURCES) of Inl e \<Rightarrow> False | Inr sources \<Rightarrow> True))"

definition adapters_read :: "pinned \<Rightarrow> fs \<Rightarrow> path \<Rightarrow> bool" where
  "adapters_read g f repo =
     list_all (\<lambda>n. case adapter_source g f repo (adapter_path n) of Inl e \<Rightarrow> False | Inr s \<Rightarrow> True) ([''url'', ''json''] @ NATIVE_ADAPTERS)"

lemma catalog_of_parts:
  assumes "adapters_read g f repo" "catalog_parts_read g files"
  shows "\<exists>s. expected_catalog g f repo files = Inr s"
proof -
  have a: "\<exists>s. adapter_source g f repo (adapter_path n) = Inr s" if "n \<in> set ([''url'', ''json''] @ NATIVE_ADAPTERS)" for n
    using assms(1) that unfolding adapters_read_def list_all_iff by (fastforce split: sum.splits)
  obtain u j where uj: "adapter_source g f repo (adapter_path ''url'') = Inr u" "adapter_source g f repo (adapter_path ''json'') = Inr j"
    using a [of "''url''"] a [of "''json''"] by auto
  have "\<exists>e. mapE (\<lambda>name. bindE (adapter_source g f repo (adapter_path name)) (\<lambda>s. Inr (name, s))) ns = Inr e"
    if "set ns \<subseteq> set NATIVE_ADAPTERS" for ns
    using that
  proof (induction ns)
    case (Cons n ns)
    then obtain e where "mapE (\<lambda>name. bindE (adapter_source g f repo (adapter_path name)) (\<lambda>s. Inr (name, s))) ns = Inr e" by auto
    moreover obtain s where "adapter_source g f repo (adapter_path n) = Inr s" using a [of n] Cons.prems by auto
    ultimately show ?case by simp
  qed simp
  then obtain e where e: "mapE (\<lambda>name. bindE (adapter_source g f repo (adapter_path name)) (\<lambda>s. Inr (name, s))) NATIVE_ADAPTERS = Inr e"
    by blast
  have "\<exists>s. catalog_source g files u j e = Inr s"
    using assms(2) by (auto simp: catalog_parts_read_def catalog_source_def split: sum.splits)
  with uj e show ?thesis by (simp add: expected_catalog_def)
qed

lemma demo_adapters: "adapters_read demo_pinned demo_checkout [''r'']"
  by code_simp

lemma demo_reference:
  "case reference_files demo_pinned demo_checkout [''r''] of Inl e \<Rightarrow> False
   | Inr files \<Rightarrow> list_all (\<lambda>n. n \<noteq> ''packages/.'') (map fst files) \<and> prefix_free files \<and>
       catalog_parts_read demo_pinned files \<and> length files = 17"
  by code_simp

lemma demo_bundle: "bundle_files demo_checkout [''r''] = Inr [(''old.trb'', ''old'')]"
  by code_simp

lemma demo_tree: "list_all (\<lambda>(p, n). p \<noteq> [] \<and> not_link n \<and> look demo_checkout (butlast p) = Some NDir) demo_checkout"
  by code_simp

lemma demo_writable: "writable_checkout demo_pinned demo_checkout [''r'']"
proof -
  have "list_all (\<lambda>(p, n). not_link n) demo_checkout" using demo_tree by (auto simp: list_all_iff)
  then have "no_links demo_checkout" by (rule no_links_list)
  moreover have "is_tree demo_checkout"
    using demo_tree by (auto simp: is_tree_def look_def list_all_iff dest!: map_of_SomeD)
  moreover have "makeable demo_checkout ([''r''] @ [''vendor'', ''type-rb''])" "makeable demo_checkout ([''r''] @ [''compiler'', ''src'', ''project''])"
    "look demo_checkout ([''r''] @ CATALOG) = None" "look demo_checkout [''r'', ''vendor'', ''type-rb'', ''official-sources-1''] = None"
    "look demo_checkout [''r'', ''compiler'', ''src'', ''project'', ''official-catalog-1''] = None"
    by (code_simp, code_simp, code_simp, code_simp, code_simp)
  ultimately show ?thesis by (simp add: writable_checkout_def demo_pinned_def plain_name_def)
qed

lemma synced_sources_verify_witness:
  "\<exists>f'. sync_sources demo_pinned demo_checkout [''r''] = Inr (f', 16) \<and> check_sources demo_pinned f' [''r''] = Inr 16"
proof -
  obtain files where r0: "reference_files demo_pinned demo_checkout [''r''] = Inr files" "catalog_parts_read demo_pinned files"
      "''packages/.'' \<notin> fst ` set files" "prefix_free files" "length files = 17"
    using demo_reference by (force simp: list_all_iff split: sum.splits)
  moreover from catalog_of_parts [OF demo_adapters r0(2)] obtain s where "expected_catalog demo_pinned demo_checkout [''r''] files = Inr s" by blast
  ultimately have r: "reference_files demo_pinned demo_checkout [''r''] = Inr files" "expected_catalog demo_pinned demo_checkout [''r''] files = Inr s"
      "''packages/.'' \<notin> fst ` set files" "prefix_free files" "length files = 17" by simp_all
  from synced_sources_verify [OF r(1,2) disjI1 [OF demo_bundle] demo_writable r(3,4)] r(5) show ?thesis by auto
qed

end
