(* ===== verification/CompilerUnits.thy ===== *)
theory CompilerUnits
  imports PyJsonText PyNum PyPath PyProc "HOL-Library.Multiset"
begin

text \<open>
  \<open>tools/complete_compiler_units.py\<close>: every test file of the compiler runs in its own process, and the
  events each process prints must account for all of its tests. The processes, the order in which they
  complete, the names of the temporary directories and the test for execute permission are parameters;
  the times that are printed are not modelled.
\<close>

datatype unit_run = Finished completed | TimedOut string string

record units =
  unit_process :: "(string \<times> string) list \<Rightarrow> unit_run"
  unit_environ :: "(string \<times> string) list"
  unit_temporary :: "path \<Rightarrow> string"
  unit_executable :: "path \<Rightarrow> bool"
  unit_completion :: "path list \<Rightarrow> path list"

section \<open>Discovery\<close>

definition EARLY_TEST_FILES :: "string list" where
  "EARLY_TEST_FILES =
     [''compiler/src/tests/compiler/source_loading_test.trb'', ''compiler/src/backend/qbe/emit/constants_test.trb'',
      ''compiler/src/mir/passes/optimize_test.trb'', ''compiler/src/mir/analysis/numeric_selection_test.trb'']"

text \<open>\<open>path.relative_to(root).as_posix()\<close>.\<close>

definition relative_name :: "path \<Rightarrow> path \<Rightarrow> string res" where
  "relative_name repo p = (if prefix repo p then Inr (posix (drop (length repo) p)) else Inl (ValueError ''is not in the subpath of''))"

definition unit_priority :: "string \<Rightarrow> nat" where
  "unit_priority name = (if name \<in> set EARLY_TEST_FILES then length (takeWhile (\<lambda>n. n \<noteq> name) EARLY_TEST_FILES) else length EARLY_TEST_FILES)"

definition test_files :: "fs \<Rightarrow> path \<Rightarrow> path list res" where
  "test_files f repo =
     (let source = repo @ [''compiler'', ''src''] in
      bindE (mapE (\<lambda>p. resolveE f (source @ p)) (filter (\<lambda>p. suffix_is ''_test.trb'' p \<and> is_file f (source @ p)) (rglob f source))) (\<lambda>paths.
      bindE (mapE (\<lambda>p. bindE (relative_name repo p) (\<lambda>n. Inr (unit_priority n, p))) paths) (\<lambda>keyed.
      Inr (map snd (sort_key fst (sort_key snd keyed))))))"

section \<open>One file\<close>

definition path_text :: "path \<Rightarrow> string" where
  "path_text p = CHR ''/'' # join ''/'' p"

definition unit_environment :: "units \<Rightarrow> path \<Rightarrow> (string \<times> string) list" where
  "unit_environment u p =
     (let temporary = unit_temporary u p in
      foldl (\<lambda>env (k, v). AList.update k v env) (AList.delete ''TRB_TEST_NAMES'' (unit_environ u))
       [(''TRB_TEST_FILE'', path_text p), (''TRB_TEST_REPORTER'', ''json''), (''TMPDIR'', temporary), (''TMP'', temporary), (''TEMP'', temporary)])"

definition typed_event :: "json \<Rightarrow> bool" where
  "typed_event event = (case event of JDict kvs \<Rightarrow> (case map_of kvs ''type'' of Some (JStr s) \<Rightarrow> True | _ \<Rightarrow> False) | _ \<Rightarrow> False)"

text \<open>Lines that are no JSON are ordinary output; a value that is no event ends the reading.\<close>

fun read_events :: "string list \<Rightarrow> json list \<Rightarrow> (string list \<times> json list) res" where
  "read_events [] events = Inr ([], events)"
| "read_events (line # lines) events = (case loads line of
      Inl e \<Rightarrow> if is_ValueError e then read_events lines events else Inl e
    | Inr event \<Rightarrow> if \<not> typed_event event then Inr ([''malformed test event''], events)
        else read_events lines (events @ [event]))"

text \<open>\<open>event.get(key)\<close>.\<close>

definition member_of :: "string \<Rightarrow> json \<Rightarrow> json" where
  "member_of key event = (case event of JDict kvs \<Rightarrow> (case map_of kvs key of None \<Rightarrow> JNull | Some v \<Rightarrow> v) | _ \<Rightarrow> JNull)"

definition of_type :: "string \<Rightarrow> json list \<Rightarrow> json list" where
  "of_type kind events = filter (\<lambda>e. member_of ''type'' e = JStr kind) events"

definition error_when :: "bool \<Rightarrow> string \<Rightarrow> string list" where
  "error_when c message = (if c then [message] else [])"

definition exit_errors :: "int \<Rightarrow> string list" where
  "exit_errors code = error_when (code \<noteq> 0) (''test executable exited '' @ show_int code)"

definition summary_matches :: "json \<Rightarrow> nat \<Rightarrow> bool" where
  "summary_matches summary passed =
     (case as_int (member_of ''total'' summary) of None \<Rightarrow> False
      | Some n \<Rightarrow> 0 < n \<and> jeq (member_of ''failed'' summary) (JInt 0) \<and> n = int passed)"

definition summary_errors :: "json list \<Rightarrow> nat \<Rightarrow> string list" where
  "summary_errors summaries passed =
     (case summaries of
        [summary] \<Rightarrow> error_when (\<not> summary_matches summary passed) ''test summary does not match passing events''
      | _ \<Rightarrow> [''expected exactly one test summary''])"

definition count_errors :: "json list \<Rightarrow> json list \<Rightarrow> json list \<Rightarrow> string list" where
  "count_errors started passed failed =
     error_when (failed \<noteq> [] \<or> length started \<noteq> length passed) ''started, passed, or failed event count differs''"

definition named :: "json \<Rightarrow> bool" where
  "named v = (case v of JStr s \<Rightarrow> s \<noteq> [] | _ \<Rightarrow> False)"

definition identity_errors :: "path \<Rightarrow> json list \<Rightarrow> json list \<Rightarrow> string list" where
  "identity_errors p events names =
     error_when (list_ex (\<lambda>e. member_of ''test_file'' e \<noteq> JStr (path_text p)) events \<or> list_ex (\<lambda>n. \<not> named n) names)
       ''test identity differs from selected source file''"

definition name_errors :: "json list \<Rightarrow> json list \<Rightarrow> string list res" where
  "name_errors started names =
     bindE (orE (notE (distinctE names)) (bindE (hashE started) (\<lambda>s. Inr (\<not> jset_eq s names)))) (\<lambda>b.
     Inr (error_when b ''test names are duplicated or incomplete''))"

record unit_result =
  unit_file :: path
  unit_output :: string
  unit_stderr :: string
  unit_names :: "json list"
  unit_error :: string

definition run_file :: "units \<Rightarrow> nat \<Rightarrow> path \<Rightarrow> unit_result res" where
  "run_file u timeout p =
     (case unit_process u (unit_environment u p) of
        TimedOut out err \<Rightarrow> Inr \<lparr>unit_file = p, unit_output = out, unit_stderr = err, unit_names = [],
          unit_error = ''timed out after '' @ show_nat timeout @ ''s''\<rparr>
      | Finished r \<Rightarrow>
          bindE (read_events (splitlines (proc_out r)) []) (\<lambda>(errors, events).
          (let started = of_type ''test_started'' events; passed = of_type ''test_passed'' events;
               failed = of_type ''test_failed'' events; summaries = of_type ''test_summary'' events;
               names = map (member_of ''name'') passed in
           bindE (name_errors (map (member_of ''name'') started) names) (\<lambda>last_errors.
           Inr \<lparr>unit_file = p, unit_output = proc_out r, unit_stderr = proc_err r, unit_names = names,
             unit_error = join ''; '' (errors @ exit_errors (returncode r) @ summary_errors summaries (length passed) @
               count_errors started passed failed @ identity_errors p (started @ passed @ failed) names @ last_errors)\<rparr>))))"

section \<open>All files\<close>

text \<open>\<open>future.result()\<close>: an exception becomes a result with its text.\<close>

fun exception_text :: "pyerr \<Rightarrow> string" where
  "exception_text (ValueError m) = m"
| "exception_text e = ''unhashable type or failed operation''"

definition unit_outcome :: "units \<Rightarrow> nat \<Rightarrow> path \<Rightarrow> unit_result" where
  "unit_outcome u timeout p = (case run_file u timeout p of
      Inr r \<Rightarrow> r
    | Inl e \<Rightarrow> \<lparr>unit_file = p, unit_output = [], unit_stderr = [], unit_names = [], unit_error = exception_text e\<rparr>)"

definition failure_lines :: "unit_result list \<Rightarrow> string list" where
  "failure_lines results =
     concat (map (\<lambda>r. (if unit_stderr r = [] then [] else [unit_stderr r]) @
       (if unit_error r = [] then [] else [''FAIL '' @ path_text (unit_file r) @ '': '' @ unit_error r])) results)"

text \<open>The exit status, the lines on the error stream and the last line of the output.\<close>

definition units_verdict :: "nat \<Rightarrow> unit_result list \<Rightarrow> (int \<times> string list \<times> string) res" where
  "units_verdict files results =
     (let names = concat (map unit_names results); counted = show_nat files @ '' files, '' @ show_nat (length names) in
      bindE (distinctE names) (\<lambda>d.
      if \<not> d then Inr (1, failure_lines results @ [''FAIL duplicate test names across source files''], [])
      else if list_ex (\<lambda>r. unit_error r \<noteq> []) results
      then Inr (1, failure_lines results @ [''FAIL compiler units: '' @ counted @ '' passing tests''], [])
      else Inr (0, failure_lines results, ''PASS compiler units: '' @ counted @ '' tests'')))"

definition units_main :: "units \<Rightarrow> fs \<Rightarrow> path \<Rightarrow> path \<Rightarrow> path \<Rightarrow> int \<Rightarrow> int \<Rightarrow> (int \<times> string list \<times> string) res" where
  "units_main u f given_root given_binary scratch jobs timeout =
     bindE (resolveE f given_root) (\<lambda>repo. bindE (resolveE f given_binary) (\<lambda>binary.
     if jobs < 1 \<or> jobs > 8 \<or> timeout < 1 then Inl (SystemExit ''jobs must be 1..8 and timeout-seconds must be positive'')
     else bindE (test_files f repo) (\<lambda>files.
       if files = [] \<or> \<not> is_file f binary \<or> \<not> unit_executable u binary
       then Inl (SystemExit ''compiler test files or compiled test executable are missing'')
       else if \<not> is_dir f scratch then Inl (SystemExit ''scratch directory does not exist'')
       else units_verdict (length files) (map (unit_outcome u (nat timeout)) (unit_completion u files)))))"

section \<open>What a passing run shows\<close>

lemma error_when_Nil [simp]: "error_when c m = [] \<longleftrightarrow> \<not> c"
  by (simp add: error_when_def)

lemma join_Nil: "[] \<notin> set ws \<Longrightarrow> join sep ws = [] \<longleftrightarrow> ws = []"
  by (cases ws; cases "tl ws") auto

text \<open>Every message of the tool has a text, so an empty error text means that no check failed.\<close>

lemma messages: "[] \<notin> set (error_when c m)" if "m \<noteq> []"
  using that by (simp add: error_when_def)

lemma read_events_errors: "read_events lines events = Inr (errors, events') \<Longrightarrow> errors = [] \<or> errors = [''malformed test event'']"
  by (induction lines events rule: read_events.induct) (auto split: sum.splits if_splits)

text \<open>The account of the tests a process must give.\<close>

definition accounts :: "path \<Rightarrow> completed \<Rightarrow> json list \<Rightarrow> json list \<Rightarrow> bool" where
  "accounts p r events names \<longleftrightarrow>
     returncode r = 0 \<and> read_events (splitlines (proc_out r)) [] = Inr ([], events) \<and>
     names = map (member_of ''name'') (of_type ''test_passed'' events) \<and>
     of_type ''test_failed'' events = [] \<and> length (of_type ''test_started'' events) = length names \<and>
     list_all named names \<and> jdistinct names \<and>
     jset_eq (map (member_of ''name'') (of_type ''test_started'' events)) names \<and>
     (\<forall>e \<in> set (of_type ''test_started'' events @ of_type ''test_passed'' events). member_of ''test_file'' e = JStr (path_text p)) \<and>
     (\<exists>summary. of_type ''test_summary'' events = [summary] \<and> as_int (member_of ''total'' summary) = Some (int (length names)) \<and>
        jeq (member_of ''failed'' summary) (JInt 0) \<and> 0 < length names)"

lemma summary_errors_Nil:
  "summary_errors summaries n = [] \<longleftrightarrow> (\<exists>summary. summaries = [summary] \<and> as_int (member_of ''total'' summary) = Some (int n) \<and>
     jeq (member_of ''failed'' summary) (JInt 0) \<and> 0 < n)"
  by (auto simp: summary_errors_def summary_matches_def split: list.splits option.splits)

lemma name_errors_Nil:
  "name_errors started names = Inr [] \<longleftrightarrow> list_all hashable names \<and> jdistinct names \<and> list_all hashable started \<and> jset_eq started names"
  by (cases "jdistinct names") (auto simp: name_errors_def distinctE_def hashE_def bindE_Inr_iff split: if_splits)

lemma name_errors_messages: "name_errors started names = Inr es \<Longrightarrow> [] \<notin> set es"
  by (auto simp: name_errors_def error_when_def bindE_Inr_iff split: if_splits)

lemma run_file_accounts:
  assumes "run_file u timeout p = Inr res" "unit_error res = []"
  shows "\<exists>r events. unit_process u (unit_environment u p) = Finished r \<and> accounts p r events (unit_names res)"
proof (cases "unit_process u (unit_environment u p)")
  case (TimedOut out err)
  with assms show ?thesis by (auto simp: run_file_def)
next
  case (Finished r)
  with assms(1) obtain errors events es where e: "read_events (splitlines (proc_out r)) [] = Inr (errors, events)"
      "name_errors (map (member_of ''name'') (of_type ''test_started'' events)) (map (member_of ''name'') (of_type ''test_passed'' events)) = Inr es"
      "unit_names res = map (member_of ''name'') (of_type ''test_passed'' events)"
      "unit_error res = join ''; '' (errors @ exit_errors (returncode r) @ summary_errors (of_type ''test_summary'' events) (length (of_type ''test_passed'' events)) @
         count_errors (of_type ''test_started'' events) (of_type ''test_passed'' events) (of_type ''test_failed'' events) @
         identity_errors p (of_type ''test_started'' events @ of_type ''test_passed'' events @ of_type ''test_failed'' events)
           (map (member_of ''name'') (of_type ''test_passed'' events)) @ es)"
    by (auto simp: run_file_def bindE_Inr_iff Let_def)
  have "[] \<notin> set errors" using read_events_errors [OF e(1)] by auto
  moreover have "[] \<notin> set (summary_errors x n)" for x n by (auto simp: summary_errors_def error_when_def split: list.splits)
  moreover note name_errors_messages [OF e(2)]
  ultimately have none: "errors = []" "exit_errors (returncode r) = []"
      "summary_errors (of_type ''test_summary'' events) (length (of_type ''test_passed'' events)) = []"
      "count_errors (of_type ''test_started'' events) (of_type ''test_passed'' events) (of_type ''test_failed'' events) = []"
      "identity_errors p (of_type ''test_started'' events @ of_type ''test_passed'' events @ of_type ''test_failed'' events)
           (map (member_of ''name'') (of_type ''test_passed'' events)) = []" "es = []"
    using assms(2) unfolding e(4)
    by (subst (asm) join_Nil; simp add: exit_errors_def count_errors_def identity_errors_def messages)+
  have "accounts p r events (unit_names res)"
    using none e(1,2,3) name_errors_Nil [THEN iffD1, OF e(2) [unfolded none(6)]] unfolding summary_errors_Nil
    by (auto simp: accounts_def exit_errors_def count_errors_def identity_errors_def list_ex_iff list_all_iff)
  with Finished show ?thesis by blast
qed

lemma read_events_raises: "read_events lines events = Inl e \<Longrightarrow> \<not> is_ValueError e"
  by (induction lines events rule: read_events.induct) (auto split: sum.splits if_splits)

lemma run_file_raises: "run_file u timeout p = Inl e \<Longrightarrow> \<not> is_ValueError e"
  by (auto simp: run_file_def bindE_Inl_iff Let_def name_errors_def distinctE_def hashE_def notE_def orE_def split: unit_run.splits if_splits
      dest: read_events_raises)

lemma unit_outcome_accounts:
  assumes "unit_error (unit_outcome u timeout p) = []"
  shows "\<exists>r events. unit_process u (unit_environment u p) = Finished r \<and> accounts p r events (unit_names (unit_outcome u timeout p))"
proof (cases "run_file u timeout p")
  case (Inl e)
  then have "exception_text e \<noteq> []" using run_file_raises [OF Inl] by (cases e rule: exception_text.cases) simp_all
  with assms Inl show ?thesis by (simp add: unit_outcome_def)
next
  case (Inr res)
  with assms run_file_accounts [OF Inr] show ?thesis by (simp add: unit_outcome_def)
qed

lemma test_files_found:
  assumes "test_files f repo = Inr files" "no_links f" "list_all plain_name repo" "list_all plain_name q" "q \<noteq> []"
    "look f (repo @ [''compiler'', ''src''] @ q) = Some (NFile s m)" "suffix_is ''_test.trb'' q"
  shows "repo @ [''compiler'', ''src''] @ q \<in> set files"
proof -
  let ?s = "repo @ [''compiler'', ''src'']"
  have plain: "list_all plain_name ?s" "list_all plain_name (?s @ q)" using assms(3,4) by (simp_all add: plain_name_def)
  from assms(1) obtain paths keyed where t: "mapE (\<lambda>p. resolveE f (?s @ p)) (filter (\<lambda>p. suffix_is ''_test.trb'' p \<and> is_file f (?s @ p)) (rglob f ?s)) = Inr paths"
      "mapE (\<lambda>p. bindE (relative_name repo p) (\<lambda>n. Inr (unit_priority n, p))) paths = Inr keyed" "files = map snd (sort_key fst (sort_key snd keyed))"
    by (auto simp: test_files_def Let_def bindE_Inr_iff)
  have "q \<in> set (filter (\<lambda>p. suffix_is ''_test.trb'' p \<and> is_file f (?s @ p)) (rglob f ?s))"
    using assms(5-7) rglob_plain_iff [OF assms(2) plain(1), of q] stat_plain [OF assms(2) plain(2)] by (simp add: is_file_def)
  then obtain p where p: "p \<in> set paths" "resolveE f (?s @ q) = Inr p"
    using mapE_each [OF t(1)] by blast
  then have "p = ?s @ q" using real_path_plain [OF assms(2) plain(2)] by (simp add: resolveE_def)
  moreover obtain row where row: "row \<in> set keyed" "bindE (relative_name repo p) (\<lambda>n. Inr (unit_priority n, p)) = Inr row"
    using mapE_each [OF t(2) p(1)] by blast
  then have "snd row = p" by (auto simp: bindE_Inr_iff)
  ultimately show ?thesis using row(1) by (force simp: t(3))
qed

text \<open>C39. When the run exits with zero, every test file of the compiler's source tree has run in a process of its own that
  ended with zero and accounted for all of its tests: a summary with the number of passing tests, no failure, each test started
  and passed under one distinct name and for this file; and no name occurs in two files.\<close>

theorem passing_run_complete:
  assumes "units_main u f repo binary scratch jobs timeout = Inr (0, errors, verdict)" "\<forall>ps. mset (unit_completion u ps) = mset ps"
    "no_links f" "list_all plain_name repo"
  shows "(\<forall>q s m. look f (repo @ [''compiler'', ''src''] @ q) = Some (NFile s m) \<longrightarrow> q \<noteq> [] \<longrightarrow> list_all plain_name q \<longrightarrow> suffix_is ''_test.trb'' q \<longrightarrow>
      (\<exists>r events. unit_process u (unit_environment u (repo @ [''compiler'', ''src''] @ q)) = Finished r \<and>
         accounts (repo @ [''compiler'', ''src''] @ q) r events (unit_names (unit_outcome u (nat timeout) (repo @ [''compiler'', ''src''] @ q))))) \<and>
    (\<exists>files. test_files f repo = Inr files \<and> files \<noteq> [] \<and>
       jdistinct (concat (map (\<lambda>p. unit_names (unit_outcome u (nat timeout) p)) (unit_completion u files))))"
proof -
  have "resolveE f repo = Inr repo" by (simp add: resolveE_def real_path_plain [OF assms(3,4)])
  with assms(1) obtain files where files: "test_files f repo = Inr files" "files \<noteq> []"
      and v: "units_verdict (length files) (map (unit_outcome u (nat timeout)) (unit_completion u files)) = Inr (0, errors, verdict)"
    by (auto simp: units_main_def bindE_Inr_iff split: if_splits)
  from v have ok: "\<forall>p \<in> set (unit_completion u files). unit_error (unit_outcome u (nat timeout) p) = []"
      "jdistinct (concat (map (\<lambda>p. unit_names (unit_outcome u (nat timeout) p)) (unit_completion u files)))"
    by (auto simp: units_verdict_def Let_def bindE_Inr_iff distinctE_def hashE_def list_ex_iff comp_def split: if_splits)
  have "set (unit_completion u files) = set files" using assms(2) by (metis set_mset_mset)
  with ok files test_files_found [OF files(1) assms(3,4)] unit_outcome_accounts [of u "nat timeout"] show ?thesis by simp
qed

section \<open>A run\<close>

definition demo_unit_output :: string where
  "demo_unit_output = join [NL]
     [''ordinary output'',
      ''{'' @ dumps_str True ''type'' @ '':'' @ dumps_str True ''test_started'' @ '','' @ dumps_str True ''name'' @ '':'' @ dumps_str True ''t'' @ '','' @
        dumps_str True ''test_file'' @ '':'' @ dumps_str True ''/r/compiler/src/a_test.trb'' @ ''}'',
      ''{'' @ dumps_str True ''type'' @ '':'' @ dumps_str True ''test_passed'' @ '','' @ dumps_str True ''name'' @ '':'' @ dumps_str True ''t'' @ '','' @
        dumps_str True ''test_file'' @ '':'' @ dumps_str True ''/r/compiler/src/a_test.trb'' @ ''}'',
      ''{'' @ dumps_str True ''type'' @ '':'' @ dumps_str True ''test_summary'' @ '','' @ dumps_str True ''total'' @ '':1,'' @
        dumps_str True ''failed'' @ '':0}'']"

definition demo_units :: units where
  "demo_units = \<lparr>unit_process = (\<lambda>env. Finished \<lparr>returncode = 0, proc_out = demo_unit_output, proc_err = []\<rparr>),
     unit_environ = [], unit_temporary = (\<lambda>p. ''/tmp/x''), unit_executable = (\<lambda>p. True), unit_completion = rev\<rparr>"

definition demo_unit_tree :: fs where
  "demo_unit_tree = [([''r''], NDir), ([''r'', ''compiler''], NDir), ([''r'', ''compiler'', ''src''], NDir),
     ([''r'', ''compiler'', ''src'', ''a_test.trb''], NFile [] 420), ([''bin''], NFile [] 493)]"

lemma demo_unit_main: "case units_main demo_units demo_unit_tree [''r''] [''bin''] [''r''] 2 1200 of Inr (code, errors, verdict) \<Rightarrow> code = 0 \<and> errors = [] | Inl e \<Rightarrow> False"
  by code_simp

lemma demo_unit_links: "no_links demo_unit_tree"
  by (simp add: no_links_def look_def demo_unit_tree_def)

lemma passing_run_complete_witness:
  "\<exists>r events. unit_process demo_units (unit_environment demo_units [''r'', ''compiler'', ''src'', ''a_test.trb'']) = Finished r \<and>
     accounts [''r'', ''compiler'', ''src'', ''a_test.trb''] r events
       (unit_names (unit_outcome demo_units 1200 [''r'', ''compiler'', ''src'', ''a_test.trb'']))"
proof -
  from demo_unit_main obtain v where m: "units_main demo_units demo_unit_tree [''r''] [''bin''] [''r''] 2 1200 = Inr (0, [], v)"
    by (auto split: sum.splits)
  have "\<forall>ps. mset (unit_completion demo_units ps) = mset ps" by (simp add: demo_units_def)
  moreover have "list_all plain_name [''r'']" "list_all plain_name [''a_test.trb'']" "suffix_is ''_test.trb'' [''a_test.trb'']"
    "look demo_unit_tree ([''r''] @ [''compiler'', ''src''] @ [''a_test.trb'']) = Some (NFile [] 420)" by (code_simp, code_simp, code_simp, code_simp)
  ultimately show ?thesis
    using passing_run_complete [OF m _ demo_unit_links, THEN conjunct1, rule_format, of "[''a_test.trb'']" "[]" 420] by simp
qed

end
