(* ===== verification/ProjectScenarios.thy ===== *)
theory ProjectScenarios
  imports PyJsonText PyNum PyProc PyRegex
begin

text \<open>
  \<open>tools/project-scenarios.py\<close>: the frozen project scenarios are replayed with the reference or the
  native compiler and compared with the recorded outcomes. Copying the fixtures and running the compiler
  (\<open>replay\<close>, which gives the observed steps of a scenario) and SHA-256 are parameters.
\<close>

text \<open>An observed step: \<open>step_code\<close> is \<open>None\<close> after a timeout.\<close>

record step_result =
  step_args :: "string list"
  step_code :: "int option"
  step_stdout :: string
  step_stderr :: string

text \<open>A process gets the files, its directory, its environment and its arguments (the binary first); its code is
  \<open>None\<close> when the time is over.\<close>

type_synonym step_process = "fs \<Rightarrow> path \<Rightarrow> (string \<times> string) list \<Rightarrow> string list \<Rightarrow> fs \<times> int option \<times> string \<times> string"

record replayer =
  scenario_sha :: "string \<Rightarrow> string"
  scenario_process :: step_process
  scenario_decode :: "string \<Rightarrow> string"
  scenario_environ :: "(string \<times> string) list"
  scenario_temporary :: path
  scenario_home :: string

section \<open>Constants\<close>

definition EXECUTION :: "string list" where "EXECUTION = [''run'', ''build'', ''test'']"

definition EXPECTATIONS :: "string list" where
  "EXPECTATIONS = [''match-reference'', ''match-reference-check'', ''match-reference-status'', ''triage'']"

definition digits_rx :: rx where "digits_rx = rplus (Cls digit_cls)"

definition GO_EXIT_STATUS :: rx where "GO_EXIT_STATUS = seqs [Bot, lit ''exit status '', digits_rx, Eot]"

definition TEST_STATUS :: rx where
  "TEST_STATUS = alts [seqs [Bot, alts [lit ''PASS'', lit ''FAIL''], chr (CHR '' '')],
     seqs [Bot, digits_rx, lit '' test(s), '', digits_rx, lit '' failure(s)'', Eot]]"

definition UNSUPPORTED :: rx where
  "UNSUPPORTED = alts [lit ''unknown command'', lit ''is not implemented'', lit ''unsupported project configuration field'',
     lit ''is not available for mode'']"

section \<open>The manifests\<close>

definition scenario_manifests :: path where "scenario_manifests = [''fixtures'', ''projects'']"

definition manifest_paths :: "fs \<Rightarrow> path \<Rightarrow> path list \<Rightarrow> bool \<Rightarrow> path list res" where
  "manifest_paths f repo selected current_reference =
     (let manifests = repo @ scenario_manifests;
          paths = (if selected \<noteq> [] then selected
            else map (\<lambda>n. manifests @ [n]) (filter (\<lambda>n. startswith n ''m'' \<and> endswith n ''-manifest.json'' \<and> 15 \<le> length n) (iterdir f manifests)))
      in if \<not> current_reference then Inr paths
         else bindE (resolveE f (manifests @ [''m2-manifest.json''])) (\<lambda>historical.
           mapE (\<lambda>p. bindE (resolveE f p) (\<lambda>q. Inr (if q = historical then manifests @ [''reference-test-manifest.json''] else p))) paths))"

definition check_pin :: "replayer \<Rightarrow> fs \<Rightarrow> path \<Rightarrow> json \<Rightarrow> unit res" where
  "check_pin w f repo manifest =
     bindE (orE
       (bindE (item manifest ''typeRBRevision'') (\<lambda>v. bindE (read_bytes f (repo @ [''TYPE_RB_REVISION''])) (\<lambda>s. Inr (\<not> jeq v (JStr (strip s))))))
       (bindE (item manifest ''historicalManifestSha256'') (\<lambda>v. bindE (read_bytes f (repo @ scenario_manifests @ [''m2-manifest.json''])) (\<lambda>s.
         Inr (\<not> jeq v (JStr (scenario_sha w s))))))) (\<lambda>stale.
     if stale then Inl (ValueError ''current reference test scenarios require a reviewed pin replay'') else Inr ())"

definition check_expectation :: "json \<Rightarrow> unit res" where
  "check_expectation scenario =
     bindE (item scenario ''expectation'') (\<lambda>e.
     if \<not> hashable e then Inl TypeError
     else if \<not> jmem e (map JStr EXPECTATIONS) then bindE (item scenario ''id'') (\<lambda>_. Inl (ValueError ''unknown expectation''))
     else Inr ())"

definition load_manifest :: "replayer \<Rightarrow> fs \<Rightarrow> path \<Rightarrow> path \<Rightarrow> (path \<times> json) res" where
  "load_manifest w f repo p =
     bindE (bindE (read_bytes f p) loads) (\<lambda>manifest.
     bindE (if path_name p = ''reference-test-manifest.json'' then check_pin w f repo manifest else Inr ()) (\<lambda>_.
     bindE (bindE (item manifest ''scenarios'') iterE) (\<lambda>scenarios.
     bindE (forE check_expectation scenarios) (\<lambda>_. Inr (p, manifest)))))"

definition load_scenarios :: "replayer \<Rightarrow> fs \<Rightarrow> path \<Rightarrow> path list \<Rightarrow> bool \<Rightarrow> (path \<times> json) list res" where
  "load_scenarios w f repo selected current_reference =
     bindE (manifest_paths f repo selected current_reference) (mapE (load_manifest w f repo))"

section \<open>Replaying a scenario\<close>

definition isolated_environment :: "replayer \<Rightarrow> (string \<times> string) list" where
  "isolated_environment w =
     [(''PATH'', case map_of (scenario_environ w) ''PATH'' of None \<Rightarrow> ''/usr/bin:/bin'' | Some v \<Rightarrow> v),
      (''HOME'', scenario_home w), (''TMPDIR'', scenario_home w)] @
     concat (map (\<lambda>n. case map_of (scenario_environ w) n of None \<Rightarrow> [] | Some v \<Rightarrow> [(n, v)])
       [''GOCACHE'', ''GOMODCACHE'', ''GOFLAGS'', ''GOTOOLCHAIN'', ''GOROOT''])"

text \<open>\<open>str(p)\<close> of an absolute path.\<close>

definition absolute_text :: "path \<Rightarrow> string" where
  "absolute_text p = CHR ''/'' # join ''/'' p"

definition normalized :: "replayer \<Rightarrow> path \<Rightarrow> path \<Rightarrow> string \<Rightarrow> string" where
  "normalized w resolved given data =
     replace_str (absolute_text given) ''<fixture>'' (replace_str (absolute_text resolved) ''<fixture>'' (scenario_decode w data))"

definition run_step :: "replayer \<Rightarrow> path \<Rightarrow> path \<Rightarrow> string \<Rightarrow> string list \<Rightarrow> fs \<Rightarrow> (fs \<times> step_result) res" where
  "run_step w binary place cwd args f =
     (let (f', code, out, err) = scenario_process w f (joinp place cwd) (isolated_environment w) (absolute_text binary # args) in
      bindE (resolveE f' place) (\<lambda>resolved.
      Inr (f', \<lparr>step_args = args, step_code = code, step_stdout = normalized w resolved place out, step_stderr = normalized w resolved place err\<rparr>)))"

definition mode_rx :: rx where
  "mode_rx = seqs [Grp 1 (seqs [chr DQ, lit ''mode'', chr DQ, Star (Cls space_cls), chr (CHR '':''), Star (Cls space_cls)]),
     chr DQ, Star (NCls (one_cls DQ)), chr DQ]"

definition trb_mode :: "string \<Rightarrow> string" where
  "trb_mode = sub_first mode_rx (\<lambda>whole gs. (case grp 1 gs of None \<Rightarrow> [] | Some g \<Rightarrow> g) @ DQ # ''trb'' @ [DQ])"

definition with_trb_mode :: "path \<Rightarrow> string \<Rightarrow> fs \<Rightarrow> fs res" where
  "with_trb_mode place cwd f =
     (let config = joinp place cwd @ [''trbconfig.jsonc''] in
      if is_file f config then bindE (read_bytes f config) (\<lambda>s. write_bytes f config (trb_mode (universal_newlines s))) else Inr f)"

text \<open>\<open>shutil.copytree\<close>: links are followed; a chain of linked directories that does not end is an error of the
  operating system, here after the given number of levels.\<close>

fun copy_tree :: "nat \<Rightarrow> path \<Rightarrow> path \<Rightarrow> fs \<Rightarrow> fs res" where
  "copy_tree 0 src dst f = Inl (OSError ''file name too long'')"
| "copy_tree (Suc n) src dst f =
     (if \<not> is_dir f src then Inl (OSError (path_name src))
      else bindE (mkdir_p f (butlast dst)) (\<lambda>f1. bindE (mkdir_new f1 dst) (\<lambda>f2.
        foldE (\<lambda>g name. if is_dir g (src @ [name]) then copy_tree n (src @ [name]) (dst @ [name]) g
          else copy2 g (src @ [name]) (dst @ [name])) f2 (iterdir f src))))"

definition COPY_DEPTH :: nat where "COPY_DEPTH = 64"

text \<open>A member that is a text; the scenarios' directories, identifiers and arguments are texts.\<close>

definition text_member :: "json \<Rightarrow> string \<Rightarrow> string res" where
  "text_member v key = bindE (item v key) (\<lambda>m. case m of JStr s \<Rightarrow> Inr s | _ \<Rightarrow> Inl TypeError)"

definition text_args :: "json \<Rightarrow> string list res" where
  "text_args v = bindE (iterE v) (mapE (\<lambda>a. case a of JStr s \<Rightarrow> Inr s | _ \<Rightarrow> Inl TypeError))"

text \<open>The steps, until one does not end with zero.\<close>

fun replay_steps :: "replayer \<Rightarrow> path \<Rightarrow> bool \<Rightarrow> path \<Rightarrow> path \<Rightarrow> string \<Rightarrow> string list list \<Rightarrow> fs \<Rightarrow> step_result list res" where
  "replay_steps w binary native written substituted cwd [] f = Inr []"
| "replay_steps w binary native written substituted cwd (args # rest) f =
     (if args = [] then Inl IndexError
      else bindE (if native \<and> hd args = ''install''
          then bindE (run_step w binary written cwd args f) (\<lambda>(f1, result).
            bindE (run_step w binary substituted cwd args f1) (\<lambda>(f2, again). Inr (f2, result)))
          else run_step w binary (if native \<and> hd args \<in> set EXECUTION then substituted else written) cwd args f) (\<lambda>(f', result).
        if step_code result \<noteq> Some 0 then Inr [result]
        else bindE (replay_steps w binary native written substituted cwd rest f') (\<lambda>results. Inr (result # results))))"

definition replay :: "replayer \<Rightarrow> fs \<Rightarrow> path \<Rightarrow> path \<Rightarrow> bool \<Rightarrow> json \<Rightarrow> step_result list res" where
  "replay w f repo binary native scenario =
     bindE (text_member scenario ''fixture'') (\<lambda>fixture. bindE (mkdir_new f (scenario_temporary w)) (\<lambda>f0.
     bindE (text_member scenario ''id'') (\<lambda>ident.
     (let written = joinp (scenario_temporary w @ [''written'']) ident; substituted = joinp (scenario_temporary w @ [''trb'']) ident in
      bindE (copy_tree COPY_DEPTH (joinp repo fixture) written f0) (\<lambda>f1.
      bindE (copy_tree COPY_DEPTH (joinp repo fixture) substituted f1) (\<lambda>f2.
      bindE (text_member scenario ''cwd'') (\<lambda>cwd. bindE (with_trb_mode substituted cwd f2) (\<lambda>f3.
      bindE (bindE (bindE (item scenario ''steps'') iterE) (mapE text_args)) (\<lambda>steps.
      replay_steps w binary native written substituted cwd steps f3)))))))))"

section \<open>Comparing with the recorded outcomes\<close>

definition status_lines :: "string \<Rightarrow> string list" where
  "status_lines s = filter (\<lambda>l. search TEST_STATUS l \<noteq> None) (splitlines s)"

definition without_go_exit :: "string \<Rightarrow> string" where
  "without_go_exit s = join [NL] (filter (\<lambda>l. match_at GO_EXIT_STATUS (start_pos l) = None) (splitlines s))"

text \<open>A text method on a value of the manifest.\<close>

definition on_text :: "(string \<Rightarrow> 'a) \<Rightarrow> json \<Rightarrow> 'a res" where
  "on_text h v = (case v of JStr s \<Rightarrow> Inr (h s) | _ \<Rightarrow> Inl AttributeError)"

definition code_json :: "int option \<Rightarrow> json" where
  "code_json c = (case c of None \<Rightarrow> JNull | Some n \<Rightarrow> JInt n)"

definition same_output :: "string \<Rightarrow> string \<Rightarrow> json \<Rightarrow> step_result \<Rightarrow> bool res" where
  "same_output expectation command expected actual =
     (if command = ''test'' then bindE (item expected ''stdout'') (\<lambda>v.
        if expectation = ''match-reference-status'' then bindE (on_text status_lines v) (\<lambda>ls. Inr (ls = status_lines (step_stdout actual)))
        else bindE (on_text without_go_exit v) (\<lambda>s. Inr (s = without_go_exit (step_stdout actual))))
      else andE (bindE (item expected ''code'') (\<lambda>c. Inr (jeq c (code_json (step_code actual)))))
        (bindE (item expected ''stdout'') (\<lambda>v. Inr (jeq v (JStr (step_stdout actual))))))"

definition step_label :: "nat \<Rightarrow> string \<Rightarrow> string" where
  "step_label k command = ''step '' @ show_nat (Suc k) @ '' ('' @ command @ '')''"

text \<open>\<open>expected["args"][0]\<close>; the commands of the manifests are texts.\<close>

definition step_command :: "json \<Rightarrow> string res" where
  "step_command expected =
     bindE (item expected ''args'') (\<lambda>v. (case v of
        JList (JStr c # rest) \<Rightarrow> Inr c
      | JList [] \<Rightarrow> Inl IndexError
      | _ \<Rightarrow> Inl TypeError))"

definition step_mismatches :: "string \<Rightarrow> nat \<Rightarrow> string \<Rightarrow> json \<Rightarrow> step_result \<Rightarrow> string list res" where
  "step_mismatches expectation k command expected actual =
     bindE (item expected ''code'') (\<lambda>code.
     if jeq code (JInt 0) \<noteq> (step_code actual = Some 0)
     then Inr [step_label k command @ '' exit differs from the reference'']
     else if step_code actual \<noteq> Some 0 \<and> search UNSUPPORTED (step_stderr actual) \<noteq> None
     then Inr [step_label k command @ '' rejected for missing support: '' @ take 120 (hd (splitlines (strip (step_stderr actual))))]
     else if command \<notin> set EXECUTION then Inr []
     else bindE (same_output expectation command expected actual) (\<lambda>same.
       Inr (if same then [] else [step_label k command @ '' output differs''])))"

text \<open>The loop over the reference steps; a step that was not reached ends it.\<close>

fun compare_steps :: "string \<Rightarrow> step_result list \<Rightarrow> nat \<Rightarrow> json list \<Rightarrow> string list res" where
  "compare_steps expectation observed k [] = Inr []"
| "compare_steps expectation observed k (expected # rest) =
     bindE (step_command expected) (\<lambda>command.
     if expectation = ''match-reference-check'' \<and> command \<noteq> ''check'' then compare_steps expectation observed (Suc k) rest
     else if length observed \<le> k then Inr [step_label k command @ '' was not reached'']
     else bindE (step_mismatches expectation k command expected (observed ! k)) (\<lambda>found.
       bindE (compare_steps expectation observed (Suc k) rest) (\<lambda>more. Inr (found @ more))))"

definition compare_native_steps :: "json \<Rightarrow> step_result list \<Rightarrow> (string \<times> string list) res" where
  "compare_native_steps scenario observed =
     bindE (item scenario ''expectation'') (\<lambda>e.
     if e = JStr ''triage'' then Inr (''triage'', [])
     else bindE (bindE (item scenario ''reference'') iterE) (\<lambda>reference.
       bindE (compare_steps (case e of JStr s \<Rightarrow> s | _ \<Rightarrow> []) observed 0 reference) (\<lambda>mismatches.
       Inr (if mismatches = [] then ''pass'' else ''fail'', mismatches))))"

section \<open>The report\<close>

definition step_json :: "step_result \<Rightarrow> json" where
  "step_json r = JDict [(''args'', JList (map JStr (step_args r))), (''code'', code_json (step_code r)),
     (''stdout'', JStr (step_stdout r)), (''stderr'', JStr (step_stderr r))]"

definition scenario_status :: "bool \<Rightarrow> json \<Rightarrow> step_result list \<Rightarrow> (string \<times> string list) res" where
  "scenario_status native scenario steps =
     (if native then compare_native_steps scenario steps
      else bindE (item scenario ''reference'') (\<lambda>reference.
        Inr (if jeq (JList (map step_json steps)) reference then (''pass'', [])
             else (''fail'', [''reference outcomes differ from the manifest'']))))"

definition scenario_entry :: "replayer \<Rightarrow> fs \<Rightarrow> path \<Rightarrow> path \<Rightarrow> bool \<Rightarrow> json \<Rightarrow> (string \<times> json) res" where
  "scenario_entry w f repo binary native scenario =
     bindE (replay w f repo binary native scenario) (\<lambda>steps.
     bindE (scenario_status native scenario steps) (\<lambda>(status, mismatches).
     bindE (item scenario ''id'') (\<lambda>ident. bindE (item scenario ''expectation'') (\<lambda>e.
     Inr (status, JDict [(''id'', ident), (''expectation'', e), (''status'', JStr status), (''mismatches'', JList (map JStr mismatches)),
       (''observed'', JList (map step_json steps))])))))"

definition chosen_scenarios :: "string option \<Rightarrow> json \<Rightarrow> json list res" where
  "chosen_scenarios wanted manifest =
     bindE (bindE (item manifest ''scenarios'') iterE) (filterE (\<lambda>s.
       (case wanted of None \<Rightarrow> Inr True | Some n \<Rightarrow> bindE (item s ''id'') (\<lambda>v. Inr (jeq v (JStr n))))))"

record manifest_report =
  report_milestone :: json
  report_revision :: json
  report_statuses :: "string list"
  report_failures :: "string list"
  report_scenarios :: "json list"

text \<open>The texts of a failure line.\<close>

definition plain_text :: "json \<Rightarrow> string" where
  "plain_text v = (case v of JStr s \<Rightarrow> s | _ \<Rightarrow> [])"

definition member_text :: "json \<Rightarrow> json" where
  "member_text entry = (case entry of JDict kvs \<Rightarrow> (case map_of kvs ''id'' of None \<Rightarrow> JNull | Some v \<Rightarrow> v) | _ \<Rightarrow> JNull)"

definition replay_manifest :: "replayer \<Rightarrow> fs \<Rightarrow> path \<Rightarrow> path \<Rightarrow> bool \<Rightarrow> string option \<Rightarrow> path \<times> json \<Rightarrow> manifest_report res" where
  "replay_manifest w f repo binary native wanted row =
     bindE (chosen_scenarios wanted (snd row)) (\<lambda>scenarios.
     bindE (mapE (scenario_entry w f repo binary native) scenarios) (\<lambda>entries.
     bindE (item (snd row) ''milestone'') (\<lambda>milestone. bindE (item (snd row) ''typeRBRevision'') (\<lambda>revision.
     Inr \<lparr>report_milestone = milestone, report_revision = revision, report_statuses = map fst entries,
       report_failures = map (\<lambda>s. plain_text milestone @ '':'' @ plain_text (member_text s)) (map snd (filter (\<lambda>e. fst e = ''fail'') entries)), report_scenarios = map snd entries\<rparr>))))"

definition manifest_json :: "manifest_report \<Rightarrow> json" where
  "manifest_json r = JDict [(''milestone'', report_milestone r), (''typeRBRevision'', report_revision r),
     (''passed'', JInt (int (length (filter (\<lambda>s. s = ''pass'') (report_statuses r))))), (''total'', JInt (int (length (report_statuses r)))),
     (''scenarios'', JList (report_scenarios r))]"

definition failures_of :: "manifest_report list \<Rightarrow> string list" where
  "failures_of reports = concat (map report_failures reports)"

definition scenarios_report :: "replayer \<Rightarrow> bool \<Rightarrow> string \<Rightarrow> manifest_report list \<Rightarrow> json" where
  "scenarios_report w native data reports =
     JDict [(''schemaVersion'', JInt 1), (''role'', JStr (if native then ''native'' else ''reference'')),
       (''compilerSha256'', JStr (scenario_sha w data)), (''manifests'', JList (map manifest_json reports)),
       (''failures'', JList (map JStr (failures_of reports)))]"

definition scenarios_main :: "replayer \<Rightarrow> fs \<Rightarrow> path \<Rightarrow> path \<Rightarrow> bool \<Rightarrow> path list \<Rightarrow> string option \<Rightarrow> bool \<Rightarrow> bool \<Rightarrow> (int \<times> json) res" where
  "scenarios_main w f repo binary native selected wanted current_reference required =
     (if current_reference \<and> native then Inl (SystemExit ''--current-reference is only for reference qualification'')
      else bindE (resolveE f binary) (\<lambda>compiler. bindE (read_bytes f compiler) (\<lambda>data.
        bindE (load_scenarios w f repo selected current_reference) (\<lambda>manifests.
        bindE (mapE (replay_manifest w f repo compiler native wanted) manifests) (\<lambda>reports.
        Inr (if failures_of reports \<noteq> [] \<and> (\<not> native \<or> required) then 1 else 0, scenarios_report w native data reports))))))"

section \<open>What a passing replay shows\<close>

text \<open>The agreement of one step with its record, under the expectation of the scenario.\<close>

definition step_agrees :: "string \<Rightarrow> step_result list \<Rightarrow> nat \<Rightarrow> json \<Rightarrow> bool" where
  "step_agrees expectation observed k expected \<longleftrightarrow>
     (\<exists>command code. step_command expected = Inr command \<and>
       (expectation = ''match-reference-check'' \<and> command \<noteq> ''check'' \<or>
        k < length observed \<and> item expected ''code'' = Inr code \<and>
        (jeq code (JInt 0) \<longleftrightarrow> step_code (observed ! k) = Some 0) \<and>
        (step_code (observed ! k) = Some 0 \<or> search UNSUPPORTED (step_stderr (observed ! k)) = None) \<and>
        (command \<in> set EXECUTION \<longrightarrow> same_output expectation command expected (observed ! k) = Inr True)))"

lemma step_mismatches_Nil:
  "step_mismatches expectation k command expected actual = Inr [] \<longleftrightarrow>
     (\<exists>code. item expected ''code'' = Inr code \<and> (jeq code (JInt 0) \<longleftrightarrow> step_code actual = Some 0) \<and>
       (step_code actual = Some 0 \<or> search UNSUPPORTED (step_stderr actual) = None) \<and>
       (command \<in> set EXECUTION \<longrightarrow> same_output expectation command expected actual = Inr True))"
  by (auto simp: step_mismatches_def bindE_Inr_iff split: if_splits)

lemma compare_steps_Nil:
  "compare_steps expectation observed k reference = Inr [] \<longleftrightarrow>
     (\<forall>i < length reference. step_agrees expectation observed (k + i) (reference ! i))"
proof (induction expectation observed k reference rule: compare_steps.induct)
  case (2 expectation observed k expected rest)
  have split: "(\<forall>i < length (expected # rest). step_agrees expectation observed (k + i) ((expected # rest) ! i)) \<longleftrightarrow>
      step_agrees expectation observed k expected \<and> (\<forall>i < length rest. step_agrees expectation observed (Suc k + i) (rest ! i))"
    by (simp add: All_less_Suc2)
  show ?case
  proof (cases "step_command expected")
    case (Inl e)
    then show ?thesis unfolding split by (simp add: step_agrees_def)
  next
    case (Inr command)
    show ?thesis
    proof (cases "expectation = ''match-reference-check'' \<and> command \<noteq> ''check''")
      case True
      then show ?thesis using 2(1) [OF Inr True] Inr unfolding split by (simp add: step_agrees_def)
    next
      case skip: False
      show ?thesis
      proof (cases "length observed \<le> k")
        case True
        then show ?thesis using skip Inr unfolding split by (auto simp: step_agrees_def)
      next
        case False
        have "step_agrees expectation observed k expected \<longleftrightarrow> step_mismatches expectation k command expected (observed ! k) = Inr []"
          using skip Inr False unfolding step_mismatches_Nil by (auto simp: step_agrees_def)
        then show ?thesis using 2(2) [OF Inr skip False] skip Inr False unfolding split by (auto simp: bindE_Inr_iff)
      qed
    qed
  qed
qed simp

definition expectation_of :: "json \<Rightarrow> string" where
  "expectation_of scenario = (case item scenario ''expectation'' of Inr (JStr s) \<Rightarrow> s | _ \<Rightarrow> [])"

definition scenario_agrees :: "json \<Rightarrow> step_result list \<Rightarrow> bool" where
  "scenario_agrees scenario observed \<longleftrightarrow>
     item scenario ''expectation'' = Inr (JStr ''triage'') \<or>
     (\<exists>reference. bindE (item scenario ''reference'') iterE = Inr reference \<and>
        (\<forall>k < length reference. step_agrees (expectation_of scenario) observed k (reference ! k)))"

lemma compare_native_steps_agrees:
  assumes "compare_native_steps scenario observed = Inr (status, mismatches)" "status \<noteq> ''fail''"
  shows "scenario_agrees scenario observed"
  using assms compare_steps_Nil [of "expectation_of scenario" observed 0]
  by (auto simp: compare_native_steps_def scenario_agrees_def expectation_of_def bindE_Inr_iff split: if_splits)

text \<open>C40. When a native replay that is required to pass exits with zero, every chosen scenario of every loaded manifest that is not
  marked for triage has been replayed, reached every step it compares, accepted exactly what the reference accepted,
  was not rejected for missing support, and in the steps that execute gave the recorded output.\<close>

theorem required_replay_agrees:
  assumes "scenarios_main w f repo binary True selected wanted False True = Inr (0, report)"
  shows "\<exists>manifests compiler. load_scenarios w f repo selected False = Inr manifests \<and> resolveE f binary = Inr compiler \<and>
     (\<forall>row \<in> set manifests. \<exists>scenarios. chosen_scenarios wanted (snd row) = Inr scenarios \<and>
       (\<forall>scenario \<in> set scenarios. \<exists>steps. replay w f repo compiler True scenario = Inr steps \<and> scenario_agrees scenario steps))"
proof -
  from assms obtain compiler manifests reports where m: "load_scenarios w f repo selected False = Inr manifests"
      "mapE (replay_manifest w f repo compiler True wanted) manifests = Inr reports" "failures_of reports = []" "resolveE f binary = Inr compiler"
    by (auto simp: scenarios_main_def bindE_Inr_iff split: if_splits)
  have "\<exists>scenarios. chosen_scenarios wanted (snd row) = Inr scenarios \<and>
      (\<forall>scenario \<in> set scenarios. \<exists>steps. replay w f repo compiler True scenario = Inr steps \<and> scenario_agrees scenario steps)"
    if row: "row \<in> set manifests" for row
  proof -
    obtain r where r: "replay_manifest w f repo compiler True wanted row = Inr r" "r \<in> set reports" using mapE_each [OF m(2) row] by blast
    then obtain scenarios entries where s: "chosen_scenarios wanted (snd row) = Inr scenarios" "mapE (scenario_entry w f repo compiler True) scenarios = Inr entries"
        "report_failures r = [] \<longleftrightarrow> filter (\<lambda>e. fst e = ''fail'') entries = []"
      by (auto simp: replay_manifest_def bindE_Inr_iff)
    have none: "\<forall>e \<in> set entries. fst e \<noteq> ''fail''"
      using m(3) r(2) s(3) by (auto simp: failures_of_def filter_empty_conv)
    have "\<exists>steps. replay w f repo compiler True scenario = Inr steps \<and> scenario_agrees scenario steps" if c: "scenario \<in> set scenarios" for scenario
    proof -
      obtain entry where e: "scenario_entry w f repo compiler True scenario = Inr entry" "entry \<in> set entries" using mapE_each [OF s(2) c] by blast
      then obtain steps status mismatches where "replay w f repo compiler True scenario = Inr steps"
          "compare_native_steps scenario steps = Inr (status, mismatches)" "fst entry = status"
        by (auto simp: scenario_entry_def scenario_status_def bindE_Inr_iff)
      with compare_native_steps_agrees none e(2) show ?thesis by blast
    qed
    with s(1) show ?thesis by blast
  qed
  with m(1,4) show ?thesis by blast
qed

section \<open>A replay\<close>

text \<open>A compiler whose \<open>check\<close> succeeds and whose \<open>run\<close> fails with an output.\<close>

definition demo_process :: step_process where
  "demo_process f cwd env args = (if args ! 1 = ''check'' then (f, Some 0, [], []) else (f, Some 1, ''o'', ''e''))"

definition demo_replayer :: replayer where
  "demo_replayer = \<lparr>scenario_sha = (\<lambda>s. ''00''), scenario_process = demo_process, scenario_decode = (\<lambda>s. s), scenario_environ = [],
     scenario_temporary = [''t''], scenario_home = ''/h''\<rparr>"

definition demo_manifest_text :: string where
  "demo_manifest_text =
     (let q = dumps_str True; pair = (\<lambda>k v. q k @ '':'' @ v);
          stp = (\<lambda>c n out. ''{'' @ join '','' [pair ''args'' (''['' @ q c @ '']''), pair ''code'' n, pair ''stdout'' (q out)] @ ''}'')
      in ''{'' @ join '','' [pair ''milestone'' (q ''m1''), pair ''typeRBRevision'' (q ''r''),
        pair ''scenarios'' (''[{'' @ join '','' [pair ''id'' (q ''s''), pair ''expectation'' (q ''match-reference''), pair ''fixture'' (q ''x''),
          pair ''cwd'' (q ''.''), pair ''steps'' (''[['' @ q ''check'' @ ''],['' @ q ''run'' @ '']]''),
          pair ''reference'' (''['' @ stp ''check'' ''0'' [] @ '','' @ stp ''run'' ''1'' ''o'' @ '']'')] @ ''}]'')] @ ''}'')"

definition demo_scenario_tree :: fs where
  "demo_scenario_tree = [([''r''], NDir), ([''r'', ''x''], NDir), ([''r'', ''x'', ''a.trb''], NFile [] 420), ([''r'', ''fixtures''], NDir), ([''r'', ''fixtures'', ''projects''], NDir),
     ([''r'', ''fixtures'', ''projects'', ''m1-manifest.json''], NFile demo_manifest_text 420), ([''bin''], NFile [] 493)]"

lemma demo_replay:
  "case scenarios_main demo_replayer demo_scenario_tree [''r''] [''bin''] True [] None False True of Inr (code, report) \<Rightarrow> code = 0 | Inl e \<Rightarrow> False"
  "case load_scenarios demo_replayer demo_scenario_tree [''r''] [] False of Inr ms \<Rightarrow> length ms = 1 | Inl e \<Rightarrow> False"
  "resolveE demo_scenario_tree [''bin''] = Inr [''bin'']"
  by (code_simp, code_simp, code_simp)

lemma required_replay_agrees_witness:
  "\<exists>row scenarios. load_scenarios demo_replayer demo_scenario_tree [''r''] [] False = Inr [row] \<and> chosen_scenarios None (snd row) = Inr scenarios \<and>
     (\<forall>scenario \<in> set scenarios. \<exists>steps. replay demo_replayer demo_scenario_tree [''r''] [''bin''] True scenario = Inr steps \<and> scenario_agrees scenario steps)"
proof -
  from demo_replay(1) obtain report where "scenarios_main demo_replayer demo_scenario_tree [''r''] [''bin''] True [] None False True = Inr (0, report)"
    by (auto split: sum.splits)
  from required_replay_agrees [OF this] demo_replay(3) obtain ms where ms: "load_scenarios demo_replayer demo_scenario_tree [''r''] [] False = Inr ms"
      "\<forall>row \<in> set ms. \<exists>scenarios. chosen_scenarios None (snd row) = Inr scenarios \<and>
        (\<forall>scenario \<in> set scenarios. \<exists>steps. replay demo_replayer demo_scenario_tree [''r''] [''bin''] True scenario = Inr steps \<and> scenario_agrees scenario steps)"
    by auto
  moreover from demo_replay(2) ms(1) obtain row where "ms = [row]" by (auto simp: length_Suc_conv)
  ultimately show ?thesis by auto
qed

end
