(* ===== verification/CumulativeQualify.thy ===== *)
theory CumulativeQualify
  imports RepresentativeState
begin

text \<open>
  \<open>tools/cumulative-performance/qualify.py\<close>: the exact sources of one registered performance cohort are
  selected, and its snapshot and raw observations are assessed against that selection. Git, SHA-256 and the
  UTF-8 codec are parameters; message texts are shortened.
\<close>

record qualifier =
  qualify_git :: "string list \<Rightarrow> string res"
  qualify_sha :: "string \<Rightarrow> string"
  qualify_decode :: "string \<Rightarrow> string res"
  qualify_encode :: "string \<Rightarrow> string"

definition DIGEST :: rx where "DIGEST = hex_rx 64"

definition ADJACENT :: "string list" where
  "ADJACENT = [''string-scanning'', ''string-building'', ''hash-string-keys'', ''enum-result'', ''closures'']"

definition COHORT_METRICS :: "string list" where "COHORT_METRICS = [''wallSeconds'', ''cpuSeconds'', ''memoryBytes'']"

section \<open>Selecting the sources\<close>

text \<open>A revision and a path in a text given to Git; what is no text names no object.\<close>

definition text_value :: "json \<Rightarrow> string res" where
  "text_value v = (case v of JStr s \<Rightarrow> Inr s | _ \<Rightarrow> Inl (SubprocessError 128))"

definition git_text :: "qualifier \<Rightarrow> string list \<Rightarrow> string res" where
  "git_text w args = bindE (bindE (qualify_git w args) (qualify_decode w)) (\<lambda>s. Inr (strip s))"

definition git_blob :: "qualifier \<Rightarrow> string \<Rightarrow> string \<Rightarrow> string res" where
  "git_blob w revision p = qualify_git w [''show'', revision @ '':'' @ p]"

definition full_sha :: "json \<Rightarrow> bool" where
  "full_sha v = (case v of JStr s \<Rightarrow> is_hex 40 s | _ \<Rightarrow> False)"

definition check_ancestry :: "qualifier \<Rightarrow> string \<times> string \<Rightarrow> unit res" where
  "check_ancestry w pair =
     (let (older, newer) = pair in
      requireE (bindE (git_text w [''rev-parse'', older @ ''^{commit}'']) (\<lambda>s. Inr (s = older))) ''Source is not an exact commit object''
        (bindE (qualify_git w [''merge-base'', ''--is-ancestor'', older, newer]) (\<lambda>_. Inr ())))"

definition PRODUCTION :: "string list" where
  "PRODUCTION = [''compiler'', ''TYPE_RB_REVISION'', ''tools/daily-performance'', ''benchmarks'', ''tools/build-reference.py'',
     ''tools/bootstrap-seed-download.sh'', ''tools/bootstrap-seed-manifest.sh'']"

definition check_production :: "qualifier \<Rightarrow> string \<Rightarrow> string \<Rightarrow> string \<Rightarrow> unit res" where
  "check_production w candidate accepted p =
     requireE (bindE (qualify_git w [''rev-parse'', candidate @ '':'' @ p]) (\<lambda>a.
       bindE (qualify_git w [''rev-parse'', accepted @ '':'' @ p]) (\<lambda>b. Inr (a = b)))) ''Registered production inputs are stale'' (Inr ())"

definition check_field :: "qualifier \<Rightarrow> string \<Rightarrow> string \<Rightarrow> json \<Rightarrow> string \<Rightarrow> unit res" where
  "check_field w candidate accepted c key =
     bindE (hasE key c) (\<lambda>b. if \<not> b then Inr () else
       requireE (bindE (bindE (item c key) text_value) (\<lambda>p. bindE (git_blob w candidate p) (\<lambda>x.
         bindE (git_blob w accepted p) (\<lambda>y. Inr (x = y))))) ''Registered workload inputs are stale'' (Inr ()))"

definition expected_output :: "qualifier \<Rightarrow> string \<Rightarrow> json \<Rightarrow> string res" where
  "expected_output w candidate c =
     bindE (hasE ''expectedFile'' c) (\<lambda>b.
     if b then bindE (bindE (item c ''expectedFile'') text_value) (git_blob w candidate)
     else bindE (item c ''expected'') (\<lambda>v. case v of JStr s \<Rightarrow> Inr (qualify_encode w s) | _ \<Rightarrow> Inl AttributeError))"

definition check_adjacent :: "qualifier \<Rightarrow> string \<Rightarrow> json \<Rightarrow> string \<Rightarrow> string \<Rightarrow> unit res" where
  "check_adjacent w comparison c source expected =
     bindE (item c ''id'') (\<lambda>ident. if \<not> jmem ident (map JStr ADJACENT) then Inr () else
     requireE (bindE (bindE (item c ''source'') text_value) (\<lambda>p. bindE (git_blob w comparison p) (\<lambda>s. Inr (source = s))))
       ''Adjacent workload changed''
     (requireE (bindE (bindE (item c ''expectedFile'') text_value) (\<lambda>p. bindE (git_blob w comparison p) (\<lambda>s. Inr (expected = s))))
       ''Adjacent oracle changed'' (Inr ())))"

text \<open>\<open>source.count(before) == 1\<close> and \<open>source.replace(before, after)\<close>; an empty text occurs before every byte and at the end.\<close>

definition replaced_source :: "string \<Rightarrow> string \<Rightarrow> string \<Rightarrow> string res" where
  "replaced_source source before after =
     requireE (Inr ((if before = [] then Suc (length source) else count_str before source) = 1)) ''Workload replacement is not unique''
       (Inr (if before = [] then after else replace_str before after source))"

definition workload_source :: "qualifier \<Rightarrow> json \<Rightarrow> string \<Rightarrow> string res" where
  "workload_source w c source =
     bindE (hasE ''replace'' c) (\<lambda>b. if \<not> b then Inr source else
     bindE (bindE (item c ''replace'') iterE) (\<lambda>vs. (case vs of
         [JStr before, JStr after] \<Rightarrow> replaced_source source (qualify_encode w before) (qualify_encode w after)
       | _ \<Rightarrow> Inl (if list_all is_str vs then ValueError ''values to unpack'' else AttributeError))))"

definition gc_probe :: "json \<Rightarrow> string \<Rightarrow> bool res" where
  "gc_probe c role = bindE (get c ''gcProbe'') (\<lambda>v. Inr (truthy v \<and> role \<in> {''native'', ''previous'', ''baseline''}))"

definition skipped_role :: "json \<Rightarrow> string \<Rightarrow> bool res" where
  "skipped_role c role =
     orE (andE (Inr (role = ''pure-go'')) (notE (hasE ''pureGoSource'' c)))
       (andE (Inr (role = ''baseline'')) (bindE (getd c ''frozenBaseline'' (JBool True)) (\<lambda>v. Inr (\<not> truthy v))))"

definition role_row :: "qualifier \<Rightarrow> string \<Rightarrow> json \<Rightarrow> string \<Rightarrow> string \<Rightarrow> string \<Rightarrow> json list res" where
  "role_row w candidate c source expected role =
     bindE (skipped_role c role) (\<lambda>skip. if skip then Inr [] else
     bindE (if role = ''pure-go'' then bindE (bindE (item c ''pureGoSource'') text_value) (git_blob w candidate) else Inr source) (\<lambda>data.
     bindE (item c ''id'') (\<lambda>ident. bindE (item c ''args'') (\<lambda>args. bindE (gc_probe c role) (\<lambda>probe.
     Inr [JDict [(''case'', ident), (''role'', JStr role), (''sourceSha256'', JStr (qualify_sha w data)),
       (''expectedSha256'', JStr (qualify_sha w expected)), (''args'', args), (''gcProbe'', JBool probe)]])))))"

definition case_rows :: "qualifier \<Rightarrow> string \<Rightarrow> string \<Rightarrow> string \<Rightarrow> string list \<Rightarrow> json \<Rightarrow> json list res" where
  "case_rows w candidate comparison accepted roles c =
     bindE (forE (check_field w candidate accepted c) [''source'', ''expectedFile'', ''pureGoSource'']) (\<lambda>_.
     bindE (bindE (bindE (item c ''source'') text_value) (git_blob w candidate)) (\<lambda>source.
     bindE (expected_output w candidate c) (\<lambda>expected.
     bindE (check_adjacent w comparison c source expected) (\<lambda>_.
     bindE (workload_source w c source) (\<lambda>source'.
     bindE (mapE (role_row w candidate c source' expected) roles) (\<lambda>rows. Inr (concat rows)))))))"

definition check_budget :: "json \<Rightarrow> json list \<Rightarrow> unit res" where
  "check_budget registration rows =
     requireE (andE (bindE (item registration ''rows'') (\<lambda>n. Inr (jeq (JInt (int (length rows))) n \<and> jeq n (JInt 67))))
       (bindE (item registration ''timedObservations'') (\<lambda>n. Inr (jeq (JInt (int (length rows) * 10 + 4)) n \<and> jeq n (JInt 674)))))
       ''Suite no longer matches the registered finite budget''
     (requireE (bindE (bindE (mapE (\<lambda>r. item r ''case'') rows) hashE) (\<lambda>cases. Inr (jsub (map JStr ADJACENT) cases)))
       ''Missing registered adjacent workload'' (Inr ()))"

definition roles_of :: "qualifier \<Rightarrow> string \<Rightarrow> string \<Rightarrow> json \<Rightarrow> (string \<times> json) list res" where
  "roles_of w candidate comparison suite =
     bindE (item suite ''baseline'') (\<lambda>baseline.
     bindE (bindE (bindE (git_blob w candidate ''TYPE_RB_REVISION'') (qualify_decode w)) (\<lambda>s. Inr (strip s))) (\<lambda>reference.
     bindE (item suite ''pureGoRevision'') (\<lambda>pure_go.
     Inr [(''native'', JStr candidate), (''previous'', JStr comparison), (''baseline'', baseline), (''typerb-go'', JStr reference), (''pure-go'', pure_go)])))"

definition controller_hash :: "qualifier \<Rightarrow> string \<Rightarrow> string \<Rightarrow> (string \<times> json) res" where
  "controller_hash w candidate name = bindE (git_blob w candidate (''tools/daily-performance/'' @ name)) (\<lambda>s. Inr (name, JStr (qualify_sha w s)))"

definition read_suite :: "qualifier \<Rightarrow> json \<Rightarrow> string \<Rightarrow> json res" where
  "read_suite w registration candidate =
     bindE (git_blob w candidate ''tools/daily-performance/suite.json'') (\<lambda>suite_bytes.
     requireE (bindE (item registration ''suiteSha256'') (\<lambda>v. Inr (jeq (JStr (qualify_sha w suite_bytes)) v))) ''Registered suite changed''
     (bindE (bindE (qualify_decode w suite_bytes) loads) (\<lambda>suite.
      requireE (bindE (mapE (item suite) [''warmups'', ''samples'', ''timeoutSeconds'']) (\<lambda>vs. Inr (jeq (JList vs) (JList [JInt 1, JInt 5, JInt 30]))))
        ''Unexpected measurement budget'' (Inr suite))))"

definition select_sources :: "qualifier \<Rightarrow> json \<Rightarrow> json res" where
  "select_sources w registration =
     bindE (item registration ''candidate'') (\<lambda>c. bindE (item registration ''comparison'') (\<lambda>k.
     requireE (Inr (full_sha c \<and> full_sha k)) ''Sources must be full lowercase commit SHAs''
     (requireE (Inr (\<not> jeq c k)) ''Comparison must be a distinct earlier source''
     (bindE (text_value c) (\<lambda>candidate. bindE (text_value k) (\<lambda>comparison.
      bindE (git_text w [''rev-parse'', ''HEAD'']) (\<lambda>workflow. bindE (git_text w [''rev-parse'', ''origin/main'']) (\<lambda>accepted.
      bindE (forE (check_ancestry w) [(comparison, candidate), (candidate, workflow), (workflow, accepted)]) (\<lambda>_.
      bindE (forE (check_production w candidate accepted) PRODUCTION) (\<lambda>_.
      bindE (read_suite w registration candidate) (\<lambda>suite.
      bindE (roles_of w candidate comparison suite) (\<lambda>roles.
      bindE (bindE (bindE (item suite ''cases'') iterE) (mapE (case_rows w candidate comparison accepted (map fst roles)))) (\<lambda>rows.
      bindE (check_budget registration (concat rows)) (\<lambda>_.
      bindE (bindE (bindE (git_blob w comparison ''TYPE_RB_REVISION'') (qualify_decode w)) (\<lambda>s. Inr (strip s))) (\<lambda>reference.
      bindE (git_blob w candidate ''compiler/src/compiler.trb'') (\<lambda>compiler_source.
      bindE (mapE (controller_hash w candidate) [''prepare-compilers.sh'', ''measure.py'', ''state.py'']) (\<lambda>controllers.
      Inr (JDict [(''registration'', registration), (''workflowRevision'', JStr workflow), (''acceptedMain'', JStr accepted), (''roles'', JDict roles),
        (''rows'', JList (concat rows)), (''comparisonReference'', JStr reference), (''compilerSourceSha256'', JStr (qualify_sha w compiler_source)),
        (''controllerSha256'', JDict controllers)]))))))))))))))))))"

section \<open>Checking observations\<close>

definition numberE :: "bool \<Rightarrow> json \<Rightarrow> json res" where
  "numberE positive v =
     requireE (andE (Inr (is_numeric v)) (andE (isfiniteE v) (if positive then ltE (JInt 0) v else leE (JInt 0) v)))
       ''Invalid numeric observation'' (Inr v)"

definition extreme :: "(json list \<Rightarrow> json res) \<Rightarrow> json list \<Rightarrow> json res" where
  "extreme h xs = (if xs = [] then Inl (ValueError ''empty sequence'') else h xs)"

definition check_median :: "json \<Rightarrow> json list \<Rightarrow> string \<Rightarrow> unit res" where
  "check_median summary retained metric =
     requireE (bindE (bindE (item summary metric) (numberE False)) (\<lambda>v.
       bindE (bindE (mapE (\<lambda>r. item r metric) retained) median) (\<lambda>m. Inr (jeq v m))))
       ''Summary differs from retained observations'' (Inr ())"

definition check_cohort_summary :: "json \<Rightarrow> json list \<Rightarrow> unit res" where
  "check_cohort_summary summary records =
     bindE (retained_of records) (\<lambda>retained.
     bindE (forE (check_median summary retained) COHORT_METRICS) (\<lambda>_.
     requireE (andE
       (bindE (item summary ''wallMin'') (\<lambda>v. bindE (bindE (mapE (\<lambda>r. item r ''wallSeconds'') retained) (extreme minE)) (\<lambda>m. Inr (jeq v m))))
       (bindE (item summary ''wallMax'') (\<lambda>v. bindE (bindE (mapE (\<lambda>r. item r ''wallSeconds'') retained) (extreme maxE)) (\<lambda>m. Inr (jeq v m)))))
       ''Summary range differs from retained observations'' (Inr ())))"

text \<open>Dictionaries under tuples of values: keys are equal when their components are.\<close>

type_synonym 'a table = "(json list \<times> 'a) list"

definition same_key :: "json list \<Rightarrow> json list \<Rightarrow> bool" where
  "same_key k l \<longleftrightarrow> list_all2 jeq_item k l"

fun table_set :: "json list \<Rightarrow> 'a \<Rightarrow> 'a table \<Rightarrow> 'a table" where
  "table_set k v [] = [(k, v)]"
| "table_set k v ((l, u) # t) = (if same_key k l then (l, v) # t else (l, u) # table_set k v t)"

definition table_get :: "json list \<Rightarrow> 'a table \<Rightarrow> 'a option" where
  "table_get k t = map_option snd (find (\<lambda>(l, u). same_key k l) t)"

definition table_of :: "json list res \<Rightarrow> (json list \<Rightarrow> 'a) \<Rightarrow> 'a table \<Rightarrow> 'a table res" where
  "table_of key v t = bindE (bindE key hashE) (\<lambda>k. Inr (table_set k (v k) t))"

definition same_keys :: "json list list \<Rightarrow> json list list \<Rightarrow> bool" where
  "same_keys ks ls \<longleftrightarrow> list_all (\<lambda>k. list_ex (same_key k) ls) ks \<and> list_all (\<lambda>l. list_ex (same_key l) ks) ls"

definition items_key :: "string list \<Rightarrow> json \<Rightarrow> json list res" where
  "items_key names v = mapE (item v) names"

definition rows_table :: "json list \<Rightarrow> json table res" where
  "rows_table rows = foldE (\<lambda>t r. table_of (items_key [''case'', ''role''] r) (\<lambda>_. r) t) [] rows"

section \<open>The parts of the assessment\<close>

definition check_conditions :: "json \<Rightarrow> json \<Rightarrow> unit res" where
  "check_conditions registration snapshot =
     requireE (andE (bindE (item snapshot ''revision'') (\<lambda>v. bindE (item registration ''candidate'') (\<lambda>c. Inr (jeq v c))))
       (bindE (item snapshot ''status'') (\<lambda>v. Inr (jeq v (JStr ''measured''))))) ''Incomplete or different-source snapshot''
     (requireE (andE (bindE (item snapshot ''platform'') (\<lambda>v. Inr (jeq v (JStr ''Linux arm64 / ubuntu-24.04-arm''))))
       (andE (bindE (item snapshot ''samples'') (\<lambda>v. Inr (jeq v (JInt 5)))) (bindE (item snapshot ''buildSamples'') (\<lambda>v. Inr (jeq v (JInt 3))))))
       ''Different measurement conditions'' (Inr ()))"

definition check_role :: "json \<Rightarrow> string \<times> json \<Rightarrow> unit res" where
  "check_role snapshot row =
     bindE (bindE (item snapshot ''roles'') (\<lambda>roles. item roles (fst row))) (\<lambda>identity.
     requireE (andE (bindE (item identity ''revision'') (\<lambda>v. Inr (jeq v (snd row)))) (bindE (item identity ''sha256'') (fullmatchE DIGEST)))
       ''Compiler identity mismatch''
     (bindE (bindE (item identity ''bytes'') (numberE True)) (\<lambda>_. Inr ())))"

definition check_roles_match :: "json \<Rightarrow> json \<Rightarrow> unit res" where
  "check_roles_match selection snapshot =
     requireE (bindE (bindE (item snapshot ''roles'') setE) (\<lambda>a. bindE (bindE (item selection ''roles'') setE) (\<lambda>b. Inr (jset_eq a b))))
       ''Different compiler roles''
     (bindE (bindE (item selection ''roles'') itemsE) (forE (check_role snapshot)))"

definition check_record :: "json \<Rightarrow> unit res" where
  "check_record record =
     requireE (andE (bindE (item record ''status'') (\<lambda>v. Inr (jeq v (JStr ''pass'')))) (bindE (item record ''exitCode'') (\<lambda>v. Inr (jeq v (JInt 0)))))
       ''Failed observation retained''
     (forE (\<lambda>metric. bindE (bindE (item record metric) (numberE (metric \<noteq> ''cpuSeconds''))) (\<lambda>_. Inr ())) COHORT_METRICS)"

definition group_step :: "json list table \<Rightarrow> json \<Rightarrow> json list table res" where
  "group_step groups record =
     bindE (check_record record) (\<lambda>_.
     table_of (items_key [''case'', ''role'', ''kind''] record) (\<lambda>k. (case table_get k groups of None \<Rightarrow> [] | Some rs \<Rightarrow> rs) @ [record]) groups)"

definition sample_counts :: "(string \<times> nat \<times> nat \<times> int) list" where
  "sample_counts = [(''build'', 1, 3, 90), (''runtime'', 1, 5, 30), (''compiler-ir'', 0, 1, 90), (''compiler-self'', 1, 2, 120)]"

definition expected_group_keys :: "json list list \<Rightarrow> json list list" where
  "expected_group_keys keys =
     concat (map (\<lambda>k. [k @ [JStr ''build''], k @ [JStr ''runtime'']]) keys) @
     [[JStr ''compiler-self'', JStr ''native'', JStr ''compiler-ir''], [JStr ''compiler-self'', JStr ''native'', JStr ''compiler-self'']]"

text \<open>\<open>Counter(phases) == Counter({...})\<close>: the two phases occur as often as given, and no other does.\<close>

definition check_group :: "json list \<times> json list \<Rightarrow> unit res" where
  "check_group gr =
     (case map_of (map (\<lambda>(k, c). (JStr k, c)) sample_counts) (last (fst gr)) of
        None \<Rightarrow> Inl (KeyError [])
      | Some (warmups, retained, timeout) \<Rightarrow>
          requireE (bindE (bindE (mapE (\<lambda>r. item r ''phase'') (snd gr)) hashE) (\<lambda>phases.
             Inr (length (filter (\<lambda>p. p = JStr ''warmup'') phases) = warmups \<and> length (filter (\<lambda>p. p = JStr ''retained'') phases) = retained \<and>
               length phases = warmups + retained))) ''Different sample count''
          (requireE (allE (\<lambda>r. bindE (item r ''timeoutSeconds'') (\<lambda>v. Inr (jeq v (JInt timeout)))) (snd gr)) ''Different command bound'' (Inr ())))"

definition group_records :: "json list table \<Rightarrow> json list \<Rightarrow> json list" where
  "group_records groups k = (case table_get k groups of None \<Rightarrow> [] | Some rs \<Rightarrow> rs)"

definition same_item :: "json \<Rightarrow> json \<Rightarrow> string \<Rightarrow> bool res" where
  "same_item row expected key = bindE (item row key) (\<lambda>a. bindE (item expected key) (\<lambda>b. Inr (jeq a b)))"

definition table_item :: "json list \<Rightarrow> 'a table \<Rightarrow> 'a res" where
  "table_item k t = (case table_get k t of None \<Rightarrow> Inl (KeyError []) | Some v \<Rightarrow> Inr v)"

definition check_cohort_row :: "json table \<Rightarrow> json list table \<Rightarrow> json list \<times> json \<Rightarrow> unit res" where
  "check_cohort_row expected groups kr =
     (let (k, row) = kr in
     requireE (bindE (item row ''status'') (\<lambda>v. Inr (jeq v (JStr ''pass'')))) ''Failed case/role row''
     (bindE (table_item k expected) (\<lambda>want.
      bindE (forE (\<lambda>key. requireE (same_item row want key) ''Different workload or oracle'' (Inr ())) [''sourceSha256'', ''expectedSha256'', ''args'']) (\<lambda>_.
      requireE (bindE (item row ''artifactSha256'') (fullmatchE DIGEST)) ''Missing application identity''
      (bindE (bindE (item row ''artifactBytes'') (numberE True)) (\<lambda>_. bindE (bindE (item row ''strippedBytes'') (numberE True)) (\<lambda>_.
       bindE (bindE (item want ''gcProbe'') (\<lambda>v. if \<not> truthy v then Inr () else
         requireE (bindE (item row ''coverage'') (\<lambda>v. Inr (jeq v (JStr ''GC observed'')))) ''GC coverage unconfirmed'' (Inr ()))) (\<lambda>_.
       forE (\<lambda>kind. bindE (item row kind) (\<lambda>summary. check_cohort_summary summary (group_records groups (k @ [JStr kind])))) [''build'', ''runtime'']))))))))"

definition check_compiler :: "json \<Rightarrow> json \<Rightarrow> json list table \<Rightarrow> unit res" where
  "check_compiler selection snapshot groups =
     bindE (item snapshot ''compilerSelf'') (\<lambda>compiler.
     bindE (item snapshot ''roles'') (\<lambda>roles.
     requireE (andE (bindE (item compiler ''status'') (\<lambda>v. Inr (jeq v (JStr ''pass''))))
       (andE (bindE (item compiler ''sourceSha256'') (\<lambda>v. bindE (item selection ''compilerSourceSha256'') (\<lambda>u. Inr (jeq v u))))
       (andE (bindE (item compiler ''binarySha256'') (\<lambda>v. bindE (bindE (item roles ''native'') (\<lambda>n. item n ''sha256'')) (\<lambda>u. Inr (jeq v u))))
         (bindE (item compiler ''binaryBytes'') (\<lambda>v. bindE (bindE (item roles ''native'') (\<lambda>n. item n ''bytes'')) (\<lambda>u. Inr (jeq v u)))))))
       ''Compiler self-build identity mismatch''
     (bindE (bindE (item compiler ''build'') (\<lambda>summary.
        check_cohort_summary summary (group_records groups [JStr ''compiler-self'', JStr ''native'', JStr ''compiler-self'']))) (\<lambda>_.
      bindE (item compiler ''ir'') (\<lambda>ir.
      requireE (bindE (item ir ''sha256'') (fullmatchE DIGEST)) ''Missing compiler IR identity''
      (bindE (bindE (item ir ''bytes'') (numberE True)) (\<lambda>_.
       forE (\<lambda>metric. requireE (bindE (bindE (item ir metric) (numberE False)) (\<lambda>v.
           bindE (case group_records groups [JStr ''compiler-self'', JStr ''native'', JStr ''compiler-ir''] of [] \<Rightarrow> Inl IndexError | r # rs \<Rightarrow> item r metric) (\<lambda>m.
           Inr (jeq v m)))) ''Compiler IR summary differs from observation'' (Inr ())) COHORT_METRICS)))))))"

section \<open>The registered target\<close>

definition ratioE :: "json \<Rightarrow> json \<Rightarrow> string \<Rightarrow> json res" where
  "ratioE numerator denominator metric =
     bindE (item numerator metric) (\<lambda>a. bindE (bindE (item denominator metric) (numberE True)) (\<lambda>b. num_divE a b))"

definition runtime_of :: "json table \<Rightarrow> string \<Rightarrow> json res" where
  "runtime_of rows role = bindE (table_item [JStr ''string-scanning'', JStr role] rows) (\<lambda>row. item row ''runtime'')"

definition scanning_ratios :: "json table \<Rightarrow> (string \<times> json) list res" where
  "scanning_ratios rows =
     bindE (runtime_of rows ''native'') (\<lambda>scan. bindE (runtime_of rows ''previous'') (\<lambda>original. bindE (runtime_of rows ''pure-go'') (\<lambda>pure_go.
     bindE (mapE (\<lambda>metric. bindE (ratioE scan original metric) (\<lambda>r. Inr (metric, r))) COHORT_METRICS) (\<lambda>ratios.
     bindE (ratioE scan pure_go ''wallSeconds'') (\<lambda>r. Inr (ratios @ [(''pureGoWall'', r)]))))))"

text \<open>The bounds are written as decimals; these are the binary64 numbers nearest to 3.0, 0.8, 0.8 and 1.1.\<close>

definition limits :: "(string \<times> string \<times> json) list" where
  "limits = [(''pureGoAtMost3'', ''pureGoWall'', JFloat (Fin 3)),
     (''wallAtLeast20PercentLower'', ''wallSeconds'', JFloat (Fin (3602879701896397 / 4503599627370496))),
     (''cpuAtLeast20PercentLower'', ''cpuSeconds'', JFloat (Fin (3602879701896397 / 4503599627370496))),
     (''rssAtMost10PercentHigher'', ''memoryBytes'', JFloat (Fin (2476979795053773 / 2251799813685248)))]"

definition criterion :: "(string \<times> json) list \<Rightarrow> string \<times> string \<times> json \<Rightarrow> (string \<times> bool) res" where
  "criterion ratios row =
     (let (name, metric, bound) = row in
      bindE (item (JDict ratios) metric) (\<lambda>r. bindE (leE r bound) (\<lambda>b. Inr (name, b))))"

definition cohort_status :: "(string \<times> bool) list \<Rightarrow> string" where
  "cohort_status criteria = (if list_all snd criteria then ''met'' else ''unmet'')"

definition row_list :: "json \<Rightarrow> json list res" where
  "row_list v = bindE (item v ''rows'') iterE"

definition selected_rows :: "json \<Rightarrow> json table res" where
  "selected_rows selection = bindE (row_list selection) rows_table"

definition complete_rows :: "json list \<Rightarrow> json table \<Rightarrow> json table \<Rightarrow> bool" where
  "complete_rows snapshot_rows rows expected \<longleftrightarrow> length snapshot_rows = length expected \<and> same_keys (map fst rows) (map fst expected)"

definition assessment :: "(string \<times> bool) list \<Rightarrow> (string \<times> json) list \<Rightarrow> json \<Rightarrow> json \<Rightarrow> json \<Rightarrow> json \<Rightarrow> json \<Rightarrow> json" where
  "assessment criteria ratios registration workflow roles all_rows compiler =
     JDict [(''status'', JStr (cohort_status criteria)), (''criteria'', JDict (map (\<lambda>(n, b). (n, JBool b)) criteria)),
       (''scanningRatios'', JDict ratios), (''registration'', registration), (''workflowRevision'', workflow), (''roles'', roles),
       (''rows'', all_rows), (''compilerSelf'', compiler),
       (''compilerCostScope'', JStr ''Current-source self-build only; historical hosts are not a causal comparison'')]"

definition assess_cohort :: "json \<Rightarrow> json \<Rightarrow> json list \<Rightarrow> json res" where
  "assess_cohort selection snapshot raw =
     bindE (item selection ''registration'') (\<lambda>registration.
     bindE (check_conditions registration snapshot) (\<lambda>_.
     bindE (check_roles_match selection snapshot) (\<lambda>_.
     bindE (selected_rows selection) (\<lambda>expected.
     bindE (row_list snapshot) (\<lambda>snapshot_rows.
     bindE (rows_table snapshot_rows) (\<lambda>rows.
     requireE (Inr (complete_rows snapshot_rows rows expected)) ''Missing, duplicated or unexpected case/role row''
     (requireE (bindE (item registration ''timedObservations'') (\<lambda>n. Inr (jeq (JInt (int (length raw))) n))) ''Incomplete or exceeded finite budget''
     (bindE (foldE group_step [] raw) (\<lambda>groups.
      requireE (Inr (same_keys (map fst groups) (expected_group_keys (map fst expected)))) ''Unexpected observation group''
      (bindE (forE check_group groups) (\<lambda>_.
       bindE (forE (check_cohort_row expected groups) rows) (\<lambda>_.
       bindE (check_compiler selection snapshot groups) (\<lambda>_.
       bindE (scanning_ratios rows) (\<lambda>ratios.
       bindE (mapE (criterion ratios) limits) (\<lambda>criteria.
       bindE (item selection ''workflowRevision'') (\<lambda>workflow. bindE (item snapshot ''roles'') (\<lambda>roles.
       bindE (item snapshot ''rows'') (\<lambda>all_rows. bindE (item snapshot ''compilerSelf'') (\<lambda>compiler.
       Inr (assessment criteria ratios registration workflow roles all_rows compiler))))))))))))))))))))"

section \<open>The command line\<close>

datatype qualify_command = Select path path | Assess path path path path

definition write_report :: "(rat \<Rightarrow> string) \<Rightarrow> fs \<Rightarrow> path \<Rightarrow> json \<Rightarrow> fs res" where
  "write_report fr f p v =
     bindE (mkdir_p f (butlast p)) (\<lambda>f1. bindE (dumps fr (pretty_opts\<lparr>allow_nan := False\<rparr>) v) (\<lambda>s. write_bytes f1 p (s @ [NL])))"

fun report_error :: "pyerr \<Rightarrow> string option" where
  "report_error (ValueError m) = Some m"
| "report_error (InventoryError m) = Some m"
| "report_error (KeyError m) = Some m"
| "report_error TypeError = Some ''TypeError''"
| "report_error (OSError m) = Some m"
| "report_error e = None"

definition qualify_main :: "qualifier \<Rightarrow> (rat \<Rightarrow> string) \<Rightarrow> fs \<Rightarrow> qualify_command \<Rightarrow> (fs \<times> int) res" where
  "qualify_main w fr f c =
     (let read = (\<lambda>p. bindE (bindE (read_bytes f p) (qualify_decode w)) loads) in
      (case c of
         Select registration output \<Rightarrow>
           bindE (bindE (read registration) (select_sources w)) (\<lambda>v. bindE (write_report fr f output v) (\<lambda>f1. Inr (f1, 0)))
       | Assess selection snapshot raw output \<Rightarrow>
           (case bindE (read selection) (\<lambda>s. bindE (read snapshot) (\<lambda>n. bindE (bindE (read raw) iterE) (\<lambda>r. assess_cohort s n r))) of
              Inl e \<Rightarrow> (case report_error e of None \<Rightarrow> Inl e
                | Some m \<Rightarrow> bindE (write_report fr f output (JDict [(''status'', JStr ''invalid''), (''error'', JStr m)])) (\<lambda>f1. Inr (f1, 1)))
            | Inr result \<Rightarrow> bindE (write_report fr f output result) (\<lambda>f1.
                bindE (item result ''status'') (\<lambda>v. Inr (f1, if jeq v (JStr ''met'') then 0 else 1))))))"

section \<open>What an accepted cohort is\<close>

lemma table_set_entries: "(l, u) \<in> set (table_set k v t) \<Longrightarrow> (l, u) \<in> set t \<or> u = v \<and> (l = k \<or> same_key k l)"
  by (induction k v t rule: table_set.induct) (auto split: if_splits)

lemma table_get_entry: "table_get k t = Some u \<Longrightarrow> \<exists>l. (l, u) \<in> set t \<and> same_key k l"
  by (auto simp: table_get_def find_Some_iff) (metis nth_mem)

text \<open>The records of a group are observations of the cohort.\<close>

lemma group_records_raw:
  assumes "foldE group_step [] raw = Inr groups"
  shows "set (group_records groups k) \<subseteq> set raw" "\<forall>r \<in> set raw. check_record r = Inr ()"
proof -
  have "(\<forall>(l, rs) \<in> set groups. set rs \<subseteq> set raw) \<and> (\<forall>r \<in> set raw. check_record r = Inr ())"
  proof (rule foldE_prefix_invariant [OF assms, where P = "\<lambda>done gs. (\<forall>(l, rs) \<in> set gs. set rs \<subseteq> set done) \<and> (\<forall>r \<in> set done. check_record r = Inr ())"])
    fix ys x u v
    assume inv: "(\<forall>(l, rs) \<in> set u. set rs \<subseteq> set ys) \<and> (\<forall>r \<in> set ys. check_record r = Inr ())" and step: "group_step u x = Inr v"
    from step obtain key where x: "check_record x = Inr ()"
        "v = table_set key ((case table_get key u of None \<Rightarrow> [] | Some rs \<Rightarrow> rs) @ [x]) u"
      by (auto simp: group_step_def table_of_def bindE_Inr_iff)
    have old: "set (case table_get key u of None \<Rightarrow> [] | Some rs \<Rightarrow> rs) \<subseteq> set ys"
    proof (cases "table_get key u")
      case (Some rs)
      obtain l where "(l, rs) \<in> set u" using table_get_entry [OF Some] by blast
      with inv Some show ?thesis by auto
    qed simp
    have "set rs \<subseteq> set (ys @ [x])" if e: "(l, rs) \<in> set v" for l rs
      using table_set_entries [OF e [unfolded x(2)]]
    proof
      assume "(l, rs) \<in> set u"
      with inv show ?thesis by auto
    next
      assume "rs = (case table_get key u of None \<Rightarrow> [] | Some rs \<Rightarrow> rs) @ [x] \<and> (l = key \<or> same_key key l)"
      with old show ?thesis by auto
    qed
    then have "\<forall>(l, rs) \<in> set v. set rs \<subseteq> set (ys @ [x])" by blast
    with inv x(1) show "(\<forall>(l, rs) \<in> set v. set rs \<subseteq> set (ys @ [x])) \<and> (\<forall>r \<in> set (ys @ [x]). check_record r = Inr ())" by auto
  qed simp
  note both = this
  show "\<forall>r \<in> set raw. check_record r = Inr ()" using both by blast
  show "set (group_records groups k) \<subseteq> set raw"
  proof (cases "table_get k groups")
    case (Some rs)
    obtain l where "(l, rs) \<in> set groups" using table_get_entry [OF Some] by blast
    with both Some show ?thesis by (auto simp: group_records_def)
  qed (simp add: group_records_def)
qed

definition observation_passed :: "json \<Rightarrow> bool" where
  "observation_passed r \<longleftrightarrow> item r ''status'' = Inr (JStr ''pass'') \<and> (\<exists>c. item r ''exitCode'' = Inr c \<and> jeq c (JInt 0))"

lemma check_record_passed: "check_record r = Inr () \<Longrightarrow> observation_passed r"
  unfolding check_record_def requireE_iff by (auto simp: observation_passed_def andE_iff bindE_Inr_iff simp del: item_iff)

text \<open>A summary restates the medians of its retained observations.\<close>

definition restates :: "json list \<Rightarrow> json \<Rightarrow> bool" where
  "restates records summary \<longleftrightarrow> (\<exists>retained. retained_of records = Inr retained \<and>
     (\<forall>metric \<in> set COHORT_METRICS. \<exists>v vs m. item summary metric = Inr v \<and> mapE (\<lambda>r. item r metric) retained = Inr vs \<and>
        median vs = Inr m \<and> jeq v m))"

lemma numberE_Inr: "numberE b v = Inr u \<Longrightarrow> u = v"
  by (simp add: numberE_def requireE_iff)

lemma check_cohort_summary_restates: "check_cohort_summary summary records = Inr () \<Longrightarrow> restates records summary"
  unfolding check_cohort_summary_def restates_def check_median_def bindE_Inr_iff forE_iff requireE_iff
  by (elim exE conjE, intro exI conjI, assumption) (blast dest: numberE_Inr)

text \<open>A row of the snapshot against the row of the selection with the same case and role.\<close>

definition row_confirmed :: "json table \<Rightarrow> json list table \<Rightarrow> json list \<Rightarrow> json \<Rightarrow> bool" where
  "row_confirmed expected groups k row \<longleftrightarrow> (\<exists>want. table_get k expected = Some want \<and> item row ''status'' = Inr (JStr ''pass'') \<and>
     (\<forall>key \<in> {''sourceSha256'', ''expectedSha256'', ''args''}. same_item row want key = Inr True) \<and>
     (\<forall>kind \<in> {''build'', ''runtime''}. \<exists>summary. item row kind = Inr summary \<and> restates (group_records groups (k @ [JStr kind])) summary))"

lemma check_cohort_row_confirmed:
  assumes "check_cohort_row expected groups (k, row) = Inr ()"
  shows "row_confirmed expected groups k row"
proof -
  from assms obtain v want where w: "item row ''status'' = Inr v" "jeq v (JStr ''pass'')" "table_item k expected = Inr want"
      "\<forall>key \<in> set [''sourceSha256'', ''expectedSha256'', ''args'']. requireE (same_item row want key) ''Different workload or oracle'' (Inr ()) = Inr ()"
      "\<forall>kind \<in> set [''build'', ''runtime'']. bindE (item row kind) (\<lambda>summary. check_cohort_summary summary (group_records groups (k @ [JStr kind]))) = Inr ()"
    unfolding check_cohort_row_def Let_def prod.case requireE_iff bindE_Inr_iff forE_iff sum.inject by blast
  have "item row ''status'' = Inr (JStr ''pass'')" using w(1,2) by (simp only: jeq_str)
  moreover have "table_get k expected = Some want" using w(3) by (simp add: table_item_def split: option.splits)
  moreover have "\<forall>key \<in> {''sourceSha256'', ''expectedSha256'', ''args''}. same_item row want key = Inr True"
    using w(4) by (simp add: requireE_iff)
  moreover have "\<exists>summary. item row kind = Inr summary \<and> restates (group_records groups (k @ [JStr kind])) summary"
    if "kind \<in> {''build'', ''runtime''}" for kind
    using w(5) that check_cohort_summary_restates unfolding bindE_Inr_iff by (metis insert_iff list.set(2) list.set(1) empty_iff)
  ultimately show ?thesis unfolding row_confirmed_def by blast
qed

text \<open>The registered target: each ratio is within its bound.\<close>

definition target_met :: "json table \<Rightarrow> bool" where
  "target_met rows \<longleftrightarrow> (\<exists>ratios. scanning_ratios rows = Inr ratios \<and>
     (\<forall>(name, metric, bound) \<in> set limits. \<exists>r. item (JDict ratios) metric = Inr r \<and> leE r bound = Inr True))"

lemma criteria_met:
  assumes "mapE (criterion ratios) bounds = Inr criteria"
  shows "list_all snd criteria \<longleftrightarrow> (\<forall>(name, metric, bound) \<in> set bounds. \<exists>r. item (JDict ratios) metric = Inr r \<and> leE r bound = Inr True)"
  using assms
proof (induction bounds arbitrary: criteria)
  case (Cons b bounds)
  obtain name metric bound where b: "b = (name, metric, bound)" by (cases b) auto
  from Cons.prems obtain c more where c: "criterion ratios b = Inr c" "mapE (criterion ratios) bounds = Inr more" "criteria = c # more"
    by (auto simp: bindE_Inr_iff)
  from c(1) obtain r where r: "item (JDict ratios) metric = Inr r" "leE r bound = Inr (snd c)"
    by (auto simp: b criterion_def bindE_Inr_iff simp del: item.simps)
  show ?case using c(3) r Cons.IH [OF c(2)] by (auto simp: b simp del: item.simps)
qed simp

section \<open>A cohort\<close>

text \<open>One case in three roles, measured ten times each, and the build of the compiler by itself.\<close>

definition sample_cost :: "string \<Rightarrow> json" where "sample_cost role = JFloat (Fin (if role = ''previous'' then 4 else 2))"

definition sample_keys :: "(string \<times> string \<times> string) list" where
  "sample_keys = concat (map (\<lambda>role. [(''string-scanning'', role, ''build''), (''string-scanning'', role, ''runtime'')]) [''native'', ''previous'', ''pure-go'']) @
     [(''compiler-self'', ''native'', ''compiler-ir''), (''compiler-self'', ''native'', ''compiler-self'')]"

definition sample_costs :: "string \<Rightarrow> (string \<times> json) list" where
  "sample_costs role = map (\<lambda>metric. (metric, sample_cost role)) COHORT_METRICS"

definition sample_record :: "string \<Rightarrow> string \<Rightarrow> string \<Rightarrow> string \<Rightarrow> int \<Rightarrow> json" where
  "sample_record c role kind phase timeout = JDict ([(''case'', JStr c), (''role'', JStr role), (''kind'', JStr kind), (''phase'', JStr phase),
     (''status'', JStr ''pass''), (''exitCode'', JInt 0), (''timeoutSeconds'', JInt timeout)] @ sample_costs role)"

fun sample_group :: "string \<times> string \<times> string \<Rightarrow> json list" where
  "sample_group (c, role, kind) = (case map_of sample_counts kind of None \<Rightarrow> [] | Some (warmups, retained, timeout) \<Rightarrow>
     replicate warmups (sample_record c role kind ''warmup'' timeout) @ replicate retained (sample_record c role kind ''retained'' timeout))"

definition sample_summary :: "string \<Rightarrow> json" where
  "sample_summary role = JDict (sample_costs role @ map (\<lambda>name. (name, sample_cost role)) [''wallMin'', ''wallMax''])"

definition sample_digest :: json where "sample_digest = JStr (replicate 64 CHR ''0'')"

definition sample_row :: "string \<Rightarrow> json" where
  "sample_row role = JDict [(''case'', JStr ''string-scanning''), (''role'', JStr role), (''status'', JStr ''pass''), (''sourceSha256'', sample_digest),
     (''expectedSha256'', sample_digest), (''args'', JList []), (''artifactSha256'', sample_digest), (''artifactBytes'', JFloat (Fin 9)), (''strippedBytes'', JFloat (Fin 9)),
     (''gcProbe'', JBool False), (''build'', sample_summary role), (''runtime'', sample_summary role)]"

definition sample_roles :: "string list" where "sample_roles = [''native'', ''previous'', ''pure-go'']"

definition sample_selection :: json where
  "sample_selection = JDict [(''registration'', JDict [(''candidate'', JStr ''c''), (''timedObservations'', JInt 34)]), (''workflowRevision'', JStr ''w''),
     (''roles'', JDict (map (\<lambda>r. (r, JStr r)) sample_roles)), (''rows'', JList (map sample_row sample_roles)), (''compilerSourceSha256'', sample_digest)]"

definition sample_ir :: json where
  "sample_ir = JDict ((''sha256'', sample_digest) # (''bytes'', JFloat (Fin 9)) # sample_costs ''native'')"

definition sample_snapshot :: json where
  "sample_snapshot = JDict [(''revision'', JStr ''c''), (''status'', JStr ''measured''), (''platform'', JStr ''Linux arm64 / ubuntu-24.04-arm''),
     (''samples'', JInt 5), (''buildSamples'', JInt 3),
     (''roles'', JDict (map (\<lambda>r. (r, JDict [(''revision'', JStr r), (''sha256'', sample_digest), (''bytes'', JFloat (Fin 9))])) sample_roles)),
     (''rows'', JList (map sample_row sample_roles)),
     (''compilerSelf'', JDict [(''status'', JStr ''pass''), (''sourceSha256'', sample_digest), (''binarySha256'', sample_digest), (''binaryBytes'', JFloat (Fin 9)),
        (''build'', sample_summary ''native''), (''ir'', sample_ir)])]"

definition sample_raw :: "json list" where "sample_raw = concat (map sample_group sample_keys)"



lemma sample_items:
  "item (sample_record c role kind phase t) ''case'' = Inr (JStr c)" "item (sample_record c role kind phase t) ''role'' = Inr (JStr role)"
  "item (sample_record c role kind phase t) ''kind'' = Inr (JStr kind)" "item (sample_record c role kind phase t) ''phase'' = Inr (JStr phase)"
  "item (sample_record c role kind phase t) ''status'' = Inr (JStr ''pass'')" "item (sample_record c role kind phase t) ''exitCode'' = Inr (JInt 0)"
  "item (sample_record c role kind phase t) ''timeoutSeconds'' = Inr (JInt t)"
  "metric \<in> set COHORT_METRICS \<Longrightarrow> item (sample_record c role kind phase t) metric = Inr (sample_cost role)"
  by (auto simp: sample_record_def sample_costs_def COHORT_METRICS_def)

lemma bindE_return: "bindE m Inr = m" by (cases m) auto

lemma mapE_append: "mapE f (xs @ ys) = bindE (mapE f xs) (\<lambda>us. bindE (mapE f ys) (\<lambda>vs. Inr (us @ vs)))"
  by (induction xs) (simp_all add: bindE_assoc bindE_return)

lemma sample_cost_number: "numberE b (sample_cost role) = Inr (sample_cost role)"
  by (cases b) (simp_all add: numberE_def sample_cost_def is_numeric_def ltE_def leE_def fle_def)

lemma sample_record_checked: "check_record (sample_record c role kind phase t) = Inr ()"
  by (simp add: check_record_def sample_items requireE_iff forE_iff sample_cost_number)

lemma table_set_again: "table_set k v (table_set k u t) = table_set k v t" if "same_key k k"
  using that by (induction k u t rule: table_set.induct) auto

lemma table_get_set: "table_get k (table_set k v t) = Some v" if "same_key k k"
  using that by (induction k v t rule: table_set.induct) (auto simp: table_get_def)

lemma group_steps:
  assumes "same_key k k" and "\<forall>r \<in> set rs. check_record r = Inr () \<and> bindE (items_key [''case'', ''role'', ''kind''] r) hashE = Inr k"
  shows "rs \<noteq> [] \<Longrightarrow> foldE group_step groups rs = Inr (table_set k (group_records groups k @ rs) groups)"
  using assms(2)
proof (induction rs arbitrary: groups)
  case (Cons r rs)
  have step: "group_step groups r = Inr (table_set k (group_records groups k @ [r]) groups)"
    using Cons.prems by (simp add: group_step_def table_of_def group_records_def)
  show ?case
  proof (cases "rs = []")
    case False
    have "foldE group_step groups (r # rs) = foldE group_step (table_set k (group_records groups k @ [r]) groups) rs" by (simp add: step)
    also have "\<dots> = Inr (table_set k (group_records (table_set k (group_records groups k @ [r]) groups) k @ rs) (table_set k (group_records groups k @ [r]) groups))"
      using Cons.IH False Cons.prems by simp
    finally show ?thesis using assms(1) by (simp add: table_set_again group_records_def table_get_set)
  qed (simp add: step)
qed simp

declare sample_group.simps [simp del]

fun key_of :: "string \<times> string \<times> string \<Rightarrow> json list" where "key_of (c, role, kind) = [JStr c, JStr role, JStr kind]"

definition sample_table :: "(string \<times> string \<times> string) list \<Rightarrow> json list table" where
  "sample_table ks = map (\<lambda>k. (key_of k, sample_group k)) ks"

lemma same_key_of: "same_key (key_of k) (key_of l) \<longleftrightarrow> k = l"
  by (cases k; cases l) (auto simp: same_key_def)

lemma sample_group_records: "r \<in> set (sample_group (c, role, kind)) \<Longrightarrow> \<exists>phase t. r = sample_record c role kind phase t"
  by (auto simp: sample_group.simps split: option.splits prod.splits)

lemma sample_steps:
  assumes "sample_group k \<noteq> []"
  shows "foldE group_step groups (sample_group k) = Inr (table_set (key_of k) (group_records groups (key_of k) @ sample_group k) groups)"
proof -
  obtain c role kind where k: "k = (c, role, kind)" by (cases k)
  have "\<forall>r \<in> set (sample_group k). check_record r = Inr () \<and> bindE (items_key [''case'', ''role'', ''kind''] r) hashE = Inr (key_of k)"
    by (auto simp: k hashE_def sample_record_checked items_key_def sample_items dest!: sample_group_records)
  then show ?thesis using group_steps [of "key_of k"] assms same_key_of by blast
qed

lemma table_set_new: "table_set (key_of k) v (sample_table ks) = sample_table ks @ [(key_of k, v)]" if "k \<notin> set ks"
  using that by (induction ks) (auto simp: sample_table_def same_key_of)

lemma group_records_sample: "group_records (sample_table ks) (key_of k) = (if k \<in> set ks then sample_group k else [])"
  by (induction ks) (auto simp: group_records_def table_get_def sample_table_def same_key_of)

lemma sample_fold:
  assumes "distinct (ls @ ks)" and "\<forall>k \<in> set ks. sample_group k \<noteq> []"
  shows "foldE group_step (sample_table ls) (concat (map sample_group ks)) = Inr (sample_table (ls @ ks))"
  using assms
proof (induction ks arbitrary: ls)
  case (Cons k ks)
  have "sample_table ls @ [(key_of k, sample_group k)] = sample_table (ls @ [k])" by (simp add: sample_table_def)
  then show ?case using Cons.prems Cons.IH [of "ls @ [k]"]
    by (simp add: foldE_append sample_steps table_set_new group_records_sample)
qed simp

lemma sample_groups: "foldE group_step [] sample_raw = Inr (sample_table sample_keys)"
proof -
  have "distinct ([] @ sample_keys)" by (simp add: sample_keys_def)
  moreover have "\<forall>k \<in> set sample_keys. sample_group k \<noteq> []" by (simp add: sample_keys_def sample_counts_def sample_group.simps)
  ultimately show ?thesis using sample_fold [of "[]" sample_keys] by (simp add: sample_raw_def sample_table_def)
qed

lemma sample_median:
  assumes "n > 0"
  shows "median (replicate n (sample_cost role)) = Inr (sample_cost role)"
proof -
  obtain q where q: "sample_cost role = JFloat (Fin q)" "q = 2 \<or> q = 4" by (auto simp: sample_cost_def)
  have ins: "insertE (JFloat (Fin q)) (replicate k (JFloat (Fin q))) = Inr (replicate (Suc k) (JFloat (Fin q)))" for k
    by (cases k) (simp_all add: ltE_def)
  have sorted: "sortE (replicate k (JFloat (Fin q))) = Inr (replicate k (JFloat (Fin q)))" for k by (induction k) (simp_all add: ins [simplified])
  have mean: "bindE (num_addE (JFloat (Fin q)) (JFloat (Fin q))) (\<lambda>s. num_divE s (JInt 2)) = Inr (JFloat (Fin q))"
    using q(2) by (auto simp: num_addE_def num_divE_def arithE_def small_numbers)
  show ?thesis
  proof (cases "odd n")
    case True
    then show ?thesis using assms sorted [of n] by (simp add: median_def q)
  next
    case False
    with assms have "n div 2 < n" "n div 2 - 1 < n" by (auto elim!: evenE)
    then show ?thesis using assms False sorted [of n] mean by (simp add: median_def q)
  qed
qed

lemma sample_retained:
  "retained_of (sample_group (c, role, kind)) = Inr (case map_of sample_counts kind of None \<Rightarrow> []
     | Some (warmups, retained, timeout) \<Rightarrow> replicate retained (sample_record c role kind ''retained'' timeout))"
proof -
  have "filterE (\<lambda>r. bindE (item r ''phase'') (\<lambda>phase. Inr (jeq phase (JStr ''retained'')))) (replicate k (sample_record c role kind ''warmup'' t) @ xs)
     = filterE (\<lambda>r. bindE (item r ''phase'') (\<lambda>phase. Inr (jeq phase (JStr ''retained'')))) xs" for k t xs
    by (induction k) (simp_all add: sample_items bindE_return)
  moreover have "filterE (\<lambda>r. bindE (item r ''phase'') (\<lambda>phase. Inr (jeq phase (JStr ''retained'')))) (replicate k (sample_record c role kind ''retained'' t))
     = Inr (replicate k (sample_record c role kind ''retained'' t))" for k t
    by (induction k) (simp_all add: sample_items)
  ultimately show ?thesis by (auto simp: retained_of_def sample_group.simps split: option.splits)
qed

lemma sample_summary_checked:
  assumes "kind \<in> {''build'', ''runtime'', ''compiler-self''}"
  shows "check_cohort_summary (sample_summary role) (sample_group (c, role, kind)) = Inr ()"
proof -
  obtain w m t where counts: "map_of sample_counts kind = Some (w, m, t)" "m > 0" using assms by (auto simp: sample_counts_def)
  then obtain n where "m = Suc n" using gr0_implies_Suc by blast
  with counts have r: "retained_of (sample_group (c, role, kind)) = Inr (replicate (Suc n) (sample_record c role kind ''retained'' t))"
    by (simp add: sample_retained)
  have s: "item (sample_summary role) key = Inr (sample_cost role)" if "key \<in> set COHORT_METRICS \<union> {''wallMin'', ''wallMax''}" for key
    using that by (auto simp: sample_summary_def sample_costs_def COHORT_METRICS_def)
  have each: "mapE (\<lambda>r. item r metric) (replicate k (sample_record c role kind ''retained'' t)) = Inr (replicate k (sample_cost role))"
    if "metric \<in> set COHORT_METRICS" for metric k
    using that by (induction k) (simp_all add: sample_items)
  have irreflexive: "ltE (sample_cost role) (sample_cost role) = Inr False" by (simp add: sample_cost_def ltE_def)
  have fold_same: "foldE (\<lambda>m x. bindE (ltE x m) (\<lambda>b. Inr (if b then x else m))) y (replicate k y) = Inr y"
    "foldE (\<lambda>m x. bindE (ltE m x) (\<lambda>b. Inr (if b then x else m))) y (replicate k y) = Inr y" if "ltE y y = Inr False" for y k
    using that by (induction k) simp_all
  have self: "jeq (sample_cost role) (sample_cost role)" by (simp add: sample_cost_def)
  have "extreme minE (replicate (Suc n) (sample_cost role)) = Inr (sample_cost role)" "extreme maxE (replicate (Suc n) (sample_cost role)) = Inr (sample_cost role)"
    by (simp_all add: extreme_def minE_def maxE_def fold_same [OF irreflexive])
  moreover have "''wallSeconds'' \<in> set COHORT_METRICS" by (simp add: COHORT_METRICS_def)
  moreover have "forE (check_median (sample_summary role) (replicate (Suc n) (sample_record c role kind ''retained'' t))) COHORT_METRICS = Inr ()"
    by (simp add: forE_iff check_median_def s each sample_cost_number sample_median self del: replicate_Suc mapE.simps)
  ultimately show ?thesis by (simp add: check_cohort_summary_def r s each self del: replicate_Suc sample_group.simps)
qed

lemma sample_group_checked:
  assumes "kind \<in> {''build'', ''runtime'', ''compiler-ir'', ''compiler-self''}"
  shows "check_group (key_of (c, role, kind), sample_group (c, role, kind)) = Inr ()"
proof -
  obtain w m t where counts: "map_of sample_counts kind = Some (w, m, t)" using assms by (auto simp: sample_counts_def)
  have "map_of (map (\<lambda>(k, c). (JStr k, c)) xs) (JStr kind) = map_of xs kind" for xs :: "(string \<times> nat \<times> nat \<times> int) list" by (induction xs) auto
  moreover have "mapE (\<lambda>r. item r ''phase'') (replicate n (sample_record c role kind phase t)) = Inr (replicate n (JStr phase))" for n phase
    by (induction n) (simp_all add: sample_items)
  moreover have "filter p (replicate n x) = (if p x then replicate n x else [])" for p and x :: json and n by (induction n) auto
  moreover have times: "allE (\<lambda>r. bindE (item r ''timeoutSeconds'') (\<lambda>v. Inr (jeq v (JInt t)))) rs = Inr True"
    if "\<forall>r \<in> set rs. \<exists>phase. r = sample_record c role kind phase t" for rs
    using that by (induction rs) (auto simp: sample_items)
  moreover have "allE (\<lambda>r. bindE (item r ''timeoutSeconds'') (\<lambda>v. Inr (jeq v (JInt t))))
     (replicate w (sample_record c role kind ''warmup'' t) @ replicate m (sample_record c role kind ''retained'' t)) = Inr True"
    by (rule times) auto
  ultimately show ?thesis using counts by (simp add: check_group_def hashE_def requireE_iff mapE_append sample_group.simps ball_Un list_all_iff)
qed

lemma sample_row_items:
  "item (sample_row role) ''case'' = Inr (JStr ''string-scanning'')" "item (sample_row role) ''role'' = Inr (JStr role)"
  "item (sample_row role) ''build'' = Inr (sample_summary role)" "item (sample_row role) ''runtime'' = Inr (sample_summary role)"
  "item (sample_row role) ''args'' = Inr (JList [])"
  "key \<in> {''sourceSha256'', ''expectedSha256'', ''artifactSha256''} \<Longrightarrow> item (sample_row role) key = Inr sample_digest"
  "item (sample_row role) ''status'' = Inr (JStr ''pass'')" "item (sample_row role) ''gcProbe'' = Inr (JBool False)"
  "key \<in> {''artifactBytes'', ''strippedBytes''} \<Longrightarrow> item (sample_row role) key = Inr (JFloat (Fin 9))"
  by (auto simp: sample_row_def)

definition sample_rows :: "json table" where
  "sample_rows = map (\<lambda>role. ([JStr ''string-scanning'', JStr role], sample_row role)) sample_roles"

lemma sample_rows_table: "rows_table (map sample_row sample_roles) = Inr sample_rows"
  by (simp add: rows_table_def sample_roles_def sample_rows_def table_of_def items_key_def sample_row_items hashE_def same_key_def)

lemma sample_digest_ok: "fullmatchE DIGEST sample_digest = Inr True"
  by (simp add: sample_digest_def DIGEST_def is_hex_def list_all_iff hex_cls_def in_cls_def)

lemma sample_row_checked:
  assumes "role \<in> set sample_roles"
  shows "check_cohort_row sample_rows (sample_table sample_keys) ([JStr ''string-scanning'', JStr role], sample_row role) = Inr ()"
proof -
  have "table_item [JStr ''string-scanning'', JStr role] sample_rows = Inr (sample_row role)"
    using assms by (auto simp: table_item_def table_get_def sample_rows_def sample_roles_def same_key_def)
  moreover have "group_records (sample_table sample_keys) [JStr ''string-scanning'', JStr role, JStr kind] = sample_group (''string-scanning'', role, kind)"
    if "kind \<in> {''build'', ''runtime''}" for kind
    using group_records_sample [of sample_keys "(''string-scanning'', role, kind)"] that assms by (auto simp: sample_keys_def sample_roles_def)
  moreover have "jeq sample_digest sample_digest" by (simp add: sample_digest_def)
  moreover have "numberE True (JFloat (Fin 9)) = Inr (JFloat (Fin 9))" by (simp add: numberE_def is_numeric_def ltE_def)
  ultimately show ?thesis
    by (simp add: check_cohort_row_def sample_row_items same_item_def requireE_iff sample_digest_ok sample_summary_checked)
qed
lemma sample_conditions: "check_conditions (JDict [(''candidate'', JStr ''c''), (''timedObservations'', JInt 34)]) sample_snapshot = Inr ()"
  by (simp add: check_conditions_def sample_snapshot_def requireE_iff)

lemma sample_roles_match: "check_roles_match sample_selection sample_snapshot = Inr ()"
proof -
  have "numberE True (JFloat (Fin 9)) = Inr (JFloat (Fin 9))" by (simp add: numberE_def is_numeric_def ltE_def)
  then show ?thesis
    by (simp add: check_roles_match_def sample_selection_def sample_snapshot_def sample_roles_def check_role_def requireE_iff sample_digest_ok
        setE_def hashE_def jset_eq_def jsub_def jmem_def)
qed

lemma sample_compiler: "check_compiler sample_selection sample_snapshot (sample_table sample_keys) = Inr ()"
proof -
  have found: "group_records (sample_table sample_keys) [JStr ''compiler-self'', JStr ''native'', JStr kind] = sample_group (''compiler-self'', ''native'', kind)"
    if "kind \<in> {''compiler-ir'', ''compiler-self''}" for kind
    using group_records_sample [of sample_keys "(''compiler-self'', ''native'', kind)"] that by (auto simp: sample_keys_def)
  have ir: "sample_group (''compiler-self'', ''native'', ''compiler-ir'') = [sample_record ''compiler-self'' ''native'' ''compiler-ir'' ''retained'' 90]"
    by (simp add: sample_group.simps sample_counts_def)
  have number: "numberE True (JFloat (Fin 9)) = Inr (JFloat (Fin 9))" by (simp add: numberE_def is_numeric_def ltE_def)
  have same: "jeq sample_digest sample_digest" "jeq (sample_cost role) (sample_cost role)" for role by (simp_all add: sample_digest_def sample_cost_def)
  have cost: "item sample_ir metric = Inr (sample_cost ''native'')" if "metric \<in> set COHORT_METRICS" for metric
    using that by (auto simp: sample_ir_def sample_costs_def COHORT_METRICS_def)
  have identity: "item sample_ir ''sha256'' = Inr sample_digest" "item sample_ir ''bytes'' = Inr (JFloat (Fin 9))" by (simp_all add: sample_ir_def)
  show ?thesis
    by (simp add: check_compiler_def sample_selection_def sample_snapshot_def sample_roles_def found sample_summary_checked requireE_iff number sample_digest_ok same
        identity ir sample_items cost sample_cost_number forE_iff)
qed

lemma sample_ratios: "scanning_ratios sample_rows = Inr (map (\<lambda>metric. (metric, JFloat (Fin (1 / 2)))) COHORT_METRICS @ [(''pureGoWall'', JFloat (Fin 1))])"
proof -
  have "runtime_of sample_rows role = Inr (sample_summary role)" if "role \<in> set sample_roles" for role
    using that by (auto simp: runtime_of_def table_item_def table_get_def sample_rows_def sample_roles_def same_key_def sample_row_items)
  moreover have "item (sample_summary role) metric = Inr (sample_cost role)" if "metric \<in> set COHORT_METRICS" for role metric
    using that by (auto simp: sample_summary_def sample_costs_def COHORT_METRICS_def)
  moreover have "num_divE (sample_cost ''native'') (sample_cost ''previous'') = Inr (JFloat (Fin (1 / 2)))"
    "num_divE (sample_cost ''native'') (sample_cost ''pure-go'') = Inr (JFloat (Fin 1))"
    by (simp_all add: num_divE_def arithE_def sample_cost_def small_numbers)
  ultimately show ?thesis
    by (simp add: scanning_ratios_def ratioE_def sample_cost_number sample_roles_def COHORT_METRICS_def)
qed

lemma sample_criteria:
  "\<exists>criteria. mapE (criterion (map (\<lambda>metric. (metric, JFloat (Fin (1 / 2)))) COHORT_METRICS @ [(''pureGoWall'', JFloat (Fin 1))])) limits = Inr criteria"
  by (simp add: criterion_def limits_def COHORT_METRICS_def leE_def)

lemma sample_assessed: "\<exists>result. assess_cohort sample_selection sample_snapshot sample_raw = Inr result"
proof -
  have items: "item sample_selection ''registration'' = Inr (JDict [(''candidate'', JStr ''c''), (''timedObservations'', JInt 34)])"
    "row_list sample_snapshot = Inr (map sample_row sample_roles)" "selected_rows sample_selection = Inr sample_rows"
    by (simp_all add: sample_selection_def sample_snapshot_def row_list_def selected_rows_def sample_rows_table)
  have "length sample_raw = 34" by (simp add: sample_raw_def sample_keys_def sample_group.simps sample_counts_def)
  moreover have "complete_rows (map sample_row sample_roles) sample_rows sample_rows"
    by (simp add: complete_rows_def sample_rows_def sample_roles_def same_keys_def same_key_def)
  moreover have "same_keys (map fst (sample_table sample_keys)) (expected_group_keys (map fst sample_rows))"
    by (simp add: same_keys_def same_key_def expected_group_keys_def sample_table_def sample_keys_def sample_rows_def sample_roles_def)
  moreover have "forE check_group (sample_table sample_keys) = Inr ()"
    by (auto simp: forE_iff sample_table_def sample_keys_def sample_group_checked simp del: key_of.simps)
  moreover have "forE (check_cohort_row sample_rows (sample_table sample_keys)) sample_rows = Inr ()"
    using sample_row_checked by (auto simp: forE_iff sample_rows_def)
  moreover obtain criteria where
    "mapE (criterion (map (\<lambda>metric. (metric, JFloat (Fin (1 / 2)))) COHORT_METRICS @ [(''pureGoWall'', JFloat (Fin 1))])) limits = Inr criteria"
    using sample_criteria by blast
  ultimately show ?thesis
    by (simp add: assess_cohort_def items sample_conditions sample_roles_match sample_rows_table sample_groups sample_compiler sample_ratios)
      (simp add: sample_selection_def sample_snapshot_def)
qed

section \<open>What an assessment confirms\<close>

text \<open>C38. An assessment that is not invalid: every observation of the cohort passed; the snapshot has a row for exactly the cases and roles of
  the selection; each row passed, is for the selected source, oracle and arguments, and its build and run-time summaries
  restate the medians of retained observations of the cohort; and the status is \<open>met\<close> exactly when the four ratios of the
  registered target are within their bounds.\<close>

lemma assessed_cohort:
  assumes "assess_cohort selection snapshot raw = Inr result"
  shows "(\<forall>r \<in> set raw. observation_passed r) \<and>
    (\<exists>expected rows groups. selected_rows selection = Inr expected \<and> selected_rows snapshot = Inr rows \<and> foldE group_step [] raw = Inr groups \<and>
       same_keys (map fst rows) (map fst expected) \<and> (\<forall>k. set (group_records groups k) \<subseteq> set raw) \<and>
       (\<forall>(k, row) \<in> set rows. row_confirmed expected groups k row) \<and>
       (item result ''status'' = Inr (JStr ''met'') \<longleftrightarrow> target_met rows))"
proof -
  from assms obtain expected snapshot_rows rows groups ratios criteria registration workflow roles all_rows compiler u where a:
      "selected_rows selection = Inr expected" "row_list snapshot = Inr snapshot_rows"
      "rows_table snapshot_rows = Inr rows" "foldE group_step [] raw = Inr groups"
      "Inr (complete_rows snapshot_rows rows expected) = (Inr True :: bool res)"
      "forE (check_cohort_row expected groups) rows = Inr u" "scanning_ratios rows = Inr ratios" "mapE (criterion ratios) limits = Inr criteria"
      "Inr (assessment criteria ratios registration workflow roles all_rows compiler) = (Inr result :: json res)"
    unfolding assess_cohort_def bindE_Inr_iff requireE_iff by (elim exE conjE) (rule that, assumption+)
  from a(5) have keys: "same_keys (map fst rows) (map fst expected)" by (simp add: complete_rows_def)
  from a(9) have status: "item result ''status'' = Inr (JStr (cohort_status criteria))" by (auto simp: assessment_def)
  note raw = group_records_raw [OF a(4)]
  have "\<forall>(k, row) \<in> set rows. row_confirmed expected groups k row"
    using a(6) check_cohort_row_confirmed unfolding forE_iff by blast
  moreover have "item result ''status'' = Inr (JStr ''met'') \<longleftrightarrow> target_met rows"
    using a(7) criteria_met [OF a(8)] by (simp add: status cohort_status_def target_met_def)
  moreover have "selected_rows snapshot = Inr rows" using a(2,3) by (simp add: selected_rows_def)
  moreover have "\<forall>r \<in> set raw. observation_passed r" using raw(2) check_record_passed by blast
  ultimately show ?thesis using a(1,4) keys raw(1) by blast
qed

lemma assessed_cohort_witness:
  "\<exists>result. assess_cohort sample_selection sample_snapshot sample_raw = Inr result \<and> item result ''status'' = Inr (JStr ''met'') \<and>
     (\<forall>r \<in> set sample_raw. observation_passed r)"
proof -
  obtain result where r: "assess_cohort sample_selection sample_snapshot sample_raw = Inr result" using sample_assessed by blast
  have "selected_rows sample_snapshot = Inr sample_rows"
    by (simp add: sample_snapshot_def row_list_def selected_rows_def sample_rows_table)
  moreover have "target_met sample_rows"
    unfolding target_met_def sample_ratios by (simp add: limits_def COHORT_METRICS_def leE_def fle_def)
  ultimately show ?thesis using assessed_cohort [OF r] r by auto
qed

end
