(* ===== verification/Spec2Isabelle.thy ===== *)
theory Spec2Isabelle
  imports CompilerLayout Recovery RecoverySync DailyState EvidenceBundle ResultArchive Compatibility
    RssPolicy SeedRelease LanguageCoverage CompilerSources NetworkArtifacts CompilerMigration RepresentativeState OfficialSync
    CompilerUnits ProjectScenarios CumulativeQualify
begin

text \<open>
  The Python tools of the repository.
\<close>

end
